(* ===== verification/CsiPrelude.thy ===== *)
theory CsiPrelude
  imports Main "HOL-Library.Word" "HOL-Library.Signed_Division" "HOL-Library.AList"
    "HOL-Library.State_Monad"
begin

text \<open>
  What every component shares: the collections the component proofs are driven by, the Go
  numeric types that are not plain \<open>int\<close>, the units of time, the outcome of a Go call that may
  panic, and generic lemmas on association lists, sorted time lists and the state monad.
\<close>

section \<open>Collections\<close>

text \<open>
  \<open>go_defs\<close> holds the definitions that a proof unfolds to run the code symbolically,
  \<open>go_splits\<close> is the bundle of case splits such a run needs.
\<close>

named_theorems go_defs \<open>definitions that are run symbolically\<close>

lemmas go_splits = prod.splits sum.splits option.splits if_splits

section \<open>Go integers and durations\<close>

text \<open>Go's \<open>int64\<close> and \<open>uint64\<close>: 64-bit words, read with \<open>sint\<close> and \<open>uint\<close>.\<close>

type_synonym int64 = "64 word"
type_synonym uint64 = "64 word"

text \<open>
  Go times and durations are nanosecond counts; they are integers here (a \<open>time.Duration\<close>
  saturates after 292 years, which no state of the driver reaches).
\<close>

definition Second :: int where
  "Second = 1000000000"

definition Minute :: int where
  "Minute = 60 * Second"

lemma Second_pos [simp]: "0 < Second"
  by (simp add: Second_def)

lemma Minute_pos [simp]: "0 < Minute"
  by (simp add: Minute_def)

lemma Minute_ge_zero [simp]: "0 \<le> Minute"
  by (simp add: Minute_def Second_def)

section \<open>Calls that may panic\<close>

text \<open>A Go call either returns or panics (nil dereference, slice out of range, division by zero).\<close>

datatype 'a go = Panic | Return 'a

section \<open>Association lists as Go maps\<close>

text \<open>A Go map that is ranged over is an association list whose keys are distinct.\<close>

definition wf_alist :: "('k \<times> 'v) list \<Rightarrow> bool" where
  "wf_alist al \<longleftrightarrow> distinct (map fst al)"

lemma wf_alist_Nil [simp]: "wf_alist []"
  by (simp add: wf_alist_def)

lemma wf_alist_update [simp]: "wf_alist al \<Longrightarrow> wf_alist (AList.update k v al)"
  by (simp add: wf_alist_def distinct_update)

lemma wf_alist_delete [simp]: "wf_alist al \<Longrightarrow> wf_alist (AList.delete k al)"
  by (simp add: wf_alist_def distinct_delete)

lemma wf_alist_filter [simp]: "wf_alist al \<Longrightarrow> wf_alist (filter P al)"
  by (simp add: wf_alist_def distinct_map_filter)

lemma map_of_alist_update [simp]:
  "map_of (AList.update k v al) k' = (if k' = k then Some v else map_of al k')"
  by (simp add: update_conv)

lemma map_of_alist_delete [simp]:
  "map_of (AList.delete k al) k' = (if k' = k then None else map_of al k')"
  by (simp add: delete_conv)

lemma map_of_filter_alist:
  assumes "wf_alist al"
  shows "map_of (filter (\<lambda>(k, v). P v) al) k =
    (case map_of al k of None \<Rightarrow> None | Some v \<Rightarrow> if P v then Some v else None)"
  using assms
proof (induction al)
  case Nil
  then show ?case by simp
next
  case (Cons kv al)
  obtain k0 v0 where kv: "kv = (k0, v0)" by (cases kv)
  from Cons.prems kv have wf: "wf_alist al" and fresh: "map_of al k0 = None"
    by (auto simp: wf_alist_def map_of_eq_None_iff)
  have IH: "map_of (filter (\<lambda>(k, v). P v) al) k =
      (case map_of al k of None \<Rightarrow> None | Some v \<Rightarrow> if P v then Some v else None)"
    using wf by (rule Cons.IH)
  show ?case
  proof (cases "k = k0")
    case True
    with kv fresh IH show ?thesis by simp
  next
    case False
    with kv IH show ?thesis by (simp split: option.splits)
  qed
qed

lemma wf_alist_in_set:
  "wf_alist al \<Longrightarrow> (k, v) \<in> set al \<longleftrightarrow> map_of al k = Some v"
  by (simp add: wf_alist_def)

section \<open>Lists of times\<close>

text \<open>
  A list whose neighbours are at least \<open>d\<close> apart has at most one element per \<open>d\<close> of the interval
  it lives in.
\<close>

fun spaced :: "int \<Rightarrow> int list \<Rightarrow> bool" where
  "spaced d (t # u # ts) = (t + d \<le> u \<and> spaced d (u # ts))"
| "spaced d ts = True"

lemma spaced_tl: "spaced d (t # ts) \<Longrightarrow> spaced d ts"
  by (cases ts) auto

lemma spaced_last:
  assumes "spaced d (t # ts)" and "0 \<le> d"
  shows "t + int (length ts) * d \<le> last (t # ts)"
  using assms
proof (induction ts arbitrary: t)
  case Nil
  then show ?case by simp
next
  case (Cons u ts)
  from Cons.prems have "t + d \<le> u" and "spaced d (u # ts)" by auto
  moreover have "u + int (length ts) * d \<le> last (u # ts)"
    by (rule Cons.IH) (use Cons.prems in auto)
  ultimately show ?case by (simp add: algebra_simps)
qed

lemma spaced_count:
  assumes sp: "spaced d ts" and d: "0 < d" and win: "\<And>t. t \<in> set ts \<Longrightarrow> lo \<le> t \<and> t \<le> lo + w"
    and w: "0 \<le> w"
  shows "int (length ts) \<le> w div d + 1"
proof (cases ts)
  case Nil
  with w d show ?thesis by (simp add: pos_imp_zdiv_nonneg_iff)
next
  case (Cons t us)
  have "t + int (length us) * d \<le> last (t # us)"
    using sp d Cons by (intro spaced_last) auto
  moreover have "last (t # us) \<le> lo + w"
    using win [of "last (t # us)"] Cons last_in_set [of "t # us"] by simp
  moreover have "lo \<le> t"
    using win Cons by simp
  ultimately have "int (length us) * d \<le> w" by linarith
  then have "int (length us) \<le> w div d"
    using d by (simp add: zdiv_mono1 [of "int (length us) * d" w d, simplified])
  with Cons show ?thesis by simp
qed

section \<open>The state monad\<close>

text \<open>One step of a Go function over explicit state: a function from the state.\<close>

definition st :: "('s \<Rightarrow> 'a \<times> 's) \<Rightarrow> ('s, 'a) state" where
  "st f = State f"

lemma run_st [simp]: "run_state (st f) s = f s"
  by (simp add: st_def)

text \<open>
  Weakest preconditions: \<open>wp m Q s\<close> says that running \<open>m\<close> on \<open>s\<close> ends with a result and a state
  that satisfy \<open>Q\<close>.
\<close>

definition wp :: "('s, 'a) state \<Rightarrow> ('a \<Rightarrow> 's \<Rightarrow> bool) \<Rightarrow> 's \<Rightarrow> bool" where
  "wp m Q s = (case run_state m s of (r, s') \<Rightarrow> Q r s')"

lemma wpI: "(\<And>r s'. run_state m s = (r, s') \<Longrightarrow> Q r s') \<Longrightarrow> wp m Q s"
  by (cases "run_state m s") (simp add: wp_def)

lemma wpD: "wp m Q s \<Longrightarrow> run_state m s = (r, s') \<Longrightarrow> Q r s'"
  by (simp add: wp_def)

lemma wp_bind [simp]: "wp (State_Monad.bind m f) Q = wp m (\<lambda>r. wp (f r) Q)"
  by (rule ext) (simp add: wp_def split: prod.split)

lemma wp_return [simp]: "wp (State_Monad.return x) Q = Q x"
  by (rule ext) (simp add: wp_def State_Monad.return_def)

lemma wp_st [simp]: "wp (st f) Q s = (case f s of (r, s') \<Rightarrow> Q r s')"
  by (simp add: wp_def)

lemma wp_mono: "wp m P s \<Longrightarrow> (\<And>r s'. P r s' \<Longrightarrow> Q r s') \<Longrightarrow> wp m Q s"
  by (auto simp: wp_def split: prod.splits)

lemma wp_conj: "wp m P s \<Longrightarrow> wp m Q s \<Longrightarrow> wp m (\<lambda>r s'. P r s' \<and> Q r s') s"
  by (auto simp: wp_def split: prod.splits)

section \<open>Frames\<close>

text \<open>
  \<open>keeps R m\<close>: whatever state \<open>m\<close> starts in, it ends in one related by \<open>R\<close>. For a preorder this is
  closed under sequencing, so what a whole handler leaves alone follows from its steps.
\<close>

named_theorems frames

definition keeps :: "('s \<Rightarrow> 's \<Rightarrow> bool) \<Rightarrow> ('s, 'a) state \<Rightarrow> bool" where
  "keeps R m \<longleftrightarrow> (\<forall>s. wp m (\<lambda>_. R s) s)"

lemma keepsI: "(\<And>s. wp m (\<lambda>_. R s) s) \<Longrightarrow> keeps R m"
  by (simp add: keeps_def)

lemma keepsD: "keeps R m \<Longrightarrow> wp m (\<lambda>_. R s) s"
  by (simp add: keeps_def)

lemma keeps_mono: "keeps R m \<Longrightarrow> (\<And>s s'. R s s' \<Longrightarrow> S s s') \<Longrightarrow> keeps S m"
  by (auto simp: keeps_def wp_def split: prod.splits)

lemma keeps_if [frames]:
  "(P \<Longrightarrow> keeps R m) \<Longrightarrow> (\<not> P \<Longrightarrow> keeps R m') \<Longrightarrow> keeps R (if P then m else m')"
  by simp

lemma keeps_sum [frames]:
  "(\<And>e. keeps R (f e)) \<Longrightarrow> (\<And>x. keeps R (g x)) \<Longrightarrow> keeps R (case z of Inl e \<Rightarrow> f e | Inr x \<Rightarrow> g x)"
  by (cases z) simp_all

lemma keeps_option [frames]:
  "keeps R m \<Longrightarrow> (\<And>x. keeps R (h x)) \<Longrightarrow> keeps R (case y of None \<Rightarrow> m | Some x \<Rightarrow> h x)"
  by (cases y) simp_all

lemma keeps_prod [frames]: "(\<And>a b. keeps R (k a b)) \<Longrightarrow> keeps R (case p of (a, b) \<Rightarrow> k a b)"
  by (cases p) simp

lemma keeps_go [frames]:
  "keeps R m \<Longrightarrow> (\<And>x. keeps R (h x)) \<Longrightarrow> keeps R (case w of Panic \<Rightarrow> m | Return x \<Rightarrow> h x)"
  by (cases w) simp_all

lemma keeps_let [frames]: "keeps R (f t) \<Longrightarrow> keeps R (let x = t in f x)"
  by simp

locale state_frame =
  fixes R :: "'s \<Rightarrow> 's \<Rightarrow> bool"
  assumes R_refl: "R s s"
    and R_trans: "R s t \<Longrightarrow> R t u \<Longrightarrow> R s u"
begin

lemma keeps_return: "keeps R (State_Monad.return x)"
  by (simp add: keeps_def R_refl)

lemma keeps_bind: "keeps R m \<Longrightarrow> (\<And>r. keeps R (f r)) \<Longrightarrow> keeps R (State_Monad.bind m f)"
proof (rule keepsI)
  fix s
  assume m: "keeps R m" and f: "\<And>r. keeps R (f r)"
  have step: "wp (f r) (\<lambda>_. R s) s'" if "R s s'" for r s'
    by (rule wp_mono [OF keepsD [OF f]]) (rule R_trans [OF that])
  show "wp (State_Monad.bind m f) (\<lambda>_. R s) s"
    unfolding wp_bind by (rule wp_mono [OF keepsD [OF m]]) (rule step)
qed

lemma keeps_then:
  assumes "keeps R m" and "\<And>r s'. R s s' \<Longrightarrow> wp (f r) Q s'"
  shows "wp (State_Monad.bind m f) Q s"
  unfolding wp_bind by (rule wp_mono [OF keepsD [OF assms(1)]]) (rule assms(2))

end

end
