(* ===== verification/GoSize.thy ===== *)
theory GoSize
  imports CsiPrelude
begin

text \<open>
  The size arithmetic of \<^verbatim>\<open>pkg/util/util.go\<close>: conversions between bytes and GiB on \<open>int64\<close>.
  Go's division truncates towards zero and its results wrap around, so the operations work on
  64-bit words and read their operands with \<open>sint\<close>. A zero divisor panics.
\<close>

section \<open>Go's signed division\<close>

definition go_div :: "int64 \<Rightarrow> int64 \<Rightarrow> int64 go" where
  "go_div a b = (if b = 0 then Panic else Return (word_of_int (sint a sdiv sint b)))"

definition go_mod :: "int64 \<Rightarrow> int64 \<Rightarrow> int64 go" where
  "go_mod a b = (if b = 0 then Panic else Return (word_of_int (sint a smod sint b)))"

section \<open>util.go\<close>

definition GiB :: int64 where
  "GiB = 1024 * 1024 * 1024"

definition RoundUpSize :: "int64 \<Rightarrow> int64 \<Rightarrow> int64 go" where
  "RoundUpSize volumeSizeBytes allocationUnitBytes =
     (case go_div volumeSizeBytes allocationUnitBytes of
        Panic \<Rightarrow> Panic
      | Return roundedUp \<Rightarrow>
          (case go_mod volumeSizeBytes allocationUnitBytes of
             Panic \<Rightarrow> Panic
           | Return r \<Rightarrow> Return (if 0 <s r then roundedUp + 1 else roundedUp)))"

definition roundUpSize :: "int64 \<Rightarrow> int64 \<Rightarrow> int64 go" where
  "roundUpSize volumeSizeBytes allocationUnitBytes =
     go_div (volumeSizeBytes + allocationUnitBytes - 1) allocationUnitBytes"

definition RoundUpGiB :: "int64 \<Rightarrow> int64 go" where
  "RoundUpGiB volumeSizeBytes = roundUpSize volumeSizeBytes GiB"

definition RoundUpBytes :: "int64 \<Rightarrow> int64 go" where
  "RoundUpBytes volumeSizeBytes =
     (case roundUpSize volumeSizeBytes GiB of Panic \<Rightarrow> Panic | Return q \<Rightarrow> Return (q * GiB))"

definition GiBToBytes :: "int64 \<Rightarrow> int64" where
  "GiBToBytes volumeSizeGiB = volumeSizeGiB * GiB"

section \<open>Reading int64 values\<close>

lemma sint_of_int64:
  assumes "- (2 ^ 63) \<le> x" and "x < 2 ^ 63"
  shows "sint (word_of_int x :: int64) = x"
  using assms by (simp add: sint_sbintrunc' signed_take_bit_int_eq_self)

lemma int64_lower: "- (2 ^ 63) \<le> sint (x :: int64)"
  using sint_greater_eq [of x] by simp

lemma int64_upper: "sint (x :: int64) < 2 ^ 63"
  using sint_less [of x] by simp

lemma int64_of_sint [simp]: "word_of_int (sint (x :: int64)) = x"
  by simp

lemma sint_eq_0_iff [simp]: "sint (x :: int64) = 0 \<longleftrightarrow> x = 0"
proof
  assume "sint x = 0"
  then have "word_of_int (sint x) = (0 :: int64)" by simp
  then show "x = 0" by simp
qed simp

lemma sint_GiB [simp]: "sint GiB = 1073741824"
  by (simp add: GiB_def)

lemma GiB_nonzero [simp]: "GiB \<noteq> 0"
  by (simp add: GiB_def)

section \<open>Division of integers, rounded towards zero\<close>

lemma sdiv_smod_nonneg:
  fixes a b :: int
  assumes "0 \<le> a" and "0 < b"
  shows "a sdiv b = a div b" and "a smod b = a mod b"
  using assms by (auto simp: signed_divide_int_def signed_modulo_int_def sgn_if)

lemma sdiv_smod_neg:
  fixes a b :: int
  assumes "a < 0" and "0 < b"
  shows "a sdiv b = - ((- a) div b)" and "a smod b = - ((- a) mod b)"
  using sdiv_smod_nonneg [of "- a" b] assms by simp_all

text \<open>The ceiling of \<open>a / b\<close>, the reference the rounding operations are compared with.\<close>

definition ceil_div :: "int \<Rightarrow> int \<Rightarrow> int" where
  "ceil_div a b = - ((- a) div b)"

lemma div_mod_ends:
  fixes a b :: int
  assumes "0 < b"
  shows "a div b * b \<le> a" and "a - b < a div b * b"
  using div_mult_mod_eq [of a b] pos_mod_sign [OF assms, of a] pos_mod_bound [OF assms, of a]
  by linarith+

lemma ceil_div_least:
  assumes "0 < b"
  shows "a \<le> ceil_div a b * b" and "(ceil_div a b - 1) * b < a"
proof -
  have "ceil_div a b * b = - ((- a) div b * b)"
    by (simp add: ceil_div_def)
  then show "a \<le> ceil_div a b * b" and "(ceil_div a b - 1) * b < a"
    using div_mod_ends [OF assms, of "- a"] by (simp_all add: left_diff_distrib)
qed

lemma ceil_div_unique:
  assumes b: "0 < b" and up: "a \<le> q * b" and dn: "(q - 1) * b < a"
  shows "ceil_div a b = q"
proof -
  have "(q - 1) * b < ceil_div a b * b" and "(ceil_div a b - 1) * b < q * b"
    using ceil_div_least [OF b, of a] up dn by linarith+
  then have "q - 1 < ceil_div a b" and "ceil_div a b - 1 < q"
    using b by (simp_all add: mult_less_cancel_right)
  then show ?thesis by linarith
qed

lemma ceil_div_nonneg_split:
  assumes "0 < b"
  shows "ceil_div a b = a div b + (if 0 < a mod b then 1 else 0)"
proof (cases "a mod b = 0")
  case True
  with assms show ?thesis by (simp add: ceil_div_def zdiv_zminus1_eq_if)
next
  case False
  moreover from False assms have "0 < a mod b"
    using pos_mod_sign [of b a] by linarith
  ultimately show ?thesis
    using assms by (simp add: ceil_div_def zdiv_zminus1_eq_if)
qed

lemma ceil_div_sdiv:
  assumes "0 < b"
  shows "ceil_div a b = a sdiv b + (if 0 < a smod b then 1 else 0)"
proof (cases "0 \<le> a")
  case True
  with assms show ?thesis by (simp add: ceil_div_nonneg_split sdiv_smod_nonneg)
next
  case False
  then have "a sdiv b = ceil_div a b" and "a smod b \<le> 0"
    using assms by (simp_all add: sdiv_smod_neg ceil_div_def)
  then show ?thesis by simp
qed

lemma ceil_div_range:
  assumes "0 < b" and "- n \<le> a" and "a < n"
  shows "- n \<le> ceil_div a b" and "ceil_div a b < n"
proof -
  have up: "a \<le> ceil_div a b * b" and dn: "(ceil_div a b - 1) * b < a"
    using ceil_div_least [OF assms(1)] by blast+
  show "- n \<le> ceil_div a b"
  proof (rule ccontr)
    assume "\<not> ?thesis"
    then have "ceil_div a b < - n" and "ceil_div a b < 0" using assms by linarith+
    then have "ceil_div a b * b \<le> ceil_div a b"
      using assms(1) by (simp add: mult_le_cancel_left1)
    with up \<open>ceil_div a b < - n\<close> assms show False by linarith
  qed
  show "ceil_div a b < n"
  proof (rule ccontr)
    assume "\<not> ?thesis"
    then have ge: "n \<le> ceil_div a b" by simp
    moreover have "0 < n" using assms by linarith
    ultimately have "ceil_div a b - 1 \<le> (ceil_div a b - 1) * b"
      using assms(1) by (simp add: mult_le_cancel_left1)
    with dn ge assms(2,3) show False
      by (smt (verit) \<open>0 < n\<close>)
  qed
qed

section \<open>Rounding up\<close>

lemma smod_range:
  fixes a b :: int
  assumes "0 < b" and "b < 2 ^ 63"
  shows "- (2 ^ 63) \<le> a smod b" and "a smod b < 2 ^ 63"
  using smod_int_range [of b a] assms by auto

text \<open>The guarded increment of the source computes the ceiling, for either sign.\<close>

lemma RoundUpSize_eq_ceil:
  assumes "0 < sint u"
  shows "RoundUpSize v u = Return (word_of_int (ceil_div (sint v) (sint u)))"
proof -
  have u0: "u \<noteq> 0" using assms by auto
  have "sint (word_of_int (sint v smod sint u) :: int64) = sint v smod sint u"
    by (rule sint_of_int64; rule smod_range [OF assms int64_upper])
  then have "(0 <s (word_of_int (sint v smod sint u) :: int64)) \<longleftrightarrow> 0 < sint v smod sint u"
    by (simp add: word_sless_alt)
  with u0 show ?thesis
    by (auto simp: RoundUpSize_def go_div_def go_mod_def ceil_div_sdiv [OF assms])
qed

lemma sint_ceil_div:
  assumes "0 < sint u"
  shows "sint (word_of_int (ceil_div (sint (v :: int64)) (sint u)) :: int64) =
    ceil_div (sint v) (sint (u :: int64))"
  by (rule sint_of_int64; rule ceil_div_range [OF assms int64_lower int64_upper])

text \<open>The variant that adds before it divides agrees as long as the addition does not wrap.\<close>

lemma roundUpSize_eq_ceil:
  assumes u: "0 < sint u" and v: "0 \<le> sint v" and fit: "sint v + sint u - 1 < 2 ^ 63"
  shows "roundUpSize v u = Return (word_of_int (ceil_div (sint v) (sint u)))"
proof -
  have u0: "u \<noteq> 0" using u by auto
  have "v + u - 1 = word_of_int (sint v + sint u - 1)" by simp
  moreover have "sint (word_of_int (sint v + sint u - 1) :: int64) = sint v + sint u - 1"
    using u v fit by (intro sint_of_int64) linarith+
  ultimately have s: "sint (v + u - 1) = sint v + sint u - 1" by simp
  have "(sint v + sint u - 1) div sint u = ceil_div (sint v) (sint u)"
  proof (rule ceil_div_unique [OF u, symmetric])
    show "sint v \<le> (sint v + sint u - 1) div sint u * sint u"
      using div_mod_ends [OF u, of "sint v + sint u - 1"] by linarith
    show "((sint v + sint u - 1) div sint u - 1) * sint u < sint v"
      using div_mod_ends [OF u, of "sint v + sint u - 1"] by (simp add: left_diff_distrib)
  qed
  with u0 s u v show ?thesis
    by (simp add: roundUpSize_def go_div_def sdiv_smod_nonneg)
qed

section \<open>GiB and bytes\<close>

lemma sint_GiBToBytes:
  assumes "0 \<le> sint g" and "sint g < 2 ^ 33"
  shows "sint (GiBToBytes g) = sint g * 1073741824"
proof -
  have "GiBToBytes g = word_of_int (sint g * 1073741824)"
    by (simp add: GiBToBytes_def GiB_def mult.commute)
  moreover have "sint (word_of_int (sint g * 1073741824) :: int64) = sint g * 1073741824"
    using assms by (intro sint_of_int64) simp_all
  ultimately show ?thesis by simp
qed

lemma ceil_div_mult [simp]: "0 < b \<Longrightarrow> ceil_div (q * b) b = q"
  by (rule ceil_div_unique) auto

lemma RoundUpGiB_GiBToBytes:
  assumes "0 \<le> sint g" and "sint g < 2 ^ 33"
  shows "RoundUpGiB (GiBToBytes g) = Return g"
proof -
  have b: "sint (GiBToBytes g) = sint g * sint GiB"
    using sint_GiBToBytes [OF assms] by simp
  have "roundUpSize (GiBToBytes g) GiB =
      Return (word_of_int (ceil_div (sint (GiBToBytes g)) (sint GiB)))"
    using assms sint_GiBToBytes [OF assms] by (intro roundUpSize_eq_ceil) auto
  also have "ceil_div (sint (GiBToBytes g)) (sint GiB) = sint g"
    by (simp only: b) (rule ceil_div_mult, simp)
  finally show ?thesis by (simp add: RoundUpGiB_def)
qed

section \<open>Properties\<close>

text \<open>\<open>RoundUpSize\<close> is the ceiling of the quotient for every size, negative ones included, and every
positive allocation unit: the smallest number of units that holds the size.\<close>

theorem RoundUpSize_ceiling:
  assumes "0 < sint unit_bytes"
  shows "\<exists>q. RoundUpSize bytes unit_bytes = Return q \<and> sint bytes \<le> sint q * sint unit_bytes
    \<and> (sint q - 1) * sint unit_bytes < sint bytes"
  using ceil_div_least [OF assms, of "sint bytes"]
  by (simp add: RoundUpSize_eq_ceil [OF assms] sint_ceil_div [OF assms])

theorem RoundUpSize_ceiling_witness:
  "\<exists>q. RoundUpSize 5368709121 GiB = Return q \<and> sint (5368709121 :: int64) \<le> sint q * sint GiB
    \<and> (sint q - 1) * sint GiB < sint (5368709121 :: int64)"
  by (rule RoundUpSize_ceiling) simp

text \<open>A volume size in GiB (below \<open>2 ^ 33\<close>) survives the conversion to bytes and back, so the byte size
the expand path hands to the resize path is the size it asked for.\<close>

theorem GiB_round_trip:
  assumes "0 \<le> sint g" and "sint g < 2 ^ 33"
  shows "RoundUpGiB (GiBToBytes g) = Return g \<and> RoundUpSize (GiBToBytes g) GiB = Return g"
proof
  show "RoundUpGiB (GiBToBytes g) = Return g" using assms by (rule RoundUpGiB_GiBToBytes)
  have "ceil_div (sint (GiBToBytes g)) (sint GiB) = sint g"
    by (simp only: sint_GiBToBytes [OF assms] sint_GiB) (rule ceil_div_mult, simp)
  then show "RoundUpSize (GiBToBytes g) GiB = Return g"
    by (simp add: RoundUpSize_eq_ceil)
qed

theorem GiB_round_trip_witness:
  "RoundUpGiB (GiBToBytes 20) = Return 20 \<and> RoundUpSize (GiBToBytes 20) GiB = Return 20"
  by (rule GiB_round_trip) simp_all

end
