(* ===== verification/InFlightTable.thy ===== *)
theory InFlightTable
  imports CsiPrelude
begin

text \<open>
  The in-flight table of \<^verbatim>\<open>pkg/driver/internal/inflight.go\<close>: a mutex-protected
  \<open>map[string]bool\<close> that every handler uses as a try-lock on a key. Each operation holds the
  mutex for its whole body, so it is one atomic step here. The second half models the way the
  handlers use it (insert, or refuse; \<open>defer\<close> delete) for any number of concurrent handlers.
\<close>

section \<open>inflight.go\<close>

type_synonym in_flight = "string \<rightharpoonup> bool"

definition NewInFlight :: in_flight where
  "NewInFlight = Map.empty"

definition Insert :: "in_flight \<Rightarrow> string \<Rightarrow> bool \<times> in_flight" where
  "Insert db key =
     (case db key of
        Some _ \<Rightarrow> (False, db)
      | None \<Rightarrow> (True, db(key \<mapsto> True)))"

definition Delete :: "in_flight \<Rightarrow> string \<Rightarrow> in_flight" where
  "Delete db key = db(key := None)"

section \<open>The lock-table interface\<close>

text \<open>What a handler relies on, stated for any table with an observer \<open>held\<close> of the locked keys.\<close>

locale lock_table =
  fixes acquire :: "'l \<Rightarrow> 'k \<Rightarrow> bool \<times> 'l"
    and release :: "'l \<Rightarrow> 'k \<Rightarrow> 'l"
    and held :: "'l \<Rightarrow> 'k set"
  assumes acquire_busy: "k \<in> held l \<Longrightarrow> acquire l k = (False, l)"
    and acquire_free: "k \<notin> held l \<Longrightarrow> fst (acquire l k)"
    and acquire_held: "k \<notin> held l \<Longrightarrow> held (snd (acquire l k)) = insert k (held l)"
    and release_held: "held (release l k) = held l - {k}"
    and release_acquired: "k \<notin> held l \<Longrightarrow> release (snd (acquire l k)) k = l"
begin

lemma acquire_iff: "fst (acquire l k) \<longleftrightarrow> k \<notin> held l"
  using acquire_busy acquire_free by fastforce

lemma acquire_twice: "fst (acquire l k) \<Longrightarrow> \<not> fst (acquire (snd (acquire l k)) k)"
  by (simp add: acquire_iff acquire_held)

lemma acquire_other: "fst (acquire l k) \<Longrightarrow> k' \<noteq> k \<Longrightarrow>
    fst (acquire (snd (acquire l k)) k') \<longleftrightarrow> fst (acquire l k')"
  by (simp add: acquire_iff acquire_held)

lemma release_reopens: "fst (acquire (release l k) k)"
  by (simp add: acquire_iff release_held)

end

interpretation ift: lock_table Insert Delete dom
proof (unfold_locales, goal_cases)
  case (1 k l)
  then show ?case by (auto simp: Insert_def)
next
  case (2 k l)
  then show ?case by (auto simp: Insert_def split: option.split)
next
  case (3 k l)
  then show ?case by (auto simp: Insert_def split: option.split)
next
  case (4 l k)
  then show ?case by (auto simp: Delete_def)
next
  case (5 k l)
  then have "l k = None" by auto
  then show ?case by (auto simp: Insert_def Delete_def)
qed

section \<open>Handlers under the table\<close>

text \<open>
  The prologue every guarded handler shares:
  \<^verbatim>\<open>if ok := s.inFlight.Insert(key); !ok { return nil, busy }; defer s.inFlight.Delete(key)\<close>,
  then the body. \<open>get_tab\<close> and \<open>put_tab\<close> read and write the table inside the service's state.
\<close>

definition with_inflight ::
  "('s \<Rightarrow> in_flight) \<Rightarrow> (in_flight \<Rightarrow> 's \<Rightarrow> 's) \<Rightarrow> string \<Rightarrow> 'r \<Rightarrow> ('s, 'r) state \<Rightarrow> ('s, 'r) state" where
  "with_inflight get_tab put_tab key busy body = st (\<lambda>s.
     (case Insert (get_tab s) key of
        (False, _) \<Rightarrow> (busy, s)
      | (True, db) \<Rightarrow>
          (case run_state body (put_tab db s) of
             (r, s') \<Rightarrow> (r, put_tab (Delete (get_tab s') key) s'))))"

lemma with_inflight_busy:
  assumes "key \<in> dom (get_tab s)"
  shows "run_state (with_inflight get_tab put_tab key busy body) s = (busy, s)"
  using ift.acquire_busy [OF assms] by (simp add: with_inflight_def)

lemma with_inflight_free:
  assumes "key \<notin> dom (get_tab s)"
  shows "run_state (with_inflight get_tab put_tab key busy body) s =
    (case run_state body (put_tab ((get_tab s)(key \<mapsto> True)) s) of
       (r, s') \<Rightarrow> (r, put_tab (Delete (get_tab s') key) s'))"
  using assms by (auto simp: with_inflight_def Insert_def split: option.splits)

text \<open>A body that leaves the table alone leaves the handler with the table it found.\<close>

lemma with_inflight_restores:
  assumes get_put: "\<And>db s. get_tab (put_tab db s) = db"
    and body: "\<And>s r s'. run_state body s = (r, s') \<Longrightarrow> get_tab s' = get_tab s"
    and run: "run_state (with_inflight get_tab put_tab key busy body) s = (r, s')"
  shows "get_tab s' = get_tab s"
proof (cases "key \<in> dom (get_tab s)")
  case True
  with run show ?thesis by (simp add: with_inflight_busy)
next
  case False
  obtain r1 s1 where b: "run_state body (put_tab ((get_tab s)(key \<mapsto> True)) s) = (r1, s1)"
    by (cases "run_state body (put_tab ((get_tab s)(key \<mapsto> True)) s)")
  from body [OF b] have "get_tab s1 = (get_tab s)(key \<mapsto> True)" by (simp add: get_put)
  with run b False show ?thesis
    by (auto simp: with_inflight_free get_put Delete_def fun_upd_idem)
qed

section \<open>Mutual exclusion of concurrent handlers\<close>

text \<open>
  Handlers are numbered; a running handler is inside the critical section of one key. Any handler
  may move at any time.
\<close>

datatype handler_pc = Idle | Running string | Refused string

record handlers =
  hs_pc :: "nat \<Rightarrow> handler_pc"
  hs_tab :: in_flight

definition handlers_init :: handlers where
  "handlers_init = \<lparr>hs_pc = (\<lambda>_. Idle), hs_tab = NewInFlight\<rparr>"

inductive handler_step :: "handlers \<Rightarrow> handlers \<Rightarrow> bool" where
  enter: "hs_pc s i = Idle \<Longrightarrow> Insert (hs_tab s) key = (True, db) \<Longrightarrow>
    handler_step s (s\<lparr>hs_pc := (hs_pc s)(i := Running key), hs_tab := db\<rparr>)"
| refuse: "hs_pc s i = Idle \<Longrightarrow> Insert (hs_tab s) key = (False, db) \<Longrightarrow>
    handler_step s (s\<lparr>hs_pc := (hs_pc s)(i := Refused key), hs_tab := db\<rparr>)"
| leave: "hs_pc s i = Running key \<Longrightarrow>
    handler_step s (s\<lparr>hs_pc := (hs_pc s)(i := Idle), hs_tab := Delete (hs_tab s) key\<rparr>)"
| return_busy: "hs_pc s i = Refused key \<Longrightarrow>
    handler_step s (s\<lparr>hs_pc := (hs_pc s)(i := Idle)\<rparr>)"

inductive_cases handler_stepE: "handler_step s t"

inductive handlers_reachable :: "handlers \<Rightarrow> bool" where
  start: "handlers_reachable handlers_init"
| step: "handlers_reachable s \<Longrightarrow> handler_step s t \<Longrightarrow> handlers_reachable t"

text \<open>The table holds exactly the keys of the running handlers, and no key is run twice.\<close>

definition handlers_inv :: "handlers \<Rightarrow> bool" where
  "handlers_inv s \<longleftrightarrow>
     (\<forall>key. key \<in> dom (hs_tab s) \<longleftrightarrow> (\<exists>i. hs_pc s i = Running key)) \<and>
     (\<forall>i j key. hs_pc s i = Running key \<and> hs_pc s j = Running key \<longrightarrow> i = j)"

lemma handlers_inv_init: "handlers_inv handlers_init"
  by (simp add: handlers_inv_def handlers_init_def NewInFlight_def)

lemma Insert_True: "Insert db key = (True, db') \<longleftrightarrow> key \<notin> dom db \<and> db' = db(key \<mapsto> True)"
  by (auto simp: Insert_def split: option.splits)

lemma Insert_False: "Insert db key = (False, db') \<longleftrightarrow> key \<in> dom db \<and> db' = db"
  by (auto simp: Insert_def split: option.splits)

lemma handler_step_inv:
  assumes "handler_step s t" and "handlers_inv s"
  shows "handlers_inv t"
  using assms
proof (induction rule: handler_step.induct)
  case (enter s i key db)
  then have fresh: "\<And>j. hs_pc s j \<noteq> Running key" and db: "db = (hs_tab s)(key \<mapsto> True)"
    by (auto simp: handlers_inv_def Insert_True)
  with enter show ?case
    unfolding handlers_inv_def by (simp add: fun_upd_apply) (metis handler_pc.distinct(1))
next
  case (refuse s i key db)
  then show ?case
    unfolding handlers_inv_def Insert_False
    by (simp add: fun_upd_apply) (metis handler_pc.distinct(1))
next
  case (leave s i key)
  then show ?case
    unfolding handlers_inv_def Delete_def
    by (simp add: fun_upd_apply) (metis handler_pc.inject(1))
next
  case (return_busy s i key)
  then show ?case
    unfolding handlers_inv_def by (simp add: fun_upd_apply) (metis handler_pc.distinct(5))
qed

lemma reachable_handlers_inv: "handlers_reachable s \<Longrightarrow> handlers_inv s"
  by (induction rule: handlers_reachable.induct) (auto intro: handlers_inv_init handler_step_inv)

section \<open>Properties\<close>

text \<open>C32: Two handlers are never inside the critical section of one key at the same time, and a handler is
refused exactly when its key is held, whatever the interleaving of any number of handlers.\<close>

theorem inflight_exclusion:
  assumes "handlers_reachable s"
  shows "(hs_pc s i = Running key \<longrightarrow> hs_pc s j = Running key \<longrightarrow> i = j) \<and>
    (fst (Insert (hs_tab s) key) \<longleftrightarrow> (\<forall>i. hs_pc s i \<noteq> Running key))"
  using reachable_handlers_inv [OF assms] ift.acquire_iff [of "hs_tab s" key]
  by (auto simp: handlers_inv_def)

theorem inflight_exclusion_witness:
  "\<not> fst (Insert (hs_tab (handlers_init\<lparr>hs_pc := (hs_pc handlers_init)(0 := Running ''v''),
      hs_tab := [''v'' \<mapsto> True]\<rparr>)) ''v'')"
proof -
  let ?s = "handlers_init\<lparr>hs_pc := (hs_pc handlers_init)(0 := Running ''v''), hs_tab := [''v'' \<mapsto> True]\<rparr>"
  have "handler_step handlers_init ?s"
    by (rule enter) (simp_all add: handlers_init_def NewInFlight_def Insert_def)
  then have "handlers_reachable ?s" by (rule step [OF start])
  from inflight_exclusion [OF this, of 0 "''v''" 0] show ?thesis by auto
qed

end
