(* ===== verification/CircuitBreaker.thy ===== *)
theory CircuitBreaker
  imports CsiPrelude
begin

text \<open>
  The detach/delete circuit breaker of \<^verbatim>\<open>pkg/driver/internal/breaker.go\<close>. Every method holds
  the breaker's mutex for its whole body, so each is one atomic step on the entry table. The table
  is a Go map from the concatenated key to an entry pointer; it is ranged over by \<open>EvictStale\<close>,
  so it is an association list with distinct keys here (the order of the evicted keys, which Go
  leaves open, is the order of that list).
\<close>

section \<open>breaker.go\<close>

definition BreakerTripAfter :: nat where
  "BreakerTripAfter = 3"

definition BreakerTripMinElapsed :: int where
  "BreakerTripMinElapsed = 5 * Minute"

definition BreakerSteps :: "int list" where
  "BreakerSteps = [10 * Minute, 30 * Minute, 60 * Minute, 120 * Minute]"

datatype decision = Full | ProbeOnly

record breaker_key =
  VolumeID :: string
  NodeID :: string

definition key_string :: "breaker_key \<Rightarrow> string" where
  "key_string s = VolumeID s @ NodeID s"

record breaker_entry =
  be_key :: breaker_key
  be_failures :: nat
  be_firstFailAt :: int
  be_step :: nat
  be_nextAttempt :: int
  be_tripped :: bool

type_synonym breaker = "(string \<times> breaker_entry) list"

definition NewBreaker :: breaker where
  "NewBreaker = []"

definition Allow :: "breaker \<Rightarrow> breaker_key \<Rightarrow> int \<Rightarrow> decision" where
  "Allow s pkey pnow =
     (case map_of s (key_string pkey) of
        None \<Rightarrow> Full
      | Some e \<Rightarrow>
          if \<not> be_tripped e then Full
          else if pnow < be_nextAttempt e then ProbeOnly
          else Full)"

text \<open>\<open>Failure\<close> returns (tripped, stepped) and the new table.\<close>

definition failure_touch :: "breaker \<Rightarrow> breaker_key \<Rightarrow> int \<Rightarrow> breaker_entry" where
  "failure_touch s pkey pnow =
     (let e = (case map_of s (key_string pkey) of
                 Some e \<Rightarrow> e
               | None \<Rightarrow> \<lparr>be_key = pkey, be_failures = 0, be_firstFailAt = pnow, be_step = 0,
                          be_nextAttempt = 0, be_tripped = False\<rparr>)
      in e\<lparr>be_failures := be_failures e + 1, be_nextAttempt := pnow\<rparr>)"

definition failure_entry :: "breaker_entry \<Rightarrow> bool \<Rightarrow> int \<Rightarrow> (bool \<times> bool) \<times> breaker_entry" where
  "failure_entry e pterminal pnow =
     (if \<not> be_tripped e then
        (if pterminal \<or>
            (BreakerTripAfter \<le> be_failures e \<and> BreakerTripMinElapsed \<le> pnow - be_firstFailAt e)
         then ((True, False),
               e\<lparr>be_tripped := True, be_step := 0, be_nextAttempt := pnow + BreakerSteps ! 0\<rparr>)
         else ((False, False), e))
      else if be_step e < length BreakerSteps - 1 then
        ((False, True),
         e\<lparr>be_step := be_step e + 1, be_nextAttempt := pnow + BreakerSteps ! (be_step e + 1)\<rparr>)
      else
        ((False, False),
         e\<lparr>be_nextAttempt := pnow + BreakerSteps ! (length BreakerSteps - 1)\<rparr>))"

definition Failure :: "breaker \<Rightarrow> breaker_key \<Rightarrow> bool \<Rightarrow> int \<Rightarrow> (bool \<times> bool) \<times> breaker" where
  "Failure s pkey pterminal pnow =
     (case failure_entry (failure_touch s pkey pnow) pterminal pnow of
        (flags, e) \<Rightarrow> (flags, AList.update (key_string pkey) e s))"

definition Success :: "breaker \<Rightarrow> breaker_key \<Rightarrow> breaker" where
  "Success s pkey = AList.delete (key_string pkey) s"

text \<open>\<open>Since\<close> returns how long the pair has been failing, whether it is tracked, and whether it is tripped.\<close>

definition Since :: "breaker \<Rightarrow> breaker_key \<Rightarrow> int \<Rightarrow> int \<times> bool \<times> bool" where
  "Since s pkey pnow =
     (case map_of s (key_string pkey) of
        None \<Rightarrow> (0, False, False)
      | Some e \<Rightarrow> (pnow - be_firstFailAt e, True, be_tripped e))"

definition entry_stale :: "int \<Rightarrow> breaker_entry \<Rightarrow> bool" where
  "entry_stale pnow e \<longleftrightarrow> be_nextAttempt e < pnow + (-2 * BreakerSteps ! (length BreakerSteps - 1))"

definition EvictStale :: "breaker \<Rightarrow> int \<Rightarrow> breaker_key list \<times> breaker" where
  "EvictStale s pnow =
     (map (\<lambda>(k, e). be_key e) (filter (\<lambda>(k, e). entry_stale pnow e) s),
      filter (\<lambda>(k, e). \<not> entry_stale pnow e) s)"

section \<open>Lookups after an operation\<close>

lemmas breaker_defs = Allow_def Failure_def failure_touch_def failure_entry_def Success_def Since_def

text \<open>Whether a pair is tripped, the observation both handlers act on.\<close>

definition breaker_tripped :: "breaker \<Rightarrow> breaker_key \<Rightarrow> bool" where
  "breaker_tripped s pkey = (snd (snd (Since s pkey 0)))"

lemma breaker_tripped_iff:
  "breaker_tripped s pkey \<longleftrightarrow> (\<exists>e. map_of s (key_string pkey) = Some e \<and> be_tripped e)"
  by (auto simp: breaker_tripped_def Since_def split: option.splits)

lemma Since_tripped [simp]: "snd (snd (Since s pkey pnow)) = breaker_tripped s pkey"
  by (auto simp: breaker_tripped_def Since_def split: option.splits)

lemma map_of_Failure:
  "map_of (snd (Failure s pkey t pnow)) k =
    (if k = key_string pkey then Some (snd (failure_entry (failure_touch s pkey pnow) t pnow))
     else map_of s k)"
  by (simp add: Failure_def split: prod.splits)

lemma map_of_Success: "map_of (Success s pkey) k = (if k = key_string pkey then None else map_of s k)"
  by (simp add: Success_def)

lemma map_of_EvictStale:
  "wf_alist s \<Longrightarrow> map_of (snd (EvictStale s pnow)) k =
    (case map_of s k of None \<Rightarrow> None | Some e \<Rightarrow> if entry_stale pnow e then None else Some e)"
  using map_of_filter_alist [of s "\<lambda>e. \<not> entry_stale pnow e" k]
  by (simp add: EvictStale_def split: option.splits)

lemma wf_Failure [simp]: "wf_alist s \<Longrightarrow> wf_alist (snd (Failure s pkey t pnow))"
  by (simp add: Failure_def split: prod.splits)

lemma wf_Success [simp]: "wf_alist s \<Longrightarrow> wf_alist (Success s pkey)"
  by (simp add: Success_def)

lemma wf_EvictStale [simp]: "wf_alist s \<Longrightarrow> wf_alist (snd (EvictStale s pnow))"
  by (simp add: EvictStale_def)

lemma failure_touch_simps [simp]:
  "be_nextAttempt (failure_touch s pkey pnow) = pnow"
  "be_tripped (failure_touch s pkey pnow) = breaker_tripped s pkey"
  "0 < be_failures (failure_touch s pkey pnow)"
  by (auto simp: failure_touch_def breaker_tripped_iff Let_def split: option.splits)

lemma BreakerSteps_nth:
  "BreakerSteps ! 0 = 10 * Minute" "BreakerSteps ! Suc 0 = 30 * Minute"
  "BreakerSteps ! 2 = 60 * Minute" "BreakerSteps ! 3 = 120 * Minute"
  "length BreakerSteps = 4" "BreakerSteps ! Suc (Suc 0) = 60 * Minute"
  "BreakerSteps ! Suc (Suc (Suc 0)) = 120 * Minute"
  by (simp_all add: BreakerSteps_def numeral_2_eq_2 numeral_3_eq_3)

lemma BreakerSteps_bounds:
  "i < length BreakerSteps \<Longrightarrow> 10 * Minute \<le> BreakerSteps ! i \<and> BreakerSteps ! i \<le> 120 * Minute"
  by (auto simp: BreakerSteps_def less_Suc_eq numeral_2_eq_2 numeral_3_eq_3)

section \<open>The breaker interface\<close>

text \<open>
  A handler that retries a failing command asks \<open>allow\<close> and reports what came of a real attempt.
  The run below is such a handler called at the times \<open>ts\<close>, the command failing every time: it
  returns the times at which the command was really issued.
\<close>

fun retry_attempts ::
  "('b \<Rightarrow> int \<Rightarrow> decision) \<Rightarrow> ('b \<Rightarrow> int \<Rightarrow> 'b) \<Rightarrow> 'b \<Rightarrow> int list \<Rightarrow> int list" where
  "retry_attempts allow fail b [] = []"
| "retry_attempts allow fail b (t # ts) =
     (case allow b t of
        Full \<Rightarrow> t # retry_attempts allow fail (fail b t) ts
      | ProbeOnly \<Rightarrow> retry_attempts allow fail b ts)"

lemma retry_attempts_subset: "set (retry_attempts allow fail b ts) \<subseteq> set ts"
  by (induction ts arbitrary: b) (auto split: decision.splits)

locale circuit_breaker =
  fixes allow :: "'b \<Rightarrow> 'k \<Rightarrow> int \<Rightarrow> decision"
    and fail :: "'b \<Rightarrow> 'k \<Rightarrow> bool \<Rightarrow> int \<Rightarrow> 'b"
    and clear :: "'b \<Rightarrow> 'k \<Rightarrow> 'b"
    and tripped :: "'b \<Rightarrow> 'k \<Rightarrow> bool"
    and same :: "'k \<Rightarrow> 'k \<Rightarrow> bool"
    and min_wait max_wait :: int
  assumes probe_tripped: "allow b k now = ProbeOnly \<Longrightarrow> tripped b k"
    and fail_tripped: "tripped b k \<Longrightarrow> tripped (fail b k trm t) k"
    and fail_terminal: "tripped (fail b k True t) k"
    and fail_pauses: "tripped (fail b k trm t) k \<Longrightarrow> now < t + min_wait \<Longrightarrow>
      allow (fail b k trm t) k now = ProbeOnly"
    and fail_recovers: "t + max_wait \<le> now \<Longrightarrow> allow (fail b k trm t) k now = Full"
    and clear_resets: "allow (clear b k) k now = Full" "\<not> tripped (clear b k) k"
    and other_fail: "\<not> same k k' \<Longrightarrow> allow (fail b k trm t) k' now = allow b k' now"
    and other_clear: "\<not> same k k' \<Longrightarrow> allow (clear b k) k' now = allow b k' now"
    and min_wait_pos: "0 < min_wait"
begin

lemma paused_attempts:
  assumes "\<And>now. now < lim \<Longrightarrow> allow b k now = ProbeOnly" and "tripped b k"
  shows "spaced min_wait (retry_attempts (\<lambda>b. allow b k) (\<lambda>b t. fail b k (trm t) t) b ts) \<and>
    (\<forall>u us. retry_attempts (\<lambda>b. allow b k) (\<lambda>b t. fail b k (trm t) t) b ts = u # us \<longrightarrow> lim \<le> u)"
  using assms
proof (induction ts arbitrary: b lim)
  case Nil
  then show ?case by simp
next
  case (Cons t ts)
  show ?case
  proof (cases "allow b k t")
    case ProbeOnly
    with Cons.IH [OF Cons.prems] show ?thesis by simp
  next
    case Full
    let ?run = "retry_attempts (\<lambda>b. allow b k) (\<lambda>b t. fail b k (trm t) t)"
    let ?b = "fail b k (trm t) t"
    have tr: "tripped ?b k" by (rule fail_tripped [OF Cons.prems(2)])
    have "spaced min_wait (?run ?b ts) \<and> (\<forall>u us. ?run ?b ts = u # us \<longrightarrow> t + min_wait \<le> u)"
      by (rule Cons.IH [OF fail_pauses [OF tr] tr])
    then have "spaced min_wait (t # ?run ?b ts)"
      by (cases "?run ?b ts") auto
    moreover have "lim \<le> t" using Full Cons.prems(1) [of t] by force
    ultimately show ?thesis using Full by simp
  qed
qed

lemma tripped_attempts_spaced:
  "tripped b k \<Longrightarrow>
    spaced min_wait (retry_attempts (\<lambda>b. allow b k) (\<lambda>b t. fail b k (trm t) t) b ts)"
proof -
  assume tr: "tripped b k"
  show ?thesis
  proof (induction ts)
    case Nil
    then show ?case by simp
  next
    case (Cons t ts)
    show ?case
    proof (cases "allow b k t")
      case ProbeOnly
      with Cons show ?thesis by simp
    next
      case Full
      have tr': "tripped (fail b k (trm t) t) k" by (rule fail_tripped [OF tr])
      show ?thesis
        using paused_attempts [OF fail_pauses [OF tr'] tr', where trm = trm and ts = ts] Full
        by (cases "retry_attempts (\<lambda>b. allow b k) (\<lambda>b t. fail b k (trm t) t)
          (fail b k (trm t) t) ts") auto
    qed
  qed
qed

lemma tripped_attempts_bounded:
  assumes tr: "tripped b k" and win: "\<And>t. t \<in> set ts \<Longrightarrow> lo \<le> t \<and> t \<le> lo + w" and "0 \<le> w"
  shows "int (length (retry_attempts (\<lambda>b. allow b k) (\<lambda>b t. fail b k (trm t) t) b ts))
    \<le> w div min_wait + 1"
proof (rule spaced_count [OF tripped_attempts_spaced [OF tr] min_wait_pos _ assms(3)])
  fix u
  assume "u \<in> set (retry_attempts (\<lambda>b. allow b k) (\<lambda>b t. fail b k (trm t) t) b ts)"
  then show "lo \<le> u \<and> u \<le> lo + w"
    by (rule win [OF subsetD [OF retry_attempts_subset]])
qed

lemma retry_recovers:
  assumes "t' \<in> set ts" and "t + max_wait \<le> t'"
  shows "retry_attempts (\<lambda>b. allow b k) (\<lambda>b t. fail b k (trm t) t) (fail b k tm t) ts \<noteq> []"
  using assms
proof (induction ts)
  case Nil
  then show ?case by simp
next
  case (Cons u ts)
  show ?case
  proof (cases "allow (fail b k tm t) k u")
    case Full
    then show ?thesis by simp
  next
    case ProbeOnly
    with fail_recovers [of t u] Cons.prems have "u \<noteq> t'" by force
    with Cons.prems Cons.IH ProbeOnly show ?thesis by auto
  qed
qed

end

text \<open>\<open>breaker.go\<close> keeps the interface: two pairs share an entry when their keys concatenate alike.\<close>

definition same_entry :: "breaker_key \<Rightarrow> breaker_key \<Rightarrow> bool" where
  "same_entry a b \<longleftrightarrow> key_string a = key_string b"

definition breaker_fail :: "breaker \<Rightarrow> breaker_key \<Rightarrow> bool \<Rightarrow> int \<Rightarrow> breaker" where
  "breaker_fail s pkey pterminal pnow = snd (Failure s pkey pterminal pnow)"

lemma failure_entry_wait:
  assumes e': "snd (failure_entry e t pnow) = e'" and tr: "be_tripped e'"
  shows "pnow + 10 * Minute \<le> be_nextAttempt e' \<and> be_nextAttempt e' \<le> pnow + 120 * Minute"
proof (cases "be_tripped e")
  case False
  with assms show ?thesis
    by (auto simp: failure_entry_def BreakerSteps_nth split: if_splits)
next
  case True
  show ?thesis
  proof (cases "be_step e < length BreakerSteps - 1")
    case lt: True
    then have "be_nextAttempt e' = pnow + BreakerSteps ! (be_step e + 1)"
      using e' True by (auto simp: failure_entry_def)
    moreover have "be_step e + 1 < length BreakerSteps" using lt by (simp add: BreakerSteps_nth)
    ultimately show ?thesis using BreakerSteps_bounds by fastforce
  next
    case False
    with e' True show ?thesis
      by (auto simp: failure_entry_def BreakerSteps_nth numeral_3_eq_3)
  qed
qed

lemma failure_entry_untripped:
  "\<not> be_tripped (snd (failure_entry e t pnow)) \<Longrightarrow> snd (failure_entry e t pnow) = e \<and> \<not> be_tripped e"
  by (auto simp: failure_entry_def split: if_splits)

lemma failure_entry_stays: "be_tripped e \<Longrightarrow> be_tripped (snd (failure_entry e t pnow))"
  by (auto simp: failure_entry_def)

lemma failure_entry_terminal: "be_tripped (snd (failure_entry e True pnow))"
  by (auto simp: failure_entry_def)

lemma breaker_tripped_Failure:
  "breaker_tripped (snd (Failure s k t pnow)) k \<longleftrightarrow>
    be_tripped (snd (failure_entry (failure_touch s k pnow) t pnow))"
  by (simp add: breaker_tripped_iff map_of_Failure)

interpretation brk: circuit_breaker Allow breaker_fail Success breaker_tripped same_entry
  "10 * Minute" "120 * Minute"
proof (unfold_locales, goal_cases)
  case (1 b k now)
  then show ?case by (auto simp: Allow_def breaker_tripped_iff split: option.splits if_splits)
next
  case (2 b k trm t)
  then show ?case by (simp add: breaker_fail_def breaker_tripped_Failure failure_entry_stays)
next
  case (3 b k t)
  then show ?case by (simp add: breaker_fail_def breaker_tripped_Failure failure_entry_terminal)
next
  case (4 b k trm t now)
  then have "be_tripped (snd (failure_entry (failure_touch b k t) trm t))"
    by (simp add: breaker_fail_def breaker_tripped_Failure)
  with failure_entry_wait [OF refl this] 4(2) show ?case
    by (simp add: Allow_def breaker_fail_def map_of_Failure)
next
  case (5 t now b k trm)
  then show ?case
    using failure_entry_wait [OF refl, of "failure_touch b k t" trm t]
    by (auto simp: Allow_def breaker_fail_def map_of_Failure)
next
  case (6 b k now)
  then show ?case by (simp add: Allow_def map_of_Success)
next
  case (7 b k)
  then show ?case by (simp add: breaker_tripped_iff map_of_Success)
next
  case (8 k k' b trm t now)
  then show ?case by (auto simp: Allow_def breaker_fail_def map_of_Failure same_entry_def)
next
  case (9 k k' b now)
  then show ?case by (auto simp: Allow_def map_of_Success same_entry_def)
next
  case 10
  then show ?case by simp
qed

section \<open>Runs of failures\<close>

text \<open>A run reports failures, each terminal or not, at the given times; it keeps the flags of each.\<close>

fun fail_run :: "breaker \<Rightarrow> breaker_key \<Rightarrow> (bool \<times> int) list \<Rightarrow> (bool \<times> bool) list \<times> breaker" where
  "fail_run s k [] = ([], s)"
| "fail_run s k ((tm, t) # fs) =
     (case Failure s k tm t of
        (flag, s') \<Rightarrow> (case fail_run s' k fs of (flags, s'') \<Rightarrow> (flag # flags, s'')))"

definition after_failures :: "breaker \<Rightarrow> breaker_key \<Rightarrow> (bool \<times> int) list \<Rightarrow> breaker" where
  "after_failures s k fs = snd (fail_run s k fs)"

lemma after_failures_Nil [simp]: "after_failures s k [] = s"
  by (simp add: after_failures_def)

lemma after_failures_Cons [simp]:
  "after_failures s k ((tm, t) # fs) = after_failures (breaker_fail s k tm t) k fs"
  by (simp add: after_failures_def breaker_fail_def split: prod.splits)

lemma after_failures_append [simp]:
  "after_failures s k (fs @ gs) = after_failures (after_failures s k fs) k gs"
proof (induction fs arbitrary: s)
  case Nil
  then show ?case by simp
next
  case (Cons f fs)
  then show ?case by (cases f) simp
qed

subsection \<open>When the breaker trips\<close>

definition fresh_entry :: "breaker_key \<Rightarrow> int list \<Rightarrow> breaker_entry \<Rightarrow> bool" where
  "fresh_entry k ts e \<longleftrightarrow> \<not> be_tripped e \<and> be_failures e = length ts \<and> be_firstFailAt e = hd ts"

lemma trip_run:
  assumes untracked: "map_of s (key_string k) = None" and "ts \<noteq> []" and "sorted ts"
  shows "\<exists>e. map_of (after_failures s k (map (Pair False) ts)) (key_string k) = Some e \<and>
    (if BreakerTripAfter \<le> length ts \<and> BreakerTripMinElapsed \<le> last ts - hd ts
     then be_tripped e else fresh_entry k ts e)"
  using assms(2,3)
proof (induction ts rule: rev_induct)
  case Nil
  then show ?case by simp
next
  case (snoc t ts)
  let ?s = "after_failures s k (map (Pair False) ts)"
  show ?case
  proof (cases "ts = []")
    case True
    then show ?thesis
      using untracked
      by (auto simp: breaker_fail_def map_of_Failure failure_touch_def failure_entry_def
          fresh_entry_def BreakerTripMinElapsed_def BreakerTripAfter_def)
  next
    case False
    with snoc.prems have le: "last ts \<le> t" and srt: "sorted ts"
      by (auto simp: sorted_append)
    obtain e where e: "map_of ?s (key_string k) = Some e"
      and shape: "if BreakerTripAfter \<le> length ts \<and> BreakerTripMinElapsed \<le> last ts - hd ts
        then be_tripped e else fresh_entry k ts e"
      using snoc.IH [OF False srt] by blast
    show ?thesis
    proof (cases "be_tripped e")
      case True
      with shape have "BreakerTripAfter \<le> length ts" "BreakerTripMinElapsed \<le> last ts - hd ts"
        by (auto simp: fresh_entry_def split: if_splits)
      with True e le False show ?thesis
        by (auto simp: breaker_fail_def map_of_Failure failure_touch_def failure_entry_def)
    next
      case untr: False
      with shape have "fresh_entry k ts e" by (auto split: if_splits)
      with untr e False show ?thesis
        by (auto simp: breaker_fail_def map_of_Failure failure_touch_def failure_entry_def
            fresh_entry_def)
    qed
  qed
qed

subsection \<open>The backoff schedule once it has tripped\<close>

lemma backoff_run:
  assumes trip: "Failure s k tm t = ((True, stp), s')"
  shows "\<exists>e. map_of (after_failures s' k fs) (key_string k) = Some e \<and> be_tripped e \<and>
    be_step e = min (length fs) (length BreakerSteps - 1) \<and>
    be_nextAttempt e = last (t # map snd fs) + BreakerSteps ! min (length fs) (length BreakerSteps - 1)"
proof (induction fs rule: rev_induct)
  case Nil
  have "s' = snd (Failure s k tm t)" using trip by simp
  moreover have "fst (fst (Failure s k tm t))" using trip by simp
  ultimately show ?case
    by (auto simp: map_of_Failure) (auto simp: Failure_def failure_entry_def split: if_splits)
next
  case (snoc f fs)
  obtain tm' u where f: "f = (tm', u)" by (cases f)
  from snoc.IH obtain e where e: "map_of (after_failures s' k fs) (key_string k) = Some e"
    "be_tripped e" "be_step e = min (length fs) (length BreakerSteps - 1)" by blast
  then have "map_of (after_failures s' k (fs @ [f])) (key_string k) =
      Some (snd (failure_entry (e\<lparr>be_failures := be_failures e + 1, be_nextAttempt := u\<rparr>) tm' u))"
    by (simp add: f breaker_fail_def map_of_Failure failure_touch_def)
  with e f show ?case
    by (auto simp: failure_entry_def BreakerSteps_nth min_def)
qed

subsection \<open>Escalations\<close>

text \<open>What is left to escalate: the trip itself and the steps above the current one.\<close>

definition escalations_left :: "breaker \<Rightarrow> breaker_key \<Rightarrow> nat" where
  "escalations_left s k =
     (case map_of s (key_string k) of
        Some e \<Rightarrow> if be_tripped e then length BreakerSteps - 1 - be_step e else length BreakerSteps
      | None \<Rightarrow> length BreakerSteps)"

definition escalated :: "bool \<times> bool \<Rightarrow> bool" where
  "escalated flags \<longleftrightarrow> fst flags \<or> snd flags"

lemma Failure_escalations:
  "escalations_left (snd (Failure s k tm t)) k + (if escalated (fst (Failure s k tm t)) then 1 else 0)
    \<le> escalations_left s k"
  by (auto simp: escalations_left_def escalated_def map_of_Failure)
    (auto simp: Failure_def failure_entry_def failure_touch_def BreakerSteps_nth Let_def
      split: option.splits if_splits)

lemma fail_run_escalations:
  "length (filter escalated (fst (fail_run s k fs))) + escalations_left (after_failures s k fs) k
    \<le> escalations_left s k"
proof (induction fs arbitrary: s)
  case Nil
  then show ?case by simp
next
  case (Cons f fs)
  obtain tm t where f: "f = (tm, t)" by (cases f)
  have "length (filter escalated (fst (fail_run (breaker_fail s k tm t) k fs))) +
      escalations_left (after_failures (breaker_fail s k tm t) k fs) k
    \<le> escalations_left (breaker_fail s k tm t) k" by (rule Cons.IH)
  moreover have "filter escalated (fst (fail_run s k (f # fs))) =
      (if escalated (fst (Failure s k tm t)) then [fst (Failure s k tm t)] else []) @
      filter escalated (fst (fail_run (breaker_fail s k tm t) k fs))"
    by (simp add: f breaker_fail_def split: prod.splits)
  ultimately show ?case
    using Failure_escalations [of s k tm t] by (simp add: f breaker_fail_def split: if_splits)
qed

section \<open>Eviction\<close>

lemma entry_stale_expired: "entry_stale pnow e \<Longrightarrow> be_nextAttempt e < pnow"
  by (simp add: entry_stale_def BreakerSteps_nth Minute_def Second_def)

text \<open>Dropping a stale entry never lets through a command the entry was holding back.\<close>

lemma Allow_EvictStale:
  assumes "wf_alist s" and "pnow \<le> now"
  shows "Allow (snd (EvictStale s pnow)) k now = Allow s k now"
  using assms entry_stale_expired
  by (auto simp: Allow_def map_of_EvictStale split: option.splits dest!: entry_stale_expired)

lemma EvictStale_keys:
  assumes "wf_alist s"
  shows "set (fst (EvictStale s pnow)) =
    {be_key e |k e. map_of s k = Some e \<and> map_of (snd (EvictStale s pnow)) k = None}"
proof -
  have "set (fst (EvictStale s pnow)) = {be_key e |k e. (k, e) \<in> set s \<and> entry_stale pnow e}"
    by (force simp: EvictStale_def)
  also have "\<dots> = {be_key e |k e. map_of s k = Some e \<and> entry_stale pnow e}"
    using assms by (simp add: wf_alist_in_set)
  also have "\<dots> = {be_key e |k e. map_of s k = Some e \<and> map_of (snd (EvictStale s pnow)) k = None}"
    using assms by (intro Collect_cong ex_cong1) (auto simp: map_of_EvictStale split: if_splits)
  finally show ?thesis .
qed

section \<open>Keys\<close>

lemma key_string_inj:
  assumes "length (VolumeID a) = length (VolumeID b)" and "key_string a = key_string b"
  shows "a = b"
  using assms by (simp add: key_string_def)

section \<open>Properties\<close>

text \<open>Once a pair is tripped, the commands really issued for it within a window of length \<open>w\<close> are at
most one per ten minutes (plus one), however often the handler is called and however each attempt
fails. \<open>retry_attempts\<close> is the handler that asks \<open>Allow\<close> and reports each failed attempt.\<close>

theorem breaker_attempts_bounded:
  assumes "breaker_tripped s k" and "\<forall>t\<in>set ts. lo \<le> t \<and> t \<le> lo + w" and "0 \<le> w"
  shows "int (length (retry_attempts (\<lambda>s. Allow s k) (\<lambda>s t. snd (Failure s k (trm t) t)) s ts))
    \<le> w div (10 * Minute) + 1"
  using brk.tripped_attempts_bounded [OF assms(1), of ts lo w trm] assms(2,3)
  by (simp add: breaker_fail_def)

theorem breaker_attempts_bounded_witness:
  "int (length (retry_attempts (\<lambda>s. Allow s \<lparr>VolumeID = ''v'', NodeID = ''n''\<rparr>)
      (\<lambda>s t. snd (Failure s \<lparr>VolumeID = ''v'', NodeID = ''n''\<rparr> False t))
      (snd (Failure NewBreaker \<lparr>VolumeID = ''v'', NodeID = ''n''\<rparr> True 0))
      (map (\<lambda>i. int i * 6 * Minute) [1..<11]))) \<le> (60 * Minute) div (10 * Minute) + 1"
  by (rule breaker_attempts_bounded [where lo = 0])
    (auto simp: breaker_tripped_iff map_of_Failure failure_entry_terminal Minute_def Second_def)

text \<open>No pause is forever: two hours after a failure the next call is a real attempt, and a success
makes the next call a real attempt at once; neither touches a pair with another key.\<close>

theorem breaker_recovers:
  assumes "t + 120 * Minute \<le> now"
  shows "Allow (snd (Failure s k trm t)) k now = Full \<and> Allow (Success s k) k now = Full \<and>
    (key_string k' \<noteq> key_string k \<longrightarrow>
       Allow (snd (Failure s k trm t)) k' now = Allow s k' now \<and>
       Allow (Success s k) k' now = Allow s k' now)"
  using brk.fail_recovers [OF assms, of s k trm] brk.clear_resets(1) [of s k now]
    brk.other_fail [of k k' s trm t now] brk.other_clear [of k k' s now]
  by (auto simp: breaker_fail_def same_entry_def)

theorem breaker_recovers_witness:
  "Allow (snd (Failure NewBreaker \<lparr>VolumeID = ''v'', NodeID = ''n''\<rparr> True 0))
    \<lparr>VolumeID = ''v'', NodeID = ''n''\<rparr> (121 * Minute) = Full"
  using breaker_recovers [of 0 "121 * Minute" NewBreaker "\<lparr>VolumeID = ''v'', NodeID = ''n''\<rparr>" True
      "\<lparr>VolumeID = ''v'', NodeID = ''n''\<rparr>"]
  by (simp add: Minute_def Second_def)

text \<open>C31: The breaker trips on transient failures exactly when it has counted three of them and five
minutes have passed since the first; one terminal failure trips it at once.\<close>

theorem breaker_trips_iff:
  assumes "map_of s (key_string k) = None" and "ts \<noteq> []" and "sorted ts"
  shows "(breaker_tripped (after_failures s k (map (Pair False) ts)) k \<longleftrightarrow>
      BreakerTripAfter \<le> length ts \<and> BreakerTripMinElapsed \<le> last ts - hd ts)
    \<and> breaker_tripped (after_failures s k [(True, hd ts)]) k"
  using trip_run [OF assms]
  by (auto simp: breaker_tripped_iff fresh_entry_def breaker_fail_def map_of_Failure
      failure_entry_terminal split: if_splits)

theorem breaker_trips_iff_witness:
  "breaker_tripped (after_failures NewBreaker \<lparr>VolumeID = ''v'', NodeID = ''n''\<rparr>
      (map (Pair False) [0, 2 * Minute, 5 * Minute])) \<lparr>VolumeID = ''v'', NodeID = ''n''\<rparr>"
  using breaker_trips_iff [of NewBreaker "\<lparr>VolumeID = ''v'', NodeID = ''n''\<rparr>" "[0, 2 * Minute, 5 * Minute]"]
  by (simp add: NewBreaker_def BreakerTripAfter_def BreakerTripMinElapsed_def Minute_def Second_def)

text \<open>After the trip, the \<open>n\<close>-th further failed attempt moves the next attempt to
\<open>BreakerSteps[min n 3]\<close> after it (10, 30, 60, then always 120 minutes), and only the first three of
them escalate: whatever the failures, a pair escalates at most four times between two successes.\<close>

theorem breaker_backoff:
  assumes "Failure s k tm t = ((True, stp), s')"
  shows "(\<exists>e. map_of (after_failures s' k fs) (key_string k) = Some e \<and> be_tripped e \<and>
      be_nextAttempt e = last (t # map snd fs) + BreakerSteps ! min (length fs) 3)
    \<and> length (filter escalated (fst (fail_run s k ((tm, t) # fs)))) \<le> 4"
proof -
  have "length BreakerSteps - 1 = 3" by (simp add: BreakerSteps_nth)
  moreover have "escalations_left s k \<le> 4"
    using diff_le_self [of 3] by (auto simp: escalations_left_def BreakerSteps_nth split: option.split)
  moreover have "length (filter escalated (fst (fail_run s k ((tm, t) # fs)))) \<le> escalations_left s k"
    using fail_run_escalations [of s k "(tm, t) # fs"] by simp
  ultimately show ?thesis using backoff_run [OF assms, of fs] by auto
qed

theorem breaker_backoff_witness:
  "\<exists>e. map_of (after_failures (snd (Failure NewBreaker \<lparr>VolumeID = ''v'', NodeID = ''n''\<rparr> True 0))
      \<lparr>VolumeID = ''v'', NodeID = ''n''\<rparr> [(False, 10 * Minute), (False, 40 * Minute)]) ''vn'' = Some e
    \<and> be_nextAttempt e = 100 * Minute"
proof -
  let ?k = "\<lparr>VolumeID = ''v'', NodeID = ''n''\<rparr>"
  have "Failure NewBreaker ?k True 0 = ((True, False), snd (Failure NewBreaker ?k True 0))"
    by (simp add: breaker_defs NewBreaker_def Let_def)
  from breaker_backoff [OF this, of "[(False, 10 * Minute), (False, 40 * Minute)]"]
  show ?thesis by (auto simp: key_string_def BreakerSteps_nth)
qed

text \<open>Evicting stale entries never lets a paused command through, and reports exactly the pairs it
dropped, so that the caller can delete exactly their gauge series.\<close>

theorem breaker_evict_safe:
  assumes "wf_alist s" and "pnow \<le> now"
  shows "Allow (snd (EvictStale s pnow)) k now = Allow s k now \<and> set (fst (EvictStale s pnow)) =
    {be_key e |k e. map_of s k = Some e \<and> map_of (snd (EvictStale s pnow)) k = None}"
  using Allow_EvictStale [OF assms] EvictStale_keys [OF assms(1)] by blast

theorem breaker_evict_safe_witness:
  "Allow (snd (EvictStale [(''vn'', \<lparr>be_key = \<lparr>VolumeID = ''v'', NodeID = ''n''\<rparr>, be_failures = 3,
      be_firstFailAt = 0, be_step = 0, be_nextAttempt = 10 * Minute, be_tripped = True\<rparr>)] (5 * Minute)))
    \<lparr>VolumeID = ''v'', NodeID = ''n''\<rparr> (6 * Minute) = ProbeOnly"
proof -
  let ?s = "[(''vn'', \<lparr>be_key = \<lparr>VolumeID = ''v'', NodeID = ''n''\<rparr>, be_failures = 3,
      be_firstFailAt = 0, be_step = 0, be_nextAttempt = 10 * Minute, be_tripped = True\<rparr>)]"
  have "Allow (snd (EvictStale ?s (5 * Minute))) \<lparr>VolumeID = ''v'', NodeID = ''n''\<rparr> (6 * Minute) =
      Allow ?s \<lparr>VolumeID = ''v'', NodeID = ''n''\<rparr> (6 * Minute)"
    using breaker_evict_safe [of ?s "5 * Minute" "6 * Minute" "\<lparr>VolumeID = ''v'', NodeID = ''n''\<rparr>"]
    by (simp add: wf_alist_def Minute_def Second_def)
  then show ?thesis by (simp add: Allow_def key_string_def Minute_def Second_def)
qed

end
