(* ===== verification/CreateGate.thy ===== *)
theory CreateGate
  imports CsiPrelude
begin

text \<open>
  The semaphore of \<^verbatim>\<open>pkg/driver/internal/semaphore.go\<close> that caps concurrent volume creates. Its
  buffered channel is the number of slots in it with the capacity. The first half is the operations;
  the second runs any number of creates against one gate, a create waiting for a slot being able to
  leave when its context ends.
\<close>

section \<open>semaphore.go\<close>

record semaphore =
  sem_cap :: nat
  sem_used :: nat

definition NewSemaphore :: "nat \<Rightarrow> semaphore" where
  "NewSemaphore pcap = \<lparr>sem_cap = pcap, sem_used = 0\<rparr>"

text \<open>
  \<open>Acquire\<close> is a select over a send and the end of the context. \<open>ctx_ends\<close> says that the second
  case is taken when the first is possible; a full channel leaves only the second.
\<close>

definition Acquire :: "bool \<Rightarrow> semaphore \<Rightarrow> bool \<times> semaphore" where
  "Acquire ctx_ends s =
     (if sem_used s < sem_cap s \<and> \<not> ctx_ends then (True, s\<lparr>sem_used := Suc (sem_used s)\<rparr>)
      else (False, s))"

text \<open>\<open>Release\<close> receives from the channel; on an empty channel it would block.\<close>

definition Release :: "semaphore \<Rightarrow> semaphore option" where
  "Release s = (if sem_used s = 0 then None else Some (s\<lparr>sem_used := sem_used s - 1\<rparr>))"

lemma Release_Acquire: "Acquire c s = (True, s') \<Longrightarrow> Release s' = Some s"
  by (auto simp: Acquire_def Release_def split: if_splits)

lemma Acquire_cap: "sem_cap (snd (Acquire c s)) = sem_cap s"
  by (simp add: Acquire_def)

section \<open>Creates at the gate\<close>

datatype create_pc = AtGate | InCreate | CreateDone | CreateCancelled

record gate_run =
  gr_pc :: "create_pc list"
  gr_gate :: semaphore

definition gate_start :: "nat \<Rightarrow> nat \<Rightarrow> gate_run" where
  "gate_start n cap = \<lparr>gr_pc = replicate n AtGate, gr_gate = NewSemaphore cap\<rparr>"

inductive gate_step :: "gate_run \<Rightarrow> gate_run \<Rightarrow> bool" where
  gate_in: "i < length (gr_pc s) \<Longrightarrow> gr_pc s ! i = AtGate \<Longrightarrow> Acquire False (gr_gate s) = (True, g)
    \<Longrightarrow> gate_step s (s\<lparr>gr_pc := (gr_pc s)[i := InCreate], gr_gate := g\<rparr>)"
| gate_cancel: "i < length (gr_pc s) \<Longrightarrow> gr_pc s ! i = AtGate \<Longrightarrow> Acquire True (gr_gate s) = (False, g)
    \<Longrightarrow> gate_step s (s\<lparr>gr_pc := (gr_pc s)[i := CreateCancelled], gr_gate := g\<rparr>)"
| gate_out: "i < length (gr_pc s) \<Longrightarrow> gr_pc s ! i = InCreate \<Longrightarrow> Release (gr_gate s) = Some g
    \<Longrightarrow> gate_step s (s\<lparr>gr_pc := (gr_pc s)[i := CreateDone], gr_gate := g\<rparr>)"

inductive gate_reachable :: "nat \<Rightarrow> nat \<Rightarrow> gate_run \<Rightarrow> bool" for n cap where
  gate_init: "gate_reachable n cap (gate_start n cap)"
| gate_more: "gate_reachable n cap s \<Longrightarrow> gate_step s t \<Longrightarrow> gate_reachable n cap t"

definition creates_running :: "gate_run \<Rightarrow> nat" where
  "creates_running s = length (filter (\<lambda>p. p = InCreate) (gr_pc s))"

definition gate_inv :: "nat \<Rightarrow> gate_run \<Rightarrow> bool" where
  "gate_inv cap s \<longleftrightarrow> sem_cap (gr_gate s) = cap \<and> sem_used (gr_gate s) = creates_running s
     \<and> creates_running s \<le> cap"

lemma filter_list_update_length:
  "i < length xs \<Longrightarrow> length (filter P (xs[i := y])) + (if P (xs ! i) then 1 else 0) =
    length (filter P xs) + (if P y then 1 else 0)"
proof (induction xs arbitrary: i)
  case Nil
  then show ?case by simp
next
  case (Cons x xs)
  then show ?case by (cases i) auto
qed

lemma gate_step_inv:
  assumes "gate_step s t" and "gate_inv cap s"
  shows "gate_inv cap t"
  using assms
proof (induction rule: gate_step.induct)
  case (gate_in i s g)
  then show ?case
    using filter_list_update_length [of i "gr_pc s" "\<lambda>p. p = InCreate" InCreate]
    by (auto simp: gate_inv_def creates_running_def Acquire_def split: if_splits)
next
  case (gate_cancel i s g)
  then show ?case
    using filter_list_update_length [of i "gr_pc s" "\<lambda>p. p = InCreate" CreateCancelled]
    by (auto simp: gate_inv_def creates_running_def Acquire_def split: if_splits)
next
  case (gate_out i s g)
  then show ?case
    using filter_list_update_length [of i "gr_pc s" "\<lambda>p. p = InCreate" CreateDone]
    by (auto simp: gate_inv_def creates_running_def Release_def split: if_splits)
qed

lemma gate_start_inv: "gate_inv cap (gate_start n cap)"
  by (simp add: gate_inv_def gate_start_def creates_running_def NewSemaphore_def)

lemma gate_reachable_inv: "gate_reachable n cap s \<Longrightarrow> gate_inv cap s"
  by (induction rule: gate_reachable.induct) (auto intro: gate_start_inv gate_step_inv)

text \<open>A running create can always give its slot back: \<open>Release\<close> never blocks.\<close>

lemma gate_release_enabled:
  assumes "gate_inv cap s" and "i < length (gr_pc s)" and "gr_pc s ! i = InCreate"
  shows "Release (gr_gate s) \<noteq> None"
proof -
  have "gr_pc s ! i \<in> set (filter (\<lambda>p. p = InCreate) (gr_pc s))"
    using assms nth_mem [OF assms(2)] by simp
  then have "0 < creates_running s"
    unfolding creates_running_def by (metis length_greater_0_conv list.set(1) empty_iff)
  with assms(1) show ?thesis by (simp add: gate_inv_def Release_def)
qed

text \<open>A waiting create gets in whenever fewer than the cap are running.\<close>

lemma gate_admits:
  assumes "gate_inv cap s" and "creates_running s < cap"
  shows "\<exists>g. Acquire False (gr_gate s) = (True, g)"
  using assms by (auto simp: gate_inv_def Acquire_def)

section \<open>Properties\<close>

text \<open>C33: Never more creates run than the gate has slots, every running create can give its slot back
without blocking, and a waiting create gets in whenever fewer than the cap are running.\<close>

theorem create_gate_cap:
  assumes "gate_reachable n cap s"
  shows "creates_running s \<le> cap \<and>
    (\<forall>i < length (gr_pc s). gr_pc s ! i = InCreate \<longrightarrow> Release (gr_gate s) \<noteq> None) \<and>
    (creates_running s < cap \<longrightarrow> (\<exists>g. Acquire False (gr_gate s) = (True, g)))"
  using gate_reachable_inv [OF assms] gate_release_enabled [of cap s] gate_admits [of cap s]
  by (auto simp: gate_inv_def)

theorem create_gate_cap_witness:
  "creates_running (gate_start 100 10) \<le> 10 \<and> (\<exists>g. Acquire False (gr_gate (gate_start 100 10)) = (True, g))"
  using create_gate_cap [OF gate_init [of 100 10]]
  by (simp add: creates_running_def gate_start_def)

end
