(* ===== verification/SdkTypes.thy ===== *)
theory SdkTypes
  imports CsiPrelude
begin

text \<open>
  The data the driver shares with the vServer SDK: error codes and \<open>IError\<close> values, the
  constructors of \<^verbatim>\<open>pkg/cloud/errors\<close>, and the volume entity with the methods
  \<^verbatim>\<open>pkg/cloud/entity/volume.go\<close> defines on it.

  An \<open>IError\<close> is what its getters return (\<open>GetErrorCode\<close>, \<open>GetMessage\<close>, \<open>GetError\<close>,
  \<open>GetParameters\<close>); \<open>GetError\<close> is \<open>None\<close> when \<open>WithErrors\<close> was never called, which callers
  that return \<open>ierr.GetError()\<close> read as success. A Go string that may be one of the named error codes is an
  \<open>error_code\<close>, with the named constants symbolic and any other text as \<open>OtherCode\<close>. How the SDK's
  \<open>WithParameters\<close> combines a map with the parameters already present is not visible in the
  repository, so it is an argument (\<open>merge\<close>) of the constructors that call it.
\<close>

section \<open>Error codes\<close>

text \<open>
  The first group are constants of the SDK, the second those of
  \<^verbatim>\<open>pkg/cloud/errors/error_code.go\<close> (prefixed \<open>Ls\<close>, the driver's import alias, because two of them
  share the SDK's Go name and differ in value), the third those of \<open>pkg/cloud\<close>.
\<close>

datatype error_code =
    EcUnexpectedError | EcInternalServerError | EcServiceMaintenance | EcPermissionDenied
  | EcVServerVolumeNotFound | EcVServerVolumeAvailable | EcVServerServerNotFound
  | EcVServerVolumeInProcess | EcVServerVolumeIsMigrating | EcVServerVolumeUnchanged
  | EcVServerVolumeAlreadyAttachedThisServer
  | EcVServerVolumeExceedQuota | EcVServerVolumeSizeExceedGlobalQuota
  | EcVServerServerVolumeAttachQuotaExceeded
  | EcVServerVolumeMigrateBeingProcess | EcVServerVolumeMigrateProcessingConfirm
  | EcVServerVolumeMigrateBeingMigrating | EcVServerVolumeMigrateBeingFinish
  | EcVServerVolumeMigrateInSameZone | EcVServerSnapshotNotFound
  | LsEcK8sPvcFailedToGet | LsEcK8sPvcNotFound | LsEcK8sPvFailedToGet | LsEcK8sPvNotFound
  | LsEcK8sStorageClassFailedToGet | LsEcK8sStorageClassNotFound
  | LsEcVServerVolumeIsInErrorState | LsEcVServerVolumeFailedToDetach
  | LsEcVServerVolumeFailedToGet | LsEcVServerVolumeFailedToDelete
  | LsEcVServerVolumeNotFound | LsEcVServerVolumeFailedToAttach
  | EcCsiProjectUnresolved | EcCsiClientRateLimited
  | OtherCode string

section \<open>Errors\<close>

text \<open>Go \<open>error\<close> values: a text, a text wrapping another error (\<open>%w\<close>), and the sentinels the code compares with.\<close>

datatype go_error =
    GoErr string
  | GoWrap string go_error
  | ErrSnapshotNotFound | ErrInvalidArgument | ErrDeviceVolumeIdNotFound
  | ErrWaitTimeout | CtxErr

fun errors_Is :: "go_error \<Rightarrow> go_error \<Rightarrow> bool" where
  "errors_Is (GoWrap m e) target = (GoWrap m e = target \<or> errors_Is e target)"
| "errors_Is e target = (e = target)"

text \<open>A parameter value: an integer (such as the HTTP status), a string, or anything else.\<close>

datatype pval = PInt int | PStr error_code | POther

type_synonym params = "string \<rightharpoonup> pval"

record ierror =
  ie_code :: error_code
  ie_msg :: string
  ie_err :: "go_error option"
  ie_params :: params

definition IsError :: "ierror \<Rightarrow> error_code \<Rightarrow> bool" where
  "IsError e c \<longleftrightarrow> ie_code e = c"

definition ptext :: "string \<Rightarrow> pval" where
  "ptext s = PStr (OtherCode s)"

type_synonym merge_params = "params \<Rightarrow> params \<Rightarrow> params"

text \<open>
  What the driver relies on of \<open>WithParameters\<close>: the new pairs are there afterwards, and a key
  that is not among them keeps its old value or is dropped.
\<close>

definition merge_ok :: "merge_params \<Rightarrow> bool" where
  "merge_ok merge \<longleftrightarrow>
     (\<forall>old new key. (new key \<noteq> None \<longrightarrow> merge old new key = new key) \<and>
        (new key = None \<longrightarrow> merge old new key \<in> {old key, None}))"

lemma merge_ok_map_add: "merge_ok (\<lambda>old new. old ++ new)"
  by (auto simp: merge_ok_def map_add_def split: option.splits)

lemma merge_ok_new: "merge_ok merge \<Longrightarrow> new key = Some v \<Longrightarrow> merge old new key = Some v"
  by (auto simp: merge_ok_def)

lemma merge_ok_absent: "merge_ok merge \<Longrightarrow> new key = None \<Longrightarrow> old key = None \<Longrightarrow> merge old new key = None"
  unfolding merge_ok_def by (metis empty_iff insert_iff)

section \<open>The constructors of pkg/cloud/errors\<close>

text \<open>
  The tail shared by the four \<open>Err...FailedTo...\<close> constructors: when there is an SDK error, load
  its error and its parameters and stash its code.
\<close>

definition wrap_sdk :: "merge_params \<Rightarrow> ierror \<Rightarrow> ierror option \<Rightarrow> ierror" where
  "wrap_sdk merge e psdkErr =
     (case psdkErr of
        None \<Rightarrow> e
      | Some x \<Rightarrow>
          e\<lparr>ie_err := ie_err x,
            ie_params := (merge (ie_params e) (ie_params x))(''sdkErrorCode'' \<mapsto> PStr (ie_code x))\<rparr>)"

definition ErrVolumeIsInErrorState :: "string \<Rightarrow> ierror" where
  "ErrVolumeIsInErrorState pvolId =
     \<lparr>ie_code = LsEcVServerVolumeIsInErrorState,
      ie_msg = ''volume '' @ pvolId @ '' is in error state'',
      ie_err = Some (GoErr (''volume '' @ pvolId @ '' is in error state'')),
      ie_params = [''volumeId'' \<mapsto> ptext pvolId]\<rparr>"

definition ErrVolumeFailedToDetach :: "merge_params \<Rightarrow> string \<Rightarrow> string \<Rightarrow> ierror option \<Rightarrow> ierror" where
  "ErrVolumeFailedToDetach merge pinstanceId pvolId psdkErr = wrap_sdk merge
     \<lparr>ie_code = LsEcVServerVolumeFailedToDetach,
      ie_msg = ''Failed to detach volume '' @ pvolId @ '' from instance '' @ pinstanceId,
      ie_err = None,
      ie_params = [''instanceId'' \<mapsto> ptext pinstanceId, ''volumeId'' \<mapsto> ptext pvolId]\<rparr> psdkErr"

definition ErrVolumeFailedToGet :: "merge_params \<Rightarrow> string \<Rightarrow> ierror option \<Rightarrow> ierror" where
  "ErrVolumeFailedToGet merge pvolId psdkErr = wrap_sdk merge
     \<lparr>ie_code = LsEcVServerVolumeFailedToGet,
      ie_msg = ''Failed to get volume '' @ pvolId,
      ie_err = None,
      ie_params = [''volumeId'' \<mapsto> ptext pvolId]\<rparr> psdkErr"

definition ErrVolumeFailedToDelete :: "merge_params \<Rightarrow> string \<Rightarrow> ierror option \<Rightarrow> ierror" where
  "ErrVolumeFailedToDelete merge pvolId psdkErr = wrap_sdk merge
     \<lparr>ie_code = LsEcVServerVolumeFailedToDelete,
      ie_msg = ''Failed to delete volume '' @ pvolId,
      ie_err = None,
      ie_params = [''volumeId'' \<mapsto> ptext pvolId]\<rparr> psdkErr"

text \<open>The one constructor that loads no error: its \<open>GetError\<close> is nil.\<close>

definition ErrVolumeNotFound :: "string \<Rightarrow> ierror" where
  "ErrVolumeNotFound pvolId =
     \<lparr>ie_code = LsEcVServerVolumeNotFound,
      ie_msg = ''Volume '' @ pvolId @ '' not found'',
      ie_err = None,
      ie_params = [''volumeId'' \<mapsto> ptext pvolId]\<rparr>"

definition ErrVolumeFailedToAttach :: "merge_params \<Rightarrow> string \<Rightarrow> string \<Rightarrow> ierror option \<Rightarrow> ierror" where
  "ErrVolumeFailedToAttach merge pinstanceId pvolId psdkErr = wrap_sdk merge
     \<lparr>ie_code = LsEcVServerVolumeFailedToAttach,
      ie_msg = ''Failed to attach volume '' @ pvolId @ '' to instance '' @ pinstanceId,
      ie_err = None,
      ie_params = [''instanceId'' \<mapsto> ptext pinstanceId, ''volumeId'' \<mapsto> ptext pvolId]\<rparr> psdkErr"

lemmas err_defs = ErrVolumeIsInErrorState_def ErrVolumeFailedToDetach_def ErrVolumeFailedToGet_def
  ErrVolumeFailedToDelete_def ErrVolumeNotFound_def ErrVolumeFailedToAttach_def

lemma wrap_sdk_simps [simp]:
  "ie_code (wrap_sdk merge e x) = ie_code e"
  "ie_msg (wrap_sdk merge e x) = ie_msg e"
  "wrap_sdk merge e None = e"
  "ie_err (wrap_sdk merge e (Some x')) = ie_err x'"
  "ie_params (wrap_sdk merge e (Some x')) ''sdkErrorCode'' = Some (PStr (ie_code x'))"
  "key \<noteq> ''sdkErrorCode'' \<Longrightarrow>
    ie_params (wrap_sdk merge e (Some x')) key = merge (ie_params e) (ie_params x') key"
  by (simp_all add: wrap_sdk_def split: option.split)

lemma err_code_simps [simp]:
  "ie_code (ErrVolumeIsInErrorState v) = LsEcVServerVolumeIsInErrorState"
  "ie_code (ErrVolumeFailedToDetach merge i v x) = LsEcVServerVolumeFailedToDetach"
  "ie_code (ErrVolumeFailedToGet merge v x) = LsEcVServerVolumeFailedToGet"
  "ie_code (ErrVolumeFailedToDelete merge v x) = LsEcVServerVolumeFailedToDelete"
  "ie_code (ErrVolumeNotFound v) = LsEcVServerVolumeNotFound"
  "ie_code (ErrVolumeFailedToAttach merge i v x) = LsEcVServerVolumeFailedToAttach"
  by (simp_all add: err_defs)

section \<open>The volume entity\<close>

record volume =
  vol_Id :: string
  vol_Name :: string
  vol_Size :: uint64
  vol_Status :: string
  vol_VmId :: string
  vol_AttachedMachine :: "string list"
  vol_VolumeTypeID :: string
  vol_ZoneId :: string

definition VolumeAvailableStatus :: string where "VolumeAvailableStatus = ''AVAILABLE''"
definition VolumeInUseStatus :: string where "VolumeInUseStatus = ''IN-USE''"
definition VolumeCreatingStatus :: string where "VolumeCreatingStatus = ''CREATING''"
definition VolumeErrorStatus :: string where "VolumeErrorStatus = ''ERROR''"
definition SnapshotActiveStatus :: string where "SnapshotActiveStatus = ''ACTIVE''"

lemmas status_defs = VolumeAvailableStatus_def VolumeInUseStatus_def VolumeCreatingStatus_def
  VolumeErrorStatus_def SnapshotActiveStatus_def

definition entity_IsError :: "volume \<Rightarrow> bool" where
  "entity_IsError s \<longleftrightarrow> vol_Status s = ''ERROR''"

definition entity_IsMigration :: "volume \<Rightarrow> bool" where
  "entity_IsMigration s \<longleftrightarrow> vol_Status s = ''MIGRATING''"

definition entity_IsCreating :: "volume \<Rightarrow> bool" where
  "entity_IsCreating s \<longleftrightarrow> vol_Status s = ''CREATING'' \<or> vol_Status s = ''CREATING-BILLING''"

fun machine_listed :: "string list \<Rightarrow> string \<Rightarrow> bool" where
  "machine_listed [] pinstanceId = False"
| "machine_listed (machineId # ms) pinstanceId =
     (if machineId = pinstanceId then True else machine_listed ms pinstanceId)"

definition entity_AttachedTheInstance :: "volume \<Rightarrow> string \<Rightarrow> bool" where
  "entity_AttachedTheInstance s pinstanceId =
     (if vol_VmId s = pinstanceId then True
      else machine_listed (vol_AttachedMachine s) pinstanceId)"

definition entity_CanDelete :: "volume \<Rightarrow> bool" where
  "entity_CanDelete s =
     (if length (vol_AttachedMachine s) < 1 then True
      else if vol_VmId s = '''' then True
      else False)"

definition entity_IsAttched :: "volume \<Rightarrow> bool" where
  "entity_IsAttched s =
     (if vol_Status s = VolumeInUseStatus then True
      else if 0 < length (vol_AttachedMachine s) then True
      else if vol_VmId s \<noteq> '''' then True
      else False)"

lemma machine_listed_iff: "machine_listed ms i \<longleftrightarrow> i \<in> set ms"
  by (induction ms) auto

lemma entity_AttachedTheInstance_iff:
  "entity_AttachedTheInstance v i \<longleftrightarrow> vol_VmId v = i \<or> i \<in> set (vol_AttachedMachine v)"
  by (simp add: entity_AttachedTheInstance_def machine_listed_iff)

text \<open>A volume that reports no attachment at all is deletable.\<close>

lemma not_attached_can_delete: "\<not> entity_IsAttched v \<Longrightarrow> entity_CanDelete v"
  by (auto simp: entity_IsAttched_def entity_CanDelete_def split: if_splits)

end
