(* ===== verification/ErrClass.thy ===== *)
theory ErrClass
  imports SdkTypes
begin

text \<open>
  The error classifier of \<^verbatim>\<open>pkg/cloud/errclass.go\<close>: an IaaS error becomes an event reason and
  a retry class (terminal or not). The HTTP status the SDK leaves in the parameters and the SDK
  code the wrappers stash there are read before the error's own code.
\<close>

section \<open>errclass.go\<close>

definition ReasonVolumeQuotaExceeded :: string where "ReasonVolumeQuotaExceeded = ''VolumeQuotaExceeded''"
definition ReasonVolumeSizeQuotaExceeded :: string where "ReasonVolumeSizeQuotaExceeded = ''VolumeSizeQuotaExceeded''"
definition ReasonVolumeAttachQuotaExceeded :: string where "ReasonVolumeAttachQuotaExceeded = ''VolumeAttachQuotaExceeded''"
definition ReasonIaaSPermissionDenied :: string where "ReasonIaaSPermissionDenied = ''IaaSPermissionDenied''"
definition ReasonVolumeInErrorState :: string where "ReasonVolumeInErrorState = ''VolumeInErrorState''"
definition ReasonIaaSThrottled :: string where "ReasonIaaSThrottled = ''IaaSThrottled''"
definition ReasonIaaSServerError :: string where "ReasonIaaSServerError = ''IaaSServerError''"
definition ReasonIaaSUnreachable :: string where "ReasonIaaSUnreachable = ''IaaSUnreachable''"
definition ReasonIaaSResourceNotFound :: string where "ReasonIaaSResourceNotFound = ''IaaSResourceNotFound''"
definition ReasonIaaSAuthFailed :: string where "ReasonIaaSAuthFailed = ''IaaSAuthFailed''"
definition ReasonIaaSOperationStalled :: string where "ReasonIaaSOperationStalled = ''IaaSOperationStalled''"
definition ReasonIaaSUnknownError :: string where "ReasonIaaSUnknownError = ''IaaSUnknownError''"

lemmas reason_defs = ReasonVolumeQuotaExceeded_def ReasonVolumeSizeQuotaExceeded_def
  ReasonVolumeAttachQuotaExceeded_def ReasonIaaSPermissionDenied_def ReasonVolumeInErrorState_def
  ReasonIaaSThrottled_def ReasonIaaSServerError_def ReasonIaaSUnreachable_def
  ReasonIaaSResourceNotFound_def ReasonIaaSAuthFailed_def ReasonIaaSOperationStalled_def
  ReasonIaaSUnknownError_def

definition AllErrorReasons :: "string list" where
  "AllErrorReasons =
     [ReasonVolumeQuotaExceeded, ReasonVolumeSizeQuotaExceeded, ReasonVolumeAttachQuotaExceeded,
      ReasonIaaSPermissionDenied, ReasonVolumeInErrorState, ReasonIaaSThrottled,
      ReasonIaaSServerError, ReasonIaaSUnreachable, ReasonIaaSResourceNotFound,
      ReasonIaaSAuthFailed, ReasonIaaSOperationStalled, ReasonIaaSUnknownError]"

record error_class =
  cls_Terminal :: bool
  cls_Reason :: string

definition errSetQuotaExceeded :: "error_code set" where
  "errSetQuotaExceeded = {EcVServerVolumeExceedQuota}"

definition errSetSizeQuotaExceeded :: "error_code set" where
  "errSetSizeQuotaExceeded = {EcVServerVolumeSizeExceedGlobalQuota}"

definition errSetAttachQuotaExceeded :: "error_code set" where
  "errSetAttachQuotaExceeded = {EcVServerServerVolumeAttachQuotaExceeded}"

definition errSetResourceNotFound :: "error_code set" where
  "errSetResourceNotFound =
     {EcVServerVolumeNotFound, EcVServerServerNotFound, LsEcVServerVolumeNotFound}"

definition errSetOperationStalled :: "error_code set" where
  "errSetOperationStalled = {EcVServerVolumeInProcess, EcVServerVolumeIsMigrating}"

lemmas err_set_defs = errSetQuotaExceeded_def errSetSizeQuotaExceeded_def
  errSetAttachQuotaExceeded_def errSetResourceNotFound_def errSetOperationStalled_def

definition effectiveCode :: "ierror \<Rightarrow> error_code" where
  "effectiveCode perr =
     (case ie_params perr ''sdkErrorCode'' of
        Some (PStr s) \<Rightarrow> if s \<noteq> OtherCode '''' then s else ie_code perr
      | _ \<Rightarrow> ie_code perr)"

definition hasResponseStatus :: "ierror \<Rightarrow> bool" where
  "hasResponseStatus perr =
     (case ie_params perr ''statusCode'' of Some (PInt status) \<Rightarrow> status \<noteq> 0 | _ \<Rightarrow> False)"

definition hasServerErrorStatus :: "ierror \<Rightarrow> bool" where
  "hasServerErrorStatus perr =
     (case ie_params perr ''statusCode'' of Some (PInt status) \<Rightarrow> 500 \<le> status | _ \<Rightarrow> False)"

definition hasResponseStatusCode :: "ierror \<Rightarrow> int \<Rightarrow> bool" where
  "hasResponseStatusCode perr pstatus =
     (case ie_params perr ''statusCode'' of Some (PInt status) \<Rightarrow> status = pstatus | _ \<Rightarrow> False)"

definition transient :: "string \<Rightarrow> error_class" where
  "transient r = \<lparr>cls_Terminal = False, cls_Reason = r\<rparr>"

definition terminal :: "string \<Rightarrow> error_class" where
  "terminal r = \<lparr>cls_Terminal = True, cls_Reason = r\<rparr>"

definition Classify :: "ierror option \<Rightarrow> error_class" where
  "Classify perr = (case perr of None \<Rightarrow> transient '''' | Some e \<Rightarrow>
     (let code = effectiveCode e in
      if code \<in> errSetQuotaExceeded then terminal ReasonVolumeQuotaExceeded
      else if code \<in> errSetSizeQuotaExceeded then terminal ReasonVolumeSizeQuotaExceeded
      else if code \<in> errSetAttachQuotaExceeded then terminal ReasonVolumeAttachQuotaExceeded
      else if code = LsEcVServerVolumeIsInErrorState then terminal ReasonVolumeInErrorState
      else if hasResponseStatusCode e 429 then transient ReasonIaaSThrottled
      else if hasResponseStatusCode e 403 then terminal ReasonIaaSPermissionDenied
      else if hasResponseStatusCode e 401 then terminal ReasonIaaSAuthFailed
      else if code = EcInternalServerError \<or> code = EcServiceMaintenance
        then transient ReasonIaaSServerError
      else if code \<in> errSetOperationStalled then transient ReasonIaaSOperationStalled
      else if code \<in> errSetResourceNotFound then transient ReasonIaaSResourceNotFound
      else if code = EcCsiClientRateLimited then transient ReasonIaaSThrottled
      else if code = LsEcVServerVolumeFailedToDetach \<or> code = LsEcVServerVolumeFailedToDelete
        then transient ReasonIaaSOperationStalled
      else if code = EcUnexpectedError then
        (if hasServerErrorStatus e then transient ReasonIaaSServerError
         else if \<not> hasResponseStatus e then transient ReasonIaaSUnreachable
         else if hasResponseStatusCode e 404 then transient ReasonIaaSResourceNotFound
         else transient ReasonIaaSUnknownError)
      else transient ReasonIaaSUnknownError))"

lemmas classify_defs = Classify_def transient_def terminal_def Let_def

section \<open>The classifier reads the code and the status only\<close>

definition status_of :: "ierror \<Rightarrow> pval option" where
  "status_of e = ie_params e ''statusCode''"

lemma Classify_cong:
  assumes "effectiveCode a = effectiveCode b" and "status_of a = status_of b"
  shows "Classify (Some a) = Classify (Some b)"
proof -
  have "hasResponseStatusCode a s = hasResponseStatusCode b s" for s
    using assms(2) by (simp add: hasResponseStatusCode_def status_of_def)
  moreover have "hasResponseStatus a = hasResponseStatus b"
    using assms(2) by (simp add: hasResponseStatus_def status_of_def)
  moreover have "hasServerErrorStatus a = hasServerErrorStatus b"
    using assms(2) by (simp add: hasServerErrorStatus_def status_of_def)
  ultimately show ?thesis
    using assms(1) by (simp only: Classify_def option.case)
qed

text \<open>A wrapper that carries an SDK error is classified as that error.\<close>

lemma Classify_wrap_sdk:
  assumes merge: "merge_ok merge"
    and plain: "ie_params x ''sdkErrorCode'' = None"
    and named: "ie_code x \<noteq> OtherCode ''''"
    and base: "ie_params e ''statusCode'' = None"
  shows "Classify (Some (wrap_sdk merge e (Some x))) = Classify (Some x)"
proof (rule Classify_cong)
  show "effectiveCode (wrap_sdk merge e (Some x)) = effectiveCode x"
    using plain named by (simp add: effectiveCode_def)
  show "status_of (wrap_sdk merge e (Some x)) = status_of x"
    using merge_ok_new [OF merge] merge_ok_absent [OF merge] base
    by (cases "ie_params x ''statusCode''") (auto simp: status_of_def)
qed

lemma Classify_reason: "cls_Reason (Classify (Some e)) \<in> set AllErrorReasons"
  by (simp add: classify_defs AllErrorReasons_def)

definition terminal_reasons :: "string list" where
  "terminal_reasons =
     [ReasonVolumeQuotaExceeded, ReasonVolumeSizeQuotaExceeded, ReasonVolumeAttachQuotaExceeded,
      ReasonVolumeInErrorState, ReasonIaaSPermissionDenied, ReasonIaaSAuthFailed]"

lemma Classify_terminal:
  "cls_Terminal (Classify (Some e)) \<longleftrightarrow> cls_Reason (Classify (Some e)) \<in> set terminal_reasons"
  by (simp add: classify_defs terminal_reasons_def reason_defs)

section \<open>Properties\<close>

text \<open>C34: The classifier is total over IaaS errors: the reason is one of the enumerated reasons (so the
pre-created series cover every label), and an error is terminal exactly for the quota, error-state,
permission and authentication reasons.\<close>

theorem Classify_total:
  "cls_Reason (Classify (Some e)) \<in> set AllErrorReasons \<and>
   (cls_Terminal (Classify (Some e)) \<longleftrightarrow> cls_Reason (Classify (Some e)) \<in>
      {ReasonVolumeQuotaExceeded, ReasonVolumeSizeQuotaExceeded, ReasonVolumeAttachQuotaExceeded,
       ReasonVolumeInErrorState, ReasonIaaSPermissionDenied, ReasonIaaSAuthFailed})"
  using Classify_reason [of e] Classify_terminal [of e] by (simp add: terminal_reasons_def)

text \<open>The order of the checks: a 429 is throttling and never terminal, whatever the code, unless the
code names an exhausted quota or a volume in error state; a 403 and a 401 without such a code are
terminal.\<close>

theorem Classify_status_order:
  assumes "effectiveCode e \<notin> {EcVServerVolumeExceedQuota, EcVServerVolumeSizeExceedGlobalQuota,
      EcVServerServerVolumeAttachQuotaExceeded, LsEcVServerVolumeIsInErrorState}"
  shows "(ie_params e ''statusCode'' = Some (PInt 429) \<longrightarrow>
      Classify (Some e) = \<lparr>cls_Terminal = False, cls_Reason = ReasonIaaSThrottled\<rparr>) \<and>
    (ie_params e ''statusCode'' = Some (PInt 403) \<longrightarrow>
      Classify (Some e) = \<lparr>cls_Terminal = True, cls_Reason = ReasonIaaSPermissionDenied\<rparr>) \<and>
    (ie_params e ''statusCode'' = Some (PInt 401) \<longrightarrow>
      Classify (Some e) = \<lparr>cls_Terminal = True, cls_Reason = ReasonIaaSAuthFailed\<rparr>)"
  using assms by (auto simp: classify_defs err_set_defs hasResponseStatusCode_def)

theorem Classify_status_order_witness:
  "Classify (Some \<lparr>ie_code = EcPermissionDenied, ie_msg = '''', ie_err = None,
      ie_params = [''statusCode'' \<mapsto> PInt 429]\<rparr>)
    = \<lparr>cls_Terminal = False, cls_Reason = ReasonIaaSThrottled\<rparr>"
  using Classify_status_order [of "\<lparr>ie_code = EcPermissionDenied, ie_msg = '''', ie_err = None,
      ie_params = [''statusCode'' \<mapsto> PInt 429]\<rparr>"]
  by (simp add: effectiveCode_def)

text \<open>C35: Wrapping an SDK error into one of the driver's own errors does not change its class: the wrapped
detach, attach, delete and get errors are classified as the SDK error they carry.\<close>

theorem Classify_wrapper_transparent:
  assumes "merge_ok merge" and "ie_params x ''sdkErrorCode'' = None" and "ie_code x \<noteq> OtherCode ''''"
  shows "Classify (Some (ErrVolumeFailedToDetach merge i v (Some x))) = Classify (Some x)
    \<and> Classify (Some (ErrVolumeFailedToAttach merge i v (Some x))) = Classify (Some x)
    \<and> Classify (Some (ErrVolumeFailedToDelete merge v (Some x))) = Classify (Some x)
    \<and> Classify (Some (ErrVolumeFailedToGet merge v (Some x))) = Classify (Some x)"
  unfolding err_defs by (intro conjI Classify_wrap_sdk assms) simp_all

theorem Classify_wrapper_transparent_witness:
  "cls_Reason (Classify (Some (ErrVolumeFailedToDetach (++) ''i'' ''v''
      (Some \<lparr>ie_code = EcVServerVolumeInProcess, ie_msg = '''', ie_err = None,
             ie_params = [''statusCode'' \<mapsto> PInt 400]\<rparr>)))) = ReasonIaaSOperationStalled"
  using Classify_wrapper_transparent [OF merge_ok_map_add, of "\<lparr>ie_code = EcVServerVolumeInProcess,
      ie_msg = '''', ie_err = None, ie_params = [''statusCode'' \<mapsto> PInt 400]\<rparr>" "''i''" "''v''"]
  by (simp add: effectiveCode_def hasResponseStatusCode_def Classify_def err_set_defs transient_def)

end
