(* ===== verification/MetricNames.thy ===== *)
theory MetricNames
  imports Complex_Main CsiPrelude
begin

text \<open>
  The constants of \<^verbatim>\<open>pkg/metrics/names.go\<close>: metric names and help texts, label keys, label
  values and histogram buckets.
\<close>

section \<open>names.go\<close>

definition DetachPendingSeconds :: string where
  "DetachPendingSeconds = ''vks_csi_volume_detach_pending_seconds''"

definition DetachPendingSecondsHelp :: string where
  "DetachPendingSecondsHelp = ''seconds a (volume, node) pair has been failing to detach, measured from its first failure''"

definition DetachBreakerTrips :: string where
  "DetachBreakerTrips = ''vks_csi_detach_breaker_trips_total''"

definition DetachBreakerTripsHelp :: string where
  "DetachBreakerTripsHelp = ''detach circuit-breaker trips and backoff-step increases, by error reason''"

definition DeletePendingSeconds :: string where
  "DeletePendingSeconds = ''vks_csi_volume_delete_pending_seconds''"

definition DeletePendingSecondsHelp :: string where
  "DeletePendingSecondsHelp = ''seconds a volume has been failing to delete, measured from its first failure''"

definition DeleteBreakerTrips :: string where
  "DeleteBreakerTrips = ''vks_csi_delete_breaker_trips_total''"

definition DeleteBreakerTripsHelp :: string where
  "DeleteBreakerTripsHelp = ''delete circuit-breaker trips and backoff-step increases, by error reason''"

definition IaaSErrors :: string where
  "IaaSErrors = ''vks_csi_iaas_errors_total''"

definition IaaSErrorsHelp :: string where
  "IaaSErrorsHelp = ''IaaS errors returned to the driver, by operation and classified reason''"

definition APIRequestDuration :: string where
  "APIRequestDuration = ''vks_csi_api_request_duration_seconds''"

definition APIRequestDurationHelp :: string where
  "APIRequestDurationHelp = ''latency of a vServer API call, by normalised route and method''"

definition APIRequests :: string where
  "APIRequests = ''vks_csi_api_requests_total''"

definition APIRequestsHelp :: string where
  "APIRequestsHelp = ''vServer API calls, by normalised route, method and outcome''"

definition APIRequestErrors :: string where
  "APIRequestErrors = ''vks_csi_api_request_errors_total''"

definition APIRequestErrorsHelp :: string where
  "APIRequestErrorsHelp = ''vServer API calls that failed, by normalised route, method, SDK error code and HTTP status''"

definition APIRequestThrottles :: string where
  "APIRequestThrottles = ''vks_csi_api_request_throttles_total''"

definition APIRequestThrottlesHelp :: string where
  "APIRequestThrottlesHelp = ''vServer API calls rejected with HTTP 429, by normalised route and method''"

definition APIRequestsShed :: string where
  "APIRequestsShed = ''vks_csi_api_requests_shed_total''"

definition APIRequestsShedHelp :: string where
  "APIRequestsShedHelp = ''vServer API calls shed by the driver'' @ [CHR 0x27] @ ''s own rate limiter before leaving the process''"

definition RateLimiterQPS :: string where
  "RateLimiterQPS = ''vks_csi_rate_limiter_qps''"

definition RateLimiterQPSHelp :: string where
  "RateLimiterQPSHelp = ''current requests-per-second ceiling of the driver'' @ [CHR 0x27] @ ''s adaptive rate limiter''"

definition OperationsInFlight :: string where
  "OperationsInFlight = ''vks_csi_operations_inflight''"

definition OperationsInFlightHelp :: string where
  "OperationsInFlightHelp = ''CSI RPCs currently being served, by operation''"

definition OperationDuration :: string where
  "OperationDuration = ''vks_csi_operation_duration_seconds''"

definition OperationDurationHelp :: string where
  "OperationDurationHelp = ''duration of a CSI RPC, by operation and outcome''"

definition CreateGateWaiting :: string where
  "CreateGateWaiting = ''vks_csi_volume_create_gate_waiting''"

definition CreateGateWaitingHelp :: string where
  "CreateGateWaitingHelp = ''CreateVolume calls waiting for a slot in the concurrency gate''"

definition CreateGateWaitSeconds :: string where
  "CreateGateWaitSeconds = ''vks_csi_volume_create_gate_wait_seconds''"

definition CreateGateWaitSecondsHelp :: string where
  "CreateGateWaitSecondsHelp = ''seconds a CreateVolume call waited for a slot in the concurrency gate''"

definition LabelRoute :: string where
  "LabelRoute = ''route''"

definition LabelMethod :: string where
  "LabelMethod = ''method''"

definition LabelOutcome :: string where
  "LabelOutcome = ''outcome''"

definition LabelCode :: string where
  "LabelCode = ''code''"

definition LabelStatus :: string where
  "LabelStatus = ''status''"

definition LabelOp :: string where
  "LabelOp = ''op''"

definition LabelReason :: string where
  "LabelReason = ''reason''"

definition LabelVolumeID :: string where
  "LabelVolumeID = ''volume_id''"

definition LabelNodeID :: string where
  "LabelNodeID = ''node_id''"

definition OutcomeOK :: string where
  "OutcomeOK = ''ok''"

definition OutcomeError :: string where
  "OutcomeError = ''error''"

definition OutcomeThrottled :: string where
  "OutcomeThrottled = ''throttled''"

definition OutcomeShed :: string where
  "OutcomeShed = ''shed''"

definition OpCreate :: string where
  "OpCreate = ''create''"

definition OpAttach :: string where
  "OpAttach = ''attach''"

definition OpDetach :: string where
  "OpDetach = ''detach''"

definition OpDelete :: string where
  "OpDelete = ''delete''"

definition StatusNone :: string where
  "StatusNone = ''none''"

definition ValueUnknown :: string where
  "ValueUnknown = ''unknown''"

definition APIRequestDurationBuckets :: "rat list" where
  "APIRequestDurationBuckets =
     [5/1000, 1/100, 25/1000, 5/100, 1/10, 1/4, 1/2, 1, 5/2, 5, 10, 30, 60, 120]"

definition OperationDurationBuckets :: "rat list" where
  "OperationDurationBuckets = [1/10, 1/2, 1, 5/2, 5, 10, 30, 60, 120, 300, 600]"

definition CreateGateWaitBuckets :: "rat list" where
  "CreateGateWaitBuckets = [1/100, 1/10, 1/2, 1, 5/2, 5, 10, 30, 60, 120]"

text \<open>The metric names, the label keys and the label values, for proofs that tell them apart.\<close>

lemmas metric_name_defs =
  DetachPendingSeconds_def DetachBreakerTrips_def DeletePendingSeconds_def
  DeleteBreakerTrips_def IaaSErrors_def APIRequestDuration_def APIRequests_def
  APIRequestErrors_def APIRequestThrottles_def APIRequestsShed_def RateLimiterQPS_def
  OperationsInFlight_def OperationDuration_def CreateGateWaiting_def CreateGateWaitSeconds_def

lemmas label_defs =
  LabelRoute_def LabelMethod_def LabelOutcome_def LabelCode_def LabelStatus_def LabelOp_def
  LabelReason_def LabelVolumeID_def LabelNodeID_def

lemmas label_value_defs =
  OutcomeOK_def OutcomeError_def OutcomeThrottled_def OutcomeShed_def StatusNone_def ValueUnknown_def OpCreate_def
  OpAttach_def OpDetach_def OpDelete_def

end
