(* ===== verification/Metrics.thy ===== *)
theory Metrics
  imports MetricNames
begin

text \<open>
  The metric recorder of \<^verbatim>\<open>pkg/metrics/metrics.go\<close>. Every method holds the recorder's mutex for
  its whole body, so each is one atomic step. The recorder's own state is the table from a name to
  the vector registered under it; what the vectors do with the calls they receive is Prometheus
  code, so the calls are recorded in order. A Go type assertion on a vector of another kind panics.
  The other components emit lists of recorder calls (\<open>mop\<close>), and \<open>run_mops\<close> runs them.
\<close>

section \<open>metrics.go\<close>

text \<open>A Go label map, and its nil value, as the set of its pairs.\<close>

type_synonym labels = "(string \<times> string) set"

datatype vec_kind = CounterVec | GaugeVec | HistogramVec

record vec =
  vec_kind :: vec_kind
  vec_help :: string
  vec_labels :: "string set"
  vec_buckets :: "rat list"

text \<open>The calls a vector receives for one label set.\<close>

datatype vec_call = Inc | Observe rat | SetTo rat | Add rat | DeleteSeries | Touch

record recorder =
  rec_metrics :: "string \<rightharpoonup> vec"
  rec_calls :: "(string \<times> labels \<times> vec_call) list"

definition InitializeRecorder :: "recorder option \<Rightarrow> recorder option" where
  "InitializeRecorder r =
     (case r of None \<Rightarrow> Some \<lparr>rec_metrics = Map.empty, rec_calls = []\<rparr> | Some m \<Rightarrow> Some m)"

definition getLabelNames :: "labels \<Rightarrow> string set" where
  "getLabelNames ls = fst ` ls"

definition registerVec ::
    "vec_kind \<Rightarrow> string \<Rightarrow> string \<Rightarrow> string set \<Rightarrow> rat list \<Rightarrow> recorder \<Rightarrow> recorder" where
  "registerVec kind name help names buckets m =
     (if rec_metrics m name \<noteq> None then m
      else m\<lparr>rec_metrics := (rec_metrics m)(name \<mapsto>
        \<lparr>vec_kind = kind, vec_help = help, vec_labels = names, vec_buckets = buckets\<rparr>)\<rparr>)"

definition registerCounterVec :: "string \<Rightarrow> string \<Rightarrow> string set \<Rightarrow> recorder \<Rightarrow> recorder" where
  "registerCounterVec name help names = registerVec CounterVec name help names []"

definition registerGaugeVec :: "string \<Rightarrow> string \<Rightarrow> string set \<Rightarrow> recorder \<Rightarrow> recorder" where
  "registerGaugeVec name help names = registerVec GaugeVec name help names []"

definition registerHistogramVec ::
    "string \<Rightarrow> string \<Rightarrow> string set \<Rightarrow> rat list \<Rightarrow> recorder \<Rightarrow> recorder" where
  "registerHistogramVec name help names buckets = registerVec HistogramVec name help names buckets"

text \<open>\<open>metric.(*metrics.XVec).With(labels).call\<close>: the assertion panics on another kind.\<close>

definition assert_call ::
    "vec_kind \<Rightarrow> string \<Rightarrow> labels \<Rightarrow> vec_call \<Rightarrow> recorder \<Rightarrow> recorder option go" where
  "assert_call kind name ls call m =
     (case rec_metrics m name of
        None \<Rightarrow> Panic
      | Some v \<Rightarrow>
          if vec_kind v = kind then Return (Some (m\<lparr>rec_calls := rec_calls m @ [(name, ls, call)]\<rparr>))
          else Panic)"

definition IncreaseCount :: "string \<Rightarrow> string \<Rightarrow> labels \<Rightarrow> recorder option \<Rightarrow> recorder option go" where
  "IncreaseCount name help ls r = (case r of None \<Rightarrow> Return None | Some m \<Rightarrow>
     let m = (if rec_metrics m name = None then registerCounterVec name help (getLabelNames ls) m else m)
     in assert_call CounterVec name ls Inc m)"

definition ObserveHistogram ::
    "string \<Rightarrow> string \<Rightarrow> rat \<Rightarrow> labels \<Rightarrow> rat list \<Rightarrow> recorder option \<Rightarrow> recorder option go" where
  "ObserveHistogram name help x ls buckets r = (case r of None \<Rightarrow> Return None | Some m \<Rightarrow>
     let m = (if rec_metrics m name = None
              then registerHistogramVec name help (getLabelNames ls) buckets m else m)
     in assert_call HistogramVec name ls (Observe x) m)"

definition SetGauge ::
    "string \<Rightarrow> string \<Rightarrow> rat \<Rightarrow> labels \<Rightarrow> recorder option \<Rightarrow> recorder option go" where
  "SetGauge name help x ls r = (case r of None \<Rightarrow> Return None | Some m \<Rightarrow>
     let m = (if rec_metrics m name = None then registerGaugeVec name help (getLabelNames ls) m else m)
     in assert_call GaugeVec name ls (SetTo x) m)"

definition DeleteGauge :: "string \<Rightarrow> labels \<Rightarrow> recorder option \<Rightarrow> recorder option go" where
  "DeleteGauge name ls r = (case r of None \<Rightarrow> Return None | Some m \<Rightarrow>
     if rec_metrics m name = None then Return (Some m)
     else assert_call GaugeVec name ls DeleteSeries m)"

definition AddGauge ::
    "string \<Rightarrow> string \<Rightarrow> rat \<Rightarrow> labels \<Rightarrow> recorder option \<Rightarrow> recorder option go" where
  "AddGauge name help d ls r = (case r of None \<Rightarrow> Return None | Some m \<Rightarrow>
     let m = (if rec_metrics m name = None then registerGaugeVec name help (getLabelNames ls) m else m)
     in assert_call GaugeVec name ls (Add d) m)"

definition InitializeCounter ::
    "string \<Rightarrow> string \<Rightarrow> labels \<Rightarrow> recorder option \<Rightarrow> recorder option go" where
  "InitializeCounter name help ls r = (case r of None \<Rightarrow> Return None | Some m \<Rightarrow>
     let m = (if rec_metrics m name = None then registerCounterVec name help (getLabelNames ls) m else m)
     in assert_call CounterVec name ls (Add 0) m)"

definition InitializeGauge ::
    "string \<Rightarrow> string \<Rightarrow> labels \<Rightarrow> recorder option \<Rightarrow> recorder option go" where
  "InitializeGauge name help ls r = (case r of None \<Rightarrow> Return None | Some m \<Rightarrow>
     let m = (if rec_metrics m name = None then registerGaugeVec name help (getLabelNames ls) m else m)
     in assert_call GaugeVec name ls (Add 0) m)"

text \<open>The comma-ok assertion of \<open>InitializeHistogram\<close> skips a vector of another kind.\<close>

definition InitializeHistogram ::
    "string \<Rightarrow> string \<Rightarrow> labels \<Rightarrow> rat list \<Rightarrow> recorder option \<Rightarrow> recorder option go" where
  "InitializeHistogram name help ls buckets r = (case r of None \<Rightarrow> Return None | Some m \<Rightarrow>
     let m = (if rec_metrics m name = None
              then registerHistogramVec name help (getLabelNames ls) buckets m else m)
     in (case rec_metrics m name of
           None \<Rightarrow> Return (Some m)
         | Some v \<Rightarrow>
             if vec_kind v = HistogramVec
             then Return (Some (m\<lparr>rec_calls := rec_calls m @ [(name, ls, Touch)]\<rparr>))
             else Return (Some m)))"

section \<open>Recorder calls as values\<close>

text \<open>\<open>Duration.Seconds()\<close>, without the rounding to \<open>float64\<close>: it only feeds histograms and gauges.\<close>

definition seconds :: "int \<Rightarrow> rat" where
  "seconds d = of_int d / of_int Second"

datatype mop =
    MIncreaseCount string string labels
  | MObserveHistogram string string rat labels "rat list"
  | MSetGauge string string rat labels
  | MDeleteGauge string labels
  | MAddGauge string string rat labels
  | MInitializeCounter string string labels
  | MInitializeGauge string string labels
  | MInitializeHistogram string string labels "rat list"

fun run_mop :: "mop \<Rightarrow> recorder option \<Rightarrow> recorder option go" where
  "run_mop (MIncreaseCount name help ls) r = IncreaseCount name help ls r"
| "run_mop (MObserveHistogram name help x ls buckets) r = ObserveHistogram name help x ls buckets r"
| "run_mop (MSetGauge name help x ls) r = SetGauge name help x ls r"
| "run_mop (MDeleteGauge name ls) r = DeleteGauge name ls r"
| "run_mop (MAddGauge name help d ls) r = AddGauge name help d ls r"
| "run_mop (MInitializeCounter name help ls) r = InitializeCounter name help ls r"
| "run_mop (MInitializeGauge name help ls) r = InitializeGauge name help ls r"
| "run_mop (MInitializeHistogram name help ls buckets) r = InitializeHistogram name help ls buckets r"

fun run_mops :: "mop list \<Rightarrow> recorder option \<Rightarrow> recorder option go" where
  "run_mops [] r = Return r"
| "run_mops (c # cs) r = (case run_mop c r of Panic \<Rightarrow> Panic | Return r' \<Rightarrow> run_mops cs r')"

lemma run_mops_append:
  "run_mops (cs @ ds) r = (case run_mops cs r of Panic \<Rightarrow> Panic | Return r' \<Rightarrow> run_mops ds r')"
  by (induction cs arbitrary: r) (auto split: go.split)

section \<open>The shape of every metric\<close>

text \<open>
  The one kind and label set each metric of \<^verbatim>\<open>names.go\<close> is meant to have. The recorder does not
  check it: a caller that disagrees with the first registration panics (another kind) or hands the
  vector label names it was not declared with.
\<close>

definition metric_shapes :: "(string \<times> vec_kind \<times> string set) list" where
  "metric_shapes =
     [(DetachPendingSeconds, GaugeVec, {LabelVolumeID, LabelNodeID}),
      (DetachBreakerTrips, CounterVec, {LabelReason}),
      (DeletePendingSeconds, GaugeVec, {LabelVolumeID}),
      (DeleteBreakerTrips, CounterVec, {LabelReason}),
      (IaaSErrors, CounterVec, {LabelOp, LabelReason}),
      (APIRequestDuration, HistogramVec, {LabelRoute, LabelMethod}),
      (APIRequests, CounterVec, {LabelRoute, LabelMethod, LabelOutcome}),
      (APIRequestErrors, CounterVec, {LabelRoute, LabelMethod, LabelCode, LabelStatus}),
      (APIRequestThrottles, CounterVec, {LabelRoute, LabelMethod}),
      (APIRequestsShed, CounterVec, {LabelRoute, LabelMethod}),
      (RateLimiterQPS, GaugeVec, {}),
      (OperationsInFlight, GaugeVec, {LabelOp}),
      (OperationDuration, HistogramVec, {LabelOp, LabelOutcome}),
      (CreateGateWaiting, GaugeVec, {}),
      (CreateGateWaitSeconds, HistogramVec, {})]"

definition shape_ok :: "string \<Rightarrow> vec_kind \<Rightarrow> labels \<Rightarrow> bool" where
  "shape_ok name kind ls \<longleftrightarrow> map_of metric_shapes name = Some (kind, getLabelNames ls)"

fun mop_ok :: "mop \<Rightarrow> bool" where
  "mop_ok (MIncreaseCount name help ls) = shape_ok name CounterVec ls"
| "mop_ok (MObserveHistogram name help x ls buckets) = shape_ok name HistogramVec ls"
| "mop_ok (MSetGauge name help x ls) = shape_ok name GaugeVec ls"
| "mop_ok (MDeleteGauge name ls) = shape_ok name GaugeVec ls"
| "mop_ok (MAddGauge name help d ls) = shape_ok name GaugeVec ls"
| "mop_ok (MInitializeCounter name help ls) = shape_ok name CounterVec ls"
| "mop_ok (MInitializeGauge name help ls) = shape_ok name GaugeVec ls"
| "mop_ok (MInitializeHistogram name help ls buckets) = shape_ok name HistogramVec ls"

text \<open>
  Every registered vector has its metric's shape, and every call a vector received carries exactly
  the label names the vector was declared with.
\<close>

definition recorder_inv :: "recorder \<Rightarrow> bool" where
  "recorder_inv m \<longleftrightarrow>
     (\<forall>name v. rec_metrics m name = Some v \<longrightarrow>
        map_of metric_shapes name = Some (vec_kind v, vec_labels v)) \<and>
     (\<forall>(name, ls, c) \<in> set (rec_calls m).
        \<exists>v. rec_metrics m name = Some v \<and> getLabelNames ls = vec_labels v)"

definition recorder_ok :: "recorder option \<Rightarrow> bool" where
  "recorder_ok r = (case r of None \<Rightarrow> True | Some m \<Rightarrow> recorder_inv m)"

lemma recorder_ok_init: "recorder_ok (InitializeRecorder None)"
  by (simp add: recorder_ok_def recorder_inv_def InitializeRecorder_def)

lemma recorder_inv_register:
  assumes "recorder_inv m" and "shape_ok name kind ls"
  shows "recorder_inv (registerVec kind name help (getLabelNames ls) buckets m)"
  using assms by (fastforce simp: recorder_inv_def registerVec_def shape_ok_def)

lemma registered_after [simp]:
  "rec_metrics (registerVec kind name help names buckets m) name \<noteq> None"
  by (simp add: registerVec_def)

lemma recorder_inv_call:
  assumes "recorder_inv m" and "rec_metrics m name = Some v" and "getLabelNames ls = vec_labels v"
  shows "recorder_inv (m\<lparr>rec_calls := rec_calls m @ [(name, ls, c)]\<rparr>)"
  using assms by (auto simp: recorder_inv_def)

lemma assert_call_ok:
  assumes "recorder_inv m" and "shape_ok name kind ls" and "rec_metrics m name \<noteq> None"
  shows "\<exists>m'. assert_call kind name ls call m = Return (Some m') \<and> recorder_inv m'"
  using assms by (auto simp: assert_call_def recorder_inv_def shape_ok_def)

lemmas register_defs = registerCounterVec_def registerGaugeVec_def registerHistogramVec_def

lemmas recorder_defs = IncreaseCount_def ObserveHistogram_def SetGauge_def DeleteGauge_def
  AddGauge_def InitializeCounter_def InitializeGauge_def InitializeHistogram_def

lemma register_call_ok:
  assumes "recorder_inv m" and "shape_ok name kind ls"
  shows "\<exists>m'. assert_call kind name ls call
      (if rec_metrics m name = None then registerVec kind name help (getLabelNames ls) buckets m
       else m) = Return (Some m') \<and> recorder_inv m'"
proof (rule assert_call_ok [OF _ assms(2)])
  show "recorder_inv (if rec_metrics m name = None
      then registerVec kind name help (getLabelNames ls) buckets m else m)"
    using assms recorder_inv_register [OF assms] by simp
qed (simp add: registerVec_def)

lemma init_histogram_ok:
  assumes "recorder_inv m" and "shape_ok name HistogramVec ls"
  shows "\<exists>m'. InitializeHistogram name help ls buckets (Some m) = Return (Some m') \<and> recorder_inv m'"
proof -
  let ?m = "if rec_metrics m name = None
    then registerVec HistogramVec name help (getLabelNames ls) buckets m else m"
  have inv: "recorder_inv ?m"
    using assms recorder_inv_register [OF assms] by simp
  moreover obtain v where v: "rec_metrics ?m name = Some v"
    by (cases "rec_metrics ?m name") (simp_all split: if_splits)
  moreover have "vec_kind v = HistogramVec" "getLabelNames ls = vec_labels v"
    using inv v assms(2) by (auto simp: recorder_inv_def shape_ok_def)
  ultimately show ?thesis
    using recorder_inv_call [of ?m name v ls Touch]
    unfolding InitializeHistogram_def register_defs option.case Let_def by simp
qed

lemma run_mop_ok:
  assumes "recorder_ok r" and "mop_ok c"
  shows "\<exists>r'. run_mop c r = Return r' \<and> recorder_ok r'"
proof (cases r)
  case None
  then show ?thesis by (cases c) (simp_all add: recorder_defs recorder_ok_def)
next
  case (Some m)
  with assms(1) have inv: "recorder_inv m" by (simp add: recorder_ok_def)
  note reg = register_call_ok [OF inv]
  from assms(2) show ?thesis
  proof (cases c)
    case (MDeleteGauge name ls)
    with assms(2) have "shape_ok name GaugeVec ls" by simp
    then show ?thesis
      using assert_call_ok [OF inv, of name GaugeVec ls DeleteSeries] inv MDeleteGauge Some
      by (cases "rec_metrics m name") (auto simp: DeleteGauge_def recorder_ok_def)
  next
    case (MInitializeHistogram name hlp ls buckets)
    with assms(2) init_histogram_ok [OF inv] Some show ?thesis by (fastforce simp: recorder_ok_def)
  qed (insert assms(2) Some reg,
      fastforce simp: recorder_defs register_defs Let_def recorder_ok_def)+
qed

lemma assert_call_some: "assert_call kind name ls call m = Return r \<Longrightarrow> r \<noteq> None"
  by (auto simp: assert_call_def split: option.splits if_splits)

lemma run_mop_some: "run_mop c (Some m) = Return r \<Longrightarrow> r \<noteq> None"
proof (cases c)
  case (MInitializeHistogram name hlp ls buckets)
  then show "run_mop c (Some m) = Return r \<Longrightarrow> r \<noteq> None"
    by (auto simp: InitializeHistogram_def Let_def split: option.splits if_splits)
qed (auto simp: recorder_defs Let_def dest!: assert_call_some split: if_splits)

lemma run_mops_ok:
  assumes "recorder_ok r" and "\<forall>c\<in>set cs. mop_ok c"
  shows "\<exists>r'. run_mops cs r = Return r' \<and> recorder_ok r'"
  using assms
proof (induction cs arbitrary: r)
  case Nil
  then show ?case by simp
next
  case (Cons c cs)
  from Cons.prems obtain r' where "run_mop c r = Return r'" "recorder_ok r'"
    using run_mop_ok [of r c] by auto
  with Cons.IH [of r'] Cons.prems show ?case by simp
qed

section \<open>The value of one series\<close>

text \<open>What Prometheus documents of one gauge or counter child under the calls it receives.\<close>

fun series_step :: "vec_call \<Rightarrow> rat option \<Rightarrow> rat option" where
  "series_step (SetTo x) v = Some x"
| "series_step (Add d) v = Some (case v of None \<Rightarrow> d | Some x \<Rightarrow> x + d)"
| "series_step Inc v = Some (case v of None \<Rightarrow> 1 | Some x \<Rightarrow> x + 1)"
| "series_step Touch v = Some (case v of None \<Rightarrow> 0 | Some x \<Rightarrow> x)"
| "series_step (Observe x) v = v"
| "series_step DeleteSeries v = None"

definition series :: "recorder \<Rightarrow> string \<Rightarrow> labels \<Rightarrow> rat option" where
  "series m name ls = fold (\<lambda>(n, l, c) v. if n = name \<and> l = ls then series_step c v else v)
     (rec_calls m) None"

text \<open>The same along a list of recorder calls.\<close>

fun mop_series :: "string \<Rightarrow> labels \<Rightarrow> mop \<Rightarrow> rat option \<Rightarrow> rat option" where
  "mop_series n l (MIncreaseCount name help ls) v =
     (if name = n \<and> ls = l then series_step Inc v else v)"
| "mop_series n l (MObserveHistogram name help x ls b) v = v"
| "mop_series n l (MSetGauge name help x ls) v =
     (if name = n \<and> ls = l then series_step (SetTo x) v else v)"
| "mop_series n l (MDeleteGauge name ls) v = (if name = n \<and> ls = l then None else v)"
| "mop_series n l (MAddGauge name help d ls) v =
     (if name = n \<and> ls = l then series_step (Add d) v else v)"
| "mop_series n l (MInitializeCounter name help ls) v =
     (if name = n \<and> ls = l then series_step (Add 0) v else v)"
| "mop_series n l (MInitializeGauge name help ls) v =
     (if name = n \<and> ls = l then series_step (Add 0) v else v)"
| "mop_series n l (MInitializeHistogram name help ls b) v = v"

lemma series_append:
  "series (m\<lparr>rec_calls := rec_calls m @ [(name, ls, c)]\<rparr>) n l =
    (if name = n \<and> ls = l then series_step c (series m n l) else series m n l)"
  by (simp add: series_def)

lemma series_register [simp]:
  "series (registerVec kind name help names buckets m) n l = series m n l"
  by (simp add: series_def registerVec_def)

text \<open>
  A run of well-shaped calls leaves on the recorder, for a gauge or counter, exactly the series that
  \<open>mop_series\<close> computes along the calls.
\<close>

lemma series_unregistered:
  assumes "recorder_inv m" and "rec_metrics m n = None"
  shows "series m n l = None"
proof -
  have "fold (\<lambda>(x, y, c) v. if x = n \<and> y = l then series_step c v else v) cs v = v"
    if "\<forall>(x, y, c) \<in> set cs. x \<noteq> n" for cs and v :: "rat option"
    using that by (induction cs) auto
  moreover have "\<forall>(x, y, c) \<in> set (rec_calls m). x \<noteq> n"
    using assms by (fastforce simp: recorder_inv_def)
  ultimately show ?thesis by (simp add: series_def)
qed

lemma assert_call_series:
  assumes "assert_call kind name ls call m = Return (Some m')"
  shows "series m' n l = (if name = n \<and> ls = l then series_step call (series m n l) else series m n l)"
  using assms by (auto simp: assert_call_def series_append split: option.splits if_splits)

lemma init_histogram_series:
  assumes "InitializeHistogram name help ls buckets (Some m) = Return (Some m')" and "name \<noteq> n"
  shows "series m' n l = series m n l"
proof -
  let ?m = "if rec_metrics m name = None
    then registerVec HistogramVec name help (getLabelNames ls) buckets m else m"
  from assms(1) have "m' = ?m \<or> m' = ?m\<lparr>rec_calls := rec_calls ?m @ [(name, ls, Touch)]\<rparr>"
    unfolding InitializeHistogram_def register_defs option.case Let_def
    by (auto split: option.splits if_splits)
  with assms(2) show ?thesis by (elim disjE) (simp_all add: series_append)
qed

lemma run_mop_series:
  assumes inv: "recorder_inv m" and ok: "mop_ok c" and run: "run_mop c (Some m) = Return (Some m')"
    and shape: "map_of metric_shapes n = Some (kind, names)" "kind \<noteq> HistogramVec"
  shows "series m' n l = mop_series n l c (series m n l)"
proof -
  have reg: "series (if rec_metrics m name = None then registerVec k name hlp names' b m else m) n l =
      series m n l" for k name hlp names' b by simp
  show ?thesis
  proof (cases c)
    case (MDeleteGauge name ls)
    then show ?thesis
      using run series_unregistered [OF inv, of n l]
      by (auto simp: DeleteGauge_def assert_call_series split: if_splits)
  next
    case (MInitializeHistogram name hlp ls buckets)
    with ok shape have "name \<noteq> n" by (auto simp: shape_ok_def)
    with MInitializeHistogram run show ?thesis by (simp add: init_histogram_series)
  qed (use run reg in \<open>simp add: recorder_defs register_defs Let_def assert_call_series\<close>)+
qed

lemma run_mops_series:
  assumes "recorder_inv m" and "\<forall>c\<in>set cs. mop_ok c"
    and "map_of metric_shapes n = Some (kind, names)" "kind \<noteq> HistogramVec"
  shows "\<exists>m'. run_mops cs (Some m) = Return (Some m') \<and> recorder_inv m' \<and>
    series m' n l = fold (mop_series n l) cs (series m n l)"
  using assms(1,2)
proof (induction cs arbitrary: m)
  case Nil
  then show ?case by simp
next
  case (Cons c cs)
  have ok: "recorder_ok (Some m)" using Cons.prems by (simp add: recorder_ok_def)
  obtain r where r: "run_mop c (Some m) = Return r" "recorder_ok r"
    using run_mop_ok [OF ok] Cons.prems by auto
  obtain m1 where m1: "r = Some m1" "recorder_inv m1"
    using r run_mop_some [of c m r] by (cases r) (auto simp: recorder_ok_def)
  from run_mop_series [OF Cons.prems(1) _ r(1) [unfolded m1(1)] assms(3,4)] Cons.prems(2)
  have "series m1 n l = mop_series n l c (series m n l)" by simp
  with Cons.IH [OF m1(2)] Cons.prems(2) r(1) m1(1) show ?case by simp
qed

section \<open>Properties\<close>

text \<open>A run of recorder calls that all carry their metric's kind and label names never panics, and
leaves every registered vector with its metric's kind and labels.\<close>

theorem recorder_never_panics:
  assumes "recorder_ok r" and "\<forall>c\<in>set cs. mop_ok c"
  shows "\<exists>r'. run_mops cs r = Return r' \<and> recorder_ok r'"
  using assms by (rule run_mops_ok)

theorem recorder_never_panics_witness:
  "\<exists>r'. run_mops [MAddGauge CreateGateWaiting CreateGateWaitingHelp 1 {},
      MAddGauge CreateGateWaiting CreateGateWaitingHelp (-1) {}] (InitializeRecorder None) = Return r'
    \<and> recorder_ok r'"
  by (rule recorder_never_panics [OF recorder_ok_init])
    (simp add: shape_ok_def metric_shapes_def metric_name_defs getLabelNames_def)

end
