(* ===== verification/GoStrings.thy ===== *)
theory GoStrings
  imports CsiPrelude "HOL-Library.Sublist"
begin

text \<open>
  The parts of Go's \<^verbatim>\<open>strings\<close> and \<^verbatim>\<open>strconv\<close> packages the driver uses, on character lists.
  A function that returns a position or -1 in Go returns an option.
\<close>

section \<open>strings\<close>

fun Index :: "string \<Rightarrow> string \<Rightarrow> nat option" where
  "Index [] sub = (if sub = [] then Some 0 else None)"
| "Index (c # cs) sub = (if prefix sub (c # cs) then Some 0 else map_option Suc (Index cs sub))"

definition Contains :: "string \<Rightarrow> string \<Rightarrow> bool" where
  "Contains s sub \<longleftrightarrow> Index s sub \<noteq> None"

fun IndexAny :: "string \<Rightarrow> char list \<Rightarrow> nat option" where
  "IndexAny [] cs = None"
| "IndexAny (d # ds) cs = (if d \<in> set cs then Some 0 else map_option Suc (IndexAny ds cs))"

text \<open>Position of the last occurrence of one character.\<close>

fun LastIndexByte :: "string \<Rightarrow> char \<Rightarrow> nat option" where
  "LastIndexByte [] c = None"
| "LastIndexByte (d # ds) c =
     (case LastIndexByte ds c of Some i \<Rightarrow> Some (Suc i) | None \<Rightarrow> if d = c then Some 0 else None)"

text \<open>\<open>Split\<close> on a one-character separator: never empty, and the empty string gives one empty piece.\<close>

fun SplitOn :: "char \<Rightarrow> string \<Rightarrow> string list" where
  "SplitOn c [] = [[]]"
| "SplitOn c (d # ds) =
     (if d = c then [] # SplitOn c ds
      else (case SplitOn c ds of [] \<Rightarrow> [[d]] | w # ws \<Rightarrow> (d # w) # ws))"

fun JoinWith :: "char \<Rightarrow> string list \<Rightarrow> string" where
  "JoinWith c [] = []"
| "JoinWith c [w] = w"
| "JoinWith c (w # v # ws) = w @ c # JoinWith c (v # ws)"

definition HasPrefix :: "string \<Rightarrow> string \<Rightarrow> bool" where
  "HasPrefix s p \<longleftrightarrow> prefix p s"

definition HasSuffix :: "string \<Rightarrow> string \<Rightarrow> bool" where
  "HasSuffix s p \<longleftrightarrow> suffix p s"

definition TrimPrefix :: "string \<Rightarrow> string \<Rightarrow> string" where
  "TrimPrefix s p = (if prefix p s then drop (length p) s else s)"

text \<open>\<open>TrimSpace\<close>, on the ASCII white space (Go also trims the Unicode one).\<close>

definition space_chars :: "char list" where
  "space_chars = [CHR '' '', CHR 0x09, CHR 0x0A, CHR 0x0B, CHR 0x0C, CHR 0x0D]"

definition TrimSpace :: "string \<Rightarrow> string" where
  "TrimSpace s = rev (dropWhile (\<lambda>c. c \<in> set space_chars) (rev (dropWhile (\<lambda>c. c \<in> set space_chars) s)))"

definition lower_char :: "char \<Rightarrow> char" where
  "lower_char c =
     (if 65 \<le> (of_char c :: nat) \<and> (of_char c :: nat) \<le> 90 then char_of ((of_char c :: nat) + 32) else c)"

definition ToLower :: "string \<Rightarrow> string" where
  "ToLower s = map lower_char s"

definition upper_char :: "char \<Rightarrow> char" where
  "upper_char c =
     (if 97 \<le> (of_char c :: nat) \<and> (of_char c :: nat) \<le> 122 then char_of ((of_char c :: nat) - 32) else c)"

definition ToUpper :: "string \<Rightarrow> string" where
  "ToUpper s = map upper_char s"

text \<open>\<open>EqualFold\<close>, on the ASCII letters (Go also folds other Unicode letters).\<close>

definition EqualFold :: "string \<Rightarrow> string \<Rightarrow> bool" where
  "EqualFold s t \<longleftrightarrow> ToLower s = ToLower t"

lemma EqualFold_refl [simp]: "EqualFold s s"
  by (simp add: EqualFold_def)

lemma SplitOn_not_Nil [simp]: "SplitOn c s \<noteq> []"
  by (induction s) (auto split: list.split)

lemma SplitOn_no_sep: "w \<in> set (SplitOn c s) \<Longrightarrow> c \<notin> set w"
  by (induction s arbitrary: w) (auto split: list.splits if_splits)

lemma SplitOn_single: "c \<notin> set w \<Longrightarrow> SplitOn c w = [w]"
  by (induction w) auto

lemma SplitOn_append: "c \<notin> set w \<Longrightarrow> SplitOn c (w @ c # s) = w # SplitOn c s"
  by (induction w) auto

lemma SplitOn_JoinWith:
  "ws \<noteq> [] \<Longrightarrow> \<forall>w\<in>set ws. c \<notin> set w \<Longrightarrow> SplitOn c (JoinWith c ws) = ws"
  by (induction c ws rule: JoinWith.induct) (auto simp: SplitOn_single SplitOn_append)

lemma JoinWith_SplitOn: "JoinWith c (SplitOn c s) = s"
proof (induction s)
  case Nil
  then show ?case by simp
next
  case (Cons d ds)
  obtain w ws where W: "SplitOn c ds = w # ws" by (cases "SplitOn c ds") auto
  with Cons show ?case by (cases ws) auto
qed

lemma set_JoinWith: "set (JoinWith c ws) \<subseteq> insert c (\<Union> (set ` set ws))"
  by (induction c ws rule: JoinWith.induct) auto

lemma JoinWith_Nil_iff: "JoinWith c ws = [] \<longleftrightarrow> ws = [] \<or> ws = [[]]"
  by (induction c ws rule: JoinWith.induct) auto

lemma Index_None_char: "Index s [c] = None \<longleftrightarrow> c \<notin> set s"
  by (induction s) auto

lemma Index_None_if_no_head: "c \<notin> set s \<Longrightarrow> Index s (c # cs) = None"
  by (induction s) auto

lemma IndexAny_None: "IndexAny s cs = None \<longleftrightarrow> set s \<inter> set cs = {}"
  by (induction s) auto

section \<open>strconv\<close>

definition digit_char :: "nat \<Rightarrow> char" where
  "digit_char n = char_of (48 + n)"

fun nat_digits :: "nat \<Rightarrow> string" where
  "nat_digits n = (if n < 10 then [digit_char n] else nat_digits (n div 10) @ [digit_char (n mod 10)])"

declare nat_digits.simps [simp del]

definition Itoa :: "int \<Rightarrow> string" where
  "Itoa i = (if i < 0 then CHR ''-'' # nat_digits (nat (- i)) else nat_digits (nat i))"

lemma nat_digits_not_Nil [simp]: "nat_digits n \<noteq> []"
  by (subst nat_digits.simps) simp

lemma Itoa_not_Nil [simp]: "Itoa i \<noteq> []"
  by (simp add: Itoa_def)

text \<open>\<open>Atoi\<close>: an optional sign and decimal digits, in the range of \<open>int64\<close>; anything else is an error.\<close>

definition char_digit :: "char \<Rightarrow> nat option" where
  "char_digit c =
     (if 48 \<le> (of_char c :: nat) \<and> (of_char c :: nat) \<le> 57 then Some (of_char c - 48) else None)"

fun parse_digits :: "nat \<Rightarrow> string \<Rightarrow> nat option" where
  "parse_digits acc [] = Some acc"
| "parse_digits acc (c # cs) =
     (case char_digit c of None \<Rightarrow> None | Some d \<Rightarrow> parse_digits (acc * 10 + d) cs)"

definition Atoi :: "string \<Rightarrow> int option" where
  "Atoi s =
     (let ds = (if prefix ''-'' s \<or> prefix ''+'' s then tl s else s) in
      if ds = [] then None
      else (case parse_digits 0 ds of
              None \<Rightarrow> None
            | Some n \<Rightarrow>
                (let v = (if prefix ''-'' s then - int n else int n) in
                 if - (2 ^ 63) \<le> v \<and> v < 2 ^ 63 then Some v else None)))"

lemma parse_digits_append:
  "parse_digits acc (ds @ es) = (case parse_digits acc ds of None \<Rightarrow> None | Some n \<Rightarrow> parse_digits n es)"
  by (induction ds arbitrary: acc) (auto split: option.split)

lemma char_digit_char [simp]: "n < 10 \<Longrightarrow> char_digit (digit_char n) = Some n"
  by (simp add: char_digit_def digit_char_def)

lemma parse_nat_digits: "parse_digits 0 (nat_digits n) = Some n"
proof (induction n rule: nat_digits.induct)
  case (1 n)
  then show ?case
    by (subst nat_digits.simps) (auto simp: parse_digits_append)
qed

lemma hd_nat_digits: "nat_digits n = c # cs \<Longrightarrow> char_digit c \<noteq> None"
  using parse_nat_digits [of n] by (auto split: option.splits)

lemma Atoi_Itoa:
  assumes "- (2 ^ 63) \<le> i" and "i < 2 ^ 63"
  shows "Atoi (Itoa i) = Some i"
proof (cases "i < 0")
  case True
  then show ?thesis
    using assms by (simp add: Atoi_def Itoa_def parse_nat_digits)
next
  case False
  obtain c cs where ds: "nat_digits (nat i) = c # cs" by (cases "nat_digits (nat i)") auto
  have "char_digit CHR ''-'' = None" "char_digit CHR ''+'' = None" by (simp_all add: char_digit_def)
  with hd_nat_digits [OF ds] have "c \<noteq> CHR ''-''" "c \<noteq> CHR ''+''" by auto
  then show ?thesis
    using False assms parse_nat_digits [of "nat i"] by (simp add: Atoi_def Itoa_def ds)
qed

end
