(* ===== verification/ApiRoute.thy ===== *)
theory ApiRoute
  imports GoStrings MetricNames
begin

text \<open>
  \<^verbatim>\<open>pkg/cloud/apiroute.go\<close>: the metric label of a request URL. A segment is kept when it is
  one of the static segments of the vServer API, and becomes the id placeholder otherwise; the route starts
  at the first static segment and is \<open>unknown\<close> when there is none or when it is too long.
\<close>

section \<open>apiroute.go\<close>

definition segVolumes :: string where "segVolumes = ''volumes''"
definition segVolumeTypes :: string where "segVolumeTypes = ''volume_types''"
definition routeIDPlaceholder :: string where "routeIDPlaceholder = ''{id}''"
definition routeUnknown :: string where "routeUnknown = ValueUnknown"
definition maxRouteSegments :: nat where "maxRouteSegments = 6"

definition routeVolumes :: string where "routeVolumes = segVolumes"
definition routeVolumeByID :: string where
  "routeVolumeByID = segVolumes @ ''/'' @ routeIDPlaceholder"
definition routeVolumeTypes :: string where "routeVolumeTypes = segVolumeTypes"
definition routeVolumeTypeByID :: string where
  "routeVolumeTypeByID = segVolumeTypes @ ''/'' @ routeIDPlaceholder"

definition staticRouteSegments :: "string set" where
  "staticRouteSegments =
     {segVolumes, ''servers'', ''snapshots'', ''resize'', ''mapping'', ''change-device-type'', ''tag'',
      ''resource'', ''attach'', ''detach'', segVolumeTypes, ''volume_default_id'',
      ''volume_type_zones'', ''auth'', ''token'', ''projects'', ''detail'', ''zones'', ''quotas'',
      ''quotaUsed''}"

lemmas route_defs = segVolumes_def segVolumeTypes_def routeIDPlaceholder_def routeUnknown_def
  routeVolumes_def routeVolumeByID_def routeVolumeTypes_def routeVolumeTypeByID_def ValueUnknown_def

text \<open>The part of a URL after scheme and host, before query and fragment.\<close>

definition strip_host :: "string \<Rightarrow> string" where
  "strip_host purl =
     (case Index purl ''://'' of
        None \<Rightarrow> purl
      | Some i \<Rightarrow>
          (let rest = drop (i + 3) purl in
           case Index rest ''/'' of Some j \<Rightarrow> drop j rest | None \<Rightarrow> ''/''))"

definition strip_query :: "string \<Rightarrow> string" where
  "strip_query path = (case IndexAny path ''?#'' of None \<Rightarrow> path | Some i \<Rightarrow> take i path)"

text \<open>The loop over the pieces of the path; \<open>None\<close> is the return of \<open>routeUnknown\<close> from inside it.\<close>

fun route_loop :: "bool \<Rightarrow> string list \<Rightarrow> string list \<Rightarrow> string list option" where
  "route_loop started segments [] = Some segments"
| "route_loop started segments (seg # segs) =
     (if seg = '''' then route_loop started segments segs
      else if \<not> started \<and> seg \<notin> staticRouteSegments then route_loop started segments segs
      else if maxRouteSegments \<le> length segments then None
      else if seg \<in> staticRouteSegments then route_loop True (segments @ [seg]) segs
      else route_loop True (segments @ [routeIDPlaceholder]) segs)"

definition NormalizeAPIRoute :: "string \<Rightarrow> string" where
  "NormalizeAPIRoute purl =
     (let path = strip_query (strip_host purl) in
      case route_loop False [] (SplitOn CHR ''/'' path) of
        None \<Rightarrow> routeUnknown
      | Some segments \<Rightarrow>
          if length segments = 0 then routeUnknown else JoinWith CHR ''/'' segments)"

record RouteMethod =
  rm_Route :: string
  rm_Method :: string

abbreviation rm :: "string \<Rightarrow> string \<Rightarrow> RouteMethod" where
  "rm r m \<equiv> \<lparr>rm_Route = r, rm_Method = m\<rparr>"

definition KnownAPIRoutes :: "RouteMethod list" where
  "KnownAPIRoutes =
     [rm routeVolumes ''POST'',
      rm routeVolumes ''GET'',
      rm routeVolumeByID ''GET'',
      rm routeVolumeByID ''DELETE'',
      rm (routeVolumeByID @ ''/resize'') ''PUT'',
      rm (routeVolumeByID @ ''/snapshots'') ''POST'',
      rm (routeVolumeByID @ ''/snapshots'') ''GET'',
      rm (routeVolumeByID @ ''/snapshots/'' @ routeIDPlaceholder) ''DELETE'',
      rm (routeVolumeByID @ ''/mapping'') ''GET'',
      rm (routeVolumeByID @ ''/change-device-type'') ''PUT'',
      rm (routeVolumeByID @ ''/servers/'' @ routeIDPlaceholder @ ''/attach'') ''PUT'',
      rm (routeVolumeByID @ ''/servers/'' @ routeIDPlaceholder @ ''/detach'') ''PUT'',
      rm (''servers/'' @ routeIDPlaceholder) ''GET'',
      rm routeVolumeTypeByID ''GET'',
      rm ''volume_default_id'' ''GET'',
      rm ''volume_type_zones'' ''GET'',
      rm routeVolumeTypes ''GET'',
      rm ''zones'' ''GET'',
      rm (''projects/'' @ routeIDPlaceholder @ ''/detail'') ''GET'',
      rm ''auth/token'' ''POST'']"

section \<open>The routes are bounded\<close>

text \<open>The alphabet of a label and the shape every label has.\<close>

definition route_segment :: "string \<Rightarrow> bool" where
  "route_segment w \<longleftrightarrow> w \<in> staticRouteSegments \<or> w = routeIDPlaceholder"

definition bounded_route :: "string \<Rightarrow> bool" where
  "bounded_route r \<longleftrightarrow> r = routeUnknown \<or>
     (let ws = SplitOn CHR ''/'' r in
      length ws \<le> maxRouteSegments \<and> hd ws \<in> staticRouteSegments \<and> list_all route_segment ws)"

lemma static_segment_chars:
  "w \<in> staticRouteSegments \<Longrightarrow> w \<noteq> [] \<and> CHR ''/'' \<notin> set w \<and> CHR ''?'' \<notin> set w \<and> CHR ''#'' \<notin> set w
    \<and> CHR '':'' \<notin> set w"
  by (auto simp: staticRouteSegments_def route_defs)

lemma route_segment_chars:
  "route_segment w \<Longrightarrow> w \<noteq> [] \<and> CHR ''/'' \<notin> set w \<and> CHR ''?'' \<notin> set w \<and> CHR ''#'' \<notin> set w
    \<and> CHR '':'' \<notin> set w"
  using static_segment_chars by (auto simp: route_segment_def route_defs)

lemma placeholder_not_static [simp]: "routeIDPlaceholder \<notin> staticRouteSegments"
  by (simp add: staticRouteSegments_def route_defs)

definition loop_inv :: "bool \<Rightarrow> string list \<Rightarrow> bool" where
  "loop_inv started segments \<longleftrightarrow> (started \<longleftrightarrow> segments \<noteq> []) \<and>
     length segments \<le> maxRouteSegments \<and> list_all route_segment segments \<and>
     (segments \<noteq> [] \<longrightarrow> hd segments \<in> staticRouteSegments)"

lemma route_loop_inv:
  "route_loop started segments segs = Some res \<Longrightarrow> loop_inv started segments
    \<Longrightarrow> loop_inv (res \<noteq> []) res"
proof (induction started segments segs rule: route_loop.induct)
  case (1 started segments)
  then show ?case by (auto simp: loop_inv_def)
next
  case (2 started segments seg segs)
  then show ?case
    by (auto simp: loop_inv_def route_segment_def split: if_splits)
qed

lemma NormalizeAPIRoute_bounded_aux: "bounded_route (NormalizeAPIRoute purl)"
proof -
  let ?segs = "SplitOn CHR ''/'' (strip_query (strip_host purl))"
  show ?thesis
  proof (cases "route_loop False [] ?segs")
    case None
    then show ?thesis by (simp add: NormalizeAPIRoute_def bounded_route_def)
  next
    case (Some res)
    have "loop_inv (res \<noteq> []) res"
      using Some by (rule route_loop_inv) (simp add: loop_inv_def)
    moreover from this have "SplitOn CHR ''/'' (JoinWith CHR ''/'' res) = res" if "res \<noteq> []"
      using that route_segment_chars
      by (intro SplitOn_JoinWith) (auto simp: loop_inv_def list_all_iff)
    ultimately show ?thesis
      using Some by (auto simp: NormalizeAPIRoute_def bounded_route_def loop_inv_def Let_def)
  qed
qed

text \<open>A label whose pieces are all kept is its own route: the loop copies it.\<close>

lemma route_loop_copy:
  "list_all route_segment segs \<Longrightarrow> length segments + length segs \<le> maxRouteSegments
    \<Longrightarrow> started \<or> segs = [] \<or> hd segs \<in> staticRouteSegments
    \<Longrightarrow> route_loop started segments segs = Some (segments @ segs)"
proof (induction started segments segs rule: route_loop.induct)
  case (1 started segments)
  then show ?case by simp
next
  case (2 started segments seg segs)
  then show ?case using route_segment_chars [of seg]
    by (auto simp: route_segment_def)
qed

lemma JoinWith_chars:
  "list_all route_segment ws \<Longrightarrow> set (JoinWith CHR ''/'' ws) \<inter> {CHR ''?'', CHR ''#'', CHR '':''} = {}"
  using set_JoinWith [of "CHR ''/''" ws] route_segment_chars by (fastforce simp: list_all_iff)

lemma NormalizeAPIRoute_join:
  assumes ws: "list_all route_segment ws" and ne: "ws \<noteq> []" and hd: "hd ws \<in> staticRouteSegments"
    and len: "length ws \<le> maxRouteSegments"
  shows "NormalizeAPIRoute (JoinWith CHR ''/'' ws) = JoinWith CHR ''/'' ws"
proof -
  let ?r = "JoinWith CHR ''/'' ws"
  have chars: "set ?r \<inter> {CHR ''?'', CHR ''#'', CHR '':''} = {}" using ws by (rule JoinWith_chars)
  then have "strip_query (strip_host ?r) = ?r"
    using Index_None_if_no_head [of "CHR '':''" ?r "''//''"] IndexAny_None [of ?r "''?#''"]
    by (auto simp: strip_host_def strip_query_def)
  moreover have "SplitOn CHR ''/'' ?r = ws"
    using ne ws route_segment_chars by (intro SplitOn_JoinWith) (auto simp: list_all_iff)
  moreover have "route_loop False [] ws = Some ws"
    using route_loop_copy [of ws "[]" False] ws len hd by simp
  ultimately show ?thesis using ne by (simp add: NormalizeAPIRoute_def Let_def)
qed

lemma NormalizeAPIRoute_unknown: "NormalizeAPIRoute routeUnknown = routeUnknown"
  by (simp add: NormalizeAPIRoute_def strip_host_def strip_query_def staticRouteSegments_def
      route_defs Let_def)

lemma NormalizeAPIRoute_fix:
  assumes "bounded_route r"
  shows "NormalizeAPIRoute r = r"
proof (cases "r = routeUnknown")
  case True
  then show ?thesis by (simp add: NormalizeAPIRoute_unknown)
next
  case False
  with assms have "NormalizeAPIRoute (JoinWith CHR ''/'' (SplitOn CHR ''/'' r))
      = JoinWith CHR ''/'' (SplitOn CHR ''/'' r)"
    by (intro NormalizeAPIRoute_join) (auto simp: bounded_route_def Let_def)
  then show ?thesis by (simp add: JoinWith_SplitOn)
qed

section \<open>Properties\<close>

text \<open>Whatever URL a request has, its route label is one of finitely many: \<open>unknown\<close>, or at most six
segments, each an enumerated static segment or the id placeholder, starting with a static one. So no
id, host or query ever becomes a label value. A label is its own label.\<close>

theorem NormalizeAPIRoute_bounded:
  "bounded_route (NormalizeAPIRoute purl) \<and>
   NormalizeAPIRoute (NormalizeAPIRoute purl) = NormalizeAPIRoute purl"
  using NormalizeAPIRoute_bounded_aux NormalizeAPIRoute_fix by blast

text \<open>Every route the driver pre-creates series for is a label the normaliser really produces: none of
the pre-created series is dead.\<close>

theorem KnownAPIRoutes_normal:
  "list_all (\<lambda>r. NormalizeAPIRoute (rm_Route r) = rm_Route r) KnownAPIRoutes"
  by code_simp

end
