(* ===== verification/RateLimit.thy ===== *)
theory RateLimit
  imports ErrClass Metrics GoStrings ApiRoute
begin

text \<open>
  The adaptive client-side rate limiter and the throttled HTTP client of
  \<^verbatim>\<open>pkg/cloud/ratelimit.go\<close>. Each limiter method holds the limiter's mutex for its whole
  body, so each is one atomic step. The token bucket itself is a third-party object: its state here
  is the rate and the burst it was last given, and whether it admits a request is an input. The rate
  is a \<open>float64\<close>: every arithmetic result goes through the rounding \<open>rnd\<close>, an argument
  of the model of which \<open>rnd_ok\<close> says what IEEE arithmetic guarantees (rounding is monotone and exact
  on small integers). A zero \<open>time.Time\<close> is \<open>None\<close>.
\<close>

section \<open>ratelimit.go: the limiter\<close>

definition rateLimitMaxQPS :: rat where "rateLimitMaxQPS = 20"
definition rateLimitMinQPS :: rat where "rateLimitMinQPS = 1"
definition rateLimitDecreaseFactor :: rat where "rateLimitDecreaseFactor = 1/2"
definition rateLimitDecreaseCooldown :: int where "rateLimitDecreaseCooldown = 1 * Second"
definition rateLimitIncreaseQPS :: rat where "rateLimitIncreaseQPS = 1"
definition rateLimitRecoverEvery :: int where "rateLimitRecoverEvery = 5 * Second"
definition rateLimitServerErrorDecreaseFactor :: rat where "rateLimitServerErrorDecreaseFactor = 9/10"
definition rateLimitServerErrorQuiet :: int where "rateLimitServerErrorQuiet = 10 * Second"
definition rateLimitServerErrorHoldMax :: int where "rateLimitServerErrorHoldMax = 90 * Second"
definition rateLimitMaxWait :: int where "rateLimitMaxWait = 5 * Second"

lemmas rate_consts = rateLimitMaxQPS_def rateLimitMinQPS_def rateLimitDecreaseFactor_def
  rateLimitDecreaseCooldown_def rateLimitIncreaseQPS_def rateLimitRecoverEvery_def
  rateLimitServerErrorDecreaseFactor_def rateLimitServerErrorQuiet_def
  rateLimitServerErrorHoldMax_def

record adaptiveRateLimiter =
  rl_limit :: rat
  rl_burst :: int
  rl_qps :: rat
  rl_lastAdj :: "int option"
  rl_lastSrvErr :: "int option"
  rl_srvSpellStart :: "int option"

definition newAdaptiveRateLimiter :: adaptiveRateLimiter where
  "newAdaptiveRateLimiter =
     \<lparr>rl_limit = rateLimitMaxQPS, rl_burst = \<lfloor>rateLimitMaxQPS\<rfloor>, rl_qps = rateLimitMaxQPS,
      rl_lastAdj = None, rl_lastSrvErr = None, rl_srvSpellStart = None\<rparr>"

text \<open>\<open>!t.IsZero() && pnow.Sub(t) < d\<close>; the distance from the zero time saturates, so it is not below any \<open>d\<close>.\<close>

definition time_within :: "int \<Rightarrow> int option \<Rightarrow> int \<Rightarrow> bool" where
  "time_within pnow t d = (case t of None \<Rightarrow> False | Some t' \<Rightarrow> pnow - t' < d)"

definition setRateLocked :: "rat \<Rightarrow> adaptiveRateLimiter \<Rightarrow> adaptiveRateLimiter" where
  "setRateLocked pqps s =
     (let burst = \<lfloor>pqps\<rfloor>; burst = (if burst < 1 then 1 else burst)
      in s\<lparr>rl_qps := pqps, rl_limit := pqps, rl_burst := burst\<rparr>)"

definition onThrottled :: "(rat \<Rightarrow> rat) \<Rightarrow> int \<Rightarrow> adaptiveRateLimiter \<Rightarrow> adaptiveRateLimiter" where
  "onThrottled rnd pnow s =
     (if time_within pnow (rl_lastAdj s) rateLimitDecreaseCooldown then s
      else
        let next = rnd (rl_qps s * rnd rateLimitDecreaseFactor);
            next = (if next < rateLimitMinQPS then rateLimitMinQPS else next);
            s' = s\<lparr>rl_lastAdj := Some pnow\<rparr>
        in if next = rl_qps s then s' else setRateLocked next s')"

definition onServerError :: "(rat \<Rightarrow> rat) \<Rightarrow> int \<Rightarrow> adaptiveRateLimiter \<Rightarrow> adaptiveRateLimiter" where
  "onServerError rnd pnow s0 =
     (let s1 = (if time_within pnow (rl_lastSrvErr s0) rateLimitServerErrorQuiet then s0
                else s0\<lparr>rl_srvSpellStart := Some pnow\<rparr>);
          s = s1\<lparr>rl_lastSrvErr := Some pnow\<rparr>
      in if time_within pnow (rl_lastAdj s) rateLimitDecreaseCooldown then s
         else
           let next = rnd (rl_qps s * rnd rateLimitServerErrorDecreaseFactor);
               next = (if next < rateLimitMinQPS then rateLimitMinQPS else next);
               s' = s\<lparr>rl_lastAdj := Some pnow\<rparr>
           in if next = rl_qps s then s' else setRateLocked next s')"

definition onSuccess :: "(rat \<Rightarrow> rat) \<Rightarrow> int \<Rightarrow> adaptiveRateLimiter \<Rightarrow> adaptiveRateLimiter" where
  "onSuccess rnd pnow s =
     (if rateLimitMaxQPS \<le> rl_qps s then s
      else if time_within pnow (rl_lastAdj s) rateLimitRecoverEvery then s
      else if time_within pnow (rl_lastSrvErr s) rateLimitServerErrorQuiet
              \<and> time_within pnow (rl_srvSpellStart s) rateLimitServerErrorHoldMax then s
      else
        let next = rnd (rl_qps s + rateLimitIncreaseQPS);
            next = (if rateLimitMaxQPS < next then rateLimitMaxQPS else next)
        in setRateLocked next (s\<lparr>rl_lastAdj := Some pnow\<rparr>))"

definition currentQPS :: "adaptiveRateLimiter \<Rightarrow> rat" where
  "currentQPS s = rl_qps s"

definition wait :: "(int \<Rightarrow> go_error option) \<Rightarrow> bool" where
  "wait Wait \<longleftrightarrow> Wait rateLimitMaxWait = None"

section \<open>ratelimit.go: classifying a response\<close>

definition isThrottled :: "ierror option \<Rightarrow> bool" where
  "isThrottled perr = (case perr of None \<Rightarrow> False | Some e \<Rightarrow>
     (case ie_params e ''statusCode'' of Some (PInt status) \<Rightarrow> status = 429 | _ \<Rightarrow> False))"

definition isServerError :: "ierror option \<Rightarrow> bool" where
  "isServerError perr = (case perr of None \<Rightarrow> False | Some e \<Rightarrow>
     IsError e EcInternalServerError \<or> IsError e EcServiceMaintenance)"

text \<open>A response: nil, a wrapper around no HTTP response, or one with a status code.\<close>

datatype http_resp = NilResp | EmptyResp | Resp int

definition responseStatusLabel :: "http_resp \<Rightarrow> ierror option \<Rightarrow> string" where
  "responseStatusLabel presp perr =
     (let from_error =
        (case perr of None \<Rightarrow> StatusNone | Some e \<Rightarrow>
           (case ie_params e ''statusCode'' of
              Some (PInt status) \<Rightarrow> if status = 0 then StatusNone else Itoa status
            | _ \<Rightarrow> StatusNone))
      in case presp of
           Resp code \<Rightarrow> if code \<noteq> 0 then Itoa code else from_error
         | _ \<Rightarrow> from_error)"

definition requestMethodLabel :: "string \<Rightarrow> string" where
  "requestMethodLabel m = (if m \<noteq> '''' then m else ''UNKNOWN'')"

definition errClientRateLimited :: "string \<Rightarrow> ierror" where
  "errClientRateLimited purl =
     \<lparr>ie_code = EcCsiClientRateLimited,
      ie_msg = ''request shed by the CSI driver client-side rate limiter'',
      ie_err = Some (GoErr (''request to '' @ purl @ '' shed by the client-side rate limiter'')),
      ie_params = [''url'' \<mapsto> ptext purl]\<rparr>"

section \<open>ratelimit.go: the throttled client\<close>

definition publishLimiterQPS :: "adaptiveRateLimiter \<Rightarrow> mop list" where
  "publishLimiterQPS s = [MSetGauge RateLimiterQPS RateLimiterQPSHelp (currentQPS s) {}]"

definition recordShed :: "string \<Rightarrow> string \<Rightarrow> adaptiveRateLimiter \<Rightarrow> mop list" where
  "recordShed proute pmethod s =
     (let labels = {(LabelRoute, proute), (LabelMethod, pmethod)} in
      [MIncreaseCount APIRequestsShed APIRequestsShedHelp labels,
       MIncreaseCount APIRequests APIRequestsHelp
         {(LabelRoute, proute), (LabelMethod, pmethod), (LabelOutcome, OutcomeShed)}]
      @ publishLimiterQPS s)"

definition recordOutcome ::
    "(error_code \<Rightarrow> string) \<Rightarrow> string \<Rightarrow> string \<Rightarrow> string \<Rightarrow> int \<Rightarrow> http_resp \<Rightarrow> ierror option
      \<Rightarrow> adaptiveRateLimiter \<Rightarrow> mop list" where
  "recordOutcome code_text proute pmethod poutcome pelapsed presp psdkErr s =
     (let labels = {(LabelRoute, proute), (LabelMethod, pmethod)} in
      [MObserveHistogram APIRequestDuration APIRequestDurationHelp (seconds pelapsed) labels
         APIRequestDurationBuckets,
       MIncreaseCount APIRequests APIRequestsHelp
         {(LabelRoute, proute), (LabelMethod, pmethod), (LabelOutcome, poutcome)}]
      @ (if poutcome = OutcomeThrottled
         then [MIncreaseCount APIRequestThrottles APIRequestThrottlesHelp labels] else [])
      @ (case psdkErr of None \<Rightarrow> [] | Some e \<Rightarrow>
           [MIncreaseCount APIRequestErrors APIRequestErrorsHelp
              {(LabelRoute, proute), (LabelMethod, pmethod), (LabelCode, code_text (ie_code e)),
               (LabelStatus, responseStatusLabel presp psdkErr)}])
      @ publishLimiterQPS s)"

text \<open>
  One request. \<open>Wait\<close> is the token bucket's \<open>Limiter.Wait\<close> under a deadline, \<open>inner\<close> the answer of the SDK's client
  (not called when the request is shed), \<open>elapsed\<close> and \<open>pnow\<close> what the clock says after it.
\<close>

definition DoRequest ::
    "(rat \<Rightarrow> rat) \<Rightarrow> (error_code \<Rightarrow> string) \<Rightarrow> (int \<Rightarrow> go_error option) \<Rightarrow> (http_resp \<times> ierror option) \<Rightarrow> int \<Rightarrow> int
      \<Rightarrow> string \<Rightarrow> string \<Rightarrow> adaptiveRateLimiter
      \<Rightarrow> (http_resp \<times> ierror option) \<times> adaptiveRateLimiter \<times> mop list" where
  "DoRequest rnd code_text Wait inner elapsed pnow purl preq_method s =
     (let route = NormalizeAPIRoute purl; method = requestMethodLabel preq_method in
      if \<not> wait Wait
      then ((NilResp, Some (errClientRateLimited purl)), s, recordShed route method s)
      else
        let (resp, sdkErr) = inner in
        if isThrottled sdkErr then
          let s' = onThrottled rnd pnow s
          in ((resp, sdkErr), s',
              recordOutcome code_text route method OutcomeThrottled elapsed resp sdkErr s')
        else if isServerError sdkErr then
          let s' = onServerError rnd pnow s
          in ((resp, sdkErr), s',
              recordOutcome code_text route method OutcomeError elapsed resp sdkErr s')
        else
          let s' = onSuccess rnd pnow s
          in ((resp, sdkErr), s',
              if sdkErr \<noteq> None
              then recordOutcome code_text route method OutcomeError elapsed resp sdkErr s'
              else recordOutcome code_text route method OutcomeOK elapsed resp None s'))"

section \<open>Runs of requests\<close>

text \<open>One request with everything its environment answers.\<close>

record request =
  rq_Wait :: "int \<Rightarrow> go_error option"
  rq_inner :: "http_resp \<times> ierror option"
  rq_elapsed :: int
  rq_now :: int
  rq_url :: string
  rq_method :: string

definition request_step ::
    "(rat \<Rightarrow> rat) \<Rightarrow> (error_code \<Rightarrow> string) \<Rightarrow> request \<Rightarrow> adaptiveRateLimiter
      \<Rightarrow> (http_resp \<times> ierror option) \<times> adaptiveRateLimiter \<times> mop list" where
  "request_step rnd code_text rq s =
     DoRequest rnd code_text (rq_Wait rq) (rq_inner rq) (rq_elapsed rq) (rq_now rq) (rq_url rq)
       (rq_method rq) s"

definition limiter_after ::
    "(rat \<Rightarrow> rat) \<Rightarrow> (error_code \<Rightarrow> string) \<Rightarrow> request \<Rightarrow> adaptiveRateLimiter \<Rightarrow> adaptiveRateLimiter" where
  "limiter_after rnd code_text rq s = fst (snd (request_step rnd code_text rq s))"

definition limiter_run ::
    "(rat \<Rightarrow> rat) \<Rightarrow> (error_code \<Rightarrow> string) \<Rightarrow> request list \<Rightarrow> adaptiveRateLimiter \<Rightarrow> adaptiveRateLimiter" where
  "limiter_run rnd code_text rqs s = fold (limiter_after rnd code_text) rqs s"

lemma limiter_after_cases:
  "limiter_after rnd code_text rq s =
     (if \<not> wait (rq_Wait rq) then s
      else if isThrottled (snd (rq_inner rq)) then onThrottled rnd (rq_now rq) s
      else if isServerError (snd (rq_inner rq)) then onServerError rnd (rq_now rq) s
      else onSuccess rnd (rq_now rq) s)"
  by (simp add: limiter_after_def request_step_def DoRequest_def Let_def split: prod.splits)

text \<open>
  The throttled client around the SDK's HTTP client, which is an argument \<open>H\<close>: how it is made and how
  each setting changes it. The settings forward to it; the limiter is the client's own.
\<close>

record ('c, 'r) sdk_http =
  sh_NewHttpClient :: 'c
  sh_RetryCount :: "int \<Rightarrow> 'c \<Rightarrow> 'c"
  sh_Timeout :: "int \<Rightarrow> 'c \<Rightarrow> 'c"
  sh_Sleep :: "int \<Rightarrow> 'c \<Rightarrow> 'c"
  sh_KvDefaultHeaders :: "string list \<Rightarrow> 'c \<Rightarrow> 'c"
  sh_ReauthFunc :: "'r \<Rightarrow> 'c \<Rightarrow> 'c"

record 'c throttledHTTPClient =
  tc_inner :: 'c
  tc_limiter :: adaptiveRateLimiter

definition NewThrottledHTTPClient :: "('c, 'r) sdk_http \<Rightarrow> 'c throttledHTTPClient" where
  "NewThrottledHTTPClient H =
     \<lparr>tc_inner = sh_RetryCount H 0 (sh_NewHttpClient H), tc_limiter = newAdaptiveRateLimiter\<rparr>"

definition WithRetryCount ::
    "('c, 'r) sdk_http \<Rightarrow> int \<Rightarrow> 'c throttledHTTPClient \<Rightarrow> 'c throttledHTTPClient" where
  "WithRetryCount H pretryCount s = s\<lparr>tc_inner := sh_RetryCount H pretryCount (tc_inner s)\<rparr>"

definition WithTimeout ::
    "('c, 'r) sdk_http \<Rightarrow> int \<Rightarrow> 'c throttledHTTPClient \<Rightarrow> 'c throttledHTTPClient" where
  "WithTimeout H ptimeout s = s\<lparr>tc_inner := sh_Timeout H ptimeout (tc_inner s)\<rparr>"

definition WithSleep ::
    "('c, 'r) sdk_http \<Rightarrow> int \<Rightarrow> 'c throttledHTTPClient \<Rightarrow> 'c throttledHTTPClient" where
  "WithSleep H psleep s = s\<lparr>tc_inner := sh_Sleep H psleep (tc_inner s)\<rparr>"

definition WithKvDefaultHeaders ::
    "('c, 'r) sdk_http \<Rightarrow> string list \<Rightarrow> 'c throttledHTTPClient \<Rightarrow> 'c throttledHTTPClient" where
  "WithKvDefaultHeaders H pargs s = s\<lparr>tc_inner := sh_KvDefaultHeaders H pargs (tc_inner s)\<rparr>"

definition WithReauthFunc ::
    "('c, 'r) sdk_http \<Rightarrow> 'r \<Rightarrow> 'c throttledHTTPClient \<Rightarrow> 'c throttledHTTPClient" where
  "WithReauthFunc H preauth s = s\<lparr>tc_inner := sh_ReauthFunc H preauth (tc_inner s)\<rparr>"

text \<open>What a user of the client may do with it, in any order.\<close>

datatype 'r client_use =
    RetryCount int | Timeout int | Sleep int | KvDefaultHeaders "string list" | ReauthFunc 'r
  | Send request

fun client_step ::
    "('c, 'r) sdk_http \<Rightarrow> (rat \<Rightarrow> rat) \<Rightarrow> (error_code \<Rightarrow> string) \<Rightarrow> 'r client_use
      \<Rightarrow> 'c throttledHTTPClient \<Rightarrow> 'c throttledHTTPClient" where
  "client_step H rnd code_text (RetryCount n) s = WithRetryCount H n s"
| "client_step H rnd code_text (Timeout d) s = WithTimeout H d s"
| "client_step H rnd code_text (Sleep d) s = WithSleep H d s"
| "client_step H rnd code_text (KvDefaultHeaders kvs) s = WithKvDefaultHeaders H kvs s"
| "client_step H rnd code_text (ReauthFunc f) s = WithReauthFunc H f s"
| "client_step H rnd code_text (Send rq) s =
     s\<lparr>tc_limiter := limiter_after rnd code_text rq (tc_limiter s)\<rparr>"

fun sent :: "'r client_use list \<Rightarrow> request list" where
  "sent [] = []"
| "sent (Send rq # us) = rq # sent us"
| "sent (_ # us) = sent us"

lemmas client_defs = WithRetryCount_def WithTimeout_def WithSleep_def WithKvDefaultHeaders_def
  WithReauthFunc_def

text \<open>The settings leave the limiter alone: it follows the requests, however they are interleaved.\<close>

lemma limiter_of_client:
  "tc_limiter (fold (client_step H rnd code_text) us s) = limiter_run rnd code_text (sent us) (tc_limiter s)"
  by (induction us arbitrary: s rule: sent.induct) (simp_all add: limiter_run_def client_defs)

section \<open>The rate stays between the floor and the ceiling\<close>

text \<open>What IEEE rounding guarantees on the range the limiter computes in.\<close>

definition rnd_ok :: "(rat \<Rightarrow> rat) \<Rightarrow> bool" where
  "rnd_ok rnd \<longleftrightarrow> (\<forall>x y. x \<le> y \<longrightarrow> rnd x \<le> rnd y) \<and> (\<forall>k. 0 \<le> k \<and> k \<le> 64 \<longrightarrow> rnd (of_int k) = of_int k)
     \<and> rnd (1/2) = 1/2 \<and> 0 < rnd (9/10) \<and> rnd (9/10) < 1"

lemma rnd_mono: "rnd_ok rnd \<Longrightarrow> x \<le> y \<Longrightarrow> rnd x \<le> rnd y"
  by (simp add: rnd_ok_def)

lemma rnd_int: "rnd_ok rnd \<Longrightarrow> 0 \<le> k \<Longrightarrow> k \<le> 64 \<Longrightarrow> rnd (of_int k) = of_int k"
  by (simp add: rnd_ok_def)

lemma rnd_le_20: "rnd_ok rnd \<Longrightarrow> x \<le> 20 \<Longrightarrow> rnd x \<le> 20"
  using rnd_mono [of rnd x 20] rnd_int [of rnd 20] by simp

definition limiter_inv :: "adaptiveRateLimiter \<Rightarrow> bool" where
  "limiter_inv s \<longleftrightarrow> rateLimitMinQPS \<le> rl_qps s \<and> rl_qps s \<le> rateLimitMaxQPS
     \<and> rl_limit s = rl_qps s \<and> rl_burst s = \<lfloor>rl_qps s\<rfloor>"

lemma limiter_inv_burst: "limiter_inv s \<Longrightarrow> 1 \<le> rl_burst s \<and> rl_burst s \<le> 20"
  by (auto simp: limiter_inv_def rate_consts le_floor_iff floor_le_iff)

lemma limiter_inv_new: "limiter_inv newAdaptiveRateLimiter"
  by (simp add: limiter_inv_def newAdaptiveRateLimiter_def rate_consts)

lemma setRateLocked_ge1:
  "1 \<le> q \<Longrightarrow> setRateLocked q s = s\<lparr>rl_qps := q, rl_limit := q, rl_burst := \<lfloor>q\<rfloor>\<rparr>"
  by (simp add: setRateLocked_def Let_def floor_less_iff)

text \<open>
  One step down, shared by the two backoffs: it is skipped within the cooldown; otherwise the
  adjustment time moves and the rate becomes the product, floored.
\<close>

definition step_down :: "(rat \<Rightarrow> rat) \<Rightarrow> rat \<Rightarrow> int \<Rightarrow> adaptiveRateLimiter \<Rightarrow> adaptiveRateLimiter" where
  "step_down rnd f pnow s =
     (if time_within pnow (rl_lastAdj s) rateLimitDecreaseCooldown then s
      else let q = max rateLimitMinQPS (rnd (rl_qps s * rnd f))
           in s\<lparr>rl_lastAdj := Some pnow, rl_qps := q, rl_limit := q, rl_burst := \<lfloor>q\<rfloor>\<rparr>)"

lemma step_down_code:
  assumes "limiter_inv s"
  shows "(if time_within pnow (rl_lastAdj s) rateLimitDecreaseCooldown then s
      else
        let next = rnd (rl_qps s * rnd f);
            next = (if next < rateLimitMinQPS then rateLimitMinQPS else next);
            s' = s\<lparr>rl_lastAdj := Some pnow\<rparr>
        in if next = rl_qps s then s' else setRateLocked next s') = step_down rnd f pnow s"
proof -
  have *: "(if x < rateLimitMinQPS then rateLimitMinQPS else x) = max rateLimitMinQPS x" for x
    by (simp add: max_def not_less)
  have ge: "1 \<le> max rateLimitMinQPS x" for x by (simp add: rate_consts)
  show ?thesis
    using assms unfolding step_down_def Let_def *
    by (auto simp: setRateLocked_ge1 [OF ge] limiter_inv_def)
qed

lemma onThrottled_step_down:
  "limiter_inv s \<Longrightarrow> onThrottled rnd pnow s = step_down rnd rateLimitDecreaseFactor pnow s"
  by (simp only: onThrottled_def step_down_code)

definition spell_update :: "int \<Rightarrow> adaptiveRateLimiter \<Rightarrow> adaptiveRateLimiter" where
  "spell_update pnow s0 =
     (if time_within pnow (rl_lastSrvErr s0) rateLimitServerErrorQuiet then s0
      else s0\<lparr>rl_srvSpellStart := Some pnow\<rparr>)\<lparr>rl_lastSrvErr := Some pnow\<rparr>"

lemma spell_update_simps [simp]:
  "rl_qps (spell_update pnow s) = rl_qps s" "rl_limit (spell_update pnow s) = rl_limit s"
  "rl_burst (spell_update pnow s) = rl_burst s" "rl_lastAdj (spell_update pnow s) = rl_lastAdj s"
  "limiter_inv (spell_update pnow s) = limiter_inv s"
  by (auto simp: spell_update_def limiter_inv_def)

lemma onServerError_step_down:
  "limiter_inv s \<Longrightarrow> onServerError rnd pnow s =
    step_down rnd rateLimitServerErrorDecreaseFactor pnow (spell_update pnow s)"
proof -
  assume "limiter_inv s"
  then have inv: "limiter_inv (spell_update pnow s)" by simp
  show ?thesis
    unfolding step_down_code [OF inv, symmetric]
    by (simp only: onServerError_def spell_update_def Let_def)
qed

lemma rnd_product_le:
  assumes "rnd_ok rnd" and "0 < f" and "f \<le> 1" and "1 \<le> q" and "q \<le> 20"
  shows "rnd (q * f) \<le> 20"
proof -
  have "q * f \<le> q" using assms(3,4) by (intro mult_left_le) linarith+
  then have "q * f \<le> 20" using assms(5) by linarith
  then show ?thesis by (rule rnd_le_20 [OF assms(1)])
qed

lemma step_down_inv:
  assumes "rnd_ok rnd" and "limiter_inv s" and "0 < rnd f" and "rnd f \<le> 1"
  shows "limiter_inv (step_down rnd f pnow s)"
proof -
  have q: "1 \<le> rl_qps s" "rl_qps s \<le> 20"
    using assms(2) by (simp_all add: limiter_inv_def rate_consts)
  have "rnd (rl_qps s * rnd f) \<le> 20"
    using assms(1,3,4) q by (rule rnd_product_le)
  then show ?thesis
    using assms(2) by (simp add: step_down_def limiter_inv_def Let_def rate_consts)
qed

lemma onSuccess_inv:
  assumes "rnd_ok rnd" and "limiter_inv s"
  shows "limiter_inv (onSuccess rnd pnow s)"
proof -
  have "1 \<le> rnd (rl_qps s + 1)"
    using assms rnd_mono [of rnd 1 "rl_qps s + 1"] rnd_int [of rnd 1]
    by (simp add: limiter_inv_def rate_consts)
  then show ?thesis
    using assms by (auto simp: onSuccess_def Let_def setRateLocked_ge1 limiter_inv_def rate_consts)
qed

lemma factors_ok:
  "rnd_ok rnd \<Longrightarrow> 0 < rnd rateLimitDecreaseFactor \<and> rnd rateLimitDecreaseFactor \<le> 1"
  "rnd_ok rnd \<Longrightarrow>
    0 < rnd rateLimitServerErrorDecreaseFactor \<and> rnd rateLimitServerErrorDecreaseFactor \<le> 1"
  by (auto simp: rnd_ok_def rate_consts)

lemma limiter_after_inv:
  "rnd_ok rnd \<Longrightarrow> limiter_inv s \<Longrightarrow> limiter_inv (limiter_after rnd code_text rq s)"
  using factors_ok [of rnd]
  by (simp add: limiter_after_cases onThrottled_step_down onServerError_step_down step_down_inv
      onSuccess_inv)

lemma limiter_run_inv:
  "rnd_ok rnd \<Longrightarrow> limiter_inv s \<Longrightarrow> limiter_inv (limiter_run rnd code_text rqs s)"
  by (induction rqs arbitrary: s) (simp_all add: limiter_run_def limiter_after_inv)

section \<open>One decrease per cooldown\<close>

text \<open>The times at which a request lowered the rate.\<close>

fun drop_times ::
    "(rat \<Rightarrow> rat) \<Rightarrow> (error_code \<Rightarrow> string) \<Rightarrow> request list \<Rightarrow> adaptiveRateLimiter \<Rightarrow> int list" where
  "drop_times rnd code_text [] s = []"
| "drop_times rnd code_text (rq # rqs) s =
     (let s' = limiter_after rnd code_text rq s in
      (if rl_qps s' < rl_qps s then [rq_now rq] else []) @ drop_times rnd code_text rqs s')"

lemma rnd_climb:
  assumes "rnd_ok rnd" and "0 \<le> q" and "q \<le> 20"
  shows "of_int \<lfloor>q\<rfloor> + 1 \<le> rnd (q + 1)" and "q < rnd (q + 1)"
proof -
  have "rnd (of_int (\<lfloor>q\<rfloor> + 1)) = of_int (\<lfloor>q\<rfloor> + 1)"
    using assms by (intro rnd_int) (auto simp: floor_le_iff)
  moreover have "rnd (of_int (\<lfloor>q\<rfloor> + 1)) \<le> rnd (q + 1)"
    using assms(1) by (rule rnd_mono) simp
  ultimately show "of_int \<lfloor>q\<rfloor> + 1 \<le> rnd (q + 1)" by simp
  moreover have "q < of_int \<lfloor>q\<rfloor> + 1" by linarith
  ultimately show "q < rnd (q + 1)" by linarith
qed

text \<open>
  What one request does: the rate and the adjustment time stay, or the adjustment time becomes the
  present; a decrease is never within the cooldown.
\<close>

definition paced :: "int \<Rightarrow> adaptiveRateLimiter \<Rightarrow> adaptiveRateLimiter \<Rightarrow> bool" where
  "paced pnow s s' \<longleftrightarrow>
     (rl_lastAdj s' = rl_lastAdj s \<and> rl_qps s' = rl_qps s \<or> rl_lastAdj s' = Some pnow)
     \<and> (rl_qps s' < rl_qps s \<longrightarrow>
          rl_lastAdj s' = Some pnow \<and> \<not> time_within pnow (rl_lastAdj s) rateLimitDecreaseCooldown)"

lemma step_down_paced: "paced pnow s (step_down rnd f pnow s)"
  by (simp add: paced_def step_down_def Let_def)

lemma onSuccess_paced:
  assumes "rnd_ok rnd" and "limiter_inv s"
  shows "paced pnow s (onSuccess rnd pnow s)"
proof -
  have q: "1 \<le> rl_qps s" "rl_qps s \<le> 20"
    using assms(2) by (simp_all add: limiter_inv_def rate_consts)
  then have "rl_qps s < rnd (rl_qps s + 1)"
    by (intro rnd_climb(2) [OF assms(1)]) simp_all
  with q show ?thesis
    by (auto simp: paced_def onSuccess_def Let_def setRateLocked_def rate_consts)
qed

lemma limiter_after_paced:
  assumes "rnd_ok rnd" and "limiter_inv s"
  shows "paced (rq_now rq) s (limiter_after rnd code_text rq s)"
proof -
  have "paced (rq_now rq) s (step_down rnd f (rq_now rq) (spell_update (rq_now rq) s))" for f
    using step_down_paced [of "rq_now rq" "spell_update (rq_now rq) s" rnd f] by (simp add: paced_def)
  then show ?thesis
    using onSuccess_paced [OF assms] step_down_paced assms
    by (simp add: limiter_after_cases onThrottled_step_down onServerError_step_down)
      (simp add: paced_def)
qed

lemma spaced_Cons:
  "spaced d (t # ts) \<longleftrightarrow> (ts = [] \<or> t + d \<le> hd ts) \<and> spaced d ts"
  by (cases ts) auto

lemma drop_times_bound:
  assumes "rnd_ok rnd" and "limiter_inv s"
    and "sorted (map rq_now rqs)" and "\<forall>rq\<in>set rqs. \<forall>a. rl_lastAdj s = Some a \<longrightarrow> a \<le> rq_now rq"
  shows "spaced rateLimitDecreaseCooldown (drop_times rnd code_text rqs s)
    \<and> (\<forall>t\<in>set (drop_times rnd code_text rqs s). \<not> time_within t (rl_lastAdj s) rateLimitDecreaseCooldown)"
  using assms(2-)
proof (induction rqs arbitrary: s)
  case Nil
  then show ?case by simp
next
  case (Cons rq rqs)
  let ?s = "limiter_after rnd code_text rq s"
  let ?ds = "drop_times rnd code_text rqs ?s"
  have p: "paced (rq_now rq) s ?s"
    using assms(1) Cons.prems(1) by (rule limiter_after_paced)
  have later: "rq_now rq \<le> rq_now r" if "r \<in> set rqs" for r
    using Cons.prems(2) that by simp
  have IH: "spaced rateLimitDecreaseCooldown ?ds
      \<and> (\<forall>t\<in>set ?ds. \<not> time_within t (rl_lastAdj ?s) rateLimitDecreaseCooldown)"
    using Cons.prems later p
    by (intro Cons.IH limiter_after_inv assms(1)) (auto simp: paced_def)
  have old: "\<not> time_within t (rl_lastAdj s) rateLimitDecreaseCooldown" if "t \<in> set ?ds" for t
    using that IH p Cons.prems(3) by (fastforce simp: paced_def time_within_def split: option.splits)
  show ?case
  proof (cases "rl_qps ?s < rl_qps s")
    case True
    with p have adj: "rl_lastAdj ?s = Some (rq_now rq)"
      and first: "\<not> time_within (rq_now rq) (rl_lastAdj s) rateLimitDecreaseCooldown"
      by (auto simp: paced_def)
    have "?ds = [] \<or> rq_now rq + rateLimitDecreaseCooldown \<le> hd ?ds"
      using IH adj by (cases ?ds) (auto simp: time_within_def)
    with True IH first old show ?thesis by (simp add: Let_def spaced_Cons)
  next
    case False
    with IH old show ?thesis by (simp add: Let_def)
  qed
qed

section \<open>Recovery\<close>

text \<open>A success that comes late enough after the last adjustment and the last 5xx.\<close>

lemma onSuccess_climbs:
  assumes "rnd_ok rnd" and "limiter_inv s"
    and "\<not> time_within pnow (rl_lastAdj s) rateLimitRecoverEvery"
    and "\<not> time_within pnow (rl_lastSrvErr s) rateLimitServerErrorQuiet
      \<or> \<not> time_within pnow (rl_srvSpellStart s) rateLimitServerErrorHoldMax"
  shows "min 20 (of_int \<lfloor>rl_qps s\<rfloor> + 1) \<le> rl_qps (onSuccess rnd pnow s)"
proof (cases "20 \<le> rl_qps s")
  case True
  then show ?thesis by (simp add: onSuccess_def rate_consts)
next
  case False
  have "1 \<le> rl_qps s" using assms(2) by (simp add: limiter_inv_def rate_consts)
  with False have "of_int \<lfloor>rl_qps s\<rfloor> + 1 \<le> rnd (rl_qps s + 1)"
    by (intro rnd_climb(1) [OF assms(1)]) simp_all
  with False assms(3,4) show ?thesis
    by (auto simp: onSuccess_def Let_def setRateLocked_def rate_consts)
qed

text \<open>Requests that end in neither 429 nor 5xx, each more than the recovery interval after the one before.\<close>

definition calm :: "request \<Rightarrow> bool" where
  "calm rq \<longleftrightarrow> wait (rq_Wait rq) \<and> \<not> isThrottled (snd (rq_inner rq)) \<and> \<not> isServerError (snd (rq_inner rq))"

lemma calm_run_climbs:
  assumes "rnd_ok rnd" and "limiter_inv s"
    and "\<forall>rq\<in>set rqs. calm rq \<and> \<not> time_within (rq_now rq) (rl_lastSrvErr s) rateLimitServerErrorQuiet"
    and "spaced rateLimitRecoverEvery (map rq_now rqs)"
    and "rqs \<noteq> [] \<Longrightarrow> \<not> time_within (rq_now (hd rqs)) (rl_lastAdj s) rateLimitRecoverEvery"
  shows "min 20 (of_int \<lfloor>rl_qps s\<rfloor> + of_nat (length rqs)) \<le> rl_qps (limiter_run rnd code_text rqs s)"
  using assms(2-)
proof (induction rqs arbitrary: s)
  case Nil
  then show ?case by (simp add: limiter_run_def min.coboundedI2)
next
  case (Cons rq rqs)
  let ?s = "onSuccess rnd (rq_now rq) s"
  have step: "limiter_after rnd code_text rq s = ?s"
    using Cons.prems(2) by (simp add: limiter_after_cases calm_def)
  have climb: "min 20 (of_int \<lfloor>rl_qps s\<rfloor> + 1) \<le> rl_qps ?s"
    using Cons.prems by (intro onSuccess_climbs assms(1)) simp_all
  have srv: "rl_lastSrvErr ?s = rl_lastSrvErr s"
    by (simp add: onSuccess_def Let_def setRateLocked_def)
  have adj: "rl_lastAdj ?s = rl_lastAdj s \<or> rl_lastAdj ?s = Some (rq_now rq)"
    using onSuccess_paced [OF assms(1) Cons.prems(1)] by (auto simp: paced_def)
  have IH: "min 20 (of_int \<lfloor>rl_qps ?s\<rfloor> + of_nat (length rqs))
      \<le> rl_qps (limiter_run rnd code_text rqs ?s)"
  proof (rule Cons.IH)
    show "limiter_inv ?s" using assms(1) Cons.prems(1) by (rule onSuccess_inv)
    show "\<forall>rq\<in>set rqs. calm rq \<and> \<not> time_within (rq_now rq) (rl_lastSrvErr ?s) rateLimitServerErrorQuiet"
      using Cons.prems(2) srv by simp
    show "spaced rateLimitRecoverEvery (map rq_now rqs)"
      using Cons.prems(3) by (auto intro: spaced_tl)
    show "\<not> time_within (rq_now (hd rqs)) (rl_lastAdj ?s) rateLimitRecoverEvery" if "rqs \<noteq> []"
      using that adj Cons.prems(3,4)
      by (cases rqs) (auto simp: time_within_def rate_consts Second_def split: option.splits)
  qed
  have "min (20::rat) (of_int \<lfloor>rl_qps s\<rfloor> + of_nat (length (rq # rqs)))
      \<le> min 20 (of_int \<lfloor>rl_qps ?s\<rfloor> + of_nat (length rqs))"
  proof -
    have mono_step: "min 20 (a + 1) \<le> b \<Longrightarrow> 0 \<le> n \<Longrightarrow> min 20 (a + (1 + n)) \<le> min 20 (b + n)"
      for a b n :: int by linarith
    have "min 20 (\<lfloor>rl_qps s\<rfloor> + 1) \<le> \<lfloor>rl_qps ?s\<rfloor>"
      using climb by (simp add: le_floor_iff min_def split: if_splits)
    then have "min 20 (\<lfloor>rl_qps s\<rfloor> + int (length (rq # rqs))) \<le> min 20 (\<lfloor>rl_qps ?s\<rfloor> + int (length rqs))"
      using mono_step [of "\<lfloor>rl_qps s\<rfloor>" "\<lfloor>rl_qps ?s\<rfloor>" "int (length rqs)"] by simp
    then have "(of_int (min 20 (\<lfloor>rl_qps s\<rfloor> + int (length (rq # rqs)))) :: rat)
        \<le> of_int (min 20 (\<lfloor>rl_qps ?s\<rfloor> + int (length rqs)))"
      by (simp only: of_int_le_iff)
    then show ?thesis by (simp add: of_int_min)
  qed
  also note IH
  finally show ?case by (simp add: limiter_run_def step)
qed

section \<open>Every recorder call is well shaped\<close>

lemma shape_ok_APIRequests:
  "shape_ok APIRequests CounterVec {(LabelRoute, a), (LabelMethod, b), (LabelOutcome, c)}"
  by (simp add: shape_ok_def getLabelNames_def metric_shapes_def metric_name_defs)

lemma shape_ok_request:
  "shape_ok APIRequestDuration HistogramVec {(LabelRoute, a), (LabelMethod, b)}"
  "shape_ok APIRequestsShed CounterVec {(LabelRoute, a), (LabelMethod, b)}"
  "shape_ok APIRequestThrottles CounterVec {(LabelRoute, a), (LabelMethod, b)}"
  "shape_ok APIRequestErrors CounterVec
     {(LabelRoute, a), (LabelMethod, b), (LabelCode, c), (LabelStatus, d)}"
  "shape_ok RateLimiterQPS GaugeVec {}"
  by (simp_all add: shape_ok_def getLabelNames_def metric_shapes_def metric_name_defs)

lemma DoRequest_mops_ok:
  "c \<in> set (snd (snd (DoRequest rnd code_text Wait inner elapsed pnow purl m s))) \<Longrightarrow> mop_ok c"
  by (auto simp: DoRequest_def recordShed_def recordOutcome_def publishLimiterQPS_def Let_def
      shape_ok_APIRequests shape_ok_request split: prod.splits if_splits option.splits)

section \<open>Properties\<close>

lemma rnd_ok_id: "rnd_ok (\<lambda>x. x)"
  by (simp add: rnd_ok_def)

text \<open>C37: However a client of \<open>NewThrottledHTTPClient\<close> is configured and used, whatever the server
answers, its rate stays between 1 and 20 requests per second and the token bucket is always set to that
rate with its floor as the burst.\<close>

theorem limiter_rate_bounds:
  assumes "rnd_ok rnd"
  shows "let s = tc_limiter (fold (client_step H rnd code_text) us (NewThrottledHTTPClient H)) in
    1 \<le> rl_qps s \<and> rl_qps s \<le> 20 \<and> rl_limit s = rl_qps s \<and> rl_burst s = \<lfloor>rl_qps s\<rfloor>
    \<and> 1 \<le> rl_burst s \<and> rl_burst s \<le> 20"
  using limiter_run_inv [OF assms limiter_inv_new, of code_text "sent us"]
    limiter_inv_burst [OF limiter_run_inv [OF assms limiter_inv_new], of code_text "sent us"]
  by (simp add: limiter_inv_def rate_consts Let_def limiter_of_client NewThrottledHTTPClient_def)

theorem limiter_rate_bounds_witness:
  "let H = \<lparr>sh_NewHttpClient = 3, sh_RetryCount = (\<lambda>n c. n), sh_Timeout = (\<lambda>d c. c), sh_Sleep = (\<lambda>d c. c),
      sh_KvDefaultHeaders = (\<lambda>kvs c. c), sh_ReauthFunc = (\<lambda>f c. c)\<rparr> :: (int, unit) sdk_http;
    s = tc_limiter (fold (client_step H (\<lambda>x. x) (\<lambda>c. '''')) (Timeout 1 # replicate 9 (Send \<lparr>rq_Wait = (\<lambda>d. None),
      rq_inner = (Resp 429, Some \<lparr>ie_code = EcUnexpectedError, ie_msg = '''', ie_err = None,
        ie_params = [''statusCode'' \<mapsto> PInt 429]\<rparr>), rq_elapsed = 1, rq_now = 0, rq_url = '''',
      rq_method = ''GET''\<rparr>)) (NewThrottledHTTPClient H)) in
    1 \<le> rl_qps s \<and> rl_qps s \<le> 20 \<and> rl_limit s = rl_qps s \<and> rl_burst s = \<lfloor>rl_qps s\<rfloor>
    \<and> 1 \<le> rl_burst s \<and> rl_burst s \<le> 20"
  unfolding Let_def [of "\<lparr>sh_NewHttpClient = _, sh_RetryCount = _, sh_Timeout = _, sh_Sleep = _,
      sh_KvDefaultHeaders = _, sh_ReauthFunc = _\<rparr>"]
  by (rule limiter_rate_bounds [OF rnd_ok_id])

text \<open>A burst of throttled or failing answers halves the rate once, not once per answer: the requests
that lower the rate are at least the one-second cooldown apart, so \<open>w\<close> nanoseconds see at most
\<open>w / 1s + 1\<close> decreases.\<close>

theorem limiter_one_decrease_per_cooldown:
  assumes "rnd_ok rnd" and "limiter_inv s" and "sorted (map rq_now rqs)" and "rl_lastAdj s = None"
    and "\<forall>rq\<in>set rqs. lo \<le> rq_now rq \<and> rq_now rq \<le> lo + w" and "0 \<le> w"
  shows "int (length (drop_times rnd code_text rqs s)) \<le> w div Second + 1"
proof -
  have sp: "spaced Second (drop_times rnd code_text rqs s)"
    using drop_times_bound [OF assms(1-3), of code_text] assms(4) by (simp add: rate_consts)
  have "set (drop_times rnd code_text rqs s) \<subseteq> rq_now ` set rqs"
    by (induction rqs arbitrary: s) (auto simp: Let_def split: if_splits)
  with assms(5) have "\<And>t. t \<in> set (drop_times rnd code_text rqs s) \<Longrightarrow> lo \<le> t \<and> t \<le> lo + w" by auto
  from spaced_count [OF sp Second_pos this assms(6)] show ?thesis by simp
qed

theorem limiter_one_decrease_per_cooldown_witness:
  "int (length (drop_times (\<lambda>x. x) (\<lambda>c. '''') (replicate 100 \<lparr>rq_Wait = (\<lambda>d. None),
      rq_inner = (Resp 429, Some \<lparr>ie_code = EcUnexpectedError, ie_msg = '''', ie_err = None,
        ie_params = [''statusCode'' \<mapsto> PInt 429]\<rparr>), rq_elapsed = 1, rq_now = 0, rq_url = '''',
      rq_method = ''GET''\<rparr>) newAdaptiveRateLimiter)) \<le> 0 div Second + 1"
  by (rule limiter_one_decrease_per_cooldown [OF rnd_ok_id limiter_inv_new, where lo = 0])
    (auto simp: newAdaptiveRateLimiter_def sorted_replicate)

text \<open>The limiter recovers: \<open>n\<close> admitted calm answers, each five seconds after the one before and clear
of the last 5xx, lift the rate by at least \<open>n\<close> (counted from its floor), up to the ceiling of 20.\<close>

theorem limiter_recovers:
  assumes "rnd_ok rnd" and "limiter_inv s"
    and "\<forall>rq\<in>set rqs. calm rq \<and> \<not> time_within (rq_now rq) (rl_lastSrvErr s) rateLimitServerErrorQuiet"
    and "spaced rateLimitRecoverEvery (map rq_now rqs)"
    and "rqs \<noteq> [] \<Longrightarrow> \<not> time_within (rq_now (hd rqs)) (rl_lastAdj s) rateLimitRecoverEvery"
  shows "min 20 (of_int \<lfloor>rl_qps s\<rfloor> + of_nat (length rqs)) \<le> rl_qps (limiter_run rnd code_text rqs s)"
  using assms by (rule calm_run_climbs)

theorem limiter_recovers_witness:
  "min 20 (of_int \<lfloor>rl_qps (newAdaptiveRateLimiter\<lparr>rl_qps := 1, rl_limit := 1, rl_burst := 1\<rparr>)\<rfloor>
      + of_nat (length [\<lparr>rq_Wait = (\<lambda>d. None), rq_inner = (Resp 200, None), rq_elapsed = 1,
          rq_now = 6 * Second, rq_url = '''', rq_method = ''GET''\<rparr>]))
    \<le> rl_qps (limiter_run (\<lambda>x. x) (\<lambda>c. '''') [\<lparr>rq_Wait = (\<lambda>d. None), rq_inner = (Resp 200, None),
        rq_elapsed = 1, rq_now = 6 * Second, rq_url = '''', rq_method = ''GET''\<rparr>]
        (newAdaptiveRateLimiter\<lparr>rl_qps := 1, rl_limit := 1, rl_burst := 1\<rparr>))"
  by (rule limiter_recovers [OF rnd_ok_id])
    (simp_all add: limiter_inv_def newAdaptiveRateLimiter_def rate_consts calm_def wait_def isThrottled_def
      isServerError_def time_within_def)

end
