(* ===== verification/MetaCache.thy ===== *)
theory MetaCache
  imports SdkTypes
begin

text \<open>
  The catalog cache of \<^verbatim>\<open>pkg/cloud/metacache.go\<close>. A call of \<open>get\<close> is a sequence of atomic
  steps: the locked section at its start (serve a fresh value, join the fetch in flight, or start
  one), the locked section after the loader has returned, the close of the call's channel, and, for a caller that joined,
  the receive. \<open>cache_step\<close> interleaves the steps of any number of callers; the loader's answer is
  free in each step. A loader that panics is outside the model.
\<close>

section \<open>metacache.go\<close>

definition metaCacheTTL :: int where
  "metaCacheTTL = 5 * Minute"

text \<open>The cached value with its \<open>loaded\<close> flag, and the id of the call being fetched.\<close>

record 'a metaCache =
  mc_ttl :: int
  mc_value :: "'a option"
  mc_expires :: int
  mc_loading :: "nat option"
  mc_permanent :: bool

definition newMetaCache :: "int \<Rightarrow> 'a metaCache" where
  "newMetaCache pttl = \<lparr>mc_ttl = pttl, mc_value = None, mc_expires = 0, mc_loading = None,
     mc_permanent = False\<rparr>"

definition newPermanentMetaCache :: "'a metaCache" where
  "newPermanentMetaCache = \<lparr>mc_ttl = 0, mc_value = None, mc_expires = 0, mc_loading = None,
     mc_permanent = True\<rparr>"

definition fresh :: "int \<Rightarrow> 'a metaCache \<Rightarrow> bool" where
  "fresh now s \<longleftrightarrow> mc_value s \<noteq> None \<and> (mc_permanent s \<or> now < mc_expires s)"

text \<open>What the first locked section of \<open>get\<close> decides.\<close>

datatype 'a get_choice = Serve 'a | Join nat | Fetch

definition get_enter :: "int \<Rightarrow> 'a metaCache \<Rightarrow> 'a get_choice" where
  "get_enter now s =
     (if fresh now s then (case mc_value s of Some v \<Rightarrow> Serve v | None \<Rightarrow> Fetch)
      else (case mc_loading s of Some call \<Rightarrow> Join call | None \<Rightarrow> Fetch))"

text \<open>The locked section after the loader has returned.\<close>

definition get_loaded :: "int \<Rightarrow> ierror + 'a \<Rightarrow> 'a metaCache \<Rightarrow> 'a metaCache" where
  "get_loaded now res s =
     (case res of
        Inl e \<Rightarrow> s\<lparr>mc_loading := None\<rparr>
      | Inr v \<Rightarrow> s\<lparr>mc_loading := None, mc_value := Some v, mc_expires := now + mc_ttl s\<rparr>)"

text \<open>
  A call of \<open>get\<close> with nobody else around: \<open>now\<close> on entry, the loader's answer and the time it
  returns at. The flag says whether the loader was called.
\<close>

definition cache_get ::
    "int \<Rightarrow> (ierror + 'a) \<Rightarrow> int \<Rightarrow> 'a metaCache \<Rightarrow> (ierror + 'a) \<times> bool \<times> 'a metaCache" where
  "cache_get now load later s =
     (if fresh now s then (Inr (the (mc_value s)), False, s)
      else (load, True, get_loaded later load s))"

section \<open>The keyed cache\<close>

record 'a keyedMetaCache =
  kc_ttl :: int
  kc_entries :: "string \<rightharpoonup> 'a metaCache"

definition newKeyedMetaCache :: "int \<Rightarrow> 'a keyedMetaCache" where
  "newKeyedMetaCache pttl = \<lparr>kc_ttl = pttl, kc_entries = Map.empty\<rparr>"

definition keyed_entry :: "string \<Rightarrow> 'a keyedMetaCache \<Rightarrow> 'a metaCache" where
  "keyed_entry pkey s =
     (case kc_entries s pkey of None \<Rightarrow> newMetaCache (kc_ttl s) | Some entry \<Rightarrow> entry)"

definition keyed_get ::
    "string \<Rightarrow> int \<Rightarrow> (ierror + 'a) \<Rightarrow> int \<Rightarrow> 'a keyedMetaCache
      \<Rightarrow> (ierror + 'a) \<times> bool \<times> 'a keyedMetaCache" where
  "keyed_get pkey now load later s =
     (let (res, called, entry) = cache_get now load later (keyed_entry pkey s)
      in (res, called, s\<lparr>kc_entries := (kc_entries s)(pkey \<mapsto> entry)\<rparr>))"

section \<open>Concurrent callers\<close>

text \<open>
  Where a caller of \<open>get\<close> stands: not started, running the loader of its own call, about to close
  that call's channel, blocked on another caller's call, or back with a result.
\<close>

datatype 'a caller = Idle | Loading nat | Closing nat "ierror + 'a" | Waiting nat | Got "ierror + 'a"

text \<open>
  The cache, the calls allocated so far, the closed ones with their result, the callers, and, as a record of the run, the answers
  the loader has given so far with their times (latest first).
\<close>

record 'a cache_sys =
  sys_cache :: "'a metaCache"
  sys_next :: nat
  sys_closed :: "nat \<rightharpoonup> (ierror + 'a)"
  sys_callers :: "nat \<Rightarrow> 'a caller"
  sys_loads :: "(int \<times> (ierror + 'a)) list"
  sys_now :: int

definition cache_start :: "'a metaCache \<Rightarrow> 'a cache_sys" where
  "cache_start c = \<lparr>sys_cache = c, sys_next = 0, sys_closed = Map.empty, sys_callers = (\<lambda>_. Idle),
     sys_loads = [], sys_now = 0\<rparr>"

definition step_enter :: "nat \<Rightarrow> 'a cache_sys \<Rightarrow> 'a cache_sys" where
  "step_enter c s =
     (case get_enter (sys_now s) (sys_cache s) of
        Serve v \<Rightarrow> s\<lparr>sys_callers := (sys_callers s)(c := Got (Inr v))\<rparr>
      | Join call \<Rightarrow> s\<lparr>sys_callers := (sys_callers s)(c := Waiting call)\<rparr>
      | Fetch \<Rightarrow> s\<lparr>sys_callers := (sys_callers s)(c := Loading (sys_next s)),
               sys_cache := (sys_cache s)\<lparr>mc_loading := Some (sys_next s)\<rparr>,
               sys_next := Suc (sys_next s)\<rparr>)"

definition step_loaded :: "nat \<Rightarrow> nat \<Rightarrow> ierror + 'a \<Rightarrow> 'a cache_sys \<Rightarrow> 'a cache_sys" where
  "step_loaded c call res s =
     s\<lparr>sys_callers := (sys_callers s)(c := Closing call res),
       sys_cache := get_loaded (sys_now s) res (sys_cache s),
       sys_loads := (sys_now s, res) # sys_loads s\<rparr>"

definition step_close :: "nat \<Rightarrow> nat \<Rightarrow> ierror + 'a \<Rightarrow> 'a cache_sys \<Rightarrow> 'a cache_sys" where
  "step_close c call res s =
     s\<lparr>sys_callers := (sys_callers s)(c := Got res), sys_closed := (sys_closed s)(call \<mapsto> res)\<rparr>"

inductive cache_step :: "'a cache_sys \<Rightarrow> 'a cache_sys \<Rightarrow> bool" where
  tick: "0 \<le> d \<Longrightarrow> cache_step s (s\<lparr>sys_now := sys_now s + d\<rparr>)"
| enter: "sys_callers s c = Idle \<Longrightarrow> cache_step s (step_enter c s)"
| loaded: "sys_callers s c = Loading call \<Longrightarrow> cache_step s (step_loaded c call res s)"
| close: "sys_callers s c = Closing call res \<Longrightarrow> cache_step s (step_close c call res s)"
| wake: "sys_callers s c = Waiting call \<Longrightarrow> sys_closed s call = Some res
    \<Longrightarrow> cache_step s (s\<lparr>sys_callers := (sys_callers s)(c := Got res)\<rparr>)"
| again: "sys_callers s c = Got res \<Longrightarrow> cache_step s (s\<lparr>sys_callers := (sys_callers s)(c := Idle)\<rparr>)"

inductive cache_reachable :: "'a metaCache \<Rightarrow> 'a cache_sys \<Rightarrow> bool" for c0 where
  start: "cache_reachable c0 (cache_start c0)"
| step: "cache_reachable c0 s \<Longrightarrow> cache_step s s' \<Longrightarrow> cache_reachable c0 s'"

section \<open>The invariant of single flight\<close>

definition empty_cache :: "'a metaCache \<Rightarrow> bool" where
  "empty_cache c \<longleftrightarrow> mc_value c = None \<and> mc_loading c = None"

text \<open>
  The fetch in flight is the one of the caller that runs the loader; a caller that waits waits for a
  call that is in flight, about to be closed, or closed; results come from the loader; the cached
  value is the latest success.
\<close>

definition latest_success :: "(int \<times> (ierror + 'a)) list \<Rightarrow> (int \<times> 'a) option" where
  "latest_success loads =
     (case filter (\<lambda>(t, r). \<not> isl r) loads of [] \<Rightarrow> None | (t, r) # _ \<Rightarrow> Some (t, projr r))"

definition loader_inv :: "'a cache_sys \<Rightarrow> bool" where
  "loader_inv s \<longleftrightarrow>
     (\<forall>c call. sys_callers s c = Loading call \<longrightarrow> mc_loading (sys_cache s) = Some call) \<and>
     (\<forall>call. mc_loading (sys_cache s) = Some call \<longrightarrow> (\<exists>c. sys_callers s c = Loading call)) \<and>
     (\<forall>c d call. sys_callers s c = Loading call \<longrightarrow> sys_callers s d = Loading call \<longrightarrow> c = d) \<and>
     (\<forall>c call. sys_callers s c = Loading call \<longrightarrow> call < sys_next s)"

definition waiter_inv :: "'a cache_sys \<Rightarrow> bool" where
  "waiter_inv s \<longleftrightarrow>
     (\<forall>c call. sys_callers s c = Waiting call \<longrightarrow>
        mc_loading (sys_cache s) = Some call \<or> (\<exists>d res. sys_callers s d = Closing call res)
        \<or> sys_closed s call \<noteq> None)"

definition result_inv :: "'a cache_sys \<Rightarrow> bool" where
  "result_inv s \<longleftrightarrow>
     (\<forall>c call res. sys_callers s c = Closing call res \<longrightarrow> res \<in> snd ` set (sys_loads s)) \<and>
     (\<forall>c res. sys_callers s c = Got res \<longrightarrow> res \<in> snd ` set (sys_loads s)) \<and>
     (\<forall>call res. sys_closed s call = Some res \<longrightarrow> res \<in> snd ` set (sys_loads s))"

definition value_inv :: "'a cache_sys \<Rightarrow> bool" where
  "value_inv s \<longleftrightarrow>
     mc_value (sys_cache s) = map_option snd (latest_success (sys_loads s)) \<and>
     (\<forall>t v. latest_success (sys_loads s) = Some (t, v) \<longrightarrow>
        mc_expires (sys_cache s) = t + mc_ttl (sys_cache s))"

definition cache_inv :: "'a cache_sys \<Rightarrow> bool" where
  "cache_inv s \<longleftrightarrow> loader_inv s \<and> waiter_inv s \<and> result_inv s \<and> value_inv s"

lemma latest_success_simps [simp]:
  "latest_success [] = None"
  "latest_success ((t, Inl e) # ls) = latest_success ls"
  "latest_success ((t, Inr v) # ls) = Some (t, v)"
  by (simp_all add: latest_success_def)

lemma latest_success_in: "latest_success ls = Some (t, v) \<Longrightarrow> (t, Inr v) \<in> set ls"
proof (induction ls)
  case Nil
  then show ?case by simp
next
  case (Cons l ls)
  then show ?case by (cases l; cases "snd l") auto
qed

lemma cache_inv_start: "empty_cache c0 \<Longrightarrow> cache_inv (cache_start c0)"
  by (simp add: cache_inv_def loader_inv_def waiter_inv_def result_inv_def value_inv_def
      cache_start_def empty_cache_def)

lemma loader_inv_cong:
  assumes "\<And>d k. sys_callers s' d = Loading k \<longleftrightarrow> sys_callers s d = Loading k"
    and "mc_loading (sys_cache s') = mc_loading (sys_cache s)" and "sys_next s' = sys_next s"
  shows "loader_inv s' \<longleftrightarrow> loader_inv s"
  unfolding loader_inv_def assms by (rule refl)

lemma loader_inv_enter:
  assumes "loader_inv s" and "sys_callers s c = Idle"
  shows "loader_inv (step_enter c s)"
proof (cases "get_enter (sys_now s) (sys_cache s)")
  case Fetch
  then have none: "mc_loading (sys_cache s) = None"
    by (auto simp: get_enter_def fresh_def split: option.splits if_splits)
  with assms(1) have idle: "sys_callers s d \<noteq> Loading call" for d call
    unfolding loader_inv_def by (metis option.distinct(1))
  with Fetch show ?thesis by (auto simp: step_enter_def loader_inv_def)
next
  case (Serve v)
  then have "loader_inv (step_enter c s) \<longleftrightarrow> loader_inv s"
    using assms(2) by (intro loader_inv_cong) (auto simp: step_enter_def)
  with assms(1) show ?thesis by simp
next
  case (Join k)
  then have "loader_inv (step_enter c s) \<longleftrightarrow> loader_inv s"
    using assms(2) by (intro loader_inv_cong) (auto simp: step_enter_def)
  with assms(1) show ?thesis by simp
qed

lemma loader_inv_loaded:
  assumes "loader_inv s" and "sys_callers s c = Loading call"
  shows "loader_inv (step_loaded c call res s)"
proof -
  have only: "d = c" if "sys_callers s d = Loading k" for d k
    using assms that unfolding loader_inv_def by (metis option.inject)
  have "mc_loading (get_loaded (sys_now s) res (sys_cache s)) = None"
    by (simp add: get_loaded_def split: sum.split)
  with only show ?thesis by (auto simp: step_loaded_def loader_inv_def)
qed

lemma loader_inv_step: "cache_step s s' \<Longrightarrow> loader_inv s \<Longrightarrow> loader_inv s'"
proof (induction rule: cache_step.induct)
  case (tick d s)
  then show ?case by (subst loader_inv_cong [where s = s]) simp_all
next
  case (enter s c)
  then show ?case by (simp add: loader_inv_enter)
next
  case (loaded s c call res)
  then show ?case by (simp add: loader_inv_loaded)
next
  case (close s c call res)
  then show ?case by (subst loader_inv_cong [where s = s]) (auto simp: step_close_def)
next
  case (wake s c call res)
  then show ?case by (subst loader_inv_cong [where s = s]) auto
next
  case (again s c res)
  then show ?case by (subst loader_inv_cong [where s = s]) auto
qed

text \<open>A step keeps the waiters' promise when it keeps every source of a result.\<close>

definition call_alive :: "'a cache_sys \<Rightarrow> nat \<Rightarrow> bool" where
  "call_alive s call \<longleftrightarrow> mc_loading (sys_cache s) = Some call
     \<or> (\<exists>d res. sys_callers s d = Closing call res) \<or> sys_closed s call \<noteq> None"

lemma waiter_inv_alive:
  "waiter_inv s \<longleftrightarrow> (\<forall>c call. sys_callers s c = Waiting call \<longrightarrow> call_alive s call)"
  by (simp add: waiter_inv_def call_alive_def)

lemma waiter_inv_keep:
  assumes "waiter_inv s" and "\<And>call. call_alive s call \<Longrightarrow> call_alive s' call"
    and "\<And>c call. sys_callers s' c = Waiting call \<Longrightarrow> sys_callers s c = Waiting call \<or> call_alive s' call"
  shows "waiter_inv s'"
  using assms unfolding waiter_inv_alive by blast

lemma call_alive_caller:
  "call_alive s call \<Longrightarrow> (\<forall>k res. sys_callers s c \<noteq> Closing k res)
    \<Longrightarrow> call_alive (s\<lparr>sys_callers := (sys_callers s)(c := x)\<rparr>) call"
  unfolding call_alive_def by (auto, metis)

lemma waiter_inv_enter:
  assumes "waiter_inv s" and idle: "sys_callers s c = Idle"
  shows "waiter_inv (step_enter c s)"
proof (cases "get_enter (sys_now s) (sys_cache s)")
  case Fetch
  then have none: "mc_loading (sys_cache s) = None"
    by (auto simp: get_enter_def fresh_def split: option.splits if_splits)
  show ?thesis
  proof (rule waiter_inv_keep [OF assms(1)])
    show "call_alive (step_enter c s) call" if "call_alive s call" for call
      using that none idle Fetch unfolding call_alive_def step_enter_def
      by simp (metis caller.distinct)
  qed (use Fetch in \<open>auto simp: step_enter_def split: if_splits\<close>)
next
  case (Serve v)
  show ?thesis
    by (rule waiter_inv_keep [OF assms(1)])
      (use Serve idle in \<open>auto simp: step_enter_def call_alive_caller split: if_splits\<close>)
next
  case (Join k)
  then have "call_alive s k"
    by (auto simp: get_enter_def call_alive_def split: option.splits if_splits)
  then show ?thesis
    by (intro waiter_inv_keep [OF assms(1)])
      (use Join idle in \<open>auto simp: step_enter_def call_alive_caller split: if_splits\<close>)
qed

lemma waiter_inv_step: "cache_step s s' \<Longrightarrow> loader_inv s \<Longrightarrow> waiter_inv s \<Longrightarrow> waiter_inv s'"
proof (induction rule: cache_step.induct)
  case (tick d s)
  then show ?case by (simp add: waiter_inv_def)
next
  case (enter s c)
  then show ?case by (simp add: waiter_inv_enter)
next
  case (loaded s c call res)
  then have mine: "mc_loading (sys_cache s) = Some call" by (simp add: loader_inv_def)
  show ?case
  proof (rule waiter_inv_keep [OF loaded.prems(2)])
    show "call_alive (step_loaded c call res s) k" if "call_alive s k" for k
      using that mine loaded.hyps unfolding call_alive_def step_loaded_def
      by simp (metis caller.distinct option.inject)
  qed (auto simp: step_loaded_def split: if_splits)
next
  case (close s c call res)
  show ?case
  proof (rule waiter_inv_keep [OF close.prems(2)])
    show "call_alive (step_close c call res s) k" if "call_alive s k" for k
      using that close.hyps unfolding call_alive_def step_close_def
      by simp (metis caller.inject(2))
  qed (auto simp: step_close_def split: if_splits)
next
  case (wake s c call res)
  then show ?case
    by (intro waiter_inv_keep [OF wake.prems(2)]) (auto simp: call_alive_caller split: if_splits)
next
  case (again s c res)
  then show ?case
    by (intro waiter_inv_keep [OF again.prems(2)]) (auto simp: call_alive_caller split: if_splits)
qed

lemma result_inv_step: "cache_step s s' \<Longrightarrow> value_inv s \<Longrightarrow> result_inv s \<Longrightarrow> result_inv s'"
proof (induction rule: cache_step.induct)
  case (enter s c)
  have "Inr v \<in> snd ` set (sys_loads s)" if cached: "mc_value (sys_cache s) = Some v" for v
  proof -
    obtain t where "latest_success (sys_loads s) = Some (t, v)"
      using cached enter.prems(1) unfolding value_inv_def
      by (cases "latest_success (sys_loads s)") auto
    then have "(t, Inr v) \<in> set (sys_loads s)" by (rule latest_success_in)
    then show ?thesis by (metis image_eqI snd_conv)
  qed
  with enter show ?case
    by (auto simp: step_enter_def get_enter_def result_inv_def split: option.splits if_splits)
qed (auto simp: result_inv_def step_loaded_def step_close_def)

lemma value_inv_step: "cache_step s s' \<Longrightarrow> value_inv s \<Longrightarrow> value_inv s'"
proof (induction rule: cache_step.induct)
  case (loaded s c call res)
  then show ?case by (cases res) (auto simp: step_loaded_def get_loaded_def value_inv_def)
next
  case (enter s c)
  then show ?case
    by (auto simp: step_enter_def get_enter_def value_inv_def split: option.splits if_splits)
qed (auto simp: value_inv_def step_close_def)

lemma cache_reachable_inv:
  assumes "cache_reachable c0 s" and "empty_cache c0"
  shows "cache_inv s"
  using assms
proof (induction rule: cache_reachable.induct)
  case start
  then show ?case by (rule cache_inv_start)
next
  case (step s s')
  then show ?case
    using loader_inv_step waiter_inv_step result_inv_step value_inv_step
    unfolding cache_inv_def by blast
qed

text \<open>The cache's mode never changes.\<close>

lemma cache_step_ttl:
  "cache_step s s' \<Longrightarrow> mc_ttl (sys_cache s') = mc_ttl (sys_cache s)
    \<and> mc_permanent (sys_cache s') = mc_permanent (sys_cache s)"
  by (induction rule: cache_step.induct)
    (auto simp: step_enter_def step_loaded_def step_close_def get_loaded_def
      split: get_choice.splits sum.splits)

lemma cache_reachable_ttl:
  "cache_reachable c0 s \<Longrightarrow> mc_ttl (sys_cache s) = mc_ttl c0 \<and> mc_permanent (sys_cache s) = mc_permanent c0"
  by (induction rule: cache_reachable.induct) (simp_all add: cache_start_def cache_step_ttl)

section \<open>Properties\<close>

text \<open>C36: Single flight: under any interleaving of callers at most one of them runs the loader, a caller
that waits always waits for a call that is running, being closed or closed (so its wake-up is not lost),
and every result a caller gets is an answer the loader gave.\<close>

theorem cache_single_flight:
  assumes "cache_reachable c0 s" and "empty_cache c0"
  shows "(sys_callers s c = Loading k \<longrightarrow> sys_callers s d = Loading k' \<longrightarrow> c = d) \<and>
    (sys_callers s c = Waiting k \<longrightarrow> (\<exists>d. sys_callers s d = Loading k) \<or>
       (\<exists>d res. sys_callers s d = Closing k res) \<or> sys_closed s k \<noteq> None) \<and>
    (sys_callers s c = Got res \<longrightarrow> res \<in> snd ` set (sys_loads s))"
proof -
  have inv: "loader_inv s" "waiter_inv s" "result_inv s"
    using cache_reachable_inv [OF assms] by (simp_all add: cache_inv_def)
  have one: "sys_callers s c = Loading k \<longrightarrow> sys_callers s d = Loading k' \<longrightarrow> c = d"
    using inv(1) unfolding loader_inv_def by (metis option.inject)
  moreover have "sys_callers s c = Waiting k \<longrightarrow> (\<exists>d. sys_callers s d = Loading k) \<or>
      (\<exists>d res. sys_callers s d = Closing k res) \<or> sys_closed s k \<noteq> None"
    using inv(1,2) unfolding loader_inv_def waiter_inv_def by blast
  moreover have "sys_callers s c = Got res \<longrightarrow> res \<in> snd ` set (sys_loads s)"
    using inv(3) unfolding result_inv_def by blast
  ultimately show ?thesis by blast
qed

theorem cache_single_flight_witness:
  "\<exists>d. sys_callers (step_enter 1 (step_enter 0 (cache_start (newMetaCache 5 :: nat metaCache)))) d = Loading 0"
proof -
  let ?start = "cache_start (newMetaCache 5 :: nat metaCache)"
  let ?s = "step_enter 1 (step_enter 0 ?start)"
  have "cache_reachable (newMetaCache 5 :: nat metaCache) (step_enter 0 ?start)"
    by (rule cache_reachable.step [OF cache_reachable.start], rule enter) (simp add: cache_start_def)
  from cache_reachable.step [OF this enter [of "step_enter 0 ?start" 1]]
  have reach: "cache_reachable (newMetaCache 5 :: nat metaCache) ?s"
    by
      (simp add: cache_start_def step_enter_def get_enter_def fresh_def newMetaCache_def)
  have "sys_callers ?s 1 = Waiting 0" "sys_closed ?s 0 = None" "sys_callers ?s d \<noteq> Closing 0 res" for d res
    by (simp_all add: cache_start_def step_enter_def get_enter_def fresh_def newMetaCache_def)
  with cache_single_flight [OF reach, of 1 0 0 0] show ?thesis
    by (auto simp: empty_cache_def newMetaCache_def)
qed

text \<open>What the cache serves without a load is the latest success of the loader, never a failure, and
in a cache with a time to live it is younger than that.\<close>

theorem cache_serves_fresh_success:
  assumes "cache_reachable c0 s" and "empty_cache c0"
    and "get_enter (sys_now s) (sys_cache s) = Serve v"
  shows "\<exists>t. latest_success (sys_loads s) = Some (t, v) \<and> (t, Inr v) \<in> set (sys_loads s) \<and>
    (\<not> mc_permanent c0 \<longrightarrow> sys_now s < t + mc_ttl c0)"
proof -
  have inv: "value_inv s" using cache_reachable_inv [OF assms(1,2)] by (simp add: cache_inv_def)
  have fresh: "fresh (sys_now s) (sys_cache s)" and v: "mc_value (sys_cache s) = Some v"
    using assms(3) by (auto simp: get_enter_def fresh_def split: if_splits option.splits)
  obtain t where t: "latest_success (sys_loads s) = Some (t, v)"
    using inv v unfolding value_inv_def by (cases "latest_success (sys_loads s)") auto
  moreover have "(t, Inr v) \<in> set (sys_loads s)" using t by (rule latest_success_in)
  moreover have "sys_now s < t + mc_ttl c0" if "\<not> mc_permanent c0"
    using that fresh inv t cache_reachable_ttl [OF assms(1)]
    by (auto simp: fresh_def value_inv_def)
  ultimately show ?thesis by blast
qed

theorem cache_serves_fresh_success_witness:
  "\<exists>t. latest_success [(0, Inr (7::nat))] = Some (t, 7) \<and> (t, Inr 7) \<in> set [(0, Inr (7::nat))] \<and>
    (\<not> mc_permanent (newMetaCache 5 :: nat metaCache) \<longrightarrow>
       0 < t + mc_ttl (newMetaCache 5 :: nat metaCache))"
proof -
  let ?s1 = "step_enter 0 (cache_start (newMetaCache 5 :: nat metaCache))"
  let ?s2 = "step_loaded 0 0 (Inr 7) ?s1"
  have "cache_reachable (newMetaCache 5) ?s1"
    by (rule cache_reachable.step [OF cache_reachable.start], rule enter) (simp add: cache_start_def)
  moreover have "sys_callers ?s1 0 = Loading 0"
    by (simp add: step_enter_def cache_start_def get_enter_def fresh_def newMetaCache_def)
  ultimately have r: "cache_reachable (newMetaCache 5) ?s2"
    by (intro cache_reachable.step [OF _ loaded])
  have "get_enter (sys_now ?s2) (sys_cache ?s2) = Serve 7"
    by (simp add: step_loaded_def step_enter_def cache_start_def get_enter_def fresh_def
        newMetaCache_def get_loaded_def)
  from cache_serves_fresh_success [OF r _ this] show ?thesis
    by (simp add: empty_cache_def newMetaCache_def step_loaded_def step_enter_def cache_start_def
        get_enter_def fresh_def)
qed

end
