(* ===== verification/SdkApi.thy ===== *)
theory SdkApi
  imports SdkTypes MetaCache
begin

text \<open>
  The environment of \<^verbatim>\<open>pkg/cloud\<close>: the vServer API behind the SDK, the clock, the request
  context, and the polling helper of apimachinery. None of them is code of the repository, so they
  are one argument \<open>E\<close> of the model. What an API call answers may depend on everything that
  happened before, so an operation of \<open>E\<close> takes the history of calls and answers, which is also the
  state the properties talk about (latest event first). The methods the SDK defines on its own volume
  type (\<open>IsAvailable\<close>, \<open>IsError\<close>, \<open>CanDelete\<close>, \<open>AttachedTheInstance\<close>) are part of \<open>E\<close> too; the
  repository's own methods of the same names are in \<open>SdkTypes\<close>.
\<close>

section \<open>Entities and requests\<close>

record snapshot =
  snap_Id :: string
  snap_Name :: string
  snap_VolumeId :: string
  snap_Status :: string
  snap_VolumeSize :: int64
  snap_Size :: int64
  snap_CreatedAt :: string

record snapshot_page =
  sp_Items :: "snapshot list"
  sp_Page :: int
  sp_TotalPages :: int

record volume_type =
  vt_Id :: string
  vt_Name :: string
  vt_ZoneId :: string
  vt_MinSize :: int64

record zone =
  zone_OpenstackZone :: string
  zone_Uuid :: string

text \<open>What \<^verbatim>\<open>ToSdkCreateVolumeRequest\<close> puts into the SDK's request.\<close>

record create_req =
  cr_Name :: string
  cr_VolumeTypeId :: string
  cr_Size :: int64
  cr_Poc :: bool
  cr_Zone :: string
  cr_MultiAttach :: bool
  cr_EncryptionType :: string
  cr_Tags :: "string list"
  cr_Restore :: "(string \<times> string) option"

section \<open>History\<close>

datatype event =
    EvPortal string "ierror + string"
  | EvListByName string "ierror + volume list"
  | EvGet string "ierror + volume"
  | EvCreate create_req "ierror + volume"
  | EvResize string string int64 "ierror + volume"
  | EvDelete string "ierror option"
  | EvAttach string string "ierror option"
  | EvDetach string string "ierror option"
  | EvMigrate string string "ierror option"
  | EvUnderId string "ierror + string"
  | EvListSnapshots int int string "ierror + snapshot_page option"
  | EvCreateSnapshot string string "ierror + snapshot"
  | EvDeleteSnapshot string "ierror option"
  | EvGetType string "ierror + volume_type"
  | EvDefaultType "ierror + volume_type"
  | EvTypeZones string "ierror + volume_type option list"
  | EvListTypes string "ierror + volume_type option list"
  | EvListZones "ierror + zone list"

type_synonym history = "event list"

text \<open>A command is a call that changes something at the IaaS.\<close>

fun is_command :: "event \<Rightarrow> bool" where
  "is_command (EvCreate r x) = True"
| "is_command (EvResize i t n x) = True"
| "is_command (EvDelete v x) = True"
| "is_command (EvAttach i v x) = True"
| "is_command (EvDetach i v x) = True"
| "is_command (EvMigrate v t x) = True"
| "is_command (EvCreateSnapshot n v x) = True"
| "is_command (EvDeleteSnapshot n x) = True"
| "is_command _ = False"

definition commands :: "history \<Rightarrow> history" where
  "commands h = filter is_command h"

lemma commands_simps [simp]:
  "commands [] = []" "commands (e # h) = (if is_command e then e # commands h else commands h)"
  "commands (h1 @ h2) = commands h1 @ commands h2"
  by (simp_all add: commands_def)

section \<open>State\<close>

text \<open>The state of the \<^verbatim>\<open>cloud\<close> struct: its three caches, over the history.\<close>

record cstate =
  cs_hist :: history
  cs_project :: "string metaCache"
  cs_zones :: "zone list metaCache"
  cs_types :: "string keyedMetaCache"

section \<open>The environment\<close>

record backoff =
  bo_Duration :: int
  bo_Factor_x10 :: nat
  bo_Steps :: nat

text \<open>
  The condition a wait polls: it may record a result (the variable its closure assigns) and change
  the state; it answers whether it is done and an error that stops the wait. The helper is used at
  two state types: a volume wait carries the volume it found, the snapshot wait whether its closure
  panicked.
\<close>

type_synonym 's poll_cond = "'s \<Rightarrow> (bool \<times> go_error option) \<times> 's"
type_synonym poll_state = "volume option \<times> cstate"

record env =
  e_merge :: merge_params
  e_clock :: "history \<Rightarrow> int"
  e_ctx :: "history \<Rightarrow> go_error option"
  e_wait :: "backoff \<Rightarrow> poll_state poll_cond \<Rightarrow> poll_state \<Rightarrow> go_error option \<times> poll_state"
  e_wait_snapshot ::
    "backoff \<Rightarrow> (bool \<times> cstate) poll_cond \<Rightarrow> bool \<times> cstate \<Rightarrow> go_error option \<times> (bool \<times> cstate)"
  e_ProjectID :: string
  e_swap :: "history \<Rightarrow> bool"
  sv_IsAvailable :: "volume \<Rightarrow> bool"
  sv_IsError :: "volume \<Rightarrow> bool"
  sv_CanDelete :: "volume \<Rightarrow> bool"
  sv_AttachedTheInstance :: "volume \<Rightarrow> string \<Rightarrow> bool"
  api_Portal :: "history \<Rightarrow> string \<Rightarrow> ierror + string"
  api_ListByName :: "history \<Rightarrow> string \<Rightarrow> ierror + volume list"
  api_Get :: "history \<Rightarrow> string \<Rightarrow> ierror + volume"
  api_Create :: "history \<Rightarrow> create_req \<Rightarrow> ierror + volume"
  api_Resize :: "history \<Rightarrow> string \<Rightarrow> string \<Rightarrow> int64 \<Rightarrow> ierror + volume"
  api_Delete :: "history \<Rightarrow> string \<Rightarrow> ierror option"
  api_Attach :: "history \<Rightarrow> string \<Rightarrow> string \<Rightarrow> ierror option"
  api_Detach :: "history \<Rightarrow> string \<Rightarrow> string \<Rightarrow> ierror option"
  api_Migrate :: "history \<Rightarrow> string \<Rightarrow> string \<Rightarrow> ierror option"
  api_UnderId :: "history \<Rightarrow> string \<Rightarrow> ierror + string"
  api_ListSnapshots :: "history \<Rightarrow> int \<Rightarrow> int \<Rightarrow> string \<Rightarrow> ierror + snapshot_page option"
  api_CreateSnapshot :: "history \<Rightarrow> string \<Rightarrow> string \<Rightarrow> ierror + snapshot"
  api_DeleteSnapshot :: "history \<Rightarrow> string \<Rightarrow> ierror option"
  api_GetType :: "history \<Rightarrow> string \<Rightarrow> ierror + volume_type"
  api_DefaultType :: "history \<Rightarrow> ierror + volume_type"
  api_TypeZones :: "history \<Rightarrow> string \<Rightarrow> ierror + volume_type option list"
  api_ListTypes :: "history \<Rightarrow> string \<Rightarrow> ierror + volume_type option list"
  api_ListZones :: "history \<Rightarrow> ierror + zone list"

text \<open>One API call: ask the environment, record the call with its answer.\<close>

definition api_call :: "(history \<Rightarrow> 'r) \<Rightarrow> ('r \<Rightarrow> event) \<Rightarrow> (cstate, 'r) state" where
  "api_call ask ev = st (\<lambda>s. let r = ask (cs_hist s) in (r, s\<lparr>cs_hist := ev r # cs_hist s\<rparr>))"

lemma run_api_call [simp]:
  "run_state (api_call ask ev) s = (ask (cs_hist s), s\<lparr>cs_hist := ev (ask (cs_hist s)) # cs_hist s\<rparr>)"
  by (simp add: api_call_def Let_def)

text \<open>A read of the environment that leaves no trace.\<close>

definition ask_env :: "(history \<Rightarrow> 'r) \<Rightarrow> (cstate, 'r) state" where
  "ask_env f = st (\<lambda>s. (f (cs_hist s), s))"

lemma run_ask_env [simp]: "run_state (ask_env f) s = (f (cs_hist s), s)"
  by (simp add: ask_env_def)

text \<open>
  \<open>metaCache.get\<close> inside the state: the loader runs on the state and may itself make calls, so the
  cache is updated in the state the loader leaves. Callers of one process are serialised here; their
  interleaving is the subject of \<open>MetaCache\<close>.
\<close>

definition cached_get ::
    "env \<Rightarrow> (cstate \<Rightarrow> 'a metaCache) \<Rightarrow> ('a metaCache \<Rightarrow> cstate \<Rightarrow> cstate) \<Rightarrow> (cstate, ierror + 'a) state
      \<Rightarrow> (cstate, ierror + 'a) state" where
  "cached_get E get_c put_c load = st (\<lambda>s.
     if fresh (e_clock E (cs_hist s)) (get_c s) then (Inr (the (mc_value (get_c s))), s)
     else
       (case run_state load s of
          (res, s') \<Rightarrow> (res, put_c (get_loaded (e_clock E (cs_hist s')) res (get_c s')) s')))"

section \<open>The polling helper\<close>

text \<open>
  What the code relies on of \<^verbatim>\<open>wait.ExponentialBackoffWithContext\<close>: it calls the condition one time
  after another, at most \<open>Steps\<close> times, stops as soon as the condition says it is done or returns an
  error, hands that error on, and otherwise gives up with a timeout or with the context's error.
\<close>

inductive poll :: "'s poll_cond \<Rightarrow> nat \<Rightarrow> 's \<Rightarrow> go_error option \<times> 's \<Rightarrow> bool" for cond where
  stop: "cond s = ((ok, err), s') \<Longrightarrow> ok \<or> err \<noteq> None \<Longrightarrow> poll cond (Suc n) s (err, s')"
| again: "cond s = ((False, None), s') \<Longrightarrow> poll cond n s' r \<Longrightarrow> poll cond (Suc n) s r"
| give_up: "e = ErrWaitTimeout \<or> e = CtxErr \<Longrightarrow> poll cond n s (Some e, s)"

definition wait_ok :: "env \<Rightarrow> bool" where
  "wait_ok E \<longleftrightarrow> (\<forall>b cond s. poll cond (bo_Steps b) s (e_wait E b cond s))
     \<and> (\<forall>b cond s. poll cond (bo_Steps b) s (e_wait_snapshot E b cond s))"

lemma wait_okD:
  "wait_ok E \<Longrightarrow> poll cond (bo_Steps b) s (e_wait E b cond s)"
  "wait_ok E \<Longrightarrow> poll cond' (bo_Steps b) s' (e_wait_snapshot E b cond' s')"
  unfolding wait_ok_def by blast+

inductive_cases poll_SucE: "poll cond (Suc n) s r"

text \<open>A helper that never sees its context end: it polls \<open>Steps\<close> times.\<close>

fun poll_all :: "nat \<Rightarrow> 's poll_cond \<Rightarrow> 's \<Rightarrow> go_error option \<times> 's" where
  "poll_all 0 cond s = (Some ErrWaitTimeout, s)"
| "poll_all (Suc n) cond s =
     (case cond s of ((ok, err), s') \<Rightarrow> if ok \<or> err \<noteq> None then (err, s') else poll_all n cond s')"

lemma poll_all_poll: "poll cond n s (poll_all n cond s)"
proof (induction n arbitrary: s)
  case 0
  then show ?case by (simp add: poll.give_up)
next
  case (Suc n)
  obtain ok err s' where c: "cond s = ((ok, err), s')" by (metis surj_pair)
  show ?case
  proof (cases "ok \<or> err \<noteq> None")
    case True
    with c show ?thesis by (auto intro: poll.stop)
  next
    case False
    with c Suc [of s'] show ?thesis by (auto intro: poll.again)
  qed
qed

text \<open>
  An invariant of the condition is an invariant of the whole wait, and a wait without an error ends
  with a condition that said it was done.
\<close>

lemma poll_invariant:
  assumes "poll cond n s r" and "P s" and "\<And>s c s'. P s \<Longrightarrow> cond s = (c, s') \<Longrightarrow> P s'"
  shows "P (snd r)"
  using assms by (induction rule: poll.induct) auto

lemma poll_success:
  assumes "poll cond n s (None, s')" and "P s"
    and "\<And>s s'. P s \<Longrightarrow> cond s = ((False, None), s') \<Longrightarrow> P s'"
  shows "\<exists>s0. P s0 \<and> cond s0 = ((True, None), s')"
  using assms
proof (induction n s "(None :: go_error option, s')" rule: poll.induct)
  case (stop s ok n)
  then have "cond s = ((True, None), s')" by simp
  with stop.prems show ?case by blast
next
  case (again s s1 n)
  then show ?case by blast
qed

section \<open>What happened between two states\<close>

text \<open>\<open>ext\<close>: the history only grew; \<open>news\<close>: the events that are new, latest first.\<close>

definition ext :: "cstate \<Rightarrow> cstate \<Rightarrow> bool" where
  "ext s s' \<longleftrightarrow> (\<exists>evs. cs_hist s' = evs @ cs_hist s)"

definition news :: "cstate \<Rightarrow> cstate \<Rightarrow> history" where
  "news s s' = take (length (cs_hist s') - length (cs_hist s)) (cs_hist s')"

lemma ext_refl [simp]: "ext s s"
  by (simp add: ext_def)

lemma news_refl [simp]: "news s s = []"
  by (simp add: news_def)

lemma news_append: "cs_hist s' = evs @ cs_hist s \<Longrightarrow> news s s' = evs"
  by (simp add: news_def)

lemma ext_trans: "ext s s1 \<Longrightarrow> ext s1 s2 \<Longrightarrow> ext s s2"
  by (auto simp: ext_def)

lemma news_trans: "ext s s1 \<Longrightarrow> ext s1 s2 \<Longrightarrow> news s s2 = news s1 s2 @ news s s1"
  by (auto simp: ext_def news_def)

lemma ext_call [simp]: "ext s (s\<lparr>cs_hist := e # cs_hist s\<rparr>)"
  by (simp add: ext_def)

lemma news_call [simp]: "news s (s\<lparr>cs_hist := e # cs_hist s\<rparr>) = [e]"
  by (simp add: news_def)

lemma ext_caches [simp]:
  "ext s (s'\<lparr>cs_project := a\<rparr>) = ext s s'" "ext s (s'\<lparr>cs_zones := b\<rparr>) = ext s s'"
  "ext s (s'\<lparr>cs_types := c\<rparr>) = ext s s'"
  "news s (s'\<lparr>cs_project := a\<rparr>) = news s s'" "news s (s'\<lparr>cs_zones := b\<rparr>) = news s s'"
  "news s (s'\<lparr>cs_types := c\<rparr>) = news s s'"
  by (simp_all add: ext_def news_def)

text \<open>\<open>did cmds s s'\<close>: between the two states exactly the commands \<open>cmds\<close> were issued.\<close>

definition did :: "history \<Rightarrow> cstate \<Rightarrow> cstate \<Rightarrow> bool" where
  "did cmds s s' \<longleftrightarrow> ext s s' \<and> commands (news s s') = cmds"

lemma did_refl [simp]: "did [] s s"
  by (simp add: did_def)

lemma did_trans: "did c1 s s1 \<Longrightarrow> did c2 s1 s2 \<Longrightarrow> did (c2 @ c1) s s2"
  unfolding did_def using news_trans [of s s1 s2] ext_trans [of s s1 s2] by simp

lemma did_ro_trans: "did c1 s s1 \<Longrightarrow> did [] s1 s2 \<Longrightarrow> did c1 s s2"
  using did_trans [of c1 s s1 "[]" s2] by simp

lemma did_after_ro: "did [] s s1 \<Longrightarrow> did c s1 s2 \<Longrightarrow> did c s s2"
  using did_trans [of "[]" s s1 c s2] by simp

lemma wp_api_call [simp]:
  "wp (api_call ask ev) Q s =
    Q (ask (cs_hist s)) (s\<lparr>cs_hist := ev (ask (cs_hist s)) # cs_hist s\<rparr>)"
  by (simp add: wp_def)

lemma wp_ask_env [simp]: "wp (ask_env f) Q s = Q (f (cs_hist s)) s"
  by (simp add: wp_def)

section \<open>Reads\<close>

interpretation rd: state_frame "did []"
  by unfold_locales (auto intro: did_after_ro)

lemmas [frames] = rd.keeps_return rd.keeps_bind

lemma keeps_api_call [frames]: "(\<And>x. \<not> is_command (ev x)) \<Longrightarrow> keeps (did []) (api_call ask ev)"
  by (rule keepsI) (simp add: did_def commands_def)

lemma keeps_ask_env [frames]: "keeps (did []) (ask_env f)"
  by (rule keepsI) simp

lemma keeps_cached_get [frames]:
  assumes "keeps (did []) load" and "\<And>c s s1. did [] s (put_c c s1) = did [] s s1"
  shows "keeps (did []) (cached_get E get_c put_c load)"
proof (rule keepsI)
  fix s
  from assms(1) have "wp load (\<lambda>_. did [] s) s" by (rule keepsD)
  with assms(2) show "wp (cached_get E get_c put_c load) (\<lambda>_. did [] s) s"
    by (auto simp: cached_get_def wp_def split: prod.splits)
qed

end
