(* ===== verification/Samples.thy ===== *)
theory Samples
  imports SdkApi
begin

text \<open>
  A concrete vServer for the witnesses: one project, one volume, a polling helper that polls until its
  steps are used up. The volume's state follows from the commands in the history: an accepted attach,
  detach or delete takes effect at once, a resize sets size and type. \<open>att\<close> says whether the volume
  starts attached to the instance \<^verbatim>\<open>ins-1\<close>; the other parameters are answers to the commands.
\<close>

definition sample_error :: "error_code \<Rightarrow> ierror" where
  "sample_error c = \<lparr>ie_code = c, ie_msg = ''refused'', ie_err = Some (GoErr ''refused''),
     ie_params = [''statusCode'' \<mapsto> PInt 500]\<rparr>"

fun sample_attached :: "bool \<Rightarrow> history \<Rightarrow> bool" where
  "sample_attached att [] = att"
| "sample_attached att (EvAttach i v None # h) = True"
| "sample_attached att (EvDetach i v None # h) = False"
| "sample_attached att (e # h) = sample_attached att h"

fun sample_deleted :: "history \<Rightarrow> bool" where
  "sample_deleted [] = False"
| "sample_deleted (EvDelete v None # h) = True"
| "sample_deleted (e # h) = sample_deleted h"

fun sample_size :: "history \<Rightarrow> uint64 \<times> string" where
  "sample_size [] = (20, ''type-a'')"
| "sample_size (EvResize v t n (Inr vol) # h) = (n, t)"
| "sample_size (EvMigrate v t None # h) = (fst (sample_size h), t)"
| "sample_size (e # h) = sample_size h"

definition sample_volume :: "bool \<Rightarrow> history \<Rightarrow> string \<Rightarrow> volume" where
  "sample_volume att h v =
     \<lparr>vol_Id = v, vol_Name = ''pvc-1'', vol_Size = fst (sample_size h),
      vol_Status = (if sample_attached att h then VolumeInUseStatus else VolumeAvailableStatus),
      vol_VmId = (if sample_attached att h then ''ins-1'' else ''''),
      vol_AttachedMachine = (if sample_attached att h then [''ins-1''] else []),
      vol_VolumeTypeID = snd (sample_size h), vol_ZoneId = ''zone-1''\<rparr>"

definition sample_type :: "string \<Rightarrow> volume_type" where
  "sample_type t = \<lparr>vt_Id = t, vt_Name = t, vt_ZoneId = ''zone-1'', vt_MinSize = 10\<rparr>"

definition sample_env :: "bool \<Rightarrow> ierror option \<Rightarrow> env" where
  "sample_env att refusal =
     \<lparr>e_merge = (++), e_clock = (\<lambda>h. int (length h) * Second), e_ctx = (\<lambda>h. None),
      e_wait = (\<lambda>b. poll_all (bo_Steps b)), e_wait_snapshot = (\<lambda>b. poll_all (bo_Steps b)),
      e_ProjectID = ''under-1'', e_swap = (\<lambda>h. False),
      sv_IsAvailable = (\<lambda>v. vol_Status v = VolumeAvailableStatus),
      sv_IsError = (\<lambda>v. vol_Status v = VolumeErrorStatus),
      sv_CanDelete = (\<lambda>v. vol_Status v = VolumeAvailableStatus),
      sv_AttachedTheInstance = (\<lambda>v i. vol_VmId v = i),
      api_Portal = (\<lambda>h p. Inr ''pro-1''),
      api_ListByName = (\<lambda>h n. Inr []),
      api_Get = (\<lambda>h v. if sample_deleted h then Inl (sample_error EcVServerVolumeNotFound)
                       else Inr (sample_volume att h v)),
      api_Create = (\<lambda>h r. Inr ((sample_volume att h ''vol-9'')\<lparr>vol_Name := cr_Name r, vol_Size := cr_Size r,
                       vol_VolumeTypeID := cr_VolumeTypeId r\<rparr>)),
      api_Resize = (\<lambda>h v t n. Inr (sample_volume att h v)),
      api_Delete = (\<lambda>h v. refusal),
      api_Attach = (\<lambda>h i v. refusal),
      api_Detach = (\<lambda>h i v. refusal),
      api_Migrate = (\<lambda>h v t. None),
      api_UnderId = (\<lambda>h v. Inr ''under-vol-1''),
      api_ListSnapshots = (\<lambda>h p n v. Inr (Some \<lparr>sp_Items = [], sp_Page = 1, sp_TotalPages = 0\<rparr>)),
      api_CreateSnapshot = (\<lambda>h n v. Inr \<lparr>snap_Id = ''snap-1'', snap_Name = n, snap_VolumeId = v,
         snap_Status = SnapshotActiveStatus, snap_VolumeSize = 20, snap_Size = 20, snap_CreatedAt = ''now''\<rparr>),
      api_DeleteSnapshot = (\<lambda>h n. None),
      api_GetType = (\<lambda>h t. Inr (sample_type t)),
      api_DefaultType = (\<lambda>h. Inr (sample_type ''type-a'')),
      api_TypeZones = (\<lambda>h z. Inr []),
      api_ListTypes = (\<lambda>h z. Inr []),
      api_ListZones = (\<lambda>h. Inr [\<lparr>zone_OpenstackZone = ''AZ-1'', zone_Uuid = ''zone-1''\<rparr>])\<rparr>"

definition sample_cstate :: cstate where
  "sample_cstate = \<lparr>cs_hist = [], cs_project = newPermanentMetaCache,
     cs_zones = newMetaCache metaCacheTTL, cs_types = newKeyedMetaCache metaCacheTTL\<rparr>"

lemma sample_wait_ok: "wait_ok (sample_env att refusal)"
  by (simp add: wait_ok_def sample_env_def poll_all_poll)

end
