(* ===== verification/CloudCore.thy ===== *)
theory CloudCore
  imports Samples
begin

text \<open>
  The reads and the polling skeleton of \<^verbatim>\<open>pkg/cloud/cloud_private.go\<close>, the project-scoped client
  of \<^verbatim>\<open>project_scope.go\<close>, and the backoffs and code sets of \<^verbatim>\<open>consts.go\<close>. The project-scoped
  client is represented by the project id it addresses. Logging is left out.
\<close>

section \<open>consts.go\<close>

definition VksClusterIdTagKey :: string where "VksClusterIdTagKey = ''vng.vks.cluster.id''"
definition VksBillingProductTagKey :: string where "VksBillingProductTagKey = ''vng.billing.product''"

definition volumeOperationBackoff :: backoff where
  "volumeOperationBackoff = \<lparr>bo_Duration = 1 * Second, bo_Factor_x10 = 16, bo_Steps = 13\<rparr>"

definition volumeMigrationBackoff :: backoff where
  "volumeMigrationBackoff = \<lparr>bo_Duration = 2 * Second, bo_Factor_x10 = 16, bo_Steps = 12\<rparr>"

definition volumeBusyBackoff :: backoff where
  "volumeBusyBackoff = \<lparr>bo_Duration = 1 * Second, bo_Factor_x10 = 14, bo_Steps = 8\<rparr>"

definition snapshotOperationBackoff :: backoff where
  "snapshotOperationBackoff = \<lparr>bo_Duration = 1 * Second, bo_Factor_x10 = 15, bo_Steps = 15\<rparr>"

definition snapshotListPageSize :: nat where "snapshotListPageSize = 100"
definition snapshotListMaxPages :: nat where "snapshotListMaxPages = 50"

definition errSetDetachDone :: "error_code set" where
  "errSetDetachDone = {EcVServerVolumeNotFound, EcVServerVolumeAvailable, EcVServerServerNotFound}"

definition errSetDetachRetryable :: "error_code set" where
  "errSetDetachRetryable = {EcVServerVolumeInProcess, EcVServerVolumeIsMigrating}"

definition errSetMigrateInProgress :: "error_code set" where
  "errSetMigrateInProgress =
     {EcVServerVolumeMigrateBeingProcess, EcVServerVolumeMigrateProcessingConfirm,
      EcVServerVolumeMigrateBeingMigrating, EcVServerVolumeMigrateBeingFinish}"

definition volumeArchivedStatus :: "string set" where
  "volumeArchivedStatus = {VolumeAvailableStatus, VolumeInUseStatus}"

lemmas backoff_defs = volumeOperationBackoff_def volumeMigrationBackoff_def volumeBusyBackoff_def
  snapshotOperationBackoff_def

section \<open>project_scope.go\<close>

definition errProjectUnresolvedText :: string where
  "errProjectUnresolvedText = ''could not resolve the driver'' @ [CHR 0x27] @ ''s project against vServer''"

definition errProjectUnresolved :: "merge_params \<Rightarrow> string \<Rightarrow> ierror option \<Rightarrow> ierror" where
  "errProjectUnresolved merge punderProjectId psdkErr =
     (let msg = errProjectUnresolvedText @ '' (project id '' @ punderProjectId @
            '' from instance metadata); the IaaS is unreachable or rejected the portal lookup'';
          e = \<lparr>ie_code = EcCsiProjectUnresolved, ie_msg = msg, ie_err = None,
               ie_params = [''underProjectId'' \<mapsto> ptext punderProjectId]\<rparr>
      in case psdkErr of
           None \<Rightarrow> e\<lparr>ie_err := Some (GoErr msg)\<rparr>
         | Some x \<Rightarrow>
             (let cause = (case ie_err x of None \<Rightarrow> GoErr (ie_msg x) | Some c \<Rightarrow> c) in
              e\<lparr>ie_err := Some (GoWrap msg cause),
                ie_params := (merge (ie_params e) (ie_params x))
                  (''sdkErrorCode'' \<mapsto> PStr (ie_code x))\<rparr>))"

text \<open>\<open>DefaultPortalLookup\<close>.\<close>

definition portalLookup :: "env \<Rightarrow> string \<Rightarrow> (cstate, ierror + string) state" where
  "portalLookup E punderProjectId =
     api_call (\<lambda>h. api_Portal E h punderProjectId) (EvPortal punderProjectId)"

definition resolve_project :: "env \<Rightarrow> (cstate, ierror + string) state" where
  "resolve_project E = do {
     r \<leftarrow> portalLookup E (e_ProjectID E);
     (case r of
        Inl ierr \<Rightarrow> State_Monad.return (Inl (errProjectUnresolved (e_merge E) (e_ProjectID E) (Some ierr)))
      | Inr projectId \<Rightarrow> State_Monad.return (Inr projectId))
   }"

definition projectClient :: "env \<Rightarrow> (cstate, ierror + string) state" where
  "projectClient E = cached_get E cs_project (\<lambda>c s. s\<lparr>cs_project := c\<rparr>) (resolve_project E)"

section \<open>Reads\<close>

text \<open>An error with nothing but its code.\<close>

definition bare_error :: "error_code \<Rightarrow> ierror" where
  "bare_error c = \<lparr>ie_code = c, ie_msg = '''', ie_err = None, ie_params = Map.empty\<rparr>"

definition getVolumeByName :: "env \<Rightarrow> string \<Rightarrow> (cstate, ierror + volume) state" where
  "getVolumeByName E pvolName =
     (if pvolName = '''' then State_Monad.return (Inl (bare_error EcVServerVolumeNotFound))
      else do {
        c \<leftarrow> projectClient E;
        (case c of
           Inl ierr \<Rightarrow> State_Monad.return (Inl ierr)
         | Inr _ \<Rightarrow> do {
             r \<leftarrow> api_call (\<lambda>h. api_ListByName E h pvolName) (EvListByName pvolName);
             (case r of
                Inl sdkErr \<Rightarrow> State_Monad.return (Inl sdkErr)
              | Inr vols \<Rightarrow>
                  if length vols \<noteq> 1 then State_Monad.return (Inl (bare_error EcVServerVolumeNotFound))
                  else State_Monad.return (Inr (hd vols)))
           })
      })"

definition getVolumeById :: "env \<Rightarrow> string \<Rightarrow> (cstate, ierror + volume) state" where
  "getVolumeById E pvolId = do {
     c \<leftarrow> projectClient E;
     (case c of
        Inl ierr \<Rightarrow> State_Monad.return (Inl ierr)
      | Inr _ \<Rightarrow> api_call (\<lambda>h. api_Get E h pvolId) (EvGet pvolId))
   }"

definition isDetachedFrom :: "env \<Rightarrow> volume option \<Rightarrow> string \<Rightarrow> bool" where
  "isDetachedFrom E pvol pinstanceId =
     (case pvol of
        None \<Rightarrow> False
      | Some v \<Rightarrow> sv_IsAvailable E v \<or> \<not> sv_AttachedTheInstance E v pinstanceId)"

definition volumeAttachable :: "env \<Rightarrow> volume option \<Rightarrow> string \<Rightarrow> bool" where
  "volumeAttachable E pvol pinstanceId =
     (case pvol of
        None \<Rightarrow> False
      | Some v \<Rightarrow>
          if sv_AttachedTheInstance E v pinstanceId then vol_Status v = VolumeInUseStatus
          else vol_Status v = VolumeAvailableStatus)"

definition isMigratedToType :: "volume option \<Rightarrow> string \<Rightarrow> bool" where
  "isMigratedToType pvol ptargetType =
     (case pvol of
        None \<Rightarrow> False
      | Some v \<Rightarrow> vol_Status v \<in> volumeArchivedStatus \<and> vol_VolumeTypeID v = ptargetType)"

section \<open>The polling skeleton\<close>

datatype notFoundPolicy = notFoundIsDone | notFoundFails

record volumeWaitSpec =
  vw_backoff :: backoff
  vw_onNotFound :: notFoundPolicy
  vw_failOnErrorState :: bool
  vw_done :: "volume \<Rightarrow> bool"
  vw_wrap :: "ierror option \<Rightarrow> ierror"

text \<open>The closure \<open>waitVolume\<close> polls; the first component of its state is the variable \<open>res\<close>.\<close>

definition wait_condition :: "env \<Rightarrow> string \<Rightarrow> volumeWaitSpec \<Rightarrow> poll_state poll_cond" where
  "wait_condition E pvolumeId pspec = (\<lambda>(res, s).
     (case run_state (getVolumeById E pvolumeId) s of
        (Inl err, s') \<Rightarrow>
          if IsError err EcVServerVolumeNotFound then
            (if vw_onNotFound pspec = notFoundIsDone then ((True, None), (res, s'))
             else ((False, ie_err (ErrVolumeNotFound pvolumeId)), (res, s')))
          else ((False, None), (res, s'))
      | (Inr vol, s') \<Rightarrow>
          if vw_done pspec vol then ((True, None), (Some vol, s'))
          else if vw_failOnErrorState pspec \<and> sv_IsError E vol
          then ((False, ie_err (ErrVolumeIsInErrorState pvolumeId)), (res, s'))
          else ((False, None), (res, s'))))"

definition waitVolume :: "env \<Rightarrow> string \<Rightarrow> volumeWaitSpec \<Rightarrow> (cstate, ierror + volume option) state" where
  "waitVolume E pvolumeId pspec = st (\<lambda>s.
     (case e_wait E (vw_backoff pspec) (wait_condition E pvolumeId pspec) (None, s) of
        (waitErr, (res, s')) \<Rightarrow>
          (case waitErr of
             Some e \<Rightarrow> (Inl ((vw_wrap pspec None)\<lparr>ie_err := Some e\<rparr>), s')
           | None \<Rightarrow> (Inr res, s'))))"

definition spec_attached :: "env \<Rightarrow> string \<Rightarrow> string \<Rightarrow> volumeWaitSpec" where
  "spec_attached E pinstanceId pvolumeId =
     \<lparr>vw_backoff = volumeOperationBackoff, vw_onNotFound = notFoundFails, vw_failOnErrorState = True,
      vw_done = (\<lambda>v. sv_AttachedTheInstance E v pinstanceId \<and> vol_Status v = VolumeInUseStatus),
      vw_wrap = ErrVolumeFailedToAttach (e_merge E) pinstanceId pvolumeId\<rparr>"

definition spec_attachable :: "env \<Rightarrow> string \<Rightarrow> string \<Rightarrow> volumeWaitSpec" where
  "spec_attachable E pinstanceId pvolumeId =
     \<lparr>vw_backoff = volumeBusyBackoff, vw_onNotFound = notFoundFails, vw_failOnErrorState = True,
      vw_done = (\<lambda>v. volumeAttachable E (Some v) pinstanceId),
      vw_wrap = ErrVolumeFailedToAttach (e_merge E) pinstanceId pvolumeId\<rparr>"

definition spec_detached :: "env \<Rightarrow> string \<Rightarrow> string \<Rightarrow> volumeWaitSpec" where
  "spec_detached E pinstanceId pvolumeId =
     \<lparr>vw_backoff = volumeOperationBackoff, vw_onNotFound = notFoundIsDone, vw_failOnErrorState = True,
      vw_done = (\<lambda>v. isDetachedFrom E (Some v) pinstanceId),
      vw_wrap = ErrVolumeFailedToDetach (e_merge E) pinstanceId pvolumeId\<rparr>"

definition spec_deletable :: "env \<Rightarrow> string \<Rightarrow> volumeWaitSpec" where
  "spec_deletable E pvolumeId =
     \<lparr>vw_backoff = volumeOperationBackoff, vw_onNotFound = notFoundIsDone, vw_failOnErrorState = False,
      vw_done = sv_CanDelete E,
      vw_wrap = ErrVolumeFailedToDelete (e_merge E) pvolumeId\<rparr>"

definition spec_migrated :: "env \<Rightarrow> string \<Rightarrow> string \<Rightarrow> volumeWaitSpec" where
  "spec_migrated E pvolumeId ptargetType =
     \<lparr>vw_backoff = volumeMigrationBackoff, vw_onNotFound = notFoundFails, vw_failOnErrorState = True,
      vw_done = (\<lambda>v. isMigratedToType (Some v) ptargetType),
      vw_wrap = ErrVolumeFailedToGet (e_merge E) pvolumeId\<rparr>"

definition spec_status :: "env \<Rightarrow> string \<Rightarrow> string set \<Rightarrow> volumeWaitSpec" where
  "spec_status E pvolID pdesiredStatus =
     \<lparr>vw_backoff = volumeOperationBackoff, vw_onNotFound = notFoundFails, vw_failOnErrorState = False,
      vw_done = (\<lambda>v. vol_Status v \<in> pdesiredStatus),
      vw_wrap = ErrVolumeFailedToGet (e_merge E) pvolID\<rparr>"

lemmas spec_defs = spec_attached_def spec_attachable_def spec_detached_def spec_deletable_def
  spec_migrated_def spec_status_def

definition waitDiskAttached :: "env \<Rightarrow> string \<Rightarrow> string \<Rightarrow> (cstate, ierror + volume option) state" where
  "waitDiskAttached E pinstanceId pvolumeId =
     waitVolume E pvolumeId (spec_attached E pinstanceId pvolumeId)"

definition waitVolumeAttachable :: "env \<Rightarrow> string \<Rightarrow> string \<Rightarrow> (cstate, ierror + volume option) state" where
  "waitVolumeAttachable E pinstanceId pvolumeId =
     waitVolume E pvolumeId (spec_attachable E pinstanceId pvolumeId)"

text \<open>The error of a wait, its result dropped.\<close>

definition wait_error :: "(cstate, ierror + volume option) state \<Rightarrow> (cstate, ierror option) state" where
  "wait_error m = do {
     r \<leftarrow> m;
     State_Monad.return (case r of Inl e \<Rightarrow> Some e | Inr _ \<Rightarrow> None)
   }"

definition waitVolumeDetached :: "env \<Rightarrow> string \<Rightarrow> string \<Rightarrow> (cstate, ierror option) state" where
  "waitVolumeDetached E pinstanceId pvolumeId =
     wait_error (waitVolume E pvolumeId (spec_detached E pinstanceId pvolumeId))"

definition waitVolumeDeletable :: "env \<Rightarrow> string \<Rightarrow> (cstate, ierror option) state" where
  "waitVolumeDeletable E pvolumeId = wait_error (waitVolume E pvolumeId (spec_deletable E pvolumeId))"

definition waitVolumeMigrated :: "env \<Rightarrow> string \<Rightarrow> string \<Rightarrow> (cstate, ierror option) state" where
  "waitVolumeMigrated E pvolumeId ptargetType =
     wait_error (waitVolume E pvolumeId (spec_migrated E pvolumeId ptargetType))"

text \<open>
  A plain Go error in place of the \<open>IError\<close>: \<open>return nil, ierr.GetError()\<close>. Its nil is not an error
  for the caller, which then goes on with the nil result.
\<close>

definition waitVolumeAchieveStatus ::
    "env \<Rightarrow> string \<Rightarrow> string set \<Rightarrow> (cstate, volume option \<times> go_error option) state" where
  "waitVolumeAchieveStatus E pvolID pdesiredStatus = do {
     r \<leftarrow> waitVolume E pvolID (spec_status E pvolID pdesiredStatus);
     State_Monad.return (case r of Inl ierr \<Rightarrow> (None, ie_err ierr) | Inr vol \<Rightarrow> (vol, None))
   }"

section \<open>What the reads leave behind\<close>

definition ro :: "cstate \<Rightarrow> cstate \<Rightarrow> bool" where
  "ro s s' \<longleftrightarrow> did [] s s'"

lemma ro_refl [simp]: "ro s s"
  by (simp add: ro_def)

lemma ro_trans: "ro s s1 \<Longrightarrow> ro s1 s2 \<Longrightarrow> ro s s2"
  using did_trans [of "[]" s s1 "[]" s2] by (simp add: ro_def)

lemma ro_ext: "ro s s' \<Longrightarrow> ext s s'"
  by (simp add: ro_def did_def)

lemma ro_call [simp]: "\<not> is_command e \<Longrightarrow> ro s (s\<lparr>cs_hist := e # cs_hist s\<rparr>)"
  by (simp add: ro_def did_def)

lemma ro_then_call: "ro s s1 \<Longrightarrow> \<not> is_command e \<Longrightarrow> ro s (s1\<lparr>cs_hist := e # cs_hist s1\<rparr>)"
  by (erule ro_trans) simp

lemma ro_caches [simp]:
  "ro s (s'\<lparr>cs_project := a\<rparr>) = ro s s'" "ro s (s'\<lparr>cs_zones := b\<rparr>) = ro s s'"
  "ro s (s'\<lparr>cs_types := c\<rparr>) = ro s s'"
  by (simp_all add: ro_def did_def)

lemma cached_get_wp:
  assumes "wp load (\<lambda>r s1. ro s s1 \<and> P r s1) s" and "\<And>v. P (Inr v) s"
    and "\<And>c r s1. P r s1 \<Longrightarrow> P r (put_c c s1)" and "\<And>c s1. ro s (put_c c s1) = ro s s1"
  shows "wp (cached_get E get_c put_c load) (\<lambda>r s1. ro s s1 \<and> P r s1) s"
  using assms by (auto simp: cached_get_def wp_def split: prod.splits)

text \<open>The client: a project, or the error that says the project is not resolved.\<close>

definition unresolved :: "ierror \<Rightarrow> bool" where
  "unresolved e \<longleftrightarrow> ie_code e = EcCsiProjectUnresolved \<and> ie_err e \<noteq> None"

lemma errProjectUnresolved_unresolved: "unresolved (errProjectUnresolved merge p x)"
  by (auto simp: unresolved_def errProjectUnresolved_def Let_def split: option.splits)

lemma projectClient_wp:
  "wp (projectClient E) (\<lambda>r s1. ro s s1 \<and> (\<forall>e. r = Inl e \<longrightarrow> unresolved e)) s"
  unfolding projectClient_def
  by (rule cached_get_wp)
    (auto simp: resolve_project_def portalLookup_def errProjectUnresolved_unresolved split: sum.splits)

text \<open>A read leaves its answer as the latest event, or fails because the project is not resolved.\<close>

definition read_answer :: "string \<Rightarrow> cstate \<Rightarrow> ierror + volume \<Rightarrow> cstate \<Rightarrow> bool" where
  "read_answer vid s r s' \<longleftrightarrow> ro s s' \<and>
     ((\<exists>evs. news s s' = EvGet vid r # evs) \<or> (\<exists>e. r = Inl e \<and> unresolved e))"

lemma getVolumeById_wp: "wp (getVolumeById E vid) (\<lambda>r s1. read_answer vid s r s1) s"
proof -
  have answer: "read_answer vid s (api_Get E (cs_hist s1) vid)
      (s1\<lparr>cs_hist := EvGet vid (api_Get E (cs_hist s1) vid) # cs_hist s1\<rparr>)" if s1: "ro s s1" for s1
  proof -
    let ?r = "api_Get E (cs_hist s1) vid"
    let ?s2 = "s1\<lparr>cs_hist := EvGet vid ?r # cs_hist s1\<rparr>"
    have "ro s ?s2" using s1 by (rule ro_trans) simp
    moreover have "news s ?s2 = news s1 ?s2 @ news s s1"
      using ro_ext [OF s1] by (rule news_trans) simp
    ultimately show ?thesis by (simp add: read_answer_def)
  qed
  show ?thesis
    unfolding getVolumeById_def wp_bind
    by (rule wp_mono [OF projectClient_wp])
      (auto simp: read_answer_def [where r = "Inl _"] answer split: sum.splits)
qed

lemma read_answer_ro: "read_answer vid s r s' \<Longrightarrow> ro s s'"
  by (simp add: read_answer_def)

lemma read_answer_news:
  "ext s s0 \<Longrightarrow> read_answer vid s0 r s' \<Longrightarrow> (\<And>e. r = Inl e \<Longrightarrow> \<not> unresolved e)
    \<Longrightarrow> EvGet vid r \<in> set (news s s')"
proof -
  assume "ext s s0" and ans: "read_answer vid s0 r s'" and res: "\<And>e. r = Inl e \<Longrightarrow> \<not> unresolved e"
  then have "news s s' = news s0 s' @ news s s0"
    by (intro news_trans) (auto dest: read_answer_ro ro_ext)
  with ans res show ?thesis by (auto simp: read_answer_def)
qed

lemma not_found_resolved: "IsError e EcVServerVolumeNotFound \<Longrightarrow> \<not> unresolved e"
  by (simp add: IsError_def unresolved_def)

section \<open>What a wait leaves behind\<close>

text \<open>The evidence behind a wait that succeeded.\<close>

definition wait_evidence ::
    "string \<Rightarrow> volumeWaitSpec \<Rightarrow> cstate \<Rightarrow> volume option \<Rightarrow> cstate \<Rightarrow> bool" where
  "wait_evidence vid spec s res s' \<longleftrightarrow>
     (\<exists>v. res = Some v \<and> vw_done spec v \<and> EvGet vid (Inr v) \<in> set (news s s')) \<or>
     (vw_onNotFound spec = notFoundIsDone \<and>
        (\<exists>e. IsError e EcVServerVolumeNotFound \<and> EvGet vid (Inl e) \<in> set (news s s')))"

lemma wait_condition_ro:
  assumes "wait_condition E vid spec (res, s) = (c, (res', s'))" and "ro s0 s"
  shows "ro s0 s'"
proof -
  obtain r s1 where run: "run_state (getVolumeById E vid) s = (r, s1)" by fastforce
  then have "ro s s1" using wpD [OF getVolumeById_wp run] by (simp add: read_answer_ro)
  moreover have "s' = s1"
    using assms(1) run by (auto simp: wait_condition_def split: sum.splits if_splits)
  ultimately show ?thesis using assms(2) by (auto intro: ro_trans)
qed

lemma wait_condition_done:
  assumes "wait_condition E vid spec (res, s) = ((True, None), (res', s'))" and "ro s0 s"
    and "res = None"
  shows "wait_evidence vid spec s0 res' s'"
proof -
  obtain r s1 where run: "run_state (getVolumeById E vid) s = (r, s1)" by fastforce
  have ans: "read_answer vid s r s1" using wpD [OF getVolumeById_wp run] .
  have s1: "s' = s1" and r: "(\<exists>v. r = Inr v \<and> vw_done spec v \<and> res' = Some v) \<or>
      (\<exists>e. r = Inl e \<and> IsError e EcVServerVolumeNotFound \<and> vw_onNotFound spec = notFoundIsDone)"
    using assms(1) run by (auto simp: wait_condition_def split: sum.splits if_splits)
  have "EvGet vid r \<in> set (news s0 s1)"
    using r by (intro read_answer_news [OF ro_ext [OF assms(2)] ans]) (auto dest: not_found_resolved)
  with s1 r show ?thesis by (auto simp: wait_evidence_def)
qed

lemma wait_condition_again:
  assumes "wait_condition E vid spec (res, s) = ((False, None), (res', s'))"
  shows "res' = res"
  using assms by (auto simp: wait_condition_def split: prod.splits sum.splits if_splits)

text \<open>A wait that fails carries an error a caller can see: its \<open>GetError\<close> is not nil.\<close>

definition wait_failed :: "volumeWaitSpec \<Rightarrow> ierror \<Rightarrow> bool" where
  "wait_failed spec e \<longleftrightarrow> ie_code e = ie_code (vw_wrap spec None) \<and> ie_err e \<noteq> None
     \<and> ie_params e = ie_params (vw_wrap spec None)"

lemma waitVolume_wp:
  assumes "wait_ok E"
  shows "wp (waitVolume E vid spec)
    (\<lambda>r s'. ro s s' \<and>
       (case r of Inl e \<Rightarrow> wait_failed spec e | Inr res \<Rightarrow> wait_evidence vid spec s res s')) s"
proof -
  obtain err res s' where run:
    "e_wait E (vw_backoff spec) (wait_condition E vid spec) (None, s) = (err, (res, s'))"
    by (metis surj_pair)
  have poll: "poll (wait_condition E vid spec) (bo_Steps (vw_backoff spec)) (None, s) (err, (res, s'))"
    using wait_okD(1) [OF assms, of "wait_condition E vid spec" "vw_backoff spec" "(None, s)"] run by simp
  have "(\<lambda>(res, s1). ro s s1) (snd (err, (res, s')))"
    using poll by (rule poll_invariant) (auto intro: wait_condition_ro)
  then have "ro s s'" by simp
  moreover have "wait_evidence vid spec s res s'" if "err = None"
  proof -
    let ?P = "\<lambda>(r, s1). ro s s1 \<and> r = None"
    have "\<exists>s0. ?P s0 \<and> wait_condition E vid spec s0 = ((True, None), (res, s'))"
    proof (rule poll_success)
      show "poll (wait_condition E vid spec) (bo_Steps (vw_backoff spec)) (None, s) (None, (res, s'))"
        using poll that by simp
      show "?P (None, s)" by simp
      show "?P s2" if "?P s1" and "wait_condition E vid spec s1 = ((False, None), s2)" for s1 s2
        using that by (cases s1; cases s2) (auto dest: wait_condition_again intro: wait_condition_ro)
    qed
    then show ?thesis by (auto dest: wait_condition_done)
  qed
  ultimately show ?thesis
    by (cases err) (simp_all add: waitVolume_def run wait_failed_def)
qed

lemma wait_error_wp:
  assumes "wait_ok E"
  shows "wp (wait_error (waitVolume E vid spec))
    (\<lambda>r s'. ro s s' \<and>
       (case r of Some e \<Rightarrow> wait_failed spec e | None \<Rightarrow> \<exists>res. wait_evidence vid spec s res s')) s"
  unfolding wait_error_def wp_bind
  by (rule wp_mono [OF waitVolume_wp [OF assms]]) (auto split: sum.splits)

section \<open>Properties\<close>

text \<open>\<open>waitVolume\<close> succeeds only on evidence: the result is a volume a read returned during the wait
and that satisfies the condition, or the policy accepts a missing volume and a read said it is missing.
It issues no command, and a failed wait carries an error the caller can see.\<close>

theorem waitVolume_evidence:
  assumes "wait_ok E"
  shows "wp (waitVolume E v spec) (\<lambda>r s'. did [] s s' \<and>
    (case r of
       Inl e \<Rightarrow> ie_code e = ie_code (vw_wrap spec None) \<and> ie_err e \<noteq> None
     | Inr res \<Rightarrow>
         (\<exists>vol. res = Some vol \<and> vw_done spec vol \<and> EvGet v (Inr vol) \<in> set (news s s')) \<or>
         vw_onNotFound spec = notFoundIsDone \<and>
           (\<exists>e. IsError e EcVServerVolumeNotFound \<and> EvGet v (Inl e) \<in> set (news s s')))) s"
  by (rule wp_mono [OF waitVolume_wp [OF assms]])
    (auto simp: ro_def wait_failed_def wait_evidence_def split: sum.splits)

theorem waitVolume_evidence_witness:
  "wp (waitVolume (sample_env False None) ''vol-1'' (spec_detached (sample_env False None) ''ins-1'' ''vol-1''))
    (\<lambda>r s'. did [] sample_cstate s') sample_cstate"
  by (rule wp_mono [OF waitVolume_evidence [OF sample_wait_ok]]) simp

text \<open>The not-found policy that is meant to abort a wait does not: \<open>ErrVolumeNotFound\<close> carries no Go
error, so under \<open>notFoundFails\<close> the condition answers "not done, no error" for a missing volume, and
the wait goes on until its steps or its context end.\<close>

theorem waitVolume_not_found_keeps_polling:
  assumes "run_state (getVolumeById E v) s = (Inl err, s')" and "IsError err EcVServerVolumeNotFound"
    and "vw_onNotFound spec = notFoundFails"
  shows "wait_condition E v spec (res, s) = ((False, None), (res, s'))"
  using assms by (simp add: wait_condition_def ErrVolumeNotFound_def)

theorem waitVolume_not_found_keeps_polling_witness:
  "fst (wait_condition (sample_env True None) ''vol-1''
      (spec_attached (sample_env True None) ''ins-1'' ''vol-1'')
      (None, sample_cstate\<lparr>cs_hist := [EvDelete ''vol-1'' None]\<rparr>)) = (False, None)"
proof -
  let ?E = "sample_env True None" and ?s = "sample_cstate\<lparr>cs_hist := [EvDelete ''vol-1'' None]\<rparr>"
  obtain s' where run: "run_state (getVolumeById ?E ''vol-1'') ?s = (Inl (sample_error EcVServerVolumeNotFound), s')"
    by (simp add: getVolumeById_def projectClient_def cached_get_def fresh_def sample_cstate_def
        newPermanentMetaCache_def resolve_project_def portalLookup_def sample_env_def api_call_def
        State_Monad.bind_def State_Monad.return_def Let_def st_def)
  from waitVolume_not_found_keeps_polling [OF run] show ?thesis
    by (simp add: IsError_def sample_error_def spec_attached_def)
qed

end
