(* ===== verification/CloudVolumes.thy ===== *)
theory CloudVolumes
  imports CloudCore GoSize
begin

text \<open>
  The volume operations of \<^verbatim>\<open>pkg/cloud/cloud.go\<close>: create-or-resize, delete, attach, detach and the
  read-only detach check. Each is a function over the history state; a result \<open>None\<close> of an operation
  that returns an \<open>IError\<close> is Go's nil. Results that carry a volume carry a pointer, which is an
  option; dereferencing nil is \<open>Panic\<close>.
\<close>

section \<open>cloud.go: create or resize\<close>

definition EitherCreateResizeVolume :: "env \<Rightarrow> create_req \<Rightarrow> (cstate, ierror + volume option) state" where
  "EitherCreateResizeVolume E preq = do {
     c \<leftarrow> projectClient E;
     (case c of
        Inl ierr \<Rightarrow> State_Monad.return (Inl ierr)
      | Inr _ \<Rightarrow> do {
          found \<leftarrow>
            (if cr_Name preq \<noteq> '''' then do {
               r \<leftarrow> getVolumeByName E (cr_Name preq);
               State_Monad.return (case r of
                  Inl serr \<Rightarrow> if \<not> IsError serr EcVServerVolumeNotFound then Inl serr else Inr None
                | Inr vol \<Rightarrow> Inr (Some vol))
             } else State_Monad.return (Inr None));
          (case found of
             Inl serr \<Rightarrow> State_Monad.return (Inl serr)
           | Inr (Some vol) \<Rightarrow>
               (let newSize = max (vol_Size vol) (cr_Size preq); newVolumeType = cr_VolumeTypeId preq in
                if vol_Size vol \<noteq> newSize \<or> vol_VolumeTypeID vol \<noteq> newVolumeType then do {
                  r \<leftarrow> api_call (\<lambda>h. api_Resize E h newVolumeType (vol_Id vol) newSize)
                         (EvResize newVolumeType (vol_Id vol) newSize);
                  State_Monad.return (case r of
                     Inl sdkErr \<Rightarrow>
                       if IsError sdkErr EcVServerVolumeUnchanged then Inr None else Inl sdkErr
                   | Inr tmpVol \<Rightarrow> Inr (Some tmpVol))
                } else State_Monad.return (Inr (Some vol)))
           | Inr None \<Rightarrow> do {
               r \<leftarrow> api_call (\<lambda>h. api_Create E h preq) (EvCreate preq);
               State_Monad.return (case r of Inl sdkErr \<Rightarrow> Inl sdkErr | Inr vol \<Rightarrow> Inr (Some vol))
             })
        })
   }"

definition GetVolumeByName :: "env \<Rightarrow> string \<Rightarrow> (cstate, ierror + volume) state" where
  "GetVolumeByName E pvolName = getVolumeByName E pvolName"

definition GetVolume :: "env \<Rightarrow> string \<Rightarrow> (cstate, ierror + volume) state" where
  "GetVolume E volumeID = getVolumeById E volumeID"

section \<open>cloud.go: delete\<close>

definition DeleteVolume :: "env \<Rightarrow> string \<Rightarrow> (cstate, ierror option) state" where
  "DeleteVolume E volID = do {
     c \<leftarrow> projectClient E;
     (case c of
        Inl ierr \<Rightarrow> State_Monad.return (Some ierr)
      | Inr _ \<Rightarrow> do {
          r \<leftarrow> getVolumeById E volID;
          (case r of
             Inl sdkErr \<Rightarrow>
               if IsError sdkErr EcVServerVolumeNotFound then State_Monad.return None
               else State_Monad.return (Some (ErrVolumeFailedToGet (e_merge E) volID (Some sdkErr)))
           | Inr vol \<Rightarrow> do {
               w \<leftarrow> (if \<not> sv_CanDelete E vol then waitVolumeDeletable E volID
                    else State_Monad.return None);
               (case w of
                  Some err \<Rightarrow> State_Monad.return (Some err)
                | None \<Rightarrow> do {
                    d \<leftarrow> api_call (\<lambda>h. api_Delete E h volID) (EvDelete volID);
                    State_Monad.return (case d of
                       None \<Rightarrow> None
                     | Some sdkErr \<Rightarrow>
                         if IsError sdkErr EcVServerVolumeNotFound then None
                         else Some (ErrVolumeFailedToDelete (e_merge E) volID (Some sdkErr)))
                  })
             })
        })
   }"

section \<open>cloud.go: attach\<close>

definition getVolumeForAttach :: "env \<Rightarrow> string \<Rightarrow> (cstate, ierror + volume) state" where
  "getVolumeForAttach E pvolumeId = do {
     r \<leftarrow> getVolumeById E pvolumeId;
     State_Monad.return (case r of
        Inl sdkErr \<Rightarrow>
          if IsError sdkErr EcVServerVolumeNotFound then Inl (ErrVolumeNotFound pvolumeId)
          else Inl (ErrVolumeFailedToGet (e_merge E) pvolumeId (Some sdkErr))
      | Inr vol \<Rightarrow>
          if sv_IsError E vol then Inl (ErrVolumeIsInErrorState pvolumeId) else Inr vol)
   }"

definition attach_command :: "env \<Rightarrow> string \<Rightarrow> string \<Rightarrow> (cstate, ierror option) state" where
  "attach_command E pinstanceId pvolumeId =
     api_call (\<lambda>h. api_Attach E h pinstanceId pvolumeId) (EvAttach pinstanceId pvolumeId)"

text \<open>The rest of \<open>AttachVolume\<close> once the busy volume has been waited for.\<close>

definition attach_retry ::
    "env \<Rightarrow> string \<Rightarrow> string \<Rightarrow> ierror \<Rightarrow> (cstate, (ierror + volume option) go) state" where
  "attach_retry E pinstanceId pvolumeId sdkErr = do {
     w \<leftarrow> waitVolumeAttachable E pinstanceId pvolumeId;
     (case w of
        Inl werr \<Rightarrow> State_Monad.return
          (Return (Inl (ErrVolumeFailedToAttach (e_merge E) pinstanceId pvolumeId (Some sdkErr))))
      | Inr None \<Rightarrow> State_Monad.return Panic
      | Inr (Some cleared) \<Rightarrow>
          if sv_AttachedTheInstance E cleared pinstanceId
          then State_Monad.return (Return (Inr (Some cleared)))
          else do {
            a \<leftarrow> attach_command E pinstanceId pvolumeId;
            (case a of
               Some retryErr \<Rightarrow>
                 if ie_code retryErr \<noteq> EcVServerVolumeAlreadyAttachedThisServer
                 then State_Monad.return (Return (Inl
                   (ErrVolumeFailedToAttach (e_merge E) pinstanceId pvolumeId (Some retryErr))))
                 else do { r \<leftarrow> waitDiskAttached E pinstanceId pvolumeId; State_Monad.return (Return r) }
             | None \<Rightarrow> do { r \<leftarrow> waitDiskAttached E pinstanceId pvolumeId; State_Monad.return (Return r) })
          })
   }"

definition AttachVolume ::
    "env \<Rightarrow> string \<Rightarrow> string \<Rightarrow> (cstate, (ierror + volume option) go) state" where
  "AttachVolume E pinstanceId pvolumeId = do {
     c \<leftarrow> projectClient E;
     (case c of
        Inl ierr \<Rightarrow> State_Monad.return (Return (Inl ierr))
      | Inr _ \<Rightarrow> do {
          v \<leftarrow> getVolumeForAttach E pvolumeId;
          (case v of
             Inl ierr \<Rightarrow> State_Monad.return (Return (Inl ierr))
           | Inr vol \<Rightarrow>
               if sv_AttachedTheInstance E vol pinstanceId then
                 (if vol_Status vol = VolumeInUseStatus
                  then State_Monad.return (Return (Inr (Some vol)))
                  else do { r \<leftarrow> waitDiskAttached E pinstanceId pvolumeId;
                            State_Monad.return (Return r) })
               else do {
                 a \<leftarrow> attach_command E pinstanceId pvolumeId;
                 (case a of
                    None \<Rightarrow> do { r \<leftarrow> waitDiskAttached E pinstanceId pvolumeId;
                                State_Monad.return (Return r) }
                  | Some sdkErr \<Rightarrow>
                      if ie_code sdkErr = EcVServerVolumeAlreadyAttachedThisServer
                      then do { r \<leftarrow> waitDiskAttached E pinstanceId pvolumeId;
                                State_Monad.return (Return r) }
                      else if ie_code sdkErr = EcVServerVolumeInProcess
                      then attach_retry E pinstanceId pvolumeId sdkErr
                      else State_Monad.return (Return (Inl
                        (ErrVolumeFailedToAttach (e_merge E) pinstanceId pvolumeId (Some sdkErr)))))
               })
        })
   }"

section \<open>cloud.go: detach\<close>

text \<open>The detach command and the switch over its answer.\<close>

definition detach_command :: "env \<Rightarrow> string \<Rightarrow> string \<Rightarrow> (cstate, ierror option) state" where
  "detach_command E pinstanceId pvolumeId = do {
     d \<leftarrow> api_call (\<lambda>h. api_Detach E h pinstanceId pvolumeId) (EvDetach pinstanceId pvolumeId);
     (case d of
        None \<Rightarrow> waitVolumeDetached E pinstanceId pvolumeId
      | Some sdkErr \<Rightarrow>
          if ie_code sdkErr \<in> errSetDetachDone then State_Monad.return None
          else if ie_code sdkErr \<in> errSetDetachRetryable
          then State_Monad.return
            (Some (ErrVolumeFailedToDetach (e_merge E) pinstanceId pvolumeId (Some sdkErr)))
          else State_Monad.return
            (Some (ErrVolumeFailedToDetach (e_merge E) pinstanceId pvolumeId (Some sdkErr))))
   }"

definition DetachVolume :: "env \<Rightarrow> string \<Rightarrow> string \<Rightarrow> (cstate, ierror option) state" where
  "DetachVolume E pinstanceId pvolumeId = do {
     c \<leftarrow> projectClient E;
     (case c of
        Inl resolveErr \<Rightarrow> State_Monad.return (Some resolveErr)
      | Inr _ \<Rightarrow> do {
          r \<leftarrow> getVolumeById E pvolumeId;
          (case r of
             Inl sdkErr \<Rightarrow>
               if IsError sdkErr EcVServerVolumeNotFound then State_Monad.return None
               else State_Monad.return (Some (ErrVolumeFailedToGet (e_merge E) pvolumeId (Some sdkErr)))
           | Inr vol \<Rightarrow>
               if isDetachedFrom E (Some vol) pinstanceId then State_Monad.return None
               else if sv_IsError E vol
               then State_Monad.return (Some (ErrVolumeIsInErrorState pvolumeId))
               else detach_command E pinstanceId pvolumeId)
        })
   }"

definition IsDetachedFrom :: "env \<Rightarrow> string \<Rightarrow> string \<Rightarrow> (cstate, bool \<times> ierror option) state" where
  "IsDetachedFrom E pinstanceId pvolumeId = do {
     r \<leftarrow> getVolumeById E pvolumeId;
     State_Monad.return (case r of
        Inl ierr \<Rightarrow> if IsError ierr EcVServerVolumeNotFound then (True, None) else (False, Some ierr)
      | Inr vol \<Rightarrow> (isDetachedFrom E (Some vol) pinstanceId, None))
   }"

section \<open>Evidence\<close>

text \<open>The read that shows a volume gone from an instance, or the refusal that says so.\<close>

fun detached_event :: "env \<Rightarrow> string \<Rightarrow> string \<Rightarrow> event \<Rightarrow> bool" where
  "detached_event E i v (EvGet w (Inl e)) \<longleftrightarrow> w = v \<and> IsError e EcVServerVolumeNotFound"
| "detached_event E i v (EvGet w (Inr vol)) \<longleftrightarrow> w = v \<and> isDetachedFrom E (Some vol) i"
| "detached_event E i v (EvDetach j w (Some e)) \<longleftrightarrow> j = i \<and> w = v \<and> ie_code e \<in> errSetDetachDone"
| "detached_event E i v _ \<longleftrightarrow> False"

definition detach_evidence :: "env \<Rightarrow> string \<Rightarrow> string \<Rightarrow> cstate \<Rightarrow> cstate \<Rightarrow> bool" where
  "detach_evidence E i v s s' \<longleftrightarrow> (\<exists>e\<in>set (news s s'). detached_event E i v e)"

lemma detach_evidence_later:
  "ext s s1 \<Longrightarrow> ext s1 s2 \<Longrightarrow> detach_evidence E i v s1 s2 \<Longrightarrow> detach_evidence E i v s s2"
  unfolding detach_evidence_def using news_trans [of s s1 s2] by auto

lemma detach_evidence_earlier:
  "ext s s1 \<Longrightarrow> ext s1 s2 \<Longrightarrow> detach_evidence E i v s s1 \<Longrightarrow> detach_evidence E i v s s2"
  unfolding detach_evidence_def using news_trans [of s s1 s2] by auto

lemma read_detach_evidence:
  assumes "read_answer v s r s'"
    and "case r of Inl e \<Rightarrow> IsError e EcVServerVolumeNotFound | Inr vol \<Rightarrow> isDetachedFrom E (Some vol) i"
  shows "detach_evidence E i v s s'"
proof -
  have "EvGet v r \<in> set (news s s')"
    using assms(2) by (intro read_answer_news [OF ext_refl assms(1)])
      (auto dest: not_found_resolved split: sum.splits)
  with assms(2) show ?thesis
    unfolding detach_evidence_def by (intro bexI [of _ "EvGet v r"]) (auto split: sum.splits)
qed

lemma wait_detach_evidence:
  assumes "wait_evidence v (spec_detached E i v) s res s'"
  shows "detach_evidence E i v s s'"
  using assms unfolding wait_evidence_def
proof (elim disjE conjE exE)
  fix vol
  assume "vw_done (spec_detached E i v) vol" and ev: "EvGet v (Inr vol) \<in> set (news s s')"
  then have "detached_event E i v (EvGet v (Inr vol))" by (simp add: spec_detached_def)
  with ev show ?thesis unfolding detach_evidence_def by (rule bexI [rotated])
next
  fix e
  assume "IsError e EcVServerVolumeNotFound" and ev: "EvGet v (Inl e) \<in> set (news s s')"
  then have "detached_event E i v (EvGet v (Inl e))" by simp
  with ev show ?thesis unfolding detach_evidence_def by (rule bexI [rotated])
qed

section \<open>What detach does\<close>

text \<open>At most the one command, and only with evidence a nil result.\<close>

definition detach_post :: "env \<Rightarrow> string \<Rightarrow> string \<Rightarrow> cstate \<Rightarrow> ierror option \<Rightarrow> cstate \<Rightarrow> bool" where
  "detach_post E i v s r s' \<longleftrightarrow>
     (did [] s s' \<or> (\<exists>x. did [EvDetach i v x] s s')) \<and> (r = None \<longrightarrow> detach_evidence E i v s s')"

lemma ro_did: "ro s s' = did [] s s'"
  by (simp add: ro_def)

lemma did_ext: "did c s s' \<Longrightarrow> ext s s'"
  by (simp add: did_def)

lemma detach_post_ro:
  "ro s s' \<Longrightarrow> detach_post E i v s (Some e) s'"
  "ro s s' \<Longrightarrow> detach_evidence E i v s s' \<Longrightarrow> detach_post E i v s None s'"
  by (simp_all add: detach_post_def ro_did)

lemma detach_post_later:
  assumes "ro s s1" and "detach_post E i v s1 r s'"
  shows "detach_post E i v s r s'"
proof -
  have d: "did c s s'" if "did c s1 s'" for c
    using did_trans [of "[]" s s1 c s'] assms(1) that by (simp add: ro_did)
  have "ext s1 s'" using assms(2) by (auto simp: detach_post_def did_ext)
  with assms d ro_ext [OF assms(1)] show ?thesis
    unfolding detach_post_def by (blast intro: detach_evidence_later)
qed

lemma waitVolumeDetached_wp:
  "wait_ok E \<Longrightarrow> wp (waitVolumeDetached E i v)
    (\<lambda>r s'. ro s s' \<and> (r = None \<longrightarrow> detach_evidence E i v s s')) s"
  unfolding waitVolumeDetached_def
  by (rule wp_mono [OF wait_error_wp]) (auto intro: wait_detach_evidence split: option.splits)

lemma detach_command_evidence:
  assumes "ie_code e \<in> errSetDetachDone"
  shows "detach_evidence E i v s (s\<lparr>cs_hist := EvDetach i v (Some e) # cs_hist s\<rparr>)"
  using assms by (simp add: detach_evidence_def)

lemma did_command: "is_command e \<Longrightarrow> did [e] s (s\<lparr>cs_hist := e # cs_hist s\<rparr>)"
  by (simp add: did_def)

lemma detach_command_wp:
  assumes "wait_ok E"
  shows "wp (detach_command E i v) (detach_post E i v s) s"
proof -
  let ?x = "api_Detach E (cs_hist s) i v"
  let ?s1 = "s\<lparr>cs_hist := EvDetach i v ?x # cs_hist s\<rparr>"
  have d: "did [EvDetach i v ?x] s ?s1" by (rule did_command) simp
  show ?thesis
  proof (cases ?x)
    case (Some e)
    with d show ?thesis
      by (auto simp: detach_command_def detach_post_def detach_command_evidence)
  next
    case None
    have "wp (waitVolumeDetached E i v) (detach_post E i v s) ?s1"
    proof (rule wp_mono [OF waitVolumeDetached_wp [OF assms]])
      fix r :: "ierror option" and s'
      assume *: "ro ?s1 s' \<and> (r = None \<longrightarrow> detach_evidence E i v ?s1 s')"
      then have "did [EvDetach i v ?x] s s'" using d by (auto simp: ro_did intro: did_ro_trans)
      with * d show "detach_post E i v s r s'"
        unfolding detach_post_def by (blast intro: detach_evidence_later did_ext ro_ext)
    qed
    with None show ?thesis by (simp add: detach_command_def)
  qed
qed

lemma DetachVolume_wp:
  assumes "wait_ok E"
  shows "wp (DetachVolume E i v) (detach_post E i v s) s"
  unfolding DetachVolume_def wp_bind
proof (rule wp_mono [OF projectClient_wp], goal_cases)
  case (1 c s1)
  show ?case
  proof (cases c)
    case (Inl e)
    with 1 show ?thesis by (simp add: detach_post_ro)
  next
    case (Inr p)
    show ?thesis
      unfolding Inr sum.case wp_bind
    proof (rule wp_mono [OF getVolumeById_wp], goal_cases)
      case (1 r s2)
      have ro: "ro s s2"
        using \<open>ro s s1 \<and> _\<close> read_answer_ro [OF 1] by (auto intro: ro_trans)
      have cmd: "wp (detach_command E i v) (detach_post E i v s) s2"
        by (rule wp_mono [OF detach_command_wp [OF assms]]) (rule detach_post_later [OF ro])
      have ev: "detach_evidence E i v s s2" if "detach_evidence E i v s1 s2"
        using that \<open>ro s s1 \<and> _\<close> ro_ext read_answer_ro [OF 1] by (blast intro: detach_evidence_later)
      show ?case
        using read_detach_evidence [OF 1, of E i] cmd ro ev
        by (auto simp: detach_post_ro split: sum.splits)
    qed
  qed
qed

section \<open>What attach does\<close>

definition attached_evidence :: "env \<Rightarrow> string \<Rightarrow> string \<Rightarrow> cstate \<Rightarrow> volume \<Rightarrow> cstate \<Rightarrow> bool" where
  "attached_evidence E i v s vol s' \<longleftrightarrow> EvGet v (Inr vol) \<in> set (news s s')
     \<and> sv_AttachedTheInstance E vol i \<and> vol_Status vol = VolumeInUseStatus"

text \<open>
  Never a nil dereference; no attach command, one, or a second one after the first was refused
  because the volume was busy; a volume only on the evidence of a read.
\<close>

definition attach_commands :: "string \<Rightarrow> string \<Rightarrow> cstate \<Rightarrow> cstate \<Rightarrow> bool" where
  "attach_commands i v s s' \<longleftrightarrow> did [] s s' \<or> (\<exists>x. did [EvAttach i v x] s s')
     \<or> (\<exists>x y. did [EvAttach i v y, EvAttach i v (Some x)] s s' \<and> ie_code x = EcVServerVolumeInProcess)"

definition attach_post ::
    "env \<Rightarrow> string \<Rightarrow> string \<Rightarrow> cstate \<Rightarrow> (ierror + volume option) go \<Rightarrow> cstate \<Rightarrow> bool" where
  "attach_post E i v s r s' \<longleftrightarrow> r \<noteq> Panic \<and>
     (\<forall>res. r = Return (Inr res) \<longrightarrow> (\<exists>vol. res = Some vol \<and> attached_evidence E i v s vol s'))"

lemma attached_evidence_later:
  "ext s s1 \<Longrightarrow> ext s1 s2 \<Longrightarrow> attached_evidence E i v s1 vol s2 \<Longrightarrow> attached_evidence E i v s vol s2"
  unfolding attached_evidence_def using news_trans [of s s1 s2] by auto

lemma attach_post_later:
  "ext s s1 \<Longrightarrow> ext s1 s2 \<Longrightarrow> attach_post E i v s1 r s2 \<Longrightarrow> attach_post E i v s r s2"
  unfolding attach_post_def by (blast intro: attached_evidence_later)

lemma waitDiskAttached_wp:
  assumes "wait_ok E"
  shows "wp (waitDiskAttached E i v) (\<lambda>r s'. ro s s' \<and> attach_post E i v s (Return r) s') s"
  unfolding waitDiskAttached_def
  by (rule wp_mono [OF waitVolume_wp [OF assms]])
    (auto simp: attach_post_def wait_evidence_def attached_evidence_def spec_attached_def
      split: sum.splits)

lemma waitVolumeAttachable_wp:
  assumes "wait_ok E"
  shows "wp (waitVolumeAttachable E i v) (\<lambda>r s'. ro s s' \<and>
    (case r of Inl e \<Rightarrow> True
     | Inr res \<Rightarrow> \<exists>vol. res = Some vol \<and> EvGet v (Inr vol) \<in> set (news s s')
         \<and> volumeAttachable E (Some vol) i)) s"
  unfolding waitVolumeAttachable_def
  by (rule wp_mono [OF waitVolume_wp [OF assms]])
    (auto simp: wait_evidence_def spec_attachable_def split: sum.splits)

text \<open>One attach command followed by a wait, and the retry of a busy volume.\<close>

definition attach_tail ::
    "env \<Rightarrow> string \<Rightarrow> string \<Rightarrow> history \<Rightarrow> cstate \<Rightarrow> (ierror + volume option) go \<Rightarrow> cstate \<Rightarrow> bool" where
  "attach_tail E i v cmds s r s' \<longleftrightarrow> did cmds s s' \<and> attach_post E i v s r s'"

lemma attach_tail_later:
  "did c1 s s1 \<Longrightarrow> attach_tail E i v c2 s1 r s2 \<Longrightarrow> attach_tail E i v (c2 @ c1) s r s2"
  unfolding attach_tail_def by (blast intro: did_trans attach_post_later did_ext)

lemma attach_tail_error: "did cmds s s' \<Longrightarrow> attach_tail E i v cmds s (Return (Inl e)) s'"
  by (simp add: attach_tail_def attach_post_def)

lemma wait_tail_wp:
  assumes "wait_ok E" and "did cmds s s1"
  shows "wp (do { r \<leftarrow> waitDiskAttached E i v; State_Monad.return (Return r) })
    (attach_tail E i v cmds s) s1"
  unfolding wp_bind wp_return
proof (rule wp_mono [OF waitDiskAttached_wp [OF assms(1)]])
  fix r s2
  assume "ro s1 s2 \<and> attach_post E i v s1 (Return r) s2"
  with assms(2) show "attach_tail E i v cmds s (Return r) s2"
    using attach_tail_later [OF assms(2), of E i v "[]" "Return r" s2]
    by (simp add: attach_tail_def ro_did)
qed

definition attach_done :: "env \<Rightarrow> string \<Rightarrow> string \<Rightarrow> cstate \<Rightarrow> (ierror + volume option) go \<Rightarrow> cstate \<Rightarrow> bool" where
  "attach_done E i v s r s' \<longleftrightarrow> attach_commands i v s s' \<and> attach_post E i v s r s'"

lemma attach_doneI:
  "attach_tail E i v [] s r s' \<Longrightarrow> attach_done E i v s r s'"
  "attach_tail E i v [EvAttach i v x] s r s' \<Longrightarrow> attach_done E i v s r s'"
  "attach_tail E i v [EvAttach i v y, EvAttach i v (Some e)] s r s'
    \<Longrightarrow> ie_code e = EcVServerVolumeInProcess \<Longrightarrow> attach_done E i v s r s'"
  unfolding attach_done_def attach_tail_def attach_commands_def by blast+

lemma attach_retry_wp:
  assumes "wait_ok E" and busy: "ie_code e = EcVServerVolumeInProcess"
    and d: "did [EvAttach i v (Some e)] s s1"
  shows "wp (attach_retry E i v e) (attach_done E i v s) s1"
  unfolding attach_retry_def wp_bind
proof (rule wp_mono [OF waitVolumeAttachable_wp [OF assms(1)]], goal_cases)
  case (1 w s2)
  have d2: "did [EvAttach i v (Some e)] s s2"
    using d 1 by (auto simp: ro_did intro: did_ro_trans)
  show ?case
  proof (cases w)
    case (Inl werr)
    then show ?thesis using d2 by (auto intro: attach_doneI attach_tail_error)
  next
    case (Inr res)
    with 1 obtain vol where vol: "res = Some vol" "EvGet v (Inr vol) \<in> set (news s1 s2)"
      "volumeAttachable E (Some vol) i" by auto
    show ?thesis
    proof (cases "sv_AttachedTheInstance E vol i")
      case True
      with vol have "attached_evidence E i v s1 vol s2"
        by (simp add: attached_evidence_def volumeAttachable_def)
      then have "attached_evidence E i v s vol s2"
        using d 1 by (blast intro: attached_evidence_later did_ext ro_ext)
      then have "attach_tail E i v [EvAttach i v (Some e)] s (Return (Inr (Some vol))) s2"
        using d2 by (simp add: attach_tail_def attach_post_def)
      with True Inr vol(1) show ?thesis by (auto intro: attach_doneI)
    next
      case False
      let ?x = "api_Attach E (cs_hist s2) i v"
      let ?s3 = "s2\<lparr>cs_hist := EvAttach i v ?x # cs_hist s2\<rparr>"
      have d3: "did [EvAttach i v ?x, EvAttach i v (Some e)] s ?s3"
        using did_trans [OF d2 did_command [of "EvAttach i v ?x" s2]] by simp
      have "wp (do { r \<leftarrow> waitDiskAttached E i v; State_Monad.return (Return r) })
          (attach_done E i v s) ?s3"
        by (rule wp_mono [OF wait_tail_wp [OF assms(1) d3]]) (rule attach_doneI(3) [OF _ busy])
      then show ?thesis
        using False Inr vol(1) attach_doneI(3) [OF attach_tail_error [OF d3] busy]
        by (auto simp: attach_command_def split: option.splits)
    qed
  qed
qed

lemma getVolumeForAttach_wp:
  "wp (getVolumeForAttach E v) (\<lambda>r s'. ro s s' \<and>
    (case r of Inl e \<Rightarrow> True | Inr vol \<Rightarrow> EvGet v (Inr vol) \<in> set (news s s'))) s"
  unfolding getVolumeForAttach_def wp_bind wp_return
  by (rule wp_mono [OF getVolumeById_wp])
    (auto dest: read_answer_ro read_answer_news [OF ext_refl] split: sum.splits)

lemma AttachVolume_wp:
  assumes "wait_ok E"
  shows "wp (AttachVolume E i v) (attach_done E i v s) s"
  unfolding AttachVolume_def wp_bind
proof (rule wp_mono [OF projectClient_wp], goal_cases)
  case (1 c s1)
  then have ro1: "did [] s s1" by (simp add: ro_did)
  show ?case
  proof (cases c)
    case (Inl e)
    then show ?thesis using ro1 by (auto intro: attach_doneI attach_tail_error)
  next
    case (Inr p)
    show ?thesis
      unfolding Inr sum.case wp_bind
    proof (rule wp_mono [OF getVolumeForAttach_wp], goal_cases)
      case (1 r s2)
      have d2: "did [] s s2" using ro1 1 by (auto simp: ro_did intro: did_ro_trans)
      show ?case
      proof (cases r)
        case (Inl e)
        then show ?thesis using d2 by (auto intro: attach_doneI attach_tail_error)
      next
        case (Inr vol)
        with 1 have "EvGet v (Inr vol) \<in> set (news s1 s2)" by simp
        then have now: "EvGet v (Inr vol) \<in> set (news s s2)"
          using news_trans [OF did_ext [OF ro1], of s2] 1 by (auto dest: ro_ext)
        let ?x = "api_Attach E (cs_hist s2) i v"
        let ?s3 = "s2\<lparr>cs_hist := EvAttach i v ?x # cs_hist s2\<rparr>"
        have d3: "did [EvAttach i v ?x] s ?s3"
          using did_trans [OF d2 did_command [of "EvAttach i v ?x" s2]] by simp
        have waited: "wp (do { r \<leftarrow> waitDiskAttached E i v; State_Monad.return (Return r) })
            (attach_done E i v s) ?s3"
          by (rule wp_mono [OF wait_tail_wp [OF assms d3]]) (rule attach_doneI(2))
        have already: "wp (do { r \<leftarrow> waitDiskAttached E i v; State_Monad.return (Return r) })
            (attach_done E i v s) s2"
          by (rule wp_mono [OF wait_tail_wp [OF assms d2]]) (rule attach_doneI(1))
        have fast: "attach_done E i v s (Return (Inr (Some vol))) s2"
          if "sv_AttachedTheInstance E vol i" "vol_Status vol = VolumeInUseStatus"
          using that now d2
          by (intro attach_doneI(1)) (simp add: attach_tail_def attach_post_def attached_evidence_def)
        show ?thesis
          using fast waited already attach_retry_wp [OF assms, of _ i v s ?s3] d3
            attach_doneI(2) [OF attach_tail_error [OF d3]]
          by (auto simp: Inr attach_command_def split: option.splits)
      qed
    qed
  qed
qed

section \<open>What delete does\<close>

text \<open>The volume is gone: a read or the delete command says so.\<close>

fun gone_event :: "string \<Rightarrow> event \<Rightarrow> bool" where
  "gone_event v (EvGet w (Inl e)) \<longleftrightarrow> w = v \<and> IsError e EcVServerVolumeNotFound"
| "gone_event v (EvDelete w None) \<longleftrightarrow> w = v"
| "gone_event v (EvDelete w (Some e)) \<longleftrightarrow> w = v \<and> IsError e EcVServerVolumeNotFound"
| "gone_event v _ \<longleftrightarrow> False"

text \<open>A read after which the delete command may be issued.\<close>

fun deletable_event :: "env \<Rightarrow> string \<Rightarrow> event \<Rightarrow> bool" where
  "deletable_event E v (EvGet w (Inl e)) \<longleftrightarrow> w = v \<and> IsError e EcVServerVolumeNotFound"
| "deletable_event E v (EvGet w (Inr vol)) \<longleftrightarrow> w = v \<and> sv_CanDelete E vol"
| "deletable_event E v _ \<longleftrightarrow> False"

definition saw :: "(event \<Rightarrow> bool) \<Rightarrow> cstate \<Rightarrow> cstate \<Rightarrow> bool" where
  "saw P s s' \<longleftrightarrow> (\<exists>e\<in>set (news s s'). P e)"

lemma saw_trans:
  "ext s s1 \<Longrightarrow> ext s1 s2 \<Longrightarrow> saw P s s1 \<or> saw P s1 s2 \<Longrightarrow> saw P s s2"
  unfolding saw_def using news_trans [of s s1 s2] by auto

lemma saw_call: "P e \<Longrightarrow> saw P s (s\<lparr>cs_hist := e # cs_hist s\<rparr>)"
  by (simp add: saw_def)

lemma saw_read:
  "read_answer v s r s' \<Longrightarrow> P (EvGet v r) \<Longrightarrow> (\<And>e. r = Inl e \<Longrightarrow> IsError e EcVServerVolumeNotFound)
    \<Longrightarrow> saw P s s'"
  unfolding saw_def by (blast intro: read_answer_news [OF ext_refl] dest: not_found_resolved)

definition delete_post :: "env \<Rightarrow> string \<Rightarrow> cstate \<Rightarrow> ierror option \<Rightarrow> cstate \<Rightarrow> bool" where
  "delete_post E v s r s' \<longleftrightarrow>
     (did [] s s' \<or> (\<exists>x. did [EvDelete v x] s s') \<and> saw (deletable_event E v) s s') \<and>
     (r = None \<longrightarrow> saw (gone_event v) s s')"

lemma delete_post_error: "ro s s' \<Longrightarrow> delete_post E v s (Some e) s'"
  by (simp add: delete_post_def ro_did)

lemma waitVolumeDeletable_wp:
  assumes "wait_ok E"
  shows "wp (waitVolumeDeletable E v)
    (\<lambda>r s'. ro s s' \<and> (r = None \<longrightarrow> saw (deletable_event E v) s s')) s"
  unfolding waitVolumeDeletable_def
proof (rule wp_mono [OF wait_error_wp [OF assms]])
  fix r :: "ierror option" and s'
  assume *: "ro s s' \<and> (case r of Some e \<Rightarrow> wait_failed (spec_deletable E v) e
      | None \<Rightarrow> \<exists>res. wait_evidence v (spec_deletable E v) s res s')"
  have "saw (deletable_event E v) s s'" if "wait_evidence v (spec_deletable E v) s res s'" for res
    using that unfolding wait_evidence_def saw_def
  proof (elim disjE conjE exE)
    fix vol
    assume "vw_done (spec_deletable E v) vol" and ev: "EvGet v (Inr vol) \<in> set (news s s')"
    then have "deletable_event E v (EvGet v (Inr vol))" by (simp add: spec_deletable_def)
    with ev show "\<exists>e\<in>set (news s s'). deletable_event E v e" by blast
  next
    fix e
    assume "IsError e EcVServerVolumeNotFound" and ev: "EvGet v (Inl e) \<in> set (news s s')"
    then have "deletable_event E v (EvGet v (Inl e))" by simp
    with ev show "\<exists>e\<in>set (news s s'). deletable_event E v e" by blast
  qed
  with * show "ro s s' \<and> (r = None \<longrightarrow> saw (deletable_event E v) s s')" by auto
qed

lemma delete_command_post:
  assumes "ro s s2" and "saw (deletable_event E v) s s2"
  shows "wp (do {
      d \<leftarrow> api_call (\<lambda>h. api_Delete E h v) (EvDelete v);
      State_Monad.return (case d of
         None \<Rightarrow> None
       | Some sdkErr \<Rightarrow>
           if IsError sdkErr EcVServerVolumeNotFound then None
           else Some (ErrVolumeFailedToDelete (e_merge E) v (Some sdkErr)))
    }) (delete_post E v s) s2"
proof -
  let ?x = "api_Delete E (cs_hist s2) v"
  let ?s3 = "s2\<lparr>cs_hist := EvDelete v ?x # cs_hist s2\<rparr>"
  have d: "did [EvDelete v ?x] s ?s3"
    using did_after_ro [of s s2 "[EvDelete v ?x]"] assms(1) did_command by (simp add: ro_did)
  have saw: "saw P s ?s3" if "saw P s s2 \<or> saw P s2 ?s3" for P
    using that assms(1) by (intro saw_trans [of s s2]) (auto dest: ro_ext)
  have gone: "saw (gone_event v) s ?s3" if "gone_event v (EvDelete v ?x)"
    using that by (intro saw) (auto intro: saw_call)
  show ?thesis
    using d saw assms(2) gone
    by (auto simp: delete_post_def split: option.splits)
qed

lemma DeleteVolume_wp:
  assumes "wait_ok E"
  shows "wp (DeleteVolume E v) (delete_post E v s) s"
  unfolding DeleteVolume_def wp_bind
proof (rule wp_mono [OF projectClient_wp], goal_cases)
  case (1 c s1)
  then have ro1: "ro s s1" by simp
  show ?case
  proof (cases c)
    case (Inl e)
    then show ?thesis using delete_post_error [OF ro1] by simp
  next
    case (Inr p)
    show ?thesis
      unfolding Inr sum.case wp_bind
    proof (rule wp_mono [OF getVolumeById_wp], goal_cases)
      case (1 r s2)
      have ro12: "ro s1 s2" using 1 by (rule read_answer_ro)
      with ro1 have ro2: "ro s s2" by (rule ro_trans)
      show ?case
      proof (cases r)
        case (Inl e)
        have "saw (gone_event v) s1 s2" if "IsError e EcVServerVolumeNotFound"
          using that Inl by (intro saw_read [OF 1]) auto
        then have "delete_post E v s None s2" if "IsError e EcVServerVolumeNotFound"
          using that ro2 ro1 ro12 saw_trans [of s s1 s2 "gone_event v"]
          by (auto simp: delete_post_def ro_did dest: did_ext)
        with Inl delete_post_error [OF ro2] show ?thesis by simp
      next
        case (Inr vol)
        show ?thesis
        proof (cases "sv_CanDelete E vol")
          case True
          then have "saw (deletable_event E v) s1 s2"
            using Inr by (intro saw_read [OF 1]) auto
          then have "saw (deletable_event E v) s s2"
            using ro1 ro12 by (intro saw_trans [of s s1 s2]) (auto dest: ro_ext)
          with True Inr delete_command_post [OF ro2] show ?thesis by simp
        next
          case False
          have "wp (waitVolumeDeletable E v) (\<lambda>w. wp (case w of
              Some err \<Rightarrow> State_Monad.return (Some err)
            | None \<Rightarrow> do {
                d \<leftarrow> api_call (\<lambda>h. api_Delete E h v) (EvDelete v);
                State_Monad.return (case d of
                   None \<Rightarrow> None
                 | Some sdkErr \<Rightarrow>
                     if IsError sdkErr EcVServerVolumeNotFound then None
                     else Some (ErrVolumeFailedToDelete (e_merge E) v (Some sdkErr)))
              }) (delete_post E v s)) s2"
          proof (rule wp_mono [OF waitVolumeDeletable_wp [OF assms]], goal_cases)
            case (1 w s3)
            then have ro3: "ro s s3" using ro2 by (blast intro: ro_trans)
            have "saw (deletable_event E v) s s3" if "w = None"
              using that 1 ro2 by (intro saw_trans [of s s2 s3]) (auto dest: ro_ext)
            with delete_command_post [OF ro3] delete_post_error [OF ro3] show ?case
              by (auto split: option.splits)
          qed
          with False Inr show ?thesis by simp
        qed
      qed
    qed
  qed
qed

section \<open>What the read-only check does\<close>

lemma IsDetachedFrom_wp:
  "wp (IsDetachedFrom E i v)
    (\<lambda>(b, err) s'. ro s s' \<and> (b \<longrightarrow> err = None \<and> detach_evidence E i v s s')
       \<and> (err = None \<and> \<not> b \<longrightarrow> (\<exists>vol. EvGet v (Inr vol) \<in> set (news s s')
            \<and> \<not> isDetachedFrom E (Some vol) i))) s"
  unfolding IsDetachedFrom_def wp_bind wp_return
proof (rule wp_mono [OF getVolumeById_wp], goal_cases)
  case (1 r s1)
  have "EvGet v (Inr vol) \<in> set (news s s1)" if "r = Inr vol" for vol
    using read_answer_news [OF ext_refl 1] that by simp
  then show ?case
    using read_detach_evidence [OF 1, of E i] read_answer_ro [OF 1] by (auto split: sum.splits)
qed

section \<open>Properties\<close>

text \<open>\<open>DetachVolume\<close> issues at most one detach command, for that pair and nothing else, and answers
success only on evidence: a read showed the volume missing or gone from the instance, or the command
was refused with a code that says so.\<close>

theorem DetachVolume_safe:
  assumes "wait_ok E"
  shows "wp (DetachVolume E i v) (\<lambda>r s'. (did [] s s' \<or> (\<exists>x. did [EvDetach i v x] s s')) \<and>
    (r = None \<longrightarrow> (\<exists>e\<in>set (news s s'). detached_event E i v e))) s"
  by (rule wp_mono [OF DetachVolume_wp [OF assms]]) (simp add: detach_post_def detach_evidence_def)

theorem DetachVolume_safe_witness:
  "fst (run_state (DetachVolume (sample_env True None) ''ins-1'' ''vol-1'') sample_cstate) = None \<and>
   wp (DetachVolume (sample_env True None) ''ins-1'' ''vol-1'')
     (\<lambda>r s'. did [] sample_cstate s' \<or> (\<exists>x. did [EvDetach ''ins-1'' ''vol-1'' x] sample_cstate s')) sample_cstate"
proof
  show "fst (run_state (DetachVolume (sample_env True None) ''ins-1'' ''vol-1'') sample_cstate) = None"
    by code_simp
  show "wp (DetachVolume (sample_env True None) ''ins-1'' ''vol-1'')
      (\<lambda>r s'. did [] sample_cstate s' \<or> (\<exists>x. did [EvDetach ''ins-1'' ''vol-1'' x] sample_cstate s')) sample_cstate"
    by (rule wp_mono [OF DetachVolume_safe [OF sample_wait_ok]]) simp
qed

text \<open>C29: \<open>AttachVolume\<close> never dereferences nil, issues no attach command, one, or a second one only after
the first was refused because the volume was busy, and returns a volume only when a read showed it in
use by the instance.\<close>

theorem AttachVolume_safe:
  assumes "wait_ok E"
  shows "wp (AttachVolume E i v) (\<lambda>r s'. r \<noteq> Panic \<and>
    (did [] s s' \<or> (\<exists>x. did [EvAttach i v x] s s') \<or>
      (\<exists>x y. did [EvAttach i v y, EvAttach i v (Some x)] s s' \<and> ie_code x = EcVServerVolumeInProcess)) \<and>
    (\<forall>res. r = Return (Inr res) \<longrightarrow> (\<exists>vol. res = Some vol \<and> EvGet v (Inr vol) \<in> set (news s s') \<and>
       sv_AttachedTheInstance E vol i \<and> vol_Status vol = VolumeInUseStatus))) s"
  by (rule wp_mono [OF AttachVolume_wp [OF assms]])
    (simp add: attach_done_def attach_commands_def attach_post_def attached_evidence_def)

theorem AttachVolume_safe_witness:
  "wp (AttachVolume (sample_env False None) ''ins-1'' ''vol-1'') (\<lambda>r s'. r \<noteq> Panic) sample_cstate"
  by (rule wp_mono [OF AttachVolume_safe [OF sample_wait_ok]]) simp

text \<open>\<open>DeleteVolume\<close> of the cloud issues at most one delete command, only after a read showed the volume
deletable (or already missing), and answers success only when a read or the command showed it gone.\<close>

theorem DeleteVolume_safe:
  assumes "wait_ok E"
  shows "wp (DeleteVolume E v) (\<lambda>r s'.
    (did [] s s' \<or> (\<exists>x. did [EvDelete v x] s s') \<and> (\<exists>e\<in>set (news s s'). deletable_event E v e)) \<and>
    (r = None \<longrightarrow> (\<exists>e\<in>set (news s s'). gone_event v e))) s"
  by (rule wp_mono [OF DeleteVolume_wp [OF assms]]) (simp add: delete_post_def saw_def)

theorem DeleteVolume_safe_witness:
  "fst (run_state (DeleteVolume (sample_env False None) ''vol-1'') sample_cstate) = None \<and>
   wp (DeleteVolume (sample_env False None) ''vol-1'')
     (\<lambda>r s'. r = None \<longrightarrow> (\<exists>e\<in>set (news sample_cstate s'). gone_event ''vol-1'' e)) sample_cstate"
proof
  show "fst (run_state (DeleteVolume (sample_env False None) ''vol-1'') sample_cstate) = None"
    by code_simp
  show "wp (DeleteVolume (sample_env False None) ''vol-1'')
      (\<lambda>r s'. r = None \<longrightarrow> (\<exists>e\<in>set (news sample_cstate s'). gone_event ''vol-1'' e)) sample_cstate"
    by (rule wp_mono [OF DeleteVolume_safe [OF sample_wait_ok]]) simp
qed

end
