(* ===== verification/CloudModify.thy ===== *)
theory CloudModify
  imports CloudVolumes GoStrings
begin

text \<open>
  Resizing, retyping and migrating a volume (\<^verbatim>\<open>pkg/cloud/cloud.go\<close>, with the checks of
  \<^verbatim>\<open>cloud_private.go\<close>). Sizes are the 64-bit words of the code. An operation that returns a
  plain Go \<open>error\<close> returns \<open>ierr.GetError()\<close>, so an SDK error that carries none is a nil result here
  as it is there. The two lookups of \<open>checkSameZone\<close> run concurrently; the environment says which
  of them goes first.
\<close>

section \<open>Checks\<close>

record ModifyDiskOptions =
  mo_VolumeType :: string

definition needsVolumeModification :: "volume \<Rightarrow> uint64 \<Rightarrow> ModifyDiskOptions \<Rightarrow> bool" where
  "needsVolumeModification volume newSizeGiB options =
     (let needs = False;
          needs = (if vol_Size volume < newSizeGiB then True else needs);
          needs = (if mo_VolumeType options \<noteq> ''''
                     \<and> \<not> EqualFold (vol_VolumeTypeID volume) (mo_VolumeType options)
                   then True else needs)
      in needs)"

definition still_expanding :: "string \<Rightarrow> uint64 \<Rightarrow> go_error" where
  "still_expanding volumeID desiredSizeGiB =
     GoErr (''volume '' @ volumeID @ '' is still being expanded to '' @ Itoa (uint desiredSizeGiB) @ '' size'')"

definition still_modifying :: "string \<Rightarrow> string \<Rightarrow> go_error" where
  "still_modifying volumeID volumeType =
     GoErr (''volume '' @ volumeID @ '' is still being modified to type '' @ volumeType)"

definition checkDesiredState ::
    "volume option \<Rightarrow> string \<Rightarrow> uint64 \<Rightarrow> ModifyDiskOptions \<Rightarrow> (int64 \<times> go_error option) go" where
  "checkDesiredState volume volumeID desiredSizeGiB options =
     (case volume of
        None \<Rightarrow> Panic
      | Some v \<Rightarrow>
          (let realSizeGiB = vol_Size v in
           if realSizeGiB < desiredSizeGiB
           then Return (realSizeGiB, Some (still_expanding volumeID desiredSizeGiB))
           else if mo_VolumeType options \<noteq> ''''
                   \<and> \<not> EqualFold (vol_VolumeTypeID v) (mo_VolumeType options)
           then Return (realSizeGiB, Some (still_modifying volumeID (mo_VolumeType options)))
           else Return (realSizeGiB, None)))"

definition validateModifyVolume ::
    "env \<Rightarrow> volume \<Rightarrow> string \<Rightarrow> uint64 \<Rightarrow> ModifyDiskOptions
      \<Rightarrow> (cstate, (bool \<times> int64 \<times> go_error option) go) state" where
  "validateModifyVolume E volume volumeID newSizeGiB options =
     (if \<not> needsVolumeModification volume newSizeGiB options then do {
        r \<leftarrow> waitVolumeAchieveStatus E volumeID volumeArchivedStatus;
        State_Monad.return (case r of
           (_, Some err2) \<Rightarrow> Return (True, vol_Size volume, Some err2)
         | (settled, None) \<Rightarrow>
             (case checkDesiredState settled volumeID newSizeGiB options of
                Panic \<Rightarrow> Panic
              | Return (returnGiB, returnErr) \<Rightarrow> Return (False, returnGiB, returnErr)))
      } else State_Monad.return (Return (True, 0, None)))"

definition GetVolumeTypeById :: "env \<Rightarrow> string \<Rightarrow> (cstate, ierror + volume_type) state" where
  "GetVolumeTypeById E pvolTypeId = do {
     c \<leftarrow> projectClient E;
     (case c of
        Inl ierr \<Rightarrow> State_Monad.return (Inl ierr)
      | Inr _ \<Rightarrow> api_call (\<lambda>h. api_GetType E h pvolTypeId) (EvGetType pvolTypeId))
   }"

text \<open>
  The lookups in the order they finish: the zones seen, the error variable both goroutines write, and
  the error the group keeps (the first one that is not nil).
\<close>

fun zone_lookups ::
    "env \<Rightarrow> string list \<Rightarrow> string set \<times> ierror option \<times> go_error option
      \<Rightarrow> (cstate, string set \<times> ierror option \<times> go_error option) state" where
  "zone_lookups E [] acc = State_Monad.return acc"
| "zone_lookups E (t # ts) (zoneSet, sdkErr, groupErr) = do {
     r \<leftarrow> GetVolumeTypeById E t;
     (case r of
        Inl err \<Rightarrow>
          zone_lookups E ts (zoneSet, Some err, if groupErr = None then ie_err err else groupErr)
      | Inr vt \<Rightarrow> zone_lookups E ts (insert (vt_ZoneId vt) zoneSet, sdkErr, groupErr))
   }"

definition checkSameZone :: "env \<Rightarrow> string \<Rightarrow> string \<Rightarrow> (cstate, bool \<times> ierror option) state" where
  "checkSameZone E pvolTypeA pvolTypeB =
     (if pvolTypeA = pvolTypeB then State_Monad.return (True, None)
      else do {
        swap \<leftarrow> ask_env (e_swap E);
        r \<leftarrow> zone_lookups E (if swap then [pvolTypeB, pvolTypeA] else [pvolTypeA, pvolTypeB])
              ({}, None, None);
        State_Monad.return (case r of (zoneSet, sdkErr, groupErr) \<Rightarrow>
          if groupErr \<noteq> None then (False, sdkErr)
          else if zoneSet = {} \<or> card zoneSet \<noteq> 1 then (False, None)
          else (True, None))
      })"

section \<open>Migration\<close>

definition migrate_command :: "env \<Rightarrow> string \<Rightarrow> string \<Rightarrow> (cstate, ierror option) state" where
  "migrate_command E pvolumeId ptargetType = do {
     m \<leftarrow> api_call (\<lambda>h. api_Migrate E h pvolumeId ptargetType) (EvMigrate pvolumeId ptargetType);
     (case m of
        Some migErr \<Rightarrow>
          if ie_code migErr \<notin> errSetMigrateInProgress then State_Monad.return (Some migErr)
          else waitVolumeMigrated E pvolumeId ptargetType
      | None \<Rightarrow> waitVolumeMigrated E pvolumeId ptargetType)
   }"

definition migrateVolumeToType :: "env \<Rightarrow> volume \<Rightarrow> string \<Rightarrow> string \<Rightarrow> (cstate, ierror option) state" where
  "migrateVolumeToType E vol pvolumeId ptargetType = do {
     c \<leftarrow> projectClient E;
     (case c of
        Inl ierr \<Rightarrow> State_Monad.return (Some ierr)
      | Inr _ \<Rightarrow>
          if isMigratedToType (Some vol) ptargetType then State_Monad.return None
          else if \<not> entity_IsMigration vol \<and> \<not> entity_IsCreating vol
          then migrate_command E pvolumeId ptargetType
          else waitVolumeMigrated E pvolumeId ptargetType)
   }"

section \<open>Resize\<close>

text \<open>The resize command, the wait and the final check of \<open>ResizeOrModifyDisk\<close>.\<close>

definition resize_and_check ::
    "env \<Rightarrow> string \<Rightarrow> uint64 \<Rightarrow> ModifyDiskOptions \<Rightarrow> (cstate, (int64 \<times> go_error option) go) state" where
  "resize_and_check E volumeID newSizeGiB options = do {
     r \<leftarrow> api_call (\<lambda>h. api_Resize E h volumeID (mo_VolumeType options) newSizeGiB)
           (EvResize volumeID (mo_VolumeType options) newSizeGiB);
     (case r of
        Inl sdkErr \<Rightarrow>
          if \<not> IsError sdkErr EcVServerVolumeUnchanged
          then State_Monad.return (Return (0, ie_err sdkErr))
          else do {
            w \<leftarrow> waitVolumeAchieveStatus E volumeID volumeArchivedStatus;
            State_Monad.return (case w of
               (_, Some err) \<Rightarrow> Return (0, Some err)
             | (settled, None) \<Rightarrow> checkDesiredState settled volumeID newSizeGiB options)
          }
      | Inr _ \<Rightarrow> do {
          w \<leftarrow> waitVolumeAchieveStatus E volumeID volumeArchivedStatus;
          State_Monad.return (case w of
             (_, Some err) \<Rightarrow> Return (0, Some err)
           | (settled, None) \<Rightarrow> checkDesiredState settled volumeID newSizeGiB options)
        })
   }"

text \<open>From the zone check on: migrate when the zones differ and the volume is free, then resize.\<close>

definition modify_volume ::
    "env \<Rightarrow> volume \<Rightarrow> string \<Rightarrow> uint64 \<Rightarrow> ModifyDiskOptions
      \<Rightarrow> (cstate, (int64 \<times> go_error option) go) state" where
  "modify_volume E volume volumeID newSizeGiB options = do {
     z \<leftarrow> checkSameZone E (mo_VolumeType options) (vol_VolumeTypeID volume);
     (case z of
        (_, Some sdkErr2) \<Rightarrow> State_Monad.return (Return (0, ie_err sdkErr2))
      | (same, None) \<Rightarrow>
          if \<not> same \<and> \<not> entity_IsAttched volume then do {
            m \<leftarrow> migrateVolumeToType E volume volumeID (mo_VolumeType options);
            (case m of
               Some ierr \<Rightarrow> State_Monad.return (Return (0, ie_err ierr))
             | None \<Rightarrow> resize_and_check E volumeID newSizeGiB options)
          } else resize_and_check E volumeID newSizeGiB options)
   }"

definition ResizeOrModifyDisk ::
    "env \<Rightarrow> string \<Rightarrow> int64 \<Rightarrow> ModifyDiskOptions \<Rightarrow> (cstate, (int64 \<times> go_error option) go) state" where
  "ResizeOrModifyDisk E volumeID newSizeBytes options = do {
     c \<leftarrow> projectClient E;
     (case c of
        Inl ierr \<Rightarrow> State_Monad.return (Return (0, ie_err ierr))
      | Inr _ \<Rightarrow>
          (case RoundUpGiB newSizeBytes of
             Panic \<Rightarrow> State_Monad.return Panic
           | Return newSizeGiB \<Rightarrow> do {
               r \<leftarrow> GetVolume E volumeID;
               (case r of
                  Inl sdkErr \<Rightarrow> State_Monad.return (Return (0, ie_err sdkErr))
                | Inr volume \<Rightarrow>
                    (let newSizeGiB =
                           (if newSizeGiB < vol_Size volume then vol_Size volume else newSizeGiB);
                         options =
                           (if mo_VolumeType options = '''' then options\<lparr>mo_VolumeType := vol_VolumeTypeID volume\<rparr>
                            else options)
                     in do {
                       v \<leftarrow> validateModifyVolume E volume volumeID newSizeGiB options;
                       (case v of
                          Panic \<Rightarrow> State_Monad.return Panic
                        | Return (needsModification, volumeSize, err) \<Rightarrow>
                            if err \<noteq> None \<or> \<not> needsModification
                            then State_Monad.return (Return (volumeSize, err))
                            else modify_volume E volume volumeID newSizeGiB options)
                     }))
             }))
   }"

definition ModifyVolumeType :: "env \<Rightarrow> string \<Rightarrow> string \<Rightarrow> int64 \<Rightarrow> (cstate, ierror option) state" where
  "ModifyVolumeType E pvolumeId pvolumeType psize = do {
     c \<leftarrow> projectClient E;
     (case c of
        Inl ierr \<Rightarrow> State_Monad.return (Some ierr)
      | Inr _ \<Rightarrow> do {
          r \<leftarrow> api_call (\<lambda>h. api_Resize E h pvolumeId pvolumeType psize)
                (EvResize pvolumeId pvolumeType psize);
          (case r of
             Inl sdkErr \<Rightarrow>
               if \<not> IsError sdkErr EcVServerVolumeUnchanged then State_Monad.return (Some sdkErr)
               else waitVolumeMigrated E pvolumeId pvolumeType
           | Inr _ \<Rightarrow> waitVolumeMigrated E pvolumeId pvolumeType)
        })
   }"

definition ExpandVolume ::
    "env \<Rightarrow> string \<Rightarrow> string \<Rightarrow> uint64 \<Rightarrow> (cstate, go_error option go) state" where
  "ExpandVolume E volumeID volumeTypeID newSize = do {
     r \<leftarrow> ResizeOrModifyDisk E volumeID (GiBToBytes newSize) \<lparr>mo_VolumeType = volumeTypeID\<rparr>;
     State_Monad.return (case r of Panic \<Rightarrow> Panic | Return (_, err) \<Rightarrow> Return err)
   }"

definition GetDeviceDiskID :: "env \<Rightarrow> string \<Rightarrow> (cstate, string \<times> go_error option) state" where
  "GetDeviceDiskID E pvolID = do {
     c \<leftarrow> projectClient E;
     (case c of
        Inl ierr \<Rightarrow> State_Monad.return ('''', ie_err ierr)
      | Inr _ \<Rightarrow> do {
          r \<leftarrow> api_call (\<lambda>h. api_UnderId E h pvolID) (EvUnderId pvolID);
          State_Monad.return (case r of Inl err \<Rightarrow> ('''', ie_err err) | Inr underId \<Rightarrow> (underId, None))
        })
   }"

section \<open>What migration does\<close>

definition read_volume :: "string \<Rightarrow> (volume \<Rightarrow> bool) \<Rightarrow> cstate \<Rightarrow> cstate \<Rightarrow> bool" where
  "read_volume v P s s' \<longleftrightarrow> (\<exists>vol. EvGet v (Inr vol) \<in> set (news s s') \<and> P vol)"

lemma read_volume_later:
  "ext s s1 \<Longrightarrow> ext s1 s2 \<Longrightarrow> read_volume v P s1 s2 \<Longrightarrow> read_volume v P s s2"
  unfolding read_volume_def using news_trans [of s s1 s2] by auto

lemma read_volume_earlier:
  "ext s s1 \<Longrightarrow> ext s1 s2 \<Longrightarrow> read_volume v P s s1 \<Longrightarrow> read_volume v P s s2"
  unfolding read_volume_def using news_trans [of s s1 s2] by auto

lemma waitVolumeMigrated_wp:
  assumes "wait_ok E"
  shows "wp (waitVolumeMigrated E v t)
    (\<lambda>r s'. ro s s' \<and> (case r of Some e \<Rightarrow> ie_err e \<noteq> None
       | None \<Rightarrow> read_volume v (\<lambda>vol. isMigratedToType (Some vol) t) s s')) s"
  unfolding waitVolumeMigrated_def
  by (rule wp_mono [OF wait_error_wp [OF assms]])
    (auto simp: wait_evidence_def read_volume_def spec_migrated_def wait_failed_def
      split: option.splits)

text \<open>At most one migrate command; no error only when a read shows the volume on the type.\<close>

definition migrate_post :: "string \<Rightarrow> string \<Rightarrow> cstate \<Rightarrow> ierror option \<Rightarrow> cstate \<Rightarrow> bool" where
  "migrate_post v t s r s' \<longleftrightarrow> (did [] s s' \<or> (\<exists>y. did [EvMigrate v t y] s s'))
     \<and> (r = None \<longrightarrow> read_volume v (\<lambda>vol. isMigratedToType (Some vol) t) s s')"

lemma migrate_wait_wp:
  assumes "wait_ok E" and "did [] s s1 \<or> (\<exists>y. did [EvMigrate v t y] s s1)"
  shows "wp (waitVolumeMigrated E v t) (migrate_post v t s) s1"
proof (rule wp_mono [OF waitVolumeMigrated_wp [OF assms(1)]])
  fix r :: "ierror option" and s2
  assume *: "ro s1 s2 \<and> (case r of Some e \<Rightarrow> ie_err e \<noteq> None
      | None \<Rightarrow> read_volume v (\<lambda>vol. isMigratedToType (Some vol) t) s1 s2)"
  moreover have "did [] s s2 \<or> (\<exists>y. did [EvMigrate v t y] s s2)"
    using assms(2) * by (auto simp: ro_did intro: did_ro_trans)
  moreover have "ext s s1" using assms(2) by (auto dest: did_ext)
  ultimately show "migrate_post v t s r s2"
    by (auto simp: migrate_post_def dest: ro_ext intro: read_volume_later split: option.splits)
qed

lemma migrate_command_wp:
  assumes "wait_ok E" and "did [] s s1"
  shows "wp (migrate_command E v t) (migrate_post v t s) s1"
proof -
  let ?y = "api_Migrate E (cs_hist s1) v t"
  let ?s2 = "s1\<lparr>cs_hist := EvMigrate v t ?y # cs_hist s1\<rparr>"
  have d: "did [EvMigrate v t ?y] s ?s2"
    using did_after_ro [OF assms(2) did_command [of "EvMigrate v t ?y" s1]] by simp
  then have "wp (waitVolumeMigrated E v t) (migrate_post v t s) ?s2"
    by (intro migrate_wait_wp assms(1)) blast
  moreover have "migrate_post v t s (Some e) ?s2" for e
    using d by (auto simp: migrate_post_def)
  ultimately show ?thesis
    by (auto simp: migrate_command_def split: option.splits)
qed

lemma migrateVolumeToType_wp:
  assumes "wait_ok E"
  shows "wp (migrateVolumeToType E vol v t)
    (\<lambda>r s'. migrate_post v t s r s' \<or> r = None \<and> isMigratedToType (Some vol) t \<and> ro s s') s"
  unfolding migrateVolumeToType_def wp_bind
proof (rule wp_mono [OF projectClient_wp], goal_cases)
  case (1 c s1)
  then have d: "did [] s s1" by (simp add: ro_did)
  have post: "wp m (\<lambda>r s'. migrate_post v t s r s' \<or> r = None \<and> isMigratedToType (Some vol) t \<and> ro s s') s1"
    if "wp m (migrate_post v t s) s1" for m
    using that by (rule wp_mono) blast
  show ?case
  proof (cases c)
    case (Inl e)
    with d show ?thesis by (auto simp: migrate_post_def)
  next
    case (Inr p)
    with d show ?thesis
      using post [OF migrate_command_wp [OF assms d]] post [OF migrate_wait_wp [OF assms]]
      by (auto simp: ro_did)
  qed
qed

section \<open>What resize does\<close>

text \<open>A read of the volume, settled, at least \<open>g\<close> GiB, and of the wanted type.\<close>

definition settled_at :: "uint64 \<Rightarrow> string \<Rightarrow> volume \<Rightarrow> bool" where
  "settled_at g t vol \<longleftrightarrow> vol_Status vol \<in> volumeArchivedStatus \<and> g \<le> vol_Size vol
     \<and> (t = '''' \<or> EqualFold (vol_VolumeTypeID vol) t)"

definition resize_result ::
    "string \<Rightarrow> uint64 \<Rightarrow> string \<Rightarrow> cstate \<Rightarrow> (int64 \<times> go_error option) go \<Rightarrow> cstate \<Rightarrow> bool" where
  "resize_result v g t s r s' \<longleftrightarrow> r \<noteq> Panic \<and>
     (\<forall>n. r = Return (n, None) \<longrightarrow> read_volume v (\<lambda>vol. settled_at g t vol \<and> n = vol_Size vol) s s')"

lemma resize_result_later:
  "ext s s1 \<Longrightarrow> ext s1 s2 \<Longrightarrow> resize_result v g t s1 r s2 \<Longrightarrow> resize_result v g t s r s2"
  unfolding resize_result_def by (blast intro: read_volume_later)

lemma resize_result_error: "resize_result v g t s (Return (n, Some e)) s'"
  by (simp add: resize_result_def)

lemma waitVolumeAchieveStatus_wp:
  assumes "wait_ok E"
  shows "wp (waitVolumeAchieveStatus E v D)
    (\<lambda>r s'. ro s s' \<and> (snd r = None \<longrightarrow>
       (\<exists>vol. fst r = Some vol \<and> EvGet v (Inr vol) \<in> set (news s s') \<and> vol_Status vol \<in> D))) s"
  unfolding waitVolumeAchieveStatus_def wp_bind wp_return
  by (rule wp_mono [OF waitVolume_wp [OF assms]])
    (auto simp: wait_evidence_def spec_status_def wait_failed_def split: sum.splits)

lemma checkDesiredState_result:
  assumes "EvGet v (Inr vol) \<in> set (news s s')" and "vol_Status vol \<in> volumeArchivedStatus"
  shows "resize_result v g (mo_VolumeType options) s (checkDesiredState (Some vol) v g options) s'"
  using assms by (auto simp: resize_result_def checkDesiredState_def Let_def read_volume_def
      settled_at_def not_less)

lemma settle_wp:
  assumes "wait_ok E"
  shows "wp (do {
      w \<leftarrow> waitVolumeAchieveStatus E v volumeArchivedStatus;
      State_Monad.return (case w of
         (_, Some err) \<Rightarrow> Return (0, Some err)
       | (settled, None) \<Rightarrow> checkDesiredState settled v g options)
    }) (\<lambda>r s'. ro s s' \<and> resize_result v g (mo_VolumeType options) s r s') s"
  unfolding wp_bind wp_return
  by (rule wp_mono [OF waitVolumeAchieveStatus_wp [OF assms]])
    (auto simp: resize_result_error intro: checkDesiredState_result split: prod.splits option.splits)

text \<open>What the operations rely on of SDK errors: they carry a Go error.\<close>

definition errors_loaded :: "env \<Rightarrow> bool" where
  "errors_loaded E \<longleftrightarrow>
     (\<forall>h v e. api_Get E h v = Inl e \<longrightarrow> ie_err e \<noteq> None) \<and>
     (\<forall>h v t n e. api_Resize E h v t n = Inl e \<longrightarrow> ie_err e \<noteq> None) \<and>
     (\<forall>h v t e. api_Migrate E h v t = Some e \<longrightarrow> ie_err e \<noteq> None) \<and>
     (\<forall>h t e. api_GetType E h t = Inl e \<longrightarrow> ie_err e \<noteq> None)"

text \<open>The commands of a modification: at most one migrate, then at most one resize.\<close>

definition modify_commands :: "string \<Rightarrow> uint64 \<Rightarrow> string \<Rightarrow> history \<Rightarrow> bool" where
  "modify_commands v g t cmds \<longleftrightarrow> cmds = [] \<or> (\<exists>x. cmds = [EvResize v t g x])
     \<or> (\<exists>y. cmds = [EvMigrate v t y]) \<or> (\<exists>x y. cmds = [EvResize v t g x, EvMigrate v t y])"

definition modify_post ::
    "string \<Rightarrow> uint64 \<Rightarrow> string \<Rightarrow> cstate \<Rightarrow> (int64 \<times> go_error option) go \<Rightarrow> cstate \<Rightarrow> bool" where
  "modify_post v g t s r s' \<longleftrightarrow> (\<exists>cmds. did cmds s s' \<and> modify_commands v g t cmds)
     \<and> resize_result v g t s r s'"

lemma resize_and_check_wp:
  assumes "wait_ok E" and loaded: "errors_loaded E"
    and d: "did c s s1" and c: "c = [] \<or> (\<exists>y. c = [EvMigrate v (mo_VolumeType options) y])"
  shows "wp (resize_and_check E v g options) (modify_post v g (mo_VolumeType options) s) s1"
proof -
  let ?t = "mo_VolumeType options"
  let ?x = "api_Resize E (cs_hist s1) v ?t g"
  let ?s2 = "s1\<lparr>cs_hist := EvResize v ?t g ?x # cs_hist s1\<rparr>"
  have d2: "did (EvResize v ?t g ?x # c) s ?s2"
    using did_trans [OF d did_command [of "EvResize v ?t g ?x" s1]] by simp
  have cmds: "modify_commands v g ?t (EvResize v ?t g ?x # c)"
    using c by (auto simp: modify_commands_def)
  have settle: "wp (do {
      w \<leftarrow> waitVolumeAchieveStatus E v volumeArchivedStatus;
      State_Monad.return (case w of
         (_, Some err) \<Rightarrow> Return (0, Some err)
       | (settled, None) \<Rightarrow> checkDesiredState settled v g options)
    }) (modify_post v g ?t s) ?s2"
  proof (rule wp_mono [OF settle_wp [OF assms(1)]])
    fix r s3
    assume *: "ro ?s2 s3 \<and> resize_result v g ?t ?s2 r s3"
    then have "did (EvResize v ?t g ?x # c) s s3" using d2 by (auto simp: ro_did intro: did_ro_trans)
    with * cmds d2 show "modify_post v g ?t s r s3"
      unfolding modify_post_def by (blast intro: resize_result_later did_ext ro_ext)
  qed
  have err: "modify_post v g ?t s (Return (0, ie_err e)) ?s2" if "?x = Inl e" for e
  proof -
    have "ie_err e \<noteq> None" using loaded that unfolding errors_loaded_def by blast
    with d2 cmds show ?thesis unfolding modify_post_def
      by (auto simp: resize_result_error)
  qed
  show ?thesis
    using settle err by (auto simp: resize_and_check_def split: sum.splits)
qed

lemma GetVolumeTypeById_wp:
  assumes "errors_loaded E"
  shows "wp (GetVolumeTypeById E t) (\<lambda>r s'. ro s s' \<and> (\<forall>e. r = Inl e \<longrightarrow> ie_err e \<noteq> None)) s"
  unfolding GetVolumeTypeById_def wp_bind
proof (rule wp_mono [OF projectClient_wp], goal_cases)
  case (1 c s1)
  have "ro s (s1\<lparr>cs_hist := EvGetType t x # cs_hist s1\<rparr>)" for x
    using 1 by (simp add: ro_then_call)
  with 1 assms show ?case
    by (auto simp: unresolved_def errors_loaded_def split: sum.splits)
qed

lemma zone_lookups_wp:
  assumes "errors_loaded E" and "\<forall>e. sdkErr = Some e \<longrightarrow> ie_err e \<noteq> None"
  shows "wp (zone_lookups E ts (zs, sdkErr, g))
    (\<lambda>(_, err, _) s'. ro s s' \<and> (\<forall>e. err = Some e \<longrightarrow> ie_err e \<noteq> None)) s"
  using assms(2)
proof (induction ts arbitrary: zs sdkErr g s)
  case Nil
  then show ?case by simp
next
  case (Cons t ts)
  show ?case
    unfolding zone_lookups.simps wp_bind
  proof (rule wp_mono [OF GetVolumeTypeById_wp [OF assms(1)]], goal_cases)
    case (1 r s1)
    show ?case
    proof (cases r)
      case (Inl e)
      have "\<forall>x. Some e = Some x \<longrightarrow> ie_err x \<noteq> None" using 1 Inl by simp
      from wp_mono [OF Cons.IH [OF this]] 1 Inl show ?thesis
        by (fastforce intro: ro_trans wp_mono [OF Cons.IH])
    next
      case (Inr vt)
      show ?thesis
        unfolding Inr sum.case
        by (rule wp_mono [OF Cons.IH [OF Cons.prems]]) (use 1 in \<open>auto intro: ro_trans\<close>)
    qed
  qed
qed

lemma checkSameZone_wp:
  assumes "errors_loaded E"
  shows "wp (checkSameZone E a b) (\<lambda>r s'. ro s s' \<and> (\<forall>e. snd r = Some e \<longrightarrow> ie_err e \<noteq> None)) s"
proof (cases "a = b")
  case True
  then show ?thesis by (simp add: checkSameZone_def)
next
  case False
  define ts where "ts = (if e_swap E (cs_hist s) then [b, a] else [a, b])"
  have "wp (zone_lookups E ts ({}, None, None))
      (\<lambda>(_, err, _) s'. ro s s' \<and> (\<forall>e. err = Some e \<longrightarrow> ie_err e \<noteq> None)) s"
    by (rule zone_lookups_wp [OF assms]) simp
  then have "wp (zone_lookups E ts ({}, None, None)) (\<lambda>r s'. ro s s' \<and>
      (\<forall>e. snd (case r of (zoneSet, sdkErr, groupErr) \<Rightarrow>
          if groupErr \<noteq> None then (False, sdkErr)
          else if zoneSet = {} \<or> card zoneSet \<noteq> 1 then (False, None)
          else (True, None)) = Some e \<longrightarrow> ie_err e \<noteq> None)) s"
    by (rule wp_mono) (auto split: if_splits)
  with False show ?thesis
    unfolding checkSameZone_def by (simp only: if_False wp_bind wp_ask_env wp_return ts_def)
qed

lemma errors_loaded_migrate:
  "errors_loaded E \<Longrightarrow> api_Migrate E h v t = Some e \<Longrightarrow> ie_err e \<noteq> None"
  unfolding errors_loaded_def by blast

lemma migrateVolumeToType_loaded_wp:
  assumes "wait_ok E" and "errors_loaded E"
  shows "wp (migrateVolumeToType E vol v t)
    (\<lambda>r s'. (migrate_post v t s r s' \<or> r = None \<and> isMigratedToType (Some vol) t \<and> ro s s')
       \<and> (\<forall>e. r = Some e \<longrightarrow> ie_err e \<noteq> None)) s"
proof (rule wp_conj [OF migrateVolumeToType_wp [OF assms(1)]])
  have wait: "wp (waitVolumeMigrated E v t) (\<lambda>r s'. \<forall>e. r = Some e \<longrightarrow> ie_err e \<noteq> None) s1" for s1
    by (rule wp_mono [OF waitVolumeMigrated_wp [OF assms(1)]]) (auto split: option.splits)
  then have command: "wp (migrate_command E v t) (\<lambda>r s'. \<forall>e. r = Some e \<longrightarrow> ie_err e \<noteq> None) s1" for s1
    using errors_loaded_migrate [OF assms(2)]
    by (simp add: migrate_command_def split: option.split)
  show "wp (migrateVolumeToType E vol v t) (\<lambda>r s'. \<forall>e. r = Some e \<longrightarrow> ie_err e \<noteq> None) s"
    unfolding migrateVolumeToType_def wp_bind
    by (rule wp_mono [OF projectClient_wp])
      (auto simp: unresolved_def wait command simp del: not_None_eq split: sum.splits)
qed

lemma modify_volume_wp:
  assumes "wait_ok E" and "errors_loaded E" and d: "did [] s s1"
  shows "wp (modify_volume E vol v g options) (modify_post v g (mo_VolumeType options) s) s1"
  unfolding modify_volume_def wp_bind
proof (rule wp_mono [OF checkSameZone_wp [OF assms(2)]], goal_cases)
  case (1 z s2)
  let ?t = "mo_VolumeType options"
  let ?post = "modify_post v g ?t s"
  have d2: "did [] s s2" using d 1 by (auto simp: ro_did intro: did_ro_trans)
  have failed: "?post (Return (0, ie_err e)) s'" if "ie_err e \<noteq> None" and "did cmds s s'"
    and "modify_commands v g ?t cmds" for e s' cmds
    using that by (auto simp: modify_post_def resize_result_error)
  have resize: "wp (resize_and_check E v g options) ?post s'"
    if "did c s s'" and "c = [] \<or> (\<exists>y. c = [EvMigrate v ?t y])" for c s'
    using that by (intro resize_and_check_wp assms) auto
  obtain same err where z: "z = (same, err)" by (cases z)
  show ?case
  proof (cases err)
    case (Some e)
    with 1 z have "ie_err e \<noteq> None" by simp
    from failed [OF this d2] z Some show ?thesis by (simp add: modify_commands_def)
  next
    case None
    have migrated: "wp (case m of
          Some ierr \<Rightarrow> State_Monad.return (Return (0, ie_err ierr))
        | None \<Rightarrow> resize_and_check E v g options) ?post s3"
      if "migrate_post v ?t s2 m s3 \<or> m = None \<and> isMigratedToType (Some vol) ?t \<and> ro s2 s3"
        and "\<forall>e. m = Some e \<longrightarrow> ie_err e \<noteq> None" for m s3
    proof -
      have "did [] s2 s3 \<or> (\<exists>y. did [EvMigrate v ?t y] s2 s3)"
        using that(1) by (auto simp: migrate_post_def ro_did)
      then obtain c where c: "did c s s3" "c = [] \<or> (\<exists>y. c = [EvMigrate v ?t y])"
        using did_after_ro [OF d2] by blast
      then have "modify_commands v g ?t c" by (auto simp: modify_commands_def)
      then have "?post (Return (0, ie_err e)) s3" if "m = Some e" for e
        using that \<open>\<forall>e. m = Some e \<longrightarrow> ie_err e \<noteq> None\<close> c(1) by (intro failed) auto
      with resize [OF c] show ?thesis by (cases m) simp_all
    qed
    show ?thesis
      using None z resize [OF d2] migrated wp_mono [OF migrateVolumeToType_loaded_wp [OF assms(1,2)]]
      by auto
  qed
qed

section \<open>What ResizeOrModifyDisk does\<close>

text \<open>
  The commands go to a size \<open>g\<close> that is at least the request and at least the size the volume was
  read with, and to the requested type; a result without an error is a settled volume of the
  requested size and type.
\<close>

definition resize_plan :: "string \<Rightarrow> uint64 \<Rightarrow> string \<Rightarrow> cstate \<Rightarrow> cstate \<Rightarrow> bool" where
  "resize_plan v g0 t0 s s' \<longleftrightarrow>
     (\<exists>cmds g t. did cmds s s' \<and> modify_commands v g t cmds \<and> g0 \<le> g \<and> (t0 = '''' \<or> t = t0)
        \<and> (cmds \<noteq> [] \<longrightarrow> read_volume v (\<lambda>vol. vol_Size vol \<le> g) s s'))"

definition resize_post ::
    "string \<Rightarrow> uint64 \<Rightarrow> string \<Rightarrow> cstate \<Rightarrow> (int64 \<times> go_error option) go \<Rightarrow> cstate \<Rightarrow> bool" where
  "resize_post v g0 t0 s r s' \<longleftrightarrow> resize_plan v g0 t0 s s' \<and> resize_result v g0 t0 s r s'"

lemma RoundUpGiB_total: "\<exists>g. RoundUpGiB bytes = Return g"
  by (simp add: RoundUpGiB_def roundUpSize_def go_div_def GiB_def)

lemma resize_result_weaken:
  assumes "resize_result v g t s r s'" and "g0 \<le> g" and "t0 = '''' \<or> t = t0"
  shows "resize_result v g0 t0 s r s'"
  using assms unfolding resize_result_def read_volume_def settled_at_def
  by (metis order_trans)

lemma resize_post_error: "ro s s' \<Longrightarrow> resize_post v g0 t0 s (Return (n, Some e)) s'"
  unfolding resize_post_def resize_plan_def
  by (auto simp: resize_result_error ro_did modify_commands_def)

lemma validateModifyVolume_wp:
  assumes "wait_ok E"
  shows "wp (validateModifyVolume E vol v g options)
    (\<lambda>r s'. ro s s' \<and> r \<noteq> Panic \<and>
       (\<forall>needs n err. r = Return (needs, n, err) \<longrightarrow> err \<noteq> None \<or> \<not> needs \<longrightarrow>
          resize_result v g (mo_VolumeType options) s (Return (n, err)) s')) s"
proof (cases "needsVolumeModification vol g options")
  case True
  then show ?thesis by (simp add: validateModifyVolume_def)
next
  case False
  show ?thesis
    unfolding validateModifyVolume_def if_P [OF False] wp_bind wp_return
  proof (rule wp_mono [OF waitVolumeAchieveStatus_wp [OF assms]], goal_cases)
    case (1 r s1)
    obtain res err where r: "r = (res, err)" by (cases r)
    show ?case
    proof (cases err)
      case (Some e)
      with 1 r show ?thesis by (simp add: resize_result_error)
    next
      case None
      with 1 r obtain vol' where v: "res = Some vol'" "EvGet v (Inr vol') \<in> set (news s s1)"
        "vol_Status vol' \<in> volumeArchivedStatus" by auto
      then have "resize_result v g (mo_VolumeType options) s (checkDesiredState (Some vol') v g options) s1"
        by (intro checkDesiredState_result)
      with 1 r v None show ?thesis
        by (auto simp: resize_result_def split: go.splits)
    qed
  qed
qed

lemma getVolumeById_loaded_wp:
  assumes "errors_loaded E"
  shows "wp (getVolumeById E v)
    (\<lambda>r s'. read_answer v s r s' \<and> (\<forall>e. r = Inl e \<longrightarrow> ie_err e \<noteq> None)) s"
proof (rule wp_conj [OF getVolumeById_wp])
  have "\<forall>e. api_Get E h v = Inl e \<longrightarrow> ie_err e \<noteq> None" for h
    using assms unfolding errors_loaded_def by blast
  then show "wp (getVolumeById E v) (\<lambda>r s'. \<forall>e. r = Inl e \<longrightarrow> ie_err e \<noteq> None) s"
    unfolding getVolumeById_def wp_bind
    by (intro wp_mono [OF projectClient_wp])
      (auto simp: unresolved_def simp del: not_None_eq split: sum.splits)
qed

text \<open>From the volume that was read on.\<close>

lemma modify_read_volume_wp:
  assumes "wait_ok E" and "errors_loaded E" and ro2: "ro s s2"
    and seen: "read_volume v (\<lambda>vol. vol_Size vol \<le> g) s s2"
    and g: "g0 \<le> g" and t: "t0 = '''' \<or> mo_VolumeType opts = t0"
  shows "wp (do {
      w \<leftarrow> validateModifyVolume E vol v g opts;
      (case w of
         Panic \<Rightarrow> State_Monad.return Panic
       | Return (needsModification, volumeSize, err) \<Rightarrow>
           if err \<noteq> None \<or> \<not> needsModification
           then State_Monad.return (Return (volumeSize, err))
           else modify_volume E vol v g opts)
    }) (resize_post v g0 t0 s) s2"
  unfolding wp_bind
proof (rule wp_mono [OF validateModifyVolume_wp [OF assms(1)]], goal_cases)
  case (1 w s3)
  let ?post = "resize_post v g0 t0 s"
  have ro3: "ro s s3" using 1 ro2 by (blast intro: ro_trans)
  have exts: "ext s s2" "ext s2 s3" using 1 ro2 by (auto dest: ro_ext)
  have settled: "?post (Return (n, err)) s3"
    if "resize_result v g (mo_VolumeType opts) s2 (Return (n, err)) s3" for n err
  proof -
    have "resize_result v g0 t0 s (Return (n, err)) s3"
      using resize_result_later [OF exts that] g t by (rule resize_result_weaken)
    moreover have "resize_plan v g0 t0 s s3"
      using ro3 unfolding resize_plan_def by (auto simp: ro_did modify_commands_def)
    ultimately show ?thesis by (simp add: resize_post_def)
  qed
  have both: "wp (modify_volume E vol v g opts)
      (\<lambda>r s4. modify_post v g (mo_VolumeType opts) s r s4 \<and> modify_post v g (mo_VolumeType opts) s3 r s4) s3"
    using ro3 by (intro wp_conj modify_volume_wp assms(1,2)) (simp_all add: ro_did)
  have modify: "wp (modify_volume E vol v g opts) ?post s3"
  proof (rule wp_mono [OF both], elim conjE)
    fix res s4
    assume m: "modify_post v g (mo_VolumeType opts) s res s4"
      and m3: "modify_post v g (mo_VolumeType opts) s3 res s4"
    from m obtain cmds where c: "did cmds s s4" "modify_commands v g (mo_VolumeType opts) cmds"
      by (auto simp: modify_post_def)
    have "resize_result v g0 t0 s res s4"
      using m g t by (auto simp: modify_post_def intro: resize_result_weaken)
    moreover have "ext s2 s4"
      using m3 exts(2) by (auto simp: modify_post_def intro: ext_trans dest: did_ext)
    then have "read_volume v (\<lambda>vol. vol_Size vol \<le> g) s s4"
      using exts(1) seen by (blast intro: read_volume_earlier)
    ultimately show "?post res s4"
      using c g t unfolding resize_post_def resize_plan_def by blast
  qed
  show ?case
    using 1 settled modify by (cases w) (auto split: if_splits prod.splits)
qed

lemma ResizeOrModifyDisk_wp:
  assumes "wait_ok E" and "errors_loaded E" and g0: "RoundUpGiB bytes = Return g0"
  shows "wp (ResizeOrModifyDisk E v bytes options) (resize_post v g0 (mo_VolumeType options) s) s"
  unfolding ResizeOrModifyDisk_def wp_bind
proof (rule wp_mono [OF projectClient_wp], goal_cases)
  case (1 c s1)
  let ?t0 = "mo_VolumeType options"
  let ?post = "resize_post v g0 ?t0 s"
  have ro1: "ro s s1" using 1 by simp
  show ?case
  proof (cases c)
    case (Inl e)
    with 1 show ?thesis by (auto simp: unresolved_def resize_post_error)
  next
    case (Inr p)
    show ?thesis
      unfolding Inr sum.case g0 go.case wp_bind GetVolume_def
    proof (rule wp_mono [OF getVolumeById_loaded_wp [OF assms(2)]], goal_cases)
      case (1 r s2)
      then have ans: "read_answer v s1 r s2" by simp
      have ro2: "ro s s2" using ro1 read_answer_ro [OF ans] by (rule ro_trans)
      show ?case
      proof (cases r)
        case (Inl e)
        with 1 ro2 show ?thesis by (auto simp: resize_post_error)
      next
        case (Inr vol)
        define g where "g = (if g0 < vol_Size vol then vol_Size vol else g0)"
        have g: "g0 \<le> g" "vol_Size vol \<le> g" by (auto simp: g_def)
        have "EvGet v (Inr vol) \<in> set (news s1 s2)"
          using read_answer_news [OF ext_refl ans] Inr by simp
        then have "read_volume v (\<lambda>vol. vol_Size vol \<le> g) s s2"
          using g(2) ro1 ans by (intro read_volume_later [of s s1 s2])
            (auto simp: read_volume_def dest: ro_ext read_answer_ro)
        note rest = modify_read_volume_wp [OF assms(1,2) ro2 this g(1)]
        show ?thesis
          unfolding Inr sum.case Let_def g_def [symmetric]
          by (rule rest) simp
      qed
    qed
  qed
qed

section \<open>Properties\<close>

lemma sample_errors_loaded: "errors_loaded (sample_env att refusal)"
  by (simp add: errors_loaded_def sample_env_def sample_error_def)

text \<open>C30: \<open>ResizeOrModifyDisk\<close> never dereferences nil, issues at most one migrate followed by at most one
resize, never asks for less than the requested size or than the size it just read (a volume is never
shrunk), and reports a size without an error only when a read showed the volume settled, at least that
large and of the wanted type.\<close>

theorem ResizeOrModifyDisk_safe:
  assumes "wait_ok E" and "errors_loaded E" and "RoundUpGiB bytes = Return g0"
  shows "wp (ResizeOrModifyDisk E v bytes options) (\<lambda>r s'. r \<noteq> Panic \<and>
    (\<exists>cmds g t. did cmds s s' \<and> modify_commands v g t cmds \<and> g0 \<le> g \<and>
       (mo_VolumeType options = '''' \<or> t = mo_VolumeType options) \<and>
       (cmds \<noteq> [] \<longrightarrow> (\<exists>vol. EvGet v (Inr vol) \<in> set (news s s') \<and> vol_Size vol \<le> g))) \<and>
    (\<forall>n. r = Return (n, None) \<longrightarrow> (\<exists>vol. EvGet v (Inr vol) \<in> set (news s s') \<and>
       vol_Status vol \<in> volumeArchivedStatus \<and> g0 \<le> vol_Size vol \<and>
       (mo_VolumeType options = '''' \<or> EqualFold (vol_VolumeTypeID vol) (mo_VolumeType options)) \<and>
       n = vol_Size vol))) s"
  by (rule wp_mono [OF ResizeOrModifyDisk_wp [OF assms]])
    (simp add: resize_post_def resize_plan_def resize_result_def read_volume_def settled_at_def)

theorem ResizeOrModifyDisk_safe_witness:
  "wp (ResizeOrModifyDisk (sample_env True None) ''vol-1'' (GiBToBytes 30) \<lparr>mo_VolumeType = ''''\<rparr>)
     (\<lambda>r s'. r \<noteq> Panic) sample_cstate \<and>
   fst (run_state (ResizeOrModifyDisk (sample_env True None) ''vol-1'' (GiBToBytes 30)
     \<lparr>mo_VolumeType = ''''\<rparr>) sample_cstate) = Return (30, None)"
proof
  have "RoundUpGiB (GiBToBytes 30) = Return 30" by code_simp
  from ResizeOrModifyDisk_safe [OF sample_wait_ok sample_errors_loaded this]
  show "wp (ResizeOrModifyDisk (sample_env True None) ''vol-1'' (GiBToBytes 30) \<lparr>mo_VolumeType = ''''\<rparr>)
      (\<lambda>r s'. r \<noteq> Panic) sample_cstate" by (rule wp_mono) simp
  show "fst (run_state (ResizeOrModifyDisk (sample_env True None) ''vol-1'' (GiBToBytes 30)
      \<lparr>mo_VolumeType = ''''\<rparr>) sample_cstate) = Return (30, None)" by code_simp
qed

text \<open>\<open>ExpandVolume\<close> reaches the size it is asked for: without an error a read showed the volume
settled at that size or above, and the commands ask for at least that size. The detour through bytes
and the second rounding lose nothing below \<open>2 ^ 33\<close> GiB.\<close>

lemma ExpandVolume_wp:
  assumes "wait_ok E" and "errors_loaded E" and "0 \<le> sint n" and "sint n < 2 ^ 33"
  shows "wp (ExpandVolume E v t n) (\<lambda>r s'. r \<noteq> Panic \<and>
    (\<exists>cmds g t. did cmds s s' \<and> modify_commands v g t cmds \<and> n \<le> g) \<and>
    (r = Return None \<longrightarrow> (\<exists>vol. EvGet v (Inr vol) \<in> set (news s s') \<and>
       vol_Status vol \<in> volumeArchivedStatus \<and> n \<le> vol_Size vol))) s"
proof -
  have "RoundUpGiB (GiBToBytes n) = Return n" using assms(3,4) by (rule RoundUpGiB_GiBToBytes)
  from ResizeOrModifyDisk_wp [OF assms(1,2) this] show ?thesis
    unfolding ExpandVolume_def wp_bind wp_return
    by (rule wp_mono)
      (fastforce simp: resize_post_def resize_plan_def resize_result_def read_volume_def
        settled_at_def split: go.splits)
qed

end
