(* ===== verification/CloudCatalog.thy ===== *)
theory CloudCatalog
  imports CloudCore GoStrings
begin

text \<open>
  Snapshots, volume types and zones (\<^verbatim>\<open>pkg/cloud/cloud.go\<close>, with \<open>waitSnapshotActive\<close> of
  \<^verbatim>\<open>cloud_private.go\<close>). The page walk of the snapshot lookup is a recursion on the pages left
  of the \<open>snapshotListMaxPages\<close> it may ask for. A nil snapshot with a nil error makes the caller
  dereference nil, which is \<open>Panic\<close>.
\<close>

section \<open>cloud.go: snapshots\<close>

definition snapshot_matches :: "string \<Rightarrow> string \<Rightarrow> snapshot \<Rightarrow> bool" where
  "snapshot_matches pvolID psnapshotName snap \<longleftrightarrow>
     snap_VolumeId snap = pvolID \<and> snap_Name snap = psnapshotName"

fun snapshot_walk ::
    "env \<Rightarrow> string \<Rightarrow> string \<Rightarrow> nat \<Rightarrow> nat \<Rightarrow> (cstate, snapshot option \<times> go_error option) state" where
  "snapshot_walk E pvolID psnapshotName page 0 =
     State_Monad.return (None, Some ErrSnapshotNotFound)"
| "snapshot_walk E pvolID psnapshotName page (Suc left) = do {
     ctx \<leftarrow> ask_env (e_ctx E);
     (case ctx of
        Some err \<Rightarrow> State_Monad.return (None, Some err)
      | None \<Rightarrow> do {
          r \<leftarrow> api_call (\<lambda>h. api_ListSnapshots E h (int page) (int snapshotListPageSize) pvolID)
                (EvListSnapshots (int page) (int snapshotListPageSize) pvolID);
          (case r of
             Inl err \<Rightarrow> State_Monad.return (None, ie_err err)
           | Inr None \<Rightarrow> State_Monad.return (None, Some ErrSnapshotNotFound)
           | Inr (Some res) \<Rightarrow>
               (case List.find (snapshot_matches pvolID psnapshotName) (sp_Items res) of
                  Some snap \<Rightarrow> State_Monad.return (Some snap, None)
                | None \<Rightarrow>
                    if 0 < sp_TotalPages res then
                      (if sp_TotalPages res \<le> int page
                       then State_Monad.return (None, Some ErrSnapshotNotFound)
                       else snapshot_walk E pvolID psnapshotName (page + 1) left)
                    else if length (sp_Items res) < snapshotListPageSize
                    then State_Monad.return (None, Some ErrSnapshotNotFound)
                    else snapshot_walk E pvolID psnapshotName (page + 1) left))
        })
   }"

definition GetVolumeSnapshotByName ::
    "env \<Rightarrow> string \<Rightarrow> string \<Rightarrow> (cstate, snapshot option \<times> go_error option) state" where
  "GetVolumeSnapshotByName E pvolID psnapshotName = do {
     c \<leftarrow> projectClient E;
     (case c of
        Inl ierr \<Rightarrow> State_Monad.return (None, ie_err ierr)
      | Inr _ \<Rightarrow> snapshot_walk E pvolID psnapshotName 1 snapshotListMaxPages)
   }"

text \<open>The closure \<open>waitSnapshotActive\<close> polls; the flag says that it dereferenced nil.\<close>

definition snapshot_condition :: "env \<Rightarrow> string \<Rightarrow> string \<Rightarrow> (bool \<times> cstate) poll_cond" where
  "snapshot_condition E pvolID psnapshotName = (\<lambda>(panicked, s).
     (case run_state (GetVolumeSnapshotByName E pvolID psnapshotName) s of
        ((_, Some err), s') \<Rightarrow> ((False, Some err), (panicked, s'))
      | ((None, None), s') \<Rightarrow> ((True, None), (True, s'))
      | ((Some snap, None), s') \<Rightarrow>
          ((snap_Status snap = SnapshotActiveStatus, None), (panicked, s'))))"

definition waitSnapshotActive :: "env \<Rightarrow> string \<Rightarrow> string \<Rightarrow> (cstate, go_error option go) state" where
  "waitSnapshotActive E pvolID psnapshotName = st (\<lambda>s.
     (case e_wait_snapshot E snapshotOperationBackoff (snapshot_condition E pvolID psnapshotName)
             (False, s) of
        (err, (panicked, s')) \<Rightarrow> (if panicked then Panic else Return err, s')))"

definition CreateSnapshotFromVolume ::
    "env \<Rightarrow> string \<Rightarrow> string \<Rightarrow> string \<Rightarrow> (cstate, (snapshot option \<times> go_error option) go) state" where
  "CreateSnapshotFromVolume E pclusterId pvolId psnapshotName = do {
     c \<leftarrow> projectClient E;
     (case c of
        Inl ierr \<Rightarrow> State_Monad.return (Return (None, ie_err ierr))
      | Inr _ \<Rightarrow> do {
          r \<leftarrow> api_call (\<lambda>h. api_CreateSnapshot E h psnapshotName pvolId) (EvCreateSnapshot psnapshotName pvolId);
          (case r of
             Inl sdkErr \<Rightarrow> State_Monad.return (Return (None, ie_err sdkErr))
           | Inr snapshot \<Rightarrow> do {
               w \<leftarrow> waitSnapshotActive E pvolId (snap_Name snapshot);
               State_Monad.return (case w of Panic \<Rightarrow> Panic | Return err \<Rightarrow> Return (Some snapshot, err))
             })
        })
   }"

definition DeleteSnapshot :: "env \<Rightarrow> string \<Rightarrow> (cstate, go_error option) state" where
  "DeleteSnapshot E psnapshotID = do {
     c \<leftarrow> projectClient E;
     (case c of
        Inl ierr \<Rightarrow> State_Monad.return (ie_err ierr)
      | Inr _ \<Rightarrow> do {
          r \<leftarrow> api_call (\<lambda>h. api_DeleteSnapshot E h psnapshotID) (EvDeleteSnapshot psnapshotID);
          State_Monad.return (case r of
             None \<Rightarrow> None
           | Some sdkErr \<Rightarrow> if \<not> IsError sdkErr EcVServerSnapshotNotFound then ie_err sdkErr else None)
        })
   }"

definition ListSnapshots ::
    "env \<Rightarrow> string \<Rightarrow> int \<Rightarrow> int \<Rightarrow> (cstate, ierror + snapshot_page option) state" where
  "ListSnapshots E pvolID ppage ppageSize = do {
     c \<leftarrow> projectClient E;
     (case c of
        Inl ierr \<Rightarrow> State_Monad.return (Inl ierr)
      | Inr _ \<Rightarrow> api_call (\<lambda>h. api_ListSnapshots E h ppage ppageSize pvolID)
                 (EvListSnapshots ppage ppageSize pvolID))
   }"

section \<open>cloud.go: volume types and zones\<close>

definition GetDefaultVolumeType :: "env \<Rightarrow> (cstate, ierror + volume_type) state" where
  "GetDefaultVolumeType E = do {
     c \<leftarrow> projectClient E;
     (case c of
        Inl ierr \<Rightarrow> State_Monad.return (Inl ierr)
      | Inr _ \<Rightarrow> api_call (api_DefaultType E) EvDefaultType)
   }"

text \<open>The first zone entry with the name, nil entries skipped.\<close>

fun find_named :: "string \<Rightarrow> volume_type option list \<Rightarrow> volume_type option" where
  "find_named n [] = None"
| "find_named n (None # vts) = find_named n vts"
| "find_named n (Some vt # vts) = (if vt_Name vt = n then Some vt else find_named n vts)"

definition lookupVolumeTypeId ::
    "env \<Rightarrow> string \<Rightarrow> string \<Rightarrow> string \<Rightarrow> string \<Rightarrow> (cstate, ierror + string) state" where
  "lookupVolumeTypeId E zoneId volumeName volTypeName iopsName = do {
     c \<leftarrow> projectClient E;
     (case c of
        Inl ierr \<Rightarrow> State_Monad.return (Inl ierr)
      | Inr _ \<Rightarrow> do {
          res \<leftarrow> api_call (\<lambda>h. api_TypeZones E h zoneId) (EvTypeZones zoneId);
          (case res of
             Inl sdkErr \<Rightarrow> State_Monad.return (Inl sdkErr)
           | Inr vtZones \<Rightarrow>
               (case find_named volTypeName vtZones of
                  None \<Rightarrow> State_Monad.return (Inr volumeName)
                | Some vtZone \<Rightarrow> do {
                    listRes \<leftarrow> api_call (\<lambda>h. api_ListTypes E h (vt_Id vtZone)) (EvListTypes (vt_Id vtZone));
                    State_Monad.return (case listRes of
                       Inl sdkErr \<Rightarrow> Inl sdkErr
                     | Inr vts \<Rightarrow>
                         (case find_named iopsName vts of
                            Some vt \<Rightarrow> Inr (vt_Id vt)
                          | None \<Rightarrow> Inr volumeName))
                  }))
        })
   }"

definition types_entry :: "string \<Rightarrow> string metaCache \<Rightarrow> cstate \<Rightarrow> cstate" where
  "types_entry key c s =
     s\<lparr>cs_types := (cs_types s)\<lparr>kc_entries := (kc_entries (cs_types s))(key \<mapsto> c)\<rparr>\<rparr>"

definition GetVolumeTypeIdByName :: "env \<Rightarrow> string \<Rightarrow> string \<Rightarrow> (cstate, ierror + string) state" where
  "GetVolumeTypeIdByName E zoneId volumeName =
     (let parts = SplitOn CHR ''-'' volumeName in
      if length parts \<noteq> 2 then State_Monad.return (Inr volumeName)
      else
        let volTypeName = ToUpper (parts ! 0); iopsName = TrimPrefix (parts ! 1) ''iops'';
            key = zoneId @ ''/'' @ volumeName
        in cached_get E (\<lambda>s. keyed_entry key (cs_types s)) (types_entry key)
             (lookupVolumeTypeId E zoneId volumeName volTypeName iopsName))"

definition load_zones :: "env \<Rightarrow> (cstate, ierror + zone list) state" where
  "load_zones E = do {
     c \<leftarrow> projectClient E;
     (case c of
        Inl ierr \<Rightarrow> State_Monad.return (Inl ierr)
      | Inr _ \<Rightarrow> api_call (api_ListZones E) EvListZones)
   }"

definition GetListZones :: "env \<Rightarrow> (cstate, ierror + zone list) state" where
  "GetListZones E = cached_get E cs_zones (\<lambda>c s. s\<lparr>cs_zones := c\<rparr>) (load_zones E)"

section \<open>The snapshot walk asks for at most fifty pages\<close>

fun is_snapshot_page :: "event \<Rightarrow> bool" where
  "is_snapshot_page (EvListSnapshots p z v r) = True"
| "is_snapshot_page _ = False"

text \<open>The pages asked for, first page first.\<close>

fun snapshot_pages :: "history \<Rightarrow> int list" where
  "snapshot_pages [] = []"
| "snapshot_pages (EvListSnapshots p z v r # h) = snapshot_pages h @ [p]"
| "snapshot_pages (_ # h) = snapshot_pages h"

lemma snapshot_pages_append: "snapshot_pages (h1 @ h2) = snapshot_pages h2 @ snapshot_pages h1"
  by (induction h1 rule: snapshot_pages.induct) simp_all

text \<open>The walk from a page on asks for consecutive pages, at most as many as are left, and only reads.\<close>

definition walk_post :: "nat \<Rightarrow> nat \<Rightarrow> cstate \<Rightarrow> cstate \<Rightarrow> bool" where
  "walk_post page left s s' \<longleftrightarrow> ro s s' \<and>
     (\<exists>k\<le>left. snapshot_pages (news s s') = map int [page ..< page + k])"

lemma walk_post_refl: "walk_post page left s s"
  unfolding walk_post_def by (auto intro: exI [of _ 0])

lemma walk_post_step:
  fixes s :: cstate
  assumes "walk_post (page + 1) left (s\<lparr>cs_hist := EvListSnapshots (int page) z v r # cs_hist s\<rparr>) s'"
  shows "walk_post page (Suc left) s s'"
proof -
  let ?s1 = "s\<lparr>cs_hist := EvListSnapshots (int page) z v r # cs_hist s\<rparr>"
  have ro1: "ro s ?s1" by simp
  from assms obtain k where k: "k \<le> left" "ro ?s1 s'"
    "snapshot_pages (news ?s1 s') = map int [page + 1 ..< page + 1 + k]"
    by (auto simp: walk_post_def)
  have "news s s' = news ?s1 s' @ news s ?s1"
    using ro_ext [OF ro1] ro_ext [OF k(2)] by (rule news_trans)
  then have "snapshot_pages (news s s') = int page # map int [page + 1 ..< page + 1 + k]"
    using k(3) by (simp add: snapshot_pages_append)
  also have "\<dots> = map int [page ..< page + Suc k]"
    by (simp add: upt_conv_Cons del: upt_Suc)
  finally show ?thesis
    using k(1) ro_trans [OF ro1 k(2)] unfolding walk_post_def by (auto intro: exI [of _ "Suc k"])
qed

lemma snapshot_walk_wp:
  "wp (snapshot_walk E v n page left) (\<lambda>r s'. walk_post page left s s') s"
proof (induction left arbitrary: page s)
  case 0
  then show ?case by (simp add: walk_post_refl)
next
  case (Suc left)
  let ?r = "api_ListSnapshots E (cs_hist s) (int page) (int snapshotListPageSize) v"
  let ?s1 = "s\<lparr>cs_hist := EvListSnapshots (int page) (int snapshotListPageSize) v ?r # cs_hist s\<rparr>"
  have stop: "walk_post page (Suc left) s ?s1"
    by (rule walk_post_step [OF walk_post_refl])
  have rest: "wp (snapshot_walk E v n (page + 1) left) (\<lambda>r s'. walk_post page (Suc left) s s') ?s1"
    by (rule wp_mono [OF Suc.IH]) (rule walk_post_step)
  show ?case
    using stop rest walk_post_refl [of page "Suc left" s]
    by (auto split: option.splits sum.splits)
qed

section \<open>The snapshot walk finds what a stable server lists\<close>

text \<open>
  A server whose snapshot list \<open>L\<close> does not change during the walk and that hands it out in pages of
  \<open>k\<close> entries. It either reports the number of pages truthfully, or reports none and then uses the
  page size it was asked for.
\<close>

definition page_of :: "nat \<Rightarrow> nat \<Rightarrow> 'a list \<Rightarrow> 'a list" where
  "page_of k p L = take k (drop ((p - 1) * k) L)"

definition stable_server :: "env \<Rightarrow> string \<Rightarrow> nat \<Rightarrow> snapshot list \<Rightarrow> bool" where
  "stable_server E v k L \<longleftrightarrow> 0 < k \<and> length L \<le> k * snapshotListMaxPages \<and>
     (\<forall>h. e_ctx E h = None) \<and>
     (\<forall>h p. 1 \<le> p \<longrightarrow> (\<exists>res.
        api_ListSnapshots E h (int p) (int snapshotListPageSize) v = Inr (Some res)
        \<and> sp_Items res = page_of k p L
        \<and> (sp_TotalPages res = int ((length L + k - 1) div k) \<and> L \<noteq> []
           \<or> sp_TotalPages res \<le> 0 \<and> k = snapshotListPageSize)))"

definition lookup_answer :: "snapshot option \<Rightarrow> snapshot option \<times> go_error option" where
  "lookup_answer r = (case r of Some snap \<Rightarrow> (Some snap, None) | None \<Rightarrow> (None, Some ErrSnapshotNotFound))"

lemma find_append: "List.find P (xs @ ys) = (case List.find P xs of Some x \<Rightarrow> Some x | None \<Rightarrow> List.find P ys)"
  by (induction xs) auto

lemma drop_page: "0 < p \<Longrightarrow> drop ((p - 1) * k) L = page_of k p L @ drop (p * k) L"
proof -
  assume "0 < p"
  then have "p * k = k + (p - 1) * k" by (cases p) simp_all
  then show ?thesis unfolding page_of_def
    by (metis append_take_drop_id drop_drop)
qed

lemma pages_le_iff: "0 < k \<Longrightarrow> (n + k - 1) div k \<le> p \<longleftrightarrow> n \<le> p * k" for n k p :: nat
proof -
  assume k: "0 < k"
  have "(n + k - 1) div k \<le> p \<longleftrightarrow> n + k - 1 < (p + 1) * k"
    using k by (simp add: div_less_iff_less_mult less_Suc_eq_le [symmetric])
  also have "\<dots> \<longleftrightarrow> n \<le> p * k" using k by (auto simp: algebra_simps)
  finally show ?thesis .
qed

lemma snapshot_walk_finds:
  assumes server: "stable_server E v k L"
  shows "1 \<le> page \<Longrightarrow> page + left = Suc snapshotListMaxPages \<Longrightarrow>
    wp (snapshot_walk E v n page left)
      (\<lambda>r s'. r = lookup_answer (List.find (snapshot_matches v n) (drop ((page - 1) * k) L))) s"
proof (induction left arbitrary: page s)
  case 0
  have "length L \<le> k * snapshotListMaxPages" using server by (simp add: stable_server_def)
  with 0 have "drop ((page - 1) * k) L = []" by (simp add: mult.commute)
  then show ?case by (simp add: lookup_answer_def)
next
  case (Suc left page s)
  let ?r = "api_ListSnapshots E (cs_hist s) (int page) (int snapshotListPageSize) v"
  let ?s1 = "s\<lparr>cs_hist := EvListSnapshots (int page) (int snapshotListPageSize) v ?r # cs_hist s\<rparr>"
  let ?L = "drop ((page - 1) * k) L"
  let ?f = "List.find (snapshot_matches v n)"
  have k: "0 < k" and ctx: "e_ctx E (cs_hist s) = None"
    using server by (auto simp: stable_server_def)
  obtain res where res: "?r = Inr (Some res)" "sp_Items res = page_of k page L"
    "sp_TotalPages res = int ((length L + k - 1) div k) \<and> L \<noteq> []
      \<or> sp_TotalPages res \<le> 0 \<and> k = snapshotListPageSize"
    using server Suc.prems(1) unfolding stable_server_def by blast
  have split: "?L = page_of k page L @ drop (page * k) L"
    using Suc.prems(1) by (intro drop_page) simp
  have rest: "wp (snapshot_walk E v n (page + 1) left)
      (\<lambda>r s'. r = lookup_answer (?f (drop (page * k) L))) ?s1"
    using Suc.IH [of "page + 1" ?s1] Suc.prems by simp
  have last: "drop (page * k) L = []" if "\<not> (0 < sp_TotalPages res) \<longrightarrow> length (sp_Items res) < snapshotListPageSize"
    and "0 < sp_TotalPages res \<longrightarrow> sp_TotalPages res \<le> int page"
  proof (cases "0 < sp_TotalPages res")
    case True
    with res(3) that(2) have "(length L + k - 1) div k \<le> page" by auto
    then show ?thesis using pages_le_iff [OF k] by (simp add: mult.commute)
  next
    case False
    have "0 < (length L + k - 1) div k" if "L \<noteq> []"
      using that k by (cases L) (simp_all add: div_greater_zero_iff)
    with False that(1) res(2,3) have "length (page_of k page L) < k" by auto
    then have "length L - (page - 1) * k < k" by (simp add: page_of_def)
    then have "length L \<le> page * k" using Suc.prems(1) by (cases page) auto
    then show ?thesis by simp
  qed
  have step: "wp (snapshot_walk E v n page (Suc left)) Q s \<longleftrightarrow>
      wp (case ?f (page_of k page L) of
            Some snap \<Rightarrow> State_Monad.return (Some snap, None)
          | None \<Rightarrow>
              if 0 < sp_TotalPages res then
                (if sp_TotalPages res \<le> int page then State_Monad.return (None, Some ErrSnapshotNotFound)
                 else snapshot_walk E v n (page + 1) left)
              else if length (sp_Items res) < snapshotListPageSize
              then State_Monad.return (None, Some ErrSnapshotNotFound)
              else snapshot_walk E v n (page + 1) left) Q ?s1" for Q
    unfolding snapshot_walk.simps wp_bind wp_ask_env ctx option.case wp_api_call
    by (simp only: res(1,2) sum.case option.case)
  show ?case
  proof (cases "?f (page_of k page L)")
    case (Some snap)
    then have "?f ?L = Some snap" by (subst split) (simp add: find_append)
    then show ?thesis
      unfolding step Some option.case by (simp add: lookup_answer_def)
  next
    case None
    then have found: "?f ?L = ?f (drop (page * k) L)" by (subst split) (simp add: find_append)
    show ?thesis
      unfolding step found None option.case
      using rest last by (auto simp: lookup_answer_def)
  qed
qed

section \<open>Properties\<close>

text \<open>C20: The snapshot lookup is bounded: whatever the server answers, it asks for at most fifty pages, each
once and in order from the first, and issues no command.\<close>

theorem snapshot_lookup_bounded:
  "wp (snapshot_walk E v n 1 snapshotListMaxPages) (\<lambda>r s'. did [] s s' \<and>
     (\<exists>k \<le> 50. snapshot_pages (news s s') = map int [1..<Suc k])) s"
  by (rule wp_mono [OF snapshot_walk_wp])
    (auto simp: walk_post_def ro_def snapshotListMaxPages_def)

text \<open>C39: On a server whose snapshot list does not change and fits the pages, the lookup by name is complete
and exact: it returns the first snapshot of the volume with that name, and \<open>ErrSnapshotNotFound\<close> only
when there is none.\<close>

theorem snapshot_lookup_complete:
  assumes "stable_server E v k L"
  shows "wp (snapshot_walk E v n 1 snapshotListMaxPages) (\<lambda>r s'.
     r = (case List.find (snapshot_matches v n) L of
            Some snap \<Rightarrow> (Some snap, None) | None \<Rightarrow> (None, Some ErrSnapshotNotFound))) s"
  using snapshot_walk_finds [OF assms, of 1 snapshotListMaxPages n s]
  by (simp add: lookup_answer_def)

theorem snapshot_lookup_complete_witness:
  "wp (snapshot_walk (sample_env True None) ''vol-1'' ''snap-x'' 1 snapshotListMaxPages)
     (\<lambda>r s'. r = (None, Some ErrSnapshotNotFound)) sample_cstate"
proof -
  have "stable_server (sample_env True None) ''vol-1'' snapshotListPageSize []"
    by (simp add: stable_server_def sample_env_def page_of_def snapshotListPageSize_def)
  from snapshot_lookup_complete [OF this] show ?thesis by (rule wp_mono) simp
qed

end
