(* ===== verification/K8sClient.thy ===== *)
theory K8sClient
  imports SdkTypes
begin

text \<open>
  The Kubernetes client of \<^verbatim>\<open>pkg/k8s/k8s.go\<close> with its errors (\<^verbatim>\<open>pkg/cloud/errors/k8s.go\<close>)
  and the claim annotations of \<^verbatim>\<open>pkg/cloud/entity\<close>. The API server is an argument \<open>K\<close>: what a
  read answers may change from one read to the next, so it takes the number of reads so far. The
  state is that number and the events recorded. The text of an event is kept as the format the code
  uses with its arguments. \<open>EventContext\<close> gives an event reads of its own deadline, so they do not end
  with the caller's context: an event depends on the answers of the API server only.
\<close>

section \<open>Objects\<close>

record pvc =
  pvc_Namespace :: string
  pvc_Name :: string
  pvc_Annotations :: "string \<rightharpoonup> string"

record pv =
  pv_Name :: string
  pv_Handle :: "string option"
  pv_Claim :: "(string \<times> string) option"

text \<open>\<open>ReclaimPolicy\<close> is a pointer to a string of the API; \<open>GetReclaimPolicyAsString\<close> reads it.\<close>

record storage_class =
  sc_Name :: string
  sc_ReclaimPolicy :: "string option"

definition GetReclaimPolicyAsString :: "storage_class \<Rightarrow> string" where
  "GetReclaimPolicyAsString s =
     (case sc_ReclaimPolicy s of
        None \<Rightarrow> ''undefined''
      | Some policy \<Rightarrow>
          if policy = ''Recycle'' then ''recycle''
          else if policy = ''Delete'' then ''delete''
          else if policy = ''Retain'' then ''retain''
          else ''undefined'')"

definition encryptedKey :: string where
  "encryptedKey = ''bs.csi.vngcloud.vn/encrypted''"

definition volumeTypeKey :: string where
  "volumeTypeKey = ''bs.csi.vngcloud.vn/volume-type''"

text \<open>Indexing a Go map with an absent key gives the empty string.\<close>

definition go_index :: "(string \<rightharpoonup> string) \<Rightarrow> string \<Rightarrow> string" where
  "go_index m k = (case m k of Some v \<Rightarrow> v | None \<Rightarrow> '''')"

definition GetCsiEncryptedAnnotation :: "pvc \<Rightarrow> string" where
  "GetCsiEncryptedAnnotation s = go_index (pvc_Annotations s) encryptedKey"

definition GetCsiVolumeTypeAnnotation :: "pvc \<Rightarrow> string" where
  "GetCsiVolumeTypeAnnotation s = go_index (pvc_Annotations s) volumeTypeKey"

datatype event_type = Normal | Warning

text \<open>The texts the driver puts into events: one constructor per format of the code.\<close>

datatype message =
    Text string
  | VolumeCreated string string
  | DetachKeepsFailing string string string int
  | DetachSucceededAfter string string int
  | DeleteFailed string string
  | DeleteKeepsFailing string string int
  | DeleteSucceededAfter string int
  | AttachFailed string string string

datatype k8s_object = PvcObject string string | PvObject string

record k8s_event =
  ev_object :: k8s_object
  ev_type :: event_type
  ev_reason :: string
  ev_message :: message

record kube =
  k_reads :: nat
  k_events :: "k8s_event list"

record kenv =
  kube_merge :: merge_params
  kube_GetPvc :: "nat \<Rightarrow> string \<Rightarrow> string \<Rightarrow> go_error + pvc option"
  kube_GetPv :: "nat \<Rightarrow> string \<Rightarrow> go_error + pv option"
  kube_ListPv :: "nat \<Rightarrow> go_error + pv list"
  kube_GetSc :: "nat \<Rightarrow> string \<Rightarrow> go_error + storage_class option"

definition kube_read :: "(nat \<Rightarrow> 'r) \<Rightarrow> (kube, 'r) state" where
  "kube_read f = st (\<lambda>k. (f (k_reads k), k\<lparr>k_reads := Suc (k_reads k)\<rparr>))"

text \<open>\<open>EventRecorder.Event\<close>.\<close>

definition record_event :: "k8s_object \<Rightarrow> event_type \<Rightarrow> string \<Rightarrow> message \<Rightarrow> (kube, unit) state" where
  "record_event obj typ reason msg = st (\<lambda>k. ((), k\<lparr>k_events := k_events k @
     [\<lparr>ev_object = obj, ev_type = typ, ev_reason = reason, ev_message = msg\<rparr>]\<rparr>))"

section \<open>errors/k8s.go\<close>

definition ErrK8sPvcFailedToGet :: "merge_params \<Rightarrow> string \<Rightarrow> string \<Rightarrow> go_error \<Rightarrow> ierror" where
  "ErrK8sPvcFailedToGet merge pnamespace pname perr =
     \<lparr>ie_code = LsEcK8sPvcFailedToGet,
      ie_msg = ''Failed to get PVC '' @ pname @ '' in namespace '' @ pnamespace,
      ie_err = Some perr,
      ie_params = merge Map.empty [''namespace'' \<mapsto> ptext pnamespace, ''pvcName'' \<mapsto> ptext pname]\<rparr>"

definition ErrK8sPvcNotFound :: "merge_params \<Rightarrow> string \<Rightarrow> string \<Rightarrow> ierror" where
  "ErrK8sPvcNotFound merge pnamespace pname =
     \<lparr>ie_code = LsEcK8sPvcNotFound,
      ie_msg = ''PVC '' @ pname @ '' in namespace '' @ pnamespace @ '' not found'',
      ie_err = None,
      ie_params = merge Map.empty [''namespace'' \<mapsto> ptext pnamespace, ''pvcName'' \<mapsto> ptext pname]\<rparr>"

definition ErrK8sPvFailedToGet :: "merge_params \<Rightarrow> string \<Rightarrow> go_error \<Rightarrow> ierror" where
  "ErrK8sPvFailedToGet merge pname perr =
     \<lparr>ie_code = LsEcK8sPvFailedToGet, ie_msg = ''Failed to get PV '' @ pname, ie_err = Some perr,
      ie_params = merge Map.empty [''pvcName'' \<mapsto> ptext pname]\<rparr>"

definition ErrK8sPvNotFound :: "merge_params \<Rightarrow> string \<Rightarrow> ierror" where
  "ErrK8sPvNotFound merge pname =
     \<lparr>ie_code = LsEcK8sPvNotFound, ie_msg = ''PV '' @ pname @ '' not found'', ie_err = None,
      ie_params = merge Map.empty [''pvcName'' \<mapsto> ptext pname]\<rparr>"

definition ErrK8sStorageClassFailedToGet :: "merge_params \<Rightarrow> string \<Rightarrow> go_error \<Rightarrow> ierror" where
  "ErrK8sStorageClassFailedToGet merge pname perr =
     \<lparr>ie_code = LsEcK8sStorageClassFailedToGet, ie_msg = ''Failed to get StorageClass '' @ pname,
      ie_err = Some perr, ie_params = merge Map.empty [''storageClassName'' \<mapsto> ptext pname]\<rparr>"

definition ErrK8sStorageClassNotFound :: "merge_params \<Rightarrow> string \<Rightarrow> ierror" where
  "ErrK8sStorageClassNotFound merge pname =
     \<lparr>ie_code = LsEcK8sStorageClassNotFound, ie_msg = ''StorageClass '' @ pname @ '' not found'',
      ie_err = None, ie_params = merge Map.empty [''storageClassName'' \<mapsto> ptext pname]\<rparr>"

section \<open>k8s.go\<close>

definition GetPersistentVolumeClaimByName ::
    "kenv \<Rightarrow> string \<Rightarrow> string \<Rightarrow> (kube, ierror + pvc) state" where
  "GetPersistentVolumeClaimByName K pnamespace pname = do {
     r \<leftarrow> kube_read (\<lambda>n. kube_GetPvc K n pnamespace pname);
     State_Monad.return (case r of
        Inl err \<Rightarrow> Inl (ErrK8sPvcFailedToGet (kube_merge K) pnamespace pname err)
      | Inr None \<Rightarrow> Inl (ErrK8sPvcNotFound (kube_merge K) pnamespace pname)
      | Inr (Some claim) \<Rightarrow> Inr claim)
   }"

definition GetStorageClassByName :: "kenv \<Rightarrow> string \<Rightarrow> (kube, ierror + storage_class) state" where
  "GetStorageClassByName K pname = do {
     r \<leftarrow> kube_read (\<lambda>n. kube_GetSc K n pname);
     State_Monad.return (case r of
        Inl err \<Rightarrow> Inl (ErrK8sStorageClassFailedToGet (kube_merge K) pname err)
      | Inr None \<Rightarrow> Inl (ErrK8sStorageClassNotFound (kube_merge K) pname)
      | Inr (Some sc) \<Rightarrow> Inr sc)
   }"

definition GetPersistentVolume :: "kenv \<Rightarrow> string \<Rightarrow> (kube, ierror + pv) state" where
  "GetPersistentVolume K pname = do {
     r \<leftarrow> kube_read (\<lambda>n. kube_GetPv K n pname);
     State_Monad.return (case r of
        Inl err \<Rightarrow> Inl (ErrK8sPvFailedToGet (kube_merge K) pname err)
      | Inr None \<Rightarrow> Inl (ErrK8sPvNotFound (kube_merge K) pname)
      | Inr (Some vol) \<Rightarrow> Inr vol)
   }"

definition pvc_event :: "kenv \<Rightarrow> event_type \<Rightarrow> string \<Rightarrow> string \<Rightarrow> string \<Rightarrow> message \<Rightarrow> (kube, unit) state" where
  "pvc_event K typ pnamespace pname preason pmessage =
     (if pnamespace = '''' \<or> pname = '''' then State_Monad.return ()
      else do {
        r \<leftarrow> GetPersistentVolumeClaimByName K pnamespace pname;
        (case r of
           Inl _ \<Rightarrow> State_Monad.return ()
         | Inr claim \<Rightarrow>
             record_event (PvcObject (pvc_Namespace claim) (pvc_Name claim)) typ preason pmessage)
      })"

definition PersistentVolumeClaimEventWarning ::
    "kenv \<Rightarrow> string \<Rightarrow> string \<Rightarrow> string \<Rightarrow> message \<Rightarrow> (kube, unit) state" where
  "PersistentVolumeClaimEventWarning K = pvc_event K Warning"

definition PersistentVolumeClaimEventNormal ::
    "kenv \<Rightarrow> string \<Rightarrow> string \<Rightarrow> string \<Rightarrow> message \<Rightarrow> (kube, unit) state" where
  "PersistentVolumeClaimEventNormal K = pvc_event K Normal"

definition pv_event :: "kenv \<Rightarrow> event_type \<Rightarrow> string \<Rightarrow> string \<Rightarrow> message \<Rightarrow> (kube, unit) state" where
  "pv_event K typ pname preason pmessage =
     (if pname = '''' then State_Monad.return ()
      else do {
        r \<leftarrow> GetPersistentVolume K pname;
        (case r of
           Inl _ \<Rightarrow> State_Monad.return ()
         | Inr vol \<Rightarrow> record_event (PvObject (pv_Name vol)) typ preason pmessage)
      })"

definition PersistentVolumeEventWarning ::
    "kenv \<Rightarrow> string \<Rightarrow> string \<Rightarrow> message \<Rightarrow> (kube, unit) state" where
  "PersistentVolumeEventWarning K = pv_event K Warning"

definition PersistentVolumeEventNormal ::
    "kenv \<Rightarrow> string \<Rightarrow> string \<Rightarrow> message \<Rightarrow> (kube, unit) state" where
  "PersistentVolumeEventNormal K = pv_event K Normal"

fun find_handle :: "string \<Rightarrow> pv list \<Rightarrow> pv option" where
  "find_handle phandle [] = None"
| "find_handle phandle (v # vs) = (if pv_Handle v = Some phandle then Some v else find_handle phandle vs)"

definition FindPersistentVolumeByHandle :: "kenv \<Rightarrow> string \<Rightarrow> (kube, ierror + pv) state" where
  "FindPersistentVolumeByHandle K phandle =
     (if phandle = '''' then State_Monad.return (Inl (ErrK8sPvNotFound (kube_merge K) phandle))
      else do {
        r \<leftarrow> kube_read (kube_ListPv K);
        State_Monad.return (case r of
           Inl err \<Rightarrow> Inl (ErrK8sPvFailedToGet (kube_merge K) phandle err)
         | Inr pvs \<Rightarrow>
             (case find_handle phandle pvs of
                Some v \<Rightarrow> Inr v
              | None \<Rightarrow> Inl (ErrK8sPvNotFound (kube_merge K) phandle)))
      })"

definition volumeEvent :: "kenv \<Rightarrow> string \<Rightarrow> event_type \<Rightarrow> string \<Rightarrow> message \<Rightarrow> (kube, unit) state" where
  "volumeEvent K ppvName peventType preason pmessage =
     (if ppvName = '''' then State_Monad.return ()
      else do {
        r \<leftarrow> GetPersistentVolume K ppvName;
        (case r of
           Inl _ \<Rightarrow> State_Monad.return ()
         | Inr vol \<Rightarrow> do {
             _ \<leftarrow> record_event (PvObject (pv_Name vol)) peventType preason pmessage;
             (case pv_Claim vol of
                None \<Rightarrow> State_Monad.return ()
              | Some (ns, name) \<Rightarrow>
                  if name = '''' then State_Monad.return ()
                  else do {
                    c \<leftarrow> GetPersistentVolumeClaimByName K ns name;
                    (case c of
                       Inl _ \<Rightarrow> State_Monad.return ()
                     | Inr claim \<Rightarrow>
                         record_event (PvcObject (pvc_Namespace claim) (pvc_Name claim)) peventType
                           preason pmessage)
                  })
           })
      })"

definition VolumeEventWarning :: "kenv \<Rightarrow> string \<Rightarrow> string \<Rightarrow> message \<Rightarrow> (kube, unit) state" where
  "VolumeEventWarning K ppvName preason pmessage = volumeEvent K ppvName Warning preason pmessage"

definition VolumeEventNormal :: "kenv \<Rightarrow> string \<Rightarrow> string \<Rightarrow> message \<Rightarrow> (kube, unit) state" where
  "VolumeEventNormal K ppvName preason pmessage = volumeEvent K ppvName Normal preason pmessage"

section \<open>What an event call can do\<close>

text \<open>At most one event on the volume and one on its claim, all of one type, reason and text.\<close>

definition events_added :: "kube \<Rightarrow> kube \<Rightarrow> k8s_event list" where
  "events_added k k' = drop (length (k_events k)) (k_events k')"

definition only_events :: "nat \<Rightarrow> event_type \<Rightarrow> string \<Rightarrow> message \<Rightarrow> kube \<Rightarrow> kube \<Rightarrow> bool" where
  "only_events n typ reason msg k k' \<longleftrightarrow> (\<exists>evs. k_events k' = k_events k @ evs \<and> length evs \<le> n \<and>
     (\<forall>e\<in>set evs. ev_type e = typ \<and> ev_reason e = reason \<and> ev_message e = msg))"

lemma wp_kube_read [simp]: "wp (kube_read f) Q k = Q (f (k_reads k)) (k\<lparr>k_reads := Suc (k_reads k)\<rparr>)"
  by (simp add: kube_read_def)

lemma wp_record_event [simp]:
  "wp (record_event obj typ reason msg) Q k = Q () (k\<lparr>k_events := k_events k @
     [\<lparr>ev_object = obj, ev_type = typ, ev_reason = reason, ev_message = msg\<rparr>]\<rparr>)"
  by (simp add: record_event_def)

lemma pvc_event_wp: "wp (pvc_event K typ ns name reason msg) (\<lambda>_ k'. only_events 1 typ reason msg k k') k"
  by (auto simp: pvc_event_def GetPersistentVolumeClaimByName_def only_events_def
      split: sum.splits option.splits)

lemma pv_event_wp: "wp (pv_event K typ name reason msg) (\<lambda>_ k'. only_events 1 typ reason msg k k') k"
  by (auto simp: pv_event_def GetPersistentVolume_def only_events_def split: sum.splits option.splits)

lemma volumeEvent_wp: "wp (volumeEvent K name typ reason msg) (\<lambda>_ k'. only_events 2 typ reason msg k k') k"
  by (auto simp: volumeEvent_def GetPersistentVolume_def GetPersistentVolumeClaimByName_def
      only_events_def split: sum.splits option.splits)

end
