(* ===== verification/CsiApi.thy ===== *)
theory CsiApi
  imports SdkTypes GoStrings
begin

text \<open>
  The CSI surface of the driver: its gRPC errors (\<^verbatim>\<open>pkg/driver/errors.go\<close>), the constants
  (\<^verbatim>\<open>constants.go\<close>), the requests as far as the handlers read them, and the validation of
  \<^verbatim>\<open>validation.go\<close>. An error is the constructor that builds it with its arguments; \<open>grpc_code\<close>
  is the code it carries. \<open>Raw\<close> is a Go error returned without a gRPC status.
\<close>

section \<open>errors.go\<close>

datatype csi_error =
    ErrVolumeNameNotProvided | ErrVolumeCapabilitiesNotProvided | ErrVolumeCapabilitiesNotSupported
  | ErrCapacityRangeNotProvided | ErrModifyMutableParam | ErrVolumeIDNotProvided | ErrNodeIdNotProvided
  | ErrStagingTargetPathNotProvided | ErrVolumeContentSourceNotSupported | ErrSnapshotIsNil
  | ErrSnapshotNameNotProvided | ErrSnapshotSourceVolumeNotProvided | ErrVolumeAttributesInvalid
  | ErrMountIsNil | ErrDevicePathNotProvided | ErrStagingTargetNotProvided | ErrTargetPathNotProvided
  | ErrVolumeCapabilityNotProvided | ErrVolumeCapabilityNotSupported | ErrVolumePathNotProvided
  | ErrInvalidFstype string
  | ErrCanNotParseRequestArguments string string
  | ErrInvalidFormatParameter string
  | ErrCanNotUseSpecifiedFstype string string
  | ErrRequestExceedLimit int64 int64
  | ErrWaitingForCreateSlot string
  | ErrVolumeIsCreating string
  | ErrOperationAlreadyExists string
  | ErrSnapshotIsDeleting string
  | ErrAttachVolume string string
  | ErrDetachVolume string string
  | ErrDetachVolumePaused string string
  | ErrFailedToGetDevicePath string string
  | ErrFailedToDeleteSnapshot string
  | ErrFailedToListSnapshot string
  | ErrDeleteVolumeHavingSnapshots string
  | ErrFailedToGetVolume string
  | ErrFailedToExpandVolume string int64
  | ErrFailedToModifyVolume string
  | ErrFailedToDeleteVolume string
  | ErrDeleteVolumePaused string
  | ErrFailedToListVolumeByName string
  | ErrFailedToValidateVolumeSize string csi_error
  | ErrVolumeSizeTooSmall string int64
  | ErrFailedToFindTargetPath string go_error
  | ErrFailedToCheckTargetPathExists string go_error
  | ErrCanNotCreateTargetDir string go_error
  | ErrFailedToCheckVolumeMounted go_error
  | ErrCanNotFormatAndMountVolume string string go_error
  | ErrDetermineVolumeResize string string go_error
  | ErrAttemptCreateResizeFs go_error
  | ErrCanNotResizeVolumeOnNode string string go_error
  | ErrFailedCheckTargetPathIsMountPoint string "go_error list"
  | ErrCanNotUnmountTarget string go_error
  | ErrFailedToCheckPathExists string go_error
  | ErrCanNotRemoveMountTarget string go_error
  | ErrCanNotCreateFile string go_error
  | ErrCheckDiskIsMounted string csi_error
  | ErrCanNotMountAtTarget string string go_error
  | ErrUnknownStatsOnPath string go_error
  | ErrDeterminedBlockDevice string go_error
  | ErrCanNotGetBlockCapacity string "go_error option"
  | ErrFailedToGetFsInfo string go_error
  | ErrNoSuchVolume string
  | ErrPathNotExists string
  | ErrNotImplemented string
  | StatusInvalidArgument string
  | StatusInternal string
  | Raw go_error

datatype grpc_code = InvalidArgument | OutOfRange | Aborted | Internal | FailedPrecondition | NotFound
  | Unimplemented | Unknown

fun grpc_code_of :: "csi_error \<Rightarrow> grpc_code" where
  "grpc_code_of (ErrRequestExceedLimit a b) = OutOfRange"
| "grpc_code_of (ErrWaitingForCreateSlot v) = Aborted"
| "grpc_code_of (ErrVolumeIsCreating v) = Aborted"
| "grpc_code_of (ErrOperationAlreadyExists v) = Aborted"
| "grpc_code_of (ErrSnapshotIsDeleting v) = Aborted"
| "grpc_code_of (ErrAttachVolume v n) = Internal"
| "grpc_code_of (ErrDetachVolume v n) = Internal"
| "grpc_code_of (ErrDetachVolumePaused v n) = Internal"
| "grpc_code_of (ErrFailedToGetDevicePath v n) = Internal"
| "grpc_code_of (ErrFailedToDeleteSnapshot x) = Internal"
| "grpc_code_of (ErrFailedToListSnapshot v) = Internal"
| "grpc_code_of (ErrDeleteVolumeHavingSnapshots v) = FailedPrecondition"
| "grpc_code_of (ErrFailedToGetVolume v) = Internal"
| "grpc_code_of (ErrFailedToExpandVolume v n) = Internal"
| "grpc_code_of (ErrFailedToModifyVolume v) = Internal"
| "grpc_code_of (ErrFailedToDeleteVolume v) = Internal"
| "grpc_code_of (ErrDeleteVolumePaused v) = Internal"
| "grpc_code_of (ErrFailedToListVolumeByName v) = Internal"
| "grpc_code_of (ErrFailedToValidateVolumeSize v e) = Internal"
| "grpc_code_of (ErrVolumeSizeTooSmall v n) = InvalidArgument"
| "grpc_code_of (ErrFailedToFindTargetPath p e) = Internal"
| "grpc_code_of (ErrFailedToCheckTargetPathExists p e) = Internal"
| "grpc_code_of (ErrCanNotCreateTargetDir p e) = Internal"
| "grpc_code_of (ErrFailedToCheckVolumeMounted e) = Internal"
| "grpc_code_of (ErrCanNotFormatAndMountVolume p q e) = Internal"
| "grpc_code_of (ErrDetermineVolumeResize v p e) = Internal"
| "grpc_code_of (ErrAttemptCreateResizeFs e) = Internal"
| "grpc_code_of (ErrCanNotResizeVolumeOnNode v p e) = Internal"
| "grpc_code_of (ErrFailedCheckTargetPathIsMountPoint p es) = Internal"
| "grpc_code_of (ErrCanNotUnmountTarget p e) = Internal"
| "grpc_code_of (ErrFailedToCheckPathExists p e) = Internal"
| "grpc_code_of (ErrCanNotRemoveMountTarget p e) = Internal"
| "grpc_code_of (ErrCanNotCreateFile p e) = Internal"
| "grpc_code_of (ErrCheckDiskIsMounted p c) = Internal"
| "grpc_code_of (ErrCanNotMountAtTarget p q e) = Internal"
| "grpc_code_of (ErrUnknownStatsOnPath p e) = Internal"
| "grpc_code_of (ErrDeterminedBlockDevice p e) = Internal"
| "grpc_code_of (ErrCanNotGetBlockCapacity p eo) = Internal"
| "grpc_code_of (ErrFailedToGetFsInfo p e) = Internal"
| "grpc_code_of (ErrNoSuchVolume v) = NotFound"
| "grpc_code_of (ErrPathNotExists p) = NotFound"
| "grpc_code_of (ErrNotImplemented f) = Unimplemented"
| "grpc_code_of (StatusInternal m) = Internal"
| "grpc_code_of (Raw e) = Unknown"
| "grpc_code_of _ = InvalidArgument"

text \<open>
  What a handler returns: a response, an error, both nil (Go code that returns \<open>ierr.GetError()\<close> of
  an error without one), or a panic.
\<close>

datatype 'r reply = Ok 'r | Fail csi_error | NilNil | Crashed

definition fail_with :: "go_error option \<Rightarrow> 'r reply" where
  "fail_with err = (case err of None \<Rightarrow> NilNil | Some e \<Rightarrow> Fail (Raw e))"

section \<open>constants.go\<close>

definition DriverName :: string where "DriverName = ''bs.csi.vngcloud.vn''"
definition WellKnownZoneTopologyKey :: string where
  "WellKnownZoneTopologyKey = ''topology.kubernetes.io/zone''"
definition ZoneTopologyKey :: string where "ZoneTopologyKey = ''topology.'' @ DriverName @ ''/zone''"
definition DefaultMaxConcurrentVolumeCreates :: nat where "DefaultMaxConcurrentVolumeCreates = 10"
definition DefaultModifyVolumeRequestHandlerTimeout :: int where
  "DefaultModifyVolumeRequestHandlerTimeout = 30 * Second"

definition FSTypeExt2 :: string where "FSTypeExt2 = ''ext2''"
definition FSTypeExt3 :: string where "FSTypeExt3 = ''ext3''"
definition FSTypeExt4 :: string where "FSTypeExt4 = ''ext4''"
definition FSTypeXfs :: string where "FSTypeXfs = ''xfs''"
definition FSTypeNtfs :: string where "FSTypeNtfs = ''ntfs''"
definition defaultFsType :: string where "defaultFsType = FSTypeExt4"
definition AgentNotReadyNodeTaintKey :: string where
  "AgentNotReadyNodeTaintKey = ''csi.vngcloud.vn/agent-not-ready''"
definition DefaultCSIEndpoint :: string where "DefaultCSIEndpoint = ''unix://tmp/csi.sock''"

definition VolumeTypeKey :: string where "VolumeTypeKey = ''type''"
definition EncryptedKey :: string where "EncryptedKey = ''encrypted''"
definition PVCNameKey :: string where "PVCNameKey = ''csi.storage.k8s.io/pvc/name''"
definition PVCNamespaceKey :: string where "PVCNamespaceKey = ''csi.storage.k8s.io/pvc/namespace''"
definition BlockSizeKey :: string where "BlockSizeKey = ''blocksize''"
definition InodeSizeKey :: string where "InodeSizeKey = ''inodesize''"
definition BytesPerInodeKey :: string where "BytesPerInodeKey = ''bytesperinode''"
definition NumberOfInodesKey :: string where "NumberOfInodesKey = ''numberofinodes''"
definition Ext4BigAllocKey :: string where "Ext4BigAllocKey = ''ext4bigalloc''"
definition Ext4ClusterSizeKey :: string where "Ext4ClusterSizeKey = ''ext4clustersize''"
definition IsPoc :: string where "IsPoc = ''ispoc''"
definition AnnotationModificationKeyVolumeType :: string where
  "AnnotationModificationKeyVolumeType = ''volume-type''"
definition DevicePathKey :: string where "DevicePathKey = ''devicePath''"
definition VolumeAttributePartition :: string where "VolumeAttributePartition = ''partition''"

lemmas key_defs = VolumeTypeKey_def EncryptedKey_def PVCNameKey_def PVCNamespaceKey_def BlockSizeKey_def
  InodeSizeKey_def BytesPerInodeKey_def NumberOfInodesKey_def Ext4BigAllocKey_def
  Ext4ClusterSizeKey_def IsPoc_def AnnotationModificationKeyVolumeType_def

lemmas fstype_defs = FSTypeExt2_def FSTypeExt3_def FSTypeExt4_def FSTypeXfs_def FSTypeNtfs_def

text \<open>The parameters a file system does not support; a missing type supports every parameter.\<close>

definition FileSystemConfigs :: "string \<rightharpoonup> string set" where
  "FileSystemConfigs =
     [FSTypeExt2 \<mapsto> {Ext4BigAllocKey, Ext4ClusterSizeKey},
      FSTypeExt3 \<mapsto> {Ext4BigAllocKey, Ext4ClusterSizeKey},
      FSTypeExt4 \<mapsto> {},
      FSTypeXfs \<mapsto> {BytesPerInodeKey, NumberOfInodesKey, Ext4BigAllocKey, Ext4ClusterSizeKey}]"

definition ValidFSTypes :: "string set" where
  "ValidFSTypes = {FSTypeExt2, FSTypeExt3, FSTypeExt4, FSTypeXfs, FSTypeNtfs}"

definition isParameterSupported :: "(string \<rightharpoonup> string set) \<Rightarrow> string \<Rightarrow> string \<Rightarrow> bool" where
  "isParameterSupported configs fsType paramName =
     (case configs fsType of None \<Rightarrow> True | Some notSupported \<Rightarrow> paramName \<notin> notSupported)"

section \<open>Capabilities\<close>

text \<open>
  Access modes by their name in the CSI specification, and the access type of a capability; a mount
  whose message is nil is \<open>MountOf None\<close>.
\<close>

datatype access_mode = SingleNodeWriter | MultiNodeMultiWriter | OtherAccessMode nat

record mount_volume =
  mv_FsType :: string
  mv_MountFlags :: "string list"

datatype access_type = Block | MountOf "mount_volume option" | NoAccessType

record capability =
  cap_mode :: access_mode
  cap_type :: access_type

definition isBlock :: "capability \<Rightarrow> bool" where
  "isBlock c \<longleftrightarrow> cap_type c = Block"

definition GetMount :: "capability \<Rightarrow> mount_volume option" where
  "GetMount c = (case cap_type c of MountOf m \<Rightarrow> m | _ \<Rightarrow> None)"

definition isValidCapability :: "capability \<Rightarrow> bool" where
  "isValidCapability c =
     (case cap_mode c of
        SingleNodeWriter \<Rightarrow> True
      | MultiNodeMultiWriter \<Rightarrow> if isBlock c then True else False
      | OtherAccessMode _ \<Rightarrow> False)"

fun isValidVolumeCapabilities :: "capability list \<Rightarrow> bool" where
  "isValidVolumeCapabilities [] = True"
| "isValidVolumeCapabilities (c # cs) =
     (if \<not> isValidCapability c then False else isValidVolumeCapabilities cs)"

fun isMultiAttach :: "capability list \<Rightarrow> bool" where
  "isMultiAttach [] = False"
| "isMultiAttach (c # cs) =
     (if cap_mode c = MultiNodeMultiWriter \<and> isBlock c then True else isMultiAttach cs)"

section \<open>Requests\<close>

text \<open>The parameters are a Go map that is ranged over: an association list in the order of the range.\<close>

record topology_requirement =
  top_Preferred :: "(string \<rightharpoonup> string) list"
  top_Requisite :: "(string \<rightharpoonup> string) list"

datatype content_source = SnapshotSource "string option" | VolumeSource

record create_volume_request =
  cvq_Name :: string
  cvq_Caps :: "capability list"
  cvq_RequiredBytes :: "int64 option"
  cvq_Parameters :: "(string \<times> string) list"
  cvq_Mutable :: "(string \<times> string) list"
  cvq_Topology :: "topology_requirement option"
  cvq_Source :: "content_source option"

record expand_request =
  exq_VolumeId :: string
  exq_Range :: "(int64 \<times> int64) option"

section \<open>validation.go\<close>

text \<open>A validation answers nil or an error; Go's \<open>len(x) < 0\<close> never holds.\<close>

definition validateCreateVolumeRequest :: "create_volume_request \<Rightarrow> csi_error option" where
  "validateCreateVolumeRequest preq =
     (if length (cvq_Name preq) < 1 then Some ErrVolumeNameNotProvided
      else if int (length (cvq_Caps preq)) < 0 then Some ErrVolumeCapabilitiesNotProvided
      else if \<not> isValidVolumeCapabilities (cvq_Caps preq) then Some ErrVolumeCapabilitiesNotSupported
      else None)"

definition validateDeleteVolumeRequest :: "string \<Rightarrow> csi_error option" where
  "validateDeleteVolumeRequest volumeId =
     (if length volumeId < 1 then Some ErrVolumeIDNotProvided else None)"

definition validateControllerPublishVolumeRequest ::
    "string \<Rightarrow> string \<Rightarrow> capability option \<Rightarrow> csi_error option" where
  "validateControllerPublishVolumeRequest volumeId nodeId volCap =
     (if length volumeId = 0 then Some ErrVolumeIDNotProvided
      else if length nodeId = 0 then Some ErrNodeIdNotProvided
      else (case volCap of
              None \<Rightarrow> Some ErrVolumeCapabilitiesNotProvided
            | Some c \<Rightarrow> if \<not> isValidCapability c then Some ErrVolumeCapabilitiesNotSupported else None))"

definition validateControllerUnpublishVolumeRequest :: "string \<Rightarrow> string \<Rightarrow> csi_error option" where
  "validateControllerUnpublishVolumeRequest volumeId nodeId =
     (if length volumeId < 1 then Some ErrVolumeIDNotProvided
      else if length nodeId < 1 then Some ErrNodeIdNotProvided
      else None)"

definition validateModifyVolumePropertiesRequest :: "string \<Rightarrow> csi_error option" where
  "validateModifyVolumePropertiesRequest name =
     (if name = '''' then Some ErrVolumeNameNotProvided else None)"

definition validateCreateSnapshotRequest :: "string \<Rightarrow> string \<Rightarrow> csi_error option" where
  "validateCreateSnapshotRequest name sourceVolumeId =
     (if length name = 0 then Some ErrSnapshotNameNotProvided
      else if length sourceVolumeId = 0 then Some ErrSnapshotSourceVolumeNotProvided
      else None)"

definition validateDeleteSnapshotRequest :: "string \<Rightarrow> csi_error option" where
  "validateDeleteSnapshotRequest snapshotId =
     (if length snapshotId = 0 then Some (StatusInvalidArgument ''Snapshot ID not provided'') else None)"

fun parseModifyVolumeParameters :: "(string \<times> string) list \<Rightarrow> string \<Rightarrow> string" where
  "parseModifyVolumeParameters [] volumeType = volumeType"
| "parseModifyVolumeParameters ((key, val) # ps) volumeType =
     (if key = AnnotationModificationKeyVolumeType then parseModifyVolumeParameters ps val
      else parseModifyVolumeParameters ps volumeType)"

text \<open>\<open>ParseInt\<close> in base 10 for 64 bits is \<open>Atoi\<close>. The context is a Go map.\<close>

definition isValidVolumeContext :: "(string \<rightharpoonup> string) \<Rightarrow> bool" where
  "isValidVolumeContext volContext =
     (case volContext VolumeAttributePartition of
        None \<Rightarrow> True
      | Some part \<Rightarrow>
          (case Atoi part of
             None \<Rightarrow> False
           | Some partitionInt \<Rightarrow> if partitionInt < 0 then False else True))"

text \<open>
  The check that repeats the controller's check of a formatting option on the node. The named result
  \<open>value\<close> is still empty when the alphanumeric check reads it; \<open>alnum\<close> is the parser's check.
\<close>

definition recheckFormattingOptionParameter ::
    "(string \<Rightarrow> bool) \<Rightarrow> (string \<rightharpoonup> string) \<Rightarrow> string \<Rightarrow> (string \<rightharpoonup> string set) \<Rightarrow> string
      \<Rightarrow> csi_error + string" where
  "recheckFormattingOptionParameter alnum ctx key fsConfigs fsType =
     (case ctx key of
        None \<Rightarrow> Inr ''''
      | Some v \<Rightarrow>
          if \<not> alnum '''' then Inl (ErrInvalidFormatParameter key)
          else if \<not> isParameterSupported fsConfigs (ToLower fsType) key
          then Inl (ErrCanNotUseSpecifiedFstype key fsType)
          else Inr v)"

section \<open>Validation lemmas\<close>

lemma isValidVolumeCapabilities_all:
  "isValidVolumeCapabilities cs \<longleftrightarrow> list_all isValidCapability cs"
  by (induction cs) auto

lemma isMultiAttach_ex:
  "isMultiAttach cs \<longleftrightarrow> (\<exists>c\<in>set cs. cap_mode c = MultiNodeMultiWriter \<and> isBlock c)"
  by (induction cs) auto

lemma isValidCapability_iff:
  "isValidCapability c \<longleftrightarrow> cap_mode c = SingleNodeWriter \<or> cap_mode c = MultiNodeMultiWriter \<and> isBlock c"
  by (auto simp: isValidCapability_def split: access_mode.splits)

text \<open>A valid request asks for multi-attach exactly when one of its modes is multi-writer.\<close>

lemma multi_attach_of_valid:
  "isValidVolumeCapabilities cs \<Longrightarrow>
    isMultiAttach cs \<longleftrightarrow> (\<exists>c\<in>set cs. cap_mode c = MultiNodeMultiWriter)"
  by (auto simp: isValidVolumeCapabilities_all isMultiAttach_ex list_all_iff isValidCapability_iff)

end
