(* ===== verification/CtlState.thy ===== *)
theory CtlState
  imports CloudModify CloudCatalog K8sClient CsiApi CircuitBreaker InFlightTable ErrClass Metrics
    CreateGate
begin

text \<open>
  The state of the controller service (\<open>controllerService\<close> of \<^verbatim>\<open>pkg/driver/controller.go\<close>) and
  what its handlers share: the clock, the breakers, the recorder, the volume events, and the reports
  of a failed or finished detach, delete, attach and create. A handler is a function over the service's
  state; the cloud and the Kubernetes client are lifted into it. Handlers of one pair, volume or
  name exclude each other through the in-flight table; each runs here from start to end.
\<close>

section \<open>State and environment\<close>

record ctl =
  ks_cloud :: cstate
  ks_kube :: kube
  ks_inflight :: in_flight
  ks_gate :: semaphore
  ks_detach :: breaker
  ks_delete :: breaker
  ks_mops :: "mop list"
  ks_ticks :: nat

text \<open>
  The clock is read once per tick. \<open>ce_ctx_ends\<close> says whether the context of the create at that tick
  ends while it stands at the gate; \<open>ce_alnum\<close> is the joat parser's alphanumeric check,
  \<open>ce_encrypt\<close> the SDK's two encryption types, \<open>ce_trunc\<close> joat's truncation, \<open>ce_parse_time\<close> Go's
  \<open>time.Parse\<close>.
\<close>

record cenv =
  ce_cloud :: env
  ce_kube :: kenv
  ce_now :: "nat \<Rightarrow> int"
  ce_ctx_ends :: "nat \<Rightarrow> bool"
  ce_clusterID :: string
  ce_tagKeyLength :: int
  ce_tagValueLength :: int
  ce_alnum :: "string \<Rightarrow> bool"
  ce_encrypt :: "string set"
  ce_trunc :: "string \<Rightarrow> int \<Rightarrow> string"
  ce_parse_time :: "string \<Rightarrow> int option"

definition in_cloud :: "(cstate, 'r) state \<Rightarrow> (ctl, 'r) state" where
  "in_cloud m = st (\<lambda>s. (case run_state m (ks_cloud s) of (r, c) \<Rightarrow> (r, s\<lparr>ks_cloud := c\<rparr>)))"

definition in_kube :: "(kube, 'r) state \<Rightarrow> (ctl, 'r) state" where
  "in_kube m = st (\<lambda>s. (case run_state m (ks_kube s) of (r, k) \<Rightarrow> (r, s\<lparr>ks_kube := k\<rparr>)))"

definition clock_now :: "cenv \<Rightarrow> (ctl, int) state" where
  "clock_now C = st (\<lambda>s. (ce_now C (ks_ticks s), s\<lparr>ks_ticks := Suc (ks_ticks s)\<rparr>))"

text \<open>A call on the metric recorder.\<close>

definition record_metric :: "mop \<Rightarrow> (ctl, unit) state" where
  "record_metric m = st (\<lambda>s. ((), s\<lparr>ks_mops := ks_mops s @ [m]\<rparr>))"

fun record_metrics :: "mop list \<Rightarrow> (ctl, unit) state" where
  "record_metrics [] = State_Monad.return ()"
| "record_metrics (m # ms) = do { _ \<leftarrow> record_metric m; record_metrics ms }"

definition ctl_guarded :: "string \<Rightarrow> csi_error \<Rightarrow> (ctl, 'r reply) state \<Rightarrow> (ctl, 'r reply) state" where
  "ctl_guarded key busy body =
     with_inflight ks_inflight (\<lambda>db s. s\<lparr>ks_inflight := db\<rparr>) key (Fail busy) body"

section \<open>Volume events\<close>

definition emitVolumeEvent ::
    "cenv \<Rightarrow> string \<Rightarrow> event_type \<Rightarrow> string \<Rightarrow> message \<Rightarrow> (ctl, unit) state" where
  "emitVolumeEvent C pvolumeID peventType preason pmessage = in_kube (do {
     r \<leftarrow> FindPersistentVolumeByHandle (ce_kube C) pvolumeID;
     (case r of
        Inl _ \<Rightarrow> State_Monad.return ()
      | Inr v \<Rightarrow>
          if peventType = Normal
          then VolumeEventNormal (ce_kube C) (pv_Name v) preason pmessage
          else VolumeEventWarning (ce_kube C) (pv_Name v) preason pmessage)
   })"

section \<open>Labels\<close>

definition detach_labels :: "string \<Rightarrow> string \<Rightarrow> labels" where
  "detach_labels v n = {(LabelVolumeID, v), (LabelNodeID, n)}"

definition delete_labels :: "string \<Rightarrow> labels" where
  "delete_labels v = {(LabelVolumeID, v)}"

definition iaas_error_mop :: "string \<Rightarrow> string \<Rightarrow> mop" where
  "iaas_error_mop op reason =
     MIncreaseCount IaaSErrors IaaSErrorsHelp {(LabelOp, op), (LabelReason, reason)}"

section \<open>The detach reports\<close>

definition evictStaleDetachState :: "int \<Rightarrow> (ctl, unit) state" where
  "evictStaleDetachState pnow = do {
     stale \<leftarrow> st (\<lambda>s. (case EvictStale (ks_detach s) pnow of (ks, b) \<Rightarrow> (ks, s\<lparr>ks_detach := b\<rparr>)));
     record_metrics (map (\<lambda>k. MDeleteGauge DetachPendingSeconds (detach_labels (VolumeID k) (NodeID k))) stale)
   }"

definition clearDetachStateOnAttach :: "breaker_key \<Rightarrow> int \<Rightarrow> (ctl, unit) state" where
  "clearDetachStateOnAttach pkey pnow = do {
     _ \<leftarrow> evictStaleDetachState pnow;
     _ \<leftarrow> st (\<lambda>s. ((), s\<lparr>ks_detach := Success (ks_detach s) pkey\<rparr>));
     record_metric (MDeleteGauge DetachPendingSeconds (detach_labels (VolumeID pkey) (NodeID pkey)))
   }"

text \<open>\<open>stuck.Round(time.Second)\<close>: to the nearest second, halves away from zero (a duration of a tracked pair).\<close>

definition round_second :: "int \<Rightarrow> int" where
  "round_second d =
     (if d < 0 then - (((- d) + Second div 2) div Second * Second)
      else (d + Second div 2) div Second * Second)"

definition onDetachFailed ::
    "cenv \<Rightarrow> string \<Rightarrow> string \<Rightarrow> breaker_key \<Rightarrow> int \<Rightarrow> ierror \<Rightarrow> (ctl, unit) state" where
  "onDetachFailed C pvolumeID pnodeID pkey pnow pierr =
     (let cls = Classify (Some pierr) in do {
       flags \<leftarrow> st (\<lambda>s. (case Failure (ks_detach s) pkey (cls_Terminal cls) pnow of
                           (fl, b) \<Rightarrow> (fl, s\<lparr>ks_detach := b\<rparr>)));
       since \<leftarrow> st (\<lambda>s. (Since (ks_detach s) pkey pnow, s));
       _ \<leftarrow> record_metric (iaas_error_mop OpDetach (cls_Reason cls));
       _ \<leftarrow> (if snd (snd since)
             then record_metric (MSetGauge DetachPendingSeconds DetachPendingSecondsHelp
                    (seconds (fst since)) (detach_labels pvolumeID pnodeID))
             else State_Monad.return ());
       (if \<not> fst flags \<and> \<not> snd flags then State_Monad.return ()
        else do {
          _ \<leftarrow> record_metric (MIncreaseCount DetachBreakerTrips DetachBreakerTripsHelp
                 {(LabelReason, cls_Reason cls)});
          emitVolumeEvent C pvolumeID Warning ''VolumeDetachStalled''
            (DetachKeepsFailing pvolumeID pnodeID (cls_Reason cls) (round_second (fst since)))
        })
     })"

definition onDetachSucceeded ::
    "cenv \<Rightarrow> string \<Rightarrow> string \<Rightarrow> breaker_key \<Rightarrow> int \<Rightarrow> (ctl, unit) state" where
  "onDetachSucceeded C pvolumeID pnodeID pkey pnow = do {
     since \<leftarrow> st (\<lambda>s. (Since (ks_detach s) pkey pnow, s));
     _ \<leftarrow> st (\<lambda>s. ((), s\<lparr>ks_detach := Success (ks_detach s) pkey\<rparr>));
     _ \<leftarrow> record_metric (MDeleteGauge DetachPendingSeconds (detach_labels pvolumeID pnodeID));
     (if \<not> snd (snd since) then State_Monad.return ()
      else emitVolumeEvent C pvolumeID Normal ''VolumeDetachRecovered''
             (DetachSucceededAfter pvolumeID pnodeID (round_second (fst since))))
   }"

section \<open>The delete reports\<close>

definition onDeleteFailed ::
    "cenv \<Rightarrow> string \<Rightarrow> breaker_key \<Rightarrow> int \<Rightarrow> ierror option \<Rightarrow> (ctl, unit) state" where
  "onDeleteFailed C pvolumeID pkey pnow perr = (case perr of
     None \<Rightarrow> State_Monad.return ()
   | Some pierr \<Rightarrow>
     (let cls = Classify (Some pierr) in do {
       before \<leftarrow> st (\<lambda>s. (Since (ks_delete s) pkey pnow, s));
       flags \<leftarrow> st (\<lambda>s. (case Failure (ks_delete s) pkey (cls_Terminal cls) pnow of
                           (fl, b) \<Rightarrow> (fl, s\<lparr>ks_delete := b\<rparr>)));
       since \<leftarrow> st (\<lambda>s. (Since (ks_delete s) pkey pnow, s));
       _ \<leftarrow> record_metric (iaas_error_mop OpDelete (cls_Reason cls));
       _ \<leftarrow> (if snd (snd since)
             then record_metric (MSetGauge DeletePendingSeconds DeletePendingSecondsHelp
                    (seconds (fst since)) (delete_labels pvolumeID))
             else State_Monad.return ());
       _ \<leftarrow> (if fst flags \<or> snd flags
             then record_metric (MIncreaseCount DeleteBreakerTrips DeleteBreakerTripsHelp
                    {(LabelReason, cls_Reason cls)})
             else State_Monad.return ());
       (let first = \<not> fst (snd before) in
        if \<not> first \<and> \<not> fst flags \<and> \<not> snd flags then State_Monad.return ()
        else if first
        then emitVolumeEvent C pvolumeID Warning (cls_Reason cls) (DeleteFailed pvolumeID (ie_msg pierr))
        else emitVolumeEvent C pvolumeID Warning ''VolumeDeleteStalled''
               (DeleteKeepsFailing pvolumeID (cls_Reason cls) (round_second (fst since))))
     }))"

definition onDeleteSucceeded :: "cenv \<Rightarrow> string \<Rightarrow> breaker_key \<Rightarrow> int \<Rightarrow> (ctl, unit) state" where
  "onDeleteSucceeded C pvolumeID pkey pnow = do {
     since \<leftarrow> st (\<lambda>s. (Since (ks_delete s) pkey pnow, s));
     _ \<leftarrow> st (\<lambda>s. ((), s\<lparr>ks_delete := Success (ks_delete s) pkey\<rparr>));
     _ \<leftarrow> record_metric (MDeleteGauge DeletePendingSeconds (delete_labels pvolumeID));
     (if \<not> snd (snd since) then State_Monad.return ()
      else emitVolumeEvent C pvolumeID Normal ''VolumeDeleteRecovered''
             (DeleteSucceededAfter pvolumeID (round_second (fst since))))
   }"

definition evictStaleDeleteState :: "int \<Rightarrow> (ctl, unit) state" where
  "evictStaleDeleteState pnow = do {
     stale \<leftarrow> st (\<lambda>s. (case EvictStale (ks_delete s) pnow of (ks, b) \<Rightarrow> (ks, s\<lparr>ks_delete := b\<rparr>)));
     record_metrics (map (\<lambda>k. MDeleteGauge DeletePendingSeconds (delete_labels (VolumeID k))) stale)
   }"

definition probeVolumeDeletable :: "cenv \<Rightarrow> string \<Rightarrow> (ctl, bool \<times> ierror option) state" where
  "probeVolumeDeletable C pvolumeID = do {
     r \<leftarrow> in_cloud (GetVolume (ce_cloud C) pvolumeID);
     State_Monad.return (case r of
        Inl ierr \<Rightarrow>
          if cls_Reason (Classify (Some ierr)) = ReasonIaaSResourceNotFound then (True, None)
          else (False, Some ierr)
      | Inr vol \<Rightarrow> (entity_CanDelete vol, None))
   }"

definition reportAttachIaaSError :: "cenv \<Rightarrow> string \<Rightarrow> string \<Rightarrow> ierror option \<Rightarrow> (ctl, unit) state" where
  "reportAttachIaaSError C pvolumeID pnodeID perr = (case perr of
     None \<Rightarrow> State_Monad.return ()
   | Some pierr \<Rightarrow>
     (let cls = Classify (Some pierr) in do {
       _ \<leftarrow> record_metric (iaas_error_mop OpAttach (cls_Reason cls));
       emitVolumeEvent C pvolumeID Warning (cls_Reason cls)
         (AttachFailed pvolumeID pnodeID (ie_msg pierr))
     }))"

section \<open>What the reports do\<close>

text \<open>Updates of the state in one order: breakers, recorder, clock, gate, cloud, cluster, table.\<close>

lemma ctl_commute:
  fixes s :: ctl
  shows
  "s\<lparr>ks_delete := b1, ks_detach := b0\<rparr> = s\<lparr>ks_detach := b0, ks_delete := b1\<rparr>"
  "s\<lparr>ks_mops := b2, ks_detach := b0\<rparr> = s\<lparr>ks_detach := b0, ks_mops := b2\<rparr>"
  "s\<lparr>ks_ticks := b3, ks_detach := b0\<rparr> = s\<lparr>ks_detach := b0, ks_ticks := b3\<rparr>"
  "s\<lparr>ks_gate := b4, ks_detach := b0\<rparr> = s\<lparr>ks_detach := b0, ks_gate := b4\<rparr>"
  "s\<lparr>ks_cloud := b5, ks_detach := b0\<rparr> = s\<lparr>ks_detach := b0, ks_cloud := b5\<rparr>"
  "s\<lparr>ks_kube := b6, ks_detach := b0\<rparr> = s\<lparr>ks_detach := b0, ks_kube := b6\<rparr>"
  "s\<lparr>ks_inflight := b7, ks_detach := b0\<rparr> = s\<lparr>ks_detach := b0, ks_inflight := b7\<rparr>"
  "s\<lparr>ks_mops := b2, ks_delete := b1\<rparr> = s\<lparr>ks_delete := b1, ks_mops := b2\<rparr>"
  "s\<lparr>ks_ticks := b3, ks_delete := b1\<rparr> = s\<lparr>ks_delete := b1, ks_ticks := b3\<rparr>"
  "s\<lparr>ks_gate := b4, ks_delete := b1\<rparr> = s\<lparr>ks_delete := b1, ks_gate := b4\<rparr>"
  "s\<lparr>ks_cloud := b5, ks_delete := b1\<rparr> = s\<lparr>ks_delete := b1, ks_cloud := b5\<rparr>"
  "s\<lparr>ks_kube := b6, ks_delete := b1\<rparr> = s\<lparr>ks_delete := b1, ks_kube := b6\<rparr>"
  "s\<lparr>ks_inflight := b7, ks_delete := b1\<rparr> = s\<lparr>ks_delete := b1, ks_inflight := b7\<rparr>"
  "s\<lparr>ks_ticks := b3, ks_mops := b2\<rparr> = s\<lparr>ks_mops := b2, ks_ticks := b3\<rparr>"
  "s\<lparr>ks_gate := b4, ks_mops := b2\<rparr> = s\<lparr>ks_mops := b2, ks_gate := b4\<rparr>"
  "s\<lparr>ks_cloud := b5, ks_mops := b2\<rparr> = s\<lparr>ks_mops := b2, ks_cloud := b5\<rparr>"
  "s\<lparr>ks_kube := b6, ks_mops := b2\<rparr> = s\<lparr>ks_mops := b2, ks_kube := b6\<rparr>"
  "s\<lparr>ks_inflight := b7, ks_mops := b2\<rparr> = s\<lparr>ks_mops := b2, ks_inflight := b7\<rparr>"
  "s\<lparr>ks_gate := b4, ks_ticks := b3\<rparr> = s\<lparr>ks_ticks := b3, ks_gate := b4\<rparr>"
  "s\<lparr>ks_cloud := b5, ks_ticks := b3\<rparr> = s\<lparr>ks_ticks := b3, ks_cloud := b5\<rparr>"
  "s\<lparr>ks_kube := b6, ks_ticks := b3\<rparr> = s\<lparr>ks_ticks := b3, ks_kube := b6\<rparr>"
  "s\<lparr>ks_inflight := b7, ks_ticks := b3\<rparr> = s\<lparr>ks_ticks := b3, ks_inflight := b7\<rparr>"
  "s\<lparr>ks_cloud := b5, ks_gate := b4\<rparr> = s\<lparr>ks_gate := b4, ks_cloud := b5\<rparr>"
  "s\<lparr>ks_kube := b6, ks_gate := b4\<rparr> = s\<lparr>ks_gate := b4, ks_kube := b6\<rparr>"
  "s\<lparr>ks_inflight := b7, ks_gate := b4\<rparr> = s\<lparr>ks_gate := b4, ks_inflight := b7\<rparr>"
  "s\<lparr>ks_kube := b6, ks_cloud := b5\<rparr> = s\<lparr>ks_cloud := b5, ks_kube := b6\<rparr>"
  "s\<lparr>ks_inflight := b7, ks_cloud := b5\<rparr> = s\<lparr>ks_cloud := b5, ks_inflight := b7\<rparr>"
  "s\<lparr>ks_inflight := b7, ks_kube := b6\<rparr> = s\<lparr>ks_kube := b6, ks_inflight := b7\<rparr>"
  by simp_all

lemma wp_in_cloud [simp]: "wp (in_cloud m) Q s = wp m (\<lambda>r c. Q r (s\<lparr>ks_cloud := c\<rparr>)) (ks_cloud s)"
  by (simp add: in_cloud_def wp_def split: prod.splits)

lemma wp_in_kube [simp]: "wp (in_kube m) Q s = wp m (\<lambda>r k. Q r (s\<lparr>ks_kube := k\<rparr>)) (ks_kube s)"
  by (simp add: in_kube_def wp_def split: prod.splits)

lemma wp_clock_now [simp]:
  "wp (clock_now C) Q s = Q (ce_now C (ks_ticks s)) (s\<lparr>ks_ticks := Suc (ks_ticks s)\<rparr>)"
  by (simp add: clock_now_def)

lemma wp_record_metric [simp]: "wp (record_metric m) Q s = Q () (s\<lparr>ks_mops := ks_mops s @ [m]\<rparr>)"
  by (simp add: record_metric_def)

lemma wp_record_metrics [simp]: "wp (record_metrics ms) Q s = Q () (s\<lparr>ks_mops := ks_mops s @ ms\<rparr>)"
proof (induction ms arbitrary: s)
  case Nil
  then show ?case by simp
next
  case (Cons m ms)
  then show ?case by simp
qed

lemma only_events_mono: "only_events n t r m k k' \<Longrightarrow> n \<le> n' \<Longrightarrow> only_events n' t r m k k'"
  by (auto simp: only_events_def)

lemma only_events_refl [simp]: "only_events n t r m k k"
  by (simp add: only_events_def)

lemma only_events_read: "only_events n t r m (k\<lparr>k_reads := x\<rparr>) k' \<Longrightarrow> only_events n t r m k k'"
  by (simp add: only_events_def)

lemma VolumeEvent_wp:
  "wp (VolumeEventWarning K name r m) (\<lambda>_ k'. only_events 2 Warning r m k k') k"
  "wp (VolumeEventNormal K name r m) (\<lambda>_ k'. only_events 2 Normal r m k k') k"
  unfolding VolumeEventWarning_def VolumeEventNormal_def by (rule volumeEvent_wp)+

lemma find_pv_wp:
  "wp (FindPersistentVolumeByHandle K v) (\<lambda>_ k'. \<exists>x. k' = k\<lparr>k_reads := x\<rparr>) k"
proof -
  have id: "\<exists>x. k = k\<lparr>k_reads := x\<rparr>" by (intro exI [of _ "k_reads k"]) simp
  then show ?thesis
    by (auto simp: FindPersistentVolumeByHandle_def)
qed

text \<open>An event on a volume touches nothing but the cluster.\<close>

lemma emitVolumeEvent_wp:
  "wp (emitVolumeEvent C v typ reason msg)
    (\<lambda>_ s'. \<exists>k. s' = s\<lparr>ks_kube := k\<rparr> \<and> only_events 2 typ reason msg (ks_kube s) k) s"
  unfolding emitVolumeEvent_def wp_in_kube wp_bind
proof (rule wp_mono [OF find_pv_wp], goal_cases)
  case (1 r k1)
  then obtain x where k1: "k1 = (ks_kube s)\<lparr>k_reads := x\<rparr>" by blast
  show ?case
  proof (cases r)
    case (Inl e)
    with k1 show ?thesis by (auto simp: only_events_def)
  next
    case (Inr p)
    have normal: "wp (VolumeEventNormal (ce_kube C) (pv_Name p) reason msg)
        (\<lambda>_ k. only_events 2 Normal reason msg (ks_kube s) k) k1"
      unfolding k1 by (rule wp_mono [OF VolumeEvent_wp(2)]) (rule only_events_read)
    have warning: "wp (VolumeEventWarning (ce_kube C) (pv_Name p) reason msg)
        (\<lambda>_ k. only_events 2 Warning reason msg (ks_kube s) k) k1"
      unfolding k1 by (rule wp_mono [OF VolumeEvent_wp(1)]) (rule only_events_read)
    from normal warning
    have "wp (if typ = Normal then VolumeEventNormal (ce_kube C) (pv_Name p) reason msg
        else VolumeEventWarning (ce_kube C) (pv_Name p) reason msg)
        (\<lambda>_ k. only_events 2 typ reason msg (ks_kube s) k) k1"
      by (cases "typ") simp_all
    then show ?thesis
      unfolding Inr sum.case by (rule wp_mono) auto
  qed
qed

definition detach_failed_mops ::
    "string \<Rightarrow> string \<Rightarrow> string \<Rightarrow> int \<times> bool \<times> bool \<Rightarrow> bool \<times> bool \<Rightarrow> mop list" where
  "detach_failed_mops v n reason since flags =
     iaas_error_mop OpDetach reason #
     (if snd (snd since) then [MSetGauge DetachPendingSeconds DetachPendingSecondsHelp
        (seconds (fst since)) (detach_labels v n)] else []) @
     (if escalated flags then [MIncreaseCount DetachBreakerTrips DetachBreakerTripsHelp
        {(LabelReason, reason)}] else [])"

text \<open>The state a report leaves, up to the events it put into the cluster.\<close>

definition reports ::
    "ctl \<Rightarrow> bool \<Rightarrow> event_type \<Rightarrow> string \<Rightarrow> message \<Rightarrow> ctl \<Rightarrow> bool" where
  "reports s says typ reason msg s' \<longleftrightarrow> (\<exists>k. s' = s\<lparr>ks_kube := k\<rparr> \<and>
     (if says then only_events 2 typ reason msg (ks_kube s) k else k = ks_kube s))"

lemma reports_refl [simp]: "reports s False typ reason msg s"
  unfolding reports_def by (intro exI [of _ "ks_kube s"]) simp

lemma emitVolumeEvent_reports:
  "wp (emitVolumeEvent C v typ reason msg) (\<lambda>_. reports s True typ reason msg) s"
  by (rule wp_mono [OF emitVolumeEvent_wp]) (simp add: reports_def)

text \<open>A failure as the breaker sees it.\<close>

definition failure_of :: "breaker \<Rightarrow> breaker_key \<Rightarrow> int \<Rightarrow> ierror \<Rightarrow> (bool \<times> bool) \<times> breaker" where
  "failure_of b k now e = Failure b k (cls_Terminal (Classify (Some e))) now"

definition after_detach_failed :: "string \<Rightarrow> string \<Rightarrow> breaker_key \<Rightarrow> int \<Rightarrow> ierror \<Rightarrow> ctl \<Rightarrow> ctl" where
  "after_detach_failed v n k now e s =
     (case failure_of (ks_detach s) k now e of (flags, b) \<Rightarrow>
        s\<lparr>ks_detach := b, ks_mops := ks_mops s @
          detach_failed_mops v n (cls_Reason (Classify (Some e))) (Since b k now) flags\<rparr>)"

lemma onDetachFailed_wp:
  "wp (onDetachFailed C v n k now e)
    (\<lambda>_. reports (after_detach_failed v n k now e s)
       (escalated (fst (failure_of (ks_detach s) k now e))) Warning ''VolumeDetachStalled''
       (DetachKeepsFailing v n (cls_Reason (Classify (Some e)))
         (round_second (fst (Since (snd (failure_of (ks_detach s) k now e)) k now))))) s"
proof -
  obtain t u b where F: "failure_of (ks_detach s) k now e = ((t, u), b)" by (metis surj_pair)
  then have F': "Failure (ks_detach s) k (cls_Terminal (Classify (Some e))) now = ((t, u), b)"
    by (simp add: failure_of_def)
  let ?s = "after_detach_failed v n k now e s"
  show ?thesis
  proof (cases "t \<or> u")
    case True
    have "wp (emitVolumeEvent C v Warning ''VolumeDetachStalled'' msg)
        (\<lambda>_. reports ?s True Warning ''VolumeDetachStalled'' msg) ?s" for msg
      by (rule emitVolumeEvent_reports)
    with True F F' show ?thesis
      by (auto simp: onDetachFailed_def Let_def after_detach_failed_def detach_failed_mops_def
          escalated_def)
  next
    case False
    with F F' show ?thesis
      by (auto simp: onDetachFailed_def Let_def after_detach_failed_def detach_failed_mops_def
          escalated_def)
  qed
qed

definition after_detach_succeeded :: "string \<Rightarrow> string \<Rightarrow> breaker_key \<Rightarrow> ctl \<Rightarrow> ctl" where
  "after_detach_succeeded v n k s =
     s\<lparr>ks_detach := Success (ks_detach s) k,
       ks_mops := ks_mops s @ [MDeleteGauge DetachPendingSeconds (detach_labels v n)]\<rparr>"

lemma onDetachSucceeded_wp:
  "wp (onDetachSucceeded C v n k now)
    (\<lambda>_. reports (after_detach_succeeded v n k s) (breaker_tripped (ks_detach s) k) Normal
       ''VolumeDetachRecovered''
       (DetachSucceededAfter v n (round_second (fst (Since (ks_detach s) k now))))) s"
proof (cases "breaker_tripped (ks_detach s) k")
  case True
  have "wp (emitVolumeEvent C v Normal ''VolumeDetachRecovered'' msg)
      (\<lambda>_. reports (after_detach_succeeded v n k s) True Normal ''VolumeDetachRecovered'' msg)
      (after_detach_succeeded v n k s)" for msg
    by (rule emitVolumeEvent_reports)
  with True show ?thesis
    by (simp add: onDetachSucceeded_def after_detach_succeeded_def)
next
  case False
  then show ?thesis
    by (simp add: onDetachSucceeded_def after_detach_succeeded_def)
qed

definition after_evict_detach :: "int \<Rightarrow> ctl \<Rightarrow> ctl" where
  "after_evict_detach now s =
     s\<lparr>ks_detach := snd (EvictStale (ks_detach s) now),
       ks_mops := ks_mops s @ map (\<lambda>k. MDeleteGauge DetachPendingSeconds
         (detach_labels (VolumeID k) (NodeID k))) (fst (EvictStale (ks_detach s) now))\<rparr>"

lemma evictStaleDetachState_wp [simp]:
  "wp (evictStaleDetachState now) Q s = Q () (after_evict_detach now s)"
  by (simp add: evictStaleDetachState_def after_evict_detach_def split: prod.splits)

lemma clearDetachStateOnAttach_wp [simp]:
  "wp (clearDetachStateOnAttach k now) Q s =
    Q () (after_detach_succeeded (VolumeID k) (NodeID k) k (after_evict_detach now s))"
  by (simp add: clearDetachStateOnAttach_def after_detach_succeeded_def)

definition delete_failed_mops ::
    "string \<Rightarrow> string \<Rightarrow> int \<times> bool \<times> bool \<Rightarrow> bool \<times> bool \<Rightarrow> mop list" where
  "delete_failed_mops v reason since flags =
     iaas_error_mop OpDelete reason #
     (if snd (snd since) then [MSetGauge DeletePendingSeconds DeletePendingSecondsHelp
        (seconds (fst since)) (delete_labels v)] else []) @
     (if escalated flags then [MIncreaseCount DeleteBreakerTrips DeleteBreakerTripsHelp
        {(LabelReason, reason)}] else [])"

definition after_delete_failed :: "string \<Rightarrow> breaker_key \<Rightarrow> int \<Rightarrow> ierror \<Rightarrow> ctl \<Rightarrow> ctl" where
  "after_delete_failed v k now e s =
     (case failure_of (ks_delete s) k now e of (flags, b) \<Rightarrow>
        s\<lparr>ks_delete := b, ks_mops := ks_mops s @
          delete_failed_mops v (cls_Reason (Classify (Some e))) (Since b k now) flags\<rparr>)"

text \<open>A delete failure speaks on the first failure and on each escalation.\<close>

definition delete_speaks :: "breaker \<Rightarrow> breaker_key \<Rightarrow> int \<Rightarrow> ierror \<Rightarrow> bool" where
  "delete_speaks b k now e \<longleftrightarrow>
     map_of b (key_string k) = None \<or> escalated (fst (failure_of b k now e))"

lemma Since_tracked [simp]: "fst (snd (Since b k now)) \<longleftrightarrow> map_of b (key_string k) \<noteq> None"
  by (auto simp: Since_def split: option.splits)

lemma onDeleteFailed_wp:
  "wp (onDeleteFailed C v k now (Some e))
    (\<lambda>_ s'. \<exists>reason msg. reports (after_delete_failed v k now e s)
       (delete_speaks (ks_delete s) k now e) Warning reason msg s') s"
proof -
  obtain t u b where F: "failure_of (ks_delete s) k now e = ((t, u), b)" by (metis surj_pair)
  then have F': "Failure (ks_delete s) k (cls_Terminal (Classify (Some e))) now = ((t, u), b)"
    by (simp add: failure_of_def)
  let ?s = "after_delete_failed v k now e s"
  have says: "wp (emitVolumeEvent C v Warning r msg) (\<lambda>_ s'. \<exists>reason msg.
      reports ?s True Warning reason msg s') ?s" for r msg
    by (rule wp_mono [OF emitVolumeEvent_reports]) blast
  show ?thesis
    using F F' says
    by (cases "delete_speaks (ks_delete s) k now e")
      (auto simp: onDeleteFailed_def Let_def after_delete_failed_def delete_failed_mops_def
        escalated_def delete_speaks_def)
qed

definition after_delete_succeeded :: "string \<Rightarrow> breaker_key \<Rightarrow> ctl \<Rightarrow> ctl" where
  "after_delete_succeeded v k s =
     s\<lparr>ks_delete := Success (ks_delete s) k,
       ks_mops := ks_mops s @ [MDeleteGauge DeletePendingSeconds (delete_labels v)]\<rparr>"

lemma onDeleteSucceeded_wp:
  "wp (onDeleteSucceeded C v k now)
    (\<lambda>_. reports (after_delete_succeeded v k s) (breaker_tripped (ks_delete s) k) Normal
       ''VolumeDeleteRecovered''
       (DeleteSucceededAfter v (round_second (fst (Since (ks_delete s) k now))))) s"
proof (cases "breaker_tripped (ks_delete s) k")
  case True
  have "wp (emitVolumeEvent C v Normal ''VolumeDeleteRecovered'' msg)
      (\<lambda>_. reports (after_delete_succeeded v k s) True Normal ''VolumeDeleteRecovered'' msg)
      (after_delete_succeeded v k s)" for msg
    by (rule emitVolumeEvent_reports)
  with True show ?thesis
    by (simp add: onDeleteSucceeded_def after_delete_succeeded_def)
next
  case False
  then show ?thesis
    by (simp add: onDeleteSucceeded_def after_delete_succeeded_def)
qed

definition after_evict_delete :: "int \<Rightarrow> ctl \<Rightarrow> ctl" where
  "after_evict_delete now s =
     s\<lparr>ks_delete := snd (EvictStale (ks_delete s) now),
       ks_mops := ks_mops s @ map (\<lambda>k. MDeleteGauge DeletePendingSeconds
         (delete_labels (VolumeID k))) (fst (EvictStale (ks_delete s) now))\<rparr>"

lemma evictStaleDeleteState_wp [simp]:
  "wp (evictStaleDeleteState now) Q s = Q () (after_evict_delete now s)"
  by (simp add: evictStaleDeleteState_def after_evict_delete_def split: prod.splits)

lemma reportAttachIaaSError_wp:
  "wp (reportAttachIaaSError C v n (Some e))
    (\<lambda>_. reports (s\<lparr>ks_mops := ks_mops s @ [iaas_error_mop OpAttach (cls_Reason (Classify (Some e)))]\<rparr>)
       True Warning (cls_Reason (Classify (Some e))) (AttachFailed v n (ie_msg e))) s"
  by (simp add: reportAttachIaaSError_def emitVolumeEvent_reports Let_def)

lemma probeVolumeDeletable_wp:
  "wp (probeVolumeDeletable C v)
    (\<lambda>r s'. \<exists>c x. s' = s\<lparr>ks_cloud := c\<rparr> \<and> read_answer v (ks_cloud s) x c \<and>
       (fst r \<longrightarrow> (case x of Inl e \<Rightarrow> cls_Reason (Classify (Some e)) = ReasonIaaSResourceNotFound
                 | Inr vol \<Rightarrow> entity_CanDelete vol))) s"
  unfolding probeVolumeDeletable_def wp_bind wp_in_cloud GetVolume_def
  by (rule wp_mono [OF getVolumeById_wp]) (auto split: sum.splits)

section \<open>Guarded handlers\<close>

lemma ctl_guarded_wp:
  assumes "key \<notin> dom (ks_inflight s) \<Longrightarrow>
      wp body (\<lambda>r s'. ks_inflight s' = (ks_inflight s)(key \<mapsto> True) \<and>
        Q r (s'\<lparr>ks_inflight := ks_inflight s\<rparr>)) (s\<lparr>ks_inflight := (ks_inflight s)(key \<mapsto> True)\<rparr>)"
    and "key \<in> dom (ks_inflight s) \<Longrightarrow> Q (Fail busy) s"
  shows "wp (ctl_guarded key busy body) Q s"
proof (cases "key \<in> dom (ks_inflight s)")
  case True
  with assms(2) show ?thesis by (simp add: ctl_guarded_def wp_def with_inflight_busy)
next
  case False
  then have "(ks_inflight s)(key := None) = ks_inflight s" by auto
  with False assms(1) show ?thesis
    by (auto simp: ctl_guarded_def wp_def with_inflight_free Delete_def split: prod.splits)
qed

end
