(* ===== verification/CtlDetach.thy ===== *)
theory CtlDetach
  imports CtlState
begin

text \<open>
  Attach and detach of the controller service: \<open>ControllerPublishVolume\<close> and
  \<open>ControllerUnpublishVolume\<close> of \<^verbatim>\<open>pkg/driver/controller.go\<close>.
\<close>

section \<open>ControllerPublishVolume\<close>

text \<open>The publish context: the device path under its key.\<close>

type_synonym publish_response = "string \<rightharpoonup> string"

definition newControllerPublishVolumeResponse :: "string \<Rightarrow> publish_response" where
  "newControllerPublishVolumeResponse pdevicePath = [DevicePathKey \<mapsto> pdevicePath]"

text \<open>The rest of the call once the volume is attached.\<close>

definition publish_attached :: "cenv \<Rightarrow> string \<Rightarrow> string \<Rightarrow> (ctl, publish_response reply) state" where
  "publish_attached C volumeID nodeID = do {
     d \<leftarrow> in_cloud (GetDeviceDiskID (ce_cloud C) volumeID);
     (case d of
        (_, Some _) \<Rightarrow> State_Monad.return (Fail (ErrFailedToGetDevicePath volumeID nodeID))
      | (devicePath, None) \<Rightarrow> do {
          now \<leftarrow> clock_now C;
          _ \<leftarrow> clearDetachStateOnAttach \<lparr>VolumeID = volumeID, NodeID = nodeID\<rparr> now;
          State_Monad.return (Ok (newControllerPublishVolumeResponse devicePath))
        })
   }"

definition publish_body :: "cenv \<Rightarrow> string \<Rightarrow> string \<Rightarrow> (ctl, publish_response reply) state" where
  "publish_body C volumeID nodeID = do {
     r \<leftarrow> in_cloud (AttachVolume (ce_cloud C) nodeID volumeID);
     (case r of
        Panic \<Rightarrow> State_Monad.return Crashed
      | Return (Inl ierr) \<Rightarrow> do {
          _ \<leftarrow> reportAttachIaaSError C volumeID nodeID (Some ierr);
          State_Monad.return (Fail (ErrAttachVolume volumeID nodeID))
        }
      | Return (Inr _) \<Rightarrow> publish_attached C volumeID nodeID)
   }"

definition ControllerPublishVolume ::
    "cenv \<Rightarrow> string \<Rightarrow> string \<Rightarrow> capability option \<Rightarrow> (ctl, publish_response reply) state" where
  "ControllerPublishVolume C volumeID nodeID volCap =
     (case validateControllerPublishVolumeRequest volumeID nodeID volCap of
        Some err \<Rightarrow> State_Monad.return (Fail err)
      | None \<Rightarrow> ctl_guarded (volumeID @ nodeID) (ErrOperationAlreadyExists volumeID)
                  (publish_body C volumeID nodeID))"

section \<open>ControllerUnpublishVolume\<close>

text \<open>The call while the breaker is open: one read, no command.\<close>

definition unpublish_probe ::
    "cenv \<Rightarrow> string \<Rightarrow> string \<Rightarrow> breaker_key \<Rightarrow> int \<Rightarrow> (ctl, unit reply) state" where
  "unpublish_probe C volumeID nodeID bkey now = do {
     r \<leftarrow> in_cloud (IsDetachedFrom (ce_cloud C) nodeID volumeID);
     (if snd r = None \<and> fst r then do {
        _ \<leftarrow> onDetachSucceeded C volumeID nodeID bkey now;
        State_Monad.return (Ok ())
      } else State_Monad.return (Fail (ErrDetachVolumePaused volumeID nodeID)))
   }"

definition unpublish_attempt ::
    "cenv \<Rightarrow> string \<Rightarrow> string \<Rightarrow> breaker_key \<Rightarrow> int \<Rightarrow> (ctl, unit reply) state" where
  "unpublish_attempt C volumeID nodeID bkey now = do {
     r \<leftarrow> in_cloud (DetachVolume (ce_cloud C) nodeID volumeID);
     (case r of
        Some ierr \<Rightarrow> do {
          _ \<leftarrow> onDetachFailed C volumeID nodeID bkey now ierr;
          State_Monad.return (Fail (ErrDetachVolume volumeID nodeID))
        }
      | None \<Rightarrow> do {
          _ \<leftarrow> onDetachSucceeded C volumeID nodeID bkey now;
          State_Monad.return (Ok ())
        })
   }"

definition unpublish_body :: "cenv \<Rightarrow> string \<Rightarrow> string \<Rightarrow> (ctl, unit reply) state" where
  "unpublish_body C volumeID nodeID = (let bkey = \<lparr>VolumeID = volumeID, NodeID = nodeID\<rparr> in do {
     now \<leftarrow> clock_now C;
     _ \<leftarrow> evictStaleDetachState now;
     d \<leftarrow> st (\<lambda>s. (Allow (ks_detach s) bkey now, s));
     (if d = ProbeOnly then unpublish_probe C volumeID nodeID bkey now
      else unpublish_attempt C volumeID nodeID bkey now)
   })"

definition ControllerUnpublishVolume :: "cenv \<Rightarrow> string \<Rightarrow> string \<Rightarrow> (ctl, unit reply) state" where
  "ControllerUnpublishVolume C volumeID nodeID =
     (case validateControllerUnpublishVolumeRequest volumeID nodeID of
        Some err \<Rightarrow> State_Monad.return (Fail err)
      | None \<Rightarrow> ctl_guarded (volumeID @ nodeID) (ErrOperationAlreadyExists volumeID)
                  (unpublish_body C volumeID nodeID))"

section \<open>What the two handlers do\<close>

text \<open>
  The effect of one handler on the detach side: the breaker and gauge step it took. The cases are
  nothing, a sweep alone, a sweep and a failure, a sweep and a success.
\<close>

datatype detach_effect = NoEffect | Swept int | FailedAt int ierror | ClearedAt int

fun detach_apply :: "detach_effect \<Rightarrow> string \<Rightarrow> string \<Rightarrow> ctl \<Rightarrow> ctl" where
  "detach_apply NoEffect v n s = s"
| "detach_apply (Swept t) v n s = after_evict_detach t s"
| "detach_apply (FailedAt t e) v n s =
     after_detach_failed v n \<lparr>VolumeID = v, NodeID = n\<rparr> t e (after_evict_detach t s)"
| "detach_apply (ClearedAt t) v n s =
     after_detach_succeeded v n \<lparr>VolumeID = v, NodeID = n\<rparr> (after_evict_detach t s)"

text \<open>The two states agree on the detach breaker and its gauge, and on everything the detach side leaves alone.\<close>

definition detach_side :: "ctl \<Rightarrow> ctl \<Rightarrow> bool" where
  "detach_side s s' \<longleftrightarrow> ks_detach s' = ks_detach s \<and> ks_mops s' = ks_mops s \<and>
     ks_inflight s' = ks_inflight s \<and> ks_gate s' = ks_gate s \<and> ks_delete s' = ks_delete s"

text \<open>What a detach RPC that got past the table did: its effect, its command and its answer.\<close>

definition unpublish_now :: "cenv \<Rightarrow> ctl \<Rightarrow> int" where
  "unpublish_now C s = ce_now C (ks_ticks s)"

definition unpublish_paused :: "cenv \<Rightarrow> string \<Rightarrow> string \<Rightarrow> ctl \<Rightarrow> bool" where
  "unpublish_paused C v n s \<longleftrightarrow>
     Allow (ks_detach (after_evict_detach (unpublish_now C s) s)) \<lparr>VolumeID = v, NodeID = n\<rparr>
       (unpublish_now C s) = ProbeOnly"

definition unpublish_says :: "string \<Rightarrow> string \<Rightarrow> ctl \<Rightarrow> detach_effect \<Rightarrow> bool" where
  "unpublish_says v n s eff =
     (case eff of
        ClearedAt t \<Rightarrow>
          breaker_tripped (ks_detach (after_evict_detach t s)) \<lparr>VolumeID = v, NodeID = n\<rparr>
      | FailedAt t e \<Rightarrow>
          escalated (fst (failure_of (ks_detach (after_evict_detach t s))
            \<lparr>VolumeID = v, NodeID = n\<rparr> t e))
      | _ \<Rightarrow> False)"

definition unpublish_answer ::
    "cenv \<Rightarrow> string \<Rightarrow> string \<Rightarrow> ctl \<Rightarrow> detach_effect \<Rightarrow> cstate \<Rightarrow> unit reply \<Rightarrow> bool" where
  "unpublish_answer C v n s eff c r \<longleftrightarrow>
     r = Ok () \<and> eff = ClearedAt (unpublish_now C s) \<and>
       detach_evidence (ce_cloud C) n v (ks_cloud s) c \<or>
     r = Fail (ErrDetachVolumePaused v n) \<and> eff = Swept (unpublish_now C s) \<and> unpublish_paused C v n s \<or>
     (\<exists>e. r = Fail (ErrDetachVolume v n) \<and> eff = FailedAt (unpublish_now C s) e \<and>
       \<not> unpublish_paused C v n s)"

definition unpublish_ran :: "cenv \<Rightarrow> string \<Rightarrow> string \<Rightarrow> ctl \<Rightarrow> unit reply \<Rightarrow> ctl \<Rightarrow> bool" where
  "unpublish_ran C v n s r s' \<longleftrightarrow> (\<exists>c eff etype reason msg.
     reports ((detach_apply eff v n s)\<lparr>ks_ticks := Suc (ks_ticks s), ks_cloud := c\<rparr>)
       (unpublish_says v n s eff) etype reason msg s' \<and>
     (did [] (ks_cloud s) c \<or>
       \<not> unpublish_paused C v n s \<and> (\<exists>x. did [EvDetach n v x] (ks_cloud s) c)) \<and>
     unpublish_answer C v n s eff c r)"

lemma after_detach_frame:
  "ks_cloud (after_evict_detach t s) = ks_cloud s" "ks_ticks (after_evict_detach t s) = ks_ticks s"
  "after_evict_detach t (s\<lparr>ks_cloud := c\<rparr>) = (after_evict_detach t s)\<lparr>ks_cloud := c\<rparr>"
  "after_evict_detach t (s\<lparr>ks_inflight := d\<rparr>) = (after_evict_detach t s)\<lparr>ks_inflight := d\<rparr>"
  "after_evict_detach t (s\<lparr>ks_ticks := x\<rparr>) = (after_evict_detach t s)\<lparr>ks_ticks := x\<rparr>"
  "after_detach_failed v n k t e (s\<lparr>ks_cloud := c\<rparr>) = (after_detach_failed v n k t e s)\<lparr>ks_cloud := c\<rparr>"
  "after_detach_failed v n k t e (s\<lparr>ks_inflight := d\<rparr>) = (after_detach_failed v n k t e s)\<lparr>ks_inflight := d\<rparr>"
  "after_detach_failed v n k t e (s\<lparr>ks_ticks := x\<rparr>) = (after_detach_failed v n k t e s)\<lparr>ks_ticks := x\<rparr>"
  "after_detach_succeeded v n k (s\<lparr>ks_cloud := c\<rparr>) = (after_detach_succeeded v n k s)\<lparr>ks_cloud := c\<rparr>"
  "after_detach_succeeded v n k (s\<lparr>ks_inflight := d\<rparr>) = (after_detach_succeeded v n k s)\<lparr>ks_inflight := d\<rparr>"
  "after_detach_succeeded v n k (s\<lparr>ks_ticks := x\<rparr>) = (after_detach_succeeded v n k s)\<lparr>ks_ticks := x\<rparr>"
  by (simp_all add: after_evict_detach_def after_detach_failed_def after_detach_succeeded_def
      split: prod.split)

lemma detach_apply_inflight [simp]:
  "detach_apply eff v n (s\<lparr>ks_inflight := d\<rparr>) = (detach_apply eff v n s)\<lparr>ks_inflight := d\<rparr>"
  by (cases eff) (simp_all add: after_detach_frame)

lemma detach_apply_keeps [simp]:
  "ks_inflight (detach_apply eff v n s) = ks_inflight s"
  "ks_delete (detach_apply eff v n s) = ks_delete s"
  "ks_gate (detach_apply eff v n s) = ks_gate s"
  "ks_kube (detach_apply eff v n s) = ks_kube s"
  by (cases eff; simp add: after_evict_detach_def after_detach_failed_def
      after_detach_succeeded_def split: prod.split)+

lemma unpublish_ranI:
  assumes "reports ((detach_apply eff v n s)\<lparr>ks_ticks := Suc (ks_ticks s), ks_cloud := c\<rparr>)
      (unpublish_says v n s eff) etype reason msg s'"
    and "did [] (ks_cloud s) c \<or>
      \<not> unpublish_paused C v n s \<and> (\<exists>x. did [EvDetach n v x] (ks_cloud s) c)"
    and "unpublish_answer C v n s eff c r"
  shows "unpublish_ran C v n s r s'"
  unfolding unpublish_ran_def using assms by blast

lemma unpublish_body_wp:
  assumes "wait_ok (ce_cloud C)"
  shows "wp (unpublish_body C v n) (unpublish_ran C v n s) s"
proof -
  define t where "t = unpublish_now C s"
  define k where "k = \<lparr>VolumeID = v, NodeID = n\<rparr>"
  define s1 where "s1 = (after_evict_detach t s)\<lparr>ks_ticks := Suc (ks_ticks s)\<rparr>"
  have cloud1: "ks_cloud s1 = ks_cloud s" by (simp add: s1_def after_detach_frame)
  have probe: "wp (unpublish_probe C v n k t) (unpublish_ran C v n s) s1"
    if "unpublish_paused C v n s"
    unfolding unpublish_probe_def wp_bind wp_in_cloud
  proof (rule wp_mono [OF IsDetachedFrom_wp], goal_cases)
    case (1 r c)
    then have ro: "did [] (ks_cloud s) c" by (simp add: cloud1 ro_did split: prod.splits)
    show ?case
    proof (cases "snd r = None \<and> fst r")
      case True
      with 1 have ev: "detach_evidence (ce_cloud C) n v (ks_cloud s) c"
        by (simp add: cloud1 split: prod.splits)
      have "wp (onDetachSucceeded C v n k t)
          (\<lambda>_. unpublish_ran C v n s (Ok ())) (s1\<lparr>ks_cloud := c\<rparr>)"
      proof (rule wp_mono [OF onDetachSucceeded_wp], goal_cases)
        case (1 u s')
        then show ?case
          by (intro unpublish_ranI [where eff = "ClearedAt t" and c = c])
            (use ro ev in \<open>auto simp: s1_def k_def t_def after_detach_frame unpublish_says_def
              unpublish_answer_def\<close>)
      qed
      with True show ?thesis by simp
    next
      case False
      have "unpublish_ran C v n s (Fail (ErrDetachVolumePaused v n)) (s1\<lparr>ks_cloud := c\<rparr>)"
        by (intro unpublish_ranI [where eff = "Swept t" and c = c])
          (use ro that in \<open>auto simp: s1_def t_def unpublish_says_def unpublish_answer_def\<close>)
      with False show ?thesis by auto
    qed
  qed
  have attempt: "wp (unpublish_attempt C v n k t) (unpublish_ran C v n s) s1"
    if "\<not> unpublish_paused C v n s"
    unfolding unpublish_attempt_def wp_bind wp_in_cloud
  proof (rule wp_mono [OF DetachVolume_wp [OF assms]], goal_cases)
    case (1 r c)
    then have d: "did [] (ks_cloud s) c \<or> (\<exists>x. did [EvDetach n v x] (ks_cloud s) c)"
      and ev: "r = None \<longrightarrow> detach_evidence (ce_cloud C) n v (ks_cloud s) c"
      by (simp_all add: detach_post_def cloud1)
    show ?case
    proof (cases r)
      case None
      have "wp (onDetachSucceeded C v n k t)
          (\<lambda>_. unpublish_ran C v n s (Ok ())) (s1\<lparr>ks_cloud := c\<rparr>)"
      proof (rule wp_mono [OF onDetachSucceeded_wp], goal_cases)
        case (1 u s')
        then show ?case
          by (intro unpublish_ranI [where eff = "ClearedAt t" and c = c])
            (use d ev that None in \<open>auto simp: s1_def k_def t_def after_detach_frame
              unpublish_says_def unpublish_answer_def\<close>)
      qed
      with None show ?thesis by simp
    next
      case (Some e)
      have "wp (onDetachFailed C v n k t e)
          (\<lambda>_. unpublish_ran C v n s (Fail (ErrDetachVolume v n))) (s1\<lparr>ks_cloud := c\<rparr>)"
      proof (rule wp_mono [OF onDetachFailed_wp], goal_cases)
        case (1 u s')
        then show ?case
          by (intro unpublish_ranI [where eff = "FailedAt t e" and c = c])
            (use d that in \<open>auto simp: s1_def k_def t_def after_detach_frame
              unpublish_says_def unpublish_answer_def\<close>)
      qed
      with Some show ?thesis by simp
    qed
  qed
  show ?thesis
    using probe attempt
    by (auto simp: unpublish_body_def Let_def k_def t_def s1_def after_detach_frame
        unpublish_paused_def unpublish_now_def)
qed

definition refused :: "ctl \<Rightarrow> 'r reply \<Rightarrow> ctl \<Rightarrow> bool" where
  "refused s r s' \<longleftrightarrow> s' = s \<and> (\<exists>e. r = Fail e \<and>
     (grpc_code_of e = InvalidArgument \<or> (\<exists>v. e = ErrOperationAlreadyExists v)))"

definition unpublish_post :: "cenv \<Rightarrow> string \<Rightarrow> string \<Rightarrow> ctl \<Rightarrow> unit reply \<Rightarrow> ctl \<Rightarrow> bool" where
  "unpublish_post C v n s r s' \<longleftrightarrow> refused s r s' \<or> unpublish_ran C v n s r s'"

lemma reports_inflight:
  "reports (X\<lparr>ks_inflight := d\<rparr>) says t r m s' \<Longrightarrow>
    ks_inflight s' = d \<and> reports X says t r m (s'\<lparr>ks_inflight := ks_inflight X\<rparr>)"
  unfolding reports_def by (elim exE conjE, hypsubst, intro conjI exI) (auto split: if_splits)

lemma unpublish_ran_inflight:
  assumes "unpublish_ran C v n (s\<lparr>ks_inflight := d\<rparr>) r s'"
  shows "ks_inflight s' = d \<and> unpublish_ran C v n s r (s'\<lparr>ks_inflight := ks_inflight s\<rparr>)"
proof -
  have eqs: "unpublish_now C (s\<lparr>ks_inflight := d\<rparr>) = unpublish_now C s"
    "unpublish_paused C v n (s\<lparr>ks_inflight := d\<rparr>) = unpublish_paused C v n s"
    "unpublish_says v n (s\<lparr>ks_inflight := d\<rparr>) eff = unpublish_says v n s eff" for eff
    by (simp_all add: unpublish_now_def unpublish_paused_def unpublish_says_def after_detach_frame
        split: detach_effect.split)
  then have ans: "unpublish_answer C v n (s\<lparr>ks_inflight := d\<rparr>) eff c r =
      unpublish_answer C v n s eff c r" for eff c
    by (simp add: unpublish_answer_def)
  from assms obtain c eff et re msg where
    rep: "reports ((detach_apply eff v n s)\<lparr>ks_inflight := d, ks_ticks := Suc (ks_ticks s),
        ks_cloud := c\<rparr>) (unpublish_says v n s eff) et re msg s'"
    and cmd: "did [] (ks_cloud s) c \<or>
      \<not> unpublish_paused C v n s \<and> (\<exists>x. did [EvDetach n v x] (ks_cloud s) c)"
    and answer: "unpublish_answer C v n s eff c r"
    unfolding unpublish_ran_def by (simp add: eqs ans) blast
  have "reports (((detach_apply eff v n s)\<lparr>ks_ticks := Suc (ks_ticks s), ks_cloud := c\<rparr>)
      \<lparr>ks_inflight := d\<rparr>) (unpublish_says v n s eff) et re msg s'"
    using rep by (simp add: ctl_commute)
  from reports_inflight [OF this] have "ks_inflight s' = d"
    and rep': "reports ((detach_apply eff v n s)\<lparr>ks_ticks := Suc (ks_ticks s), ks_cloud := c\<rparr>)
      (unpublish_says v n s eff) et re msg (s'\<lparr>ks_inflight := ks_inflight s\<rparr>)" by simp_all
  with unpublish_ranI [OF rep' cmd answer] show ?thesis by blast
qed

lemma validate_unpublish_code:
  "validateControllerUnpublishVolumeRequest v n = Some e \<Longrightarrow> grpc_code_of e = InvalidArgument"
  by (auto simp: validateControllerUnpublishVolumeRequest_def split: if_splits)

lemma ControllerUnpublishVolume_wp:
  assumes "wait_ok (ce_cloud C)"
  shows "wp (ControllerUnpublishVolume C v n) (unpublish_post C v n s) s"
proof (cases "validateControllerUnpublishVolumeRequest v n")
  case (Some e)
  then show ?thesis
    by (simp add: ControllerUnpublishVolume_def unpublish_post_def refused_def validate_unpublish_code)
next
  case None
  have "wp (ctl_guarded (v @ n) (ErrOperationAlreadyExists v) (unpublish_body C v n))
      (unpublish_post C v n s) s"
  proof (rule ctl_guarded_wp, goal_cases)
    case 1
    show ?case
      by (rule wp_mono [OF unpublish_body_wp [OF assms]])
        (auto simp: unpublish_post_def dest: unpublish_ran_inflight)
  next
    case 2
    then show ?case by (simp add: unpublish_post_def refused_def)
  qed
  with None show ?thesis by (simp add: ControllerUnpublishVolume_def)
qed

section \<open>What attach does\<close>

text \<open>
  The path comes from the lookup of the volume's disk id, the last call made: it is the answer, or empty
  where the lookup failed with an error that holds no Go error.
\<close>

definition device_path_read :: "string \<Rightarrow> string \<Rightarrow> cstate \<Rightarrow> cstate \<Rightarrow> bool" where
  "device_path_read v path s s' \<longleftrightarrow> (\<exists>x evs. news s s' = EvUnderId v x # evs \<and>
     (case x of Inr underId \<Rightarrow> path = underId | Inl e \<Rightarrow> path = [] \<and> ie_err e = None))"

text \<open>What an attach RPC that got past the table did.\<close>

definition publish_answer ::
    "cenv \<Rightarrow> string \<Rightarrow> string \<Rightarrow> ctl \<Rightarrow> detach_effect \<Rightarrow> cstate \<Rightarrow> publish_response reply \<Rightarrow> bool" where
  "publish_answer C v n s eff c r \<longleftrightarrow>
     (\<exists>path. r = Ok [DevicePathKey \<mapsto> path] \<and> eff = ClearedAt (ce_now C (ks_ticks s)) \<and>
       device_path_read v path (ks_cloud s) c \<and>
       (\<exists>vol. attached_evidence (ce_cloud C) n v (ks_cloud s) vol c)) \<or>
     (\<exists>e. r = Fail e \<and> eff = NoEffect \<and> e \<in> {ErrAttachVolume v n, ErrFailedToGetDevicePath v n})"

definition publish_ran ::
    "cenv \<Rightarrow> string \<Rightarrow> string \<Rightarrow> ctl \<Rightarrow> publish_response reply \<Rightarrow> ctl \<Rightarrow> bool" where
  "publish_ran C v n s r s' \<longleftrightarrow> (\<exists>c eff says etype reason msg x ms.
     reports ((detach_apply eff v n (s\<lparr>ks_mops := ks_mops s @ ms\<rparr>))
       \<lparr>ks_ticks := x, ks_cloud := c\<rparr>) says etype reason msg s' \<and>
     attach_commands n v (ks_cloud s) c \<and>
     (\<exists>reason. ms = [] \<or> eff = NoEffect \<and> ms = [iaas_error_mop OpAttach reason]) \<and>
     (says \<longrightarrow> etype = Warning) \<and> publish_answer C v n s eff c r)"

lemma publish_ranI:
  assumes "reports ((detach_apply eff v n (s\<lparr>ks_mops := ks_mops s @ ms\<rparr>))
      \<lparr>ks_ticks := x, ks_cloud := c\<rparr>) says etype reason msg s'"
    and "attach_commands n v (ks_cloud s) c"
    and "ms = [] \<or> eff = NoEffect \<and> ms = [iaas_error_mop OpAttach reason']" and "says \<longrightarrow> etype = Warning"
    and "publish_answer C v n s eff c r"
  shows "publish_ran C v n s r s'"
  unfolding publish_ran_def using assms by blast

lemma GetDeviceDiskID_wp:
  "wp (GetDeviceDiskID E v) (\<lambda>d s'. ro s s' \<and> (snd d = None \<longrightarrow> device_path_read v (fst d) s s')) s"
proof -
  have "device_path_read v path s (s1\<lparr>cs_hist := EvUnderId v x # cs_hist s1\<rparr>)"
    if "ro s s1" "case x of Inr underId \<Rightarrow> path = underId | Inl e \<Rightarrow> path = [] \<and> ie_err e = None" for s1 x path
    using that news_trans [OF ro_ext [OF that(1)] ext_call]
    unfolding device_path_read_def by (intro exI [of _ x]) simp
  then show ?thesis
    unfolding GetDeviceDiskID_def wp_bind
    by (intro wp_mono [OF projectClient_wp]) (auto intro: ro_then_call simp: unresolved_def split: sum.splits)
qed

lemma device_path_read_earlier:
  "ext s s1 \<Longrightarrow> ext s1 s2 \<Longrightarrow> device_path_read v path s1 s2 \<Longrightarrow> device_path_read v path s s2"
  unfolding device_path_read_def using news_trans [of s s1 s2] by auto

lemma attach_commands_later:
  "attach_commands i v s s1 \<Longrightarrow> ro s1 s2 \<Longrightarrow> attach_commands i v s s2"
  unfolding attach_commands_def ro_did by (blast intro: did_ro_trans)

lemma attach_commands_ext: "attach_commands i v s s' \<Longrightarrow> ext s s'"
  unfolding attach_commands_def by (blast intro: did_ext)

lemma attached_evidence_earlier:
  "ext s s1 \<Longrightarrow> ext s1 s2 \<Longrightarrow> attached_evidence E i v s vol s1 \<Longrightarrow> attached_evidence E i v s vol s2"
  unfolding attached_evidence_def using news_trans [of s s1 s2] by auto

lemma publish_attached_wp:
  assumes cmds: "attach_commands n v (ks_cloud s) c"
    and ev: "attached_evidence (ce_cloud C) n v (ks_cloud s) vol c"
  shows "wp (publish_attached C v n) (publish_ran C v n s) (s\<lparr>ks_cloud := c\<rparr>)"
proof -
  let ?t = "ce_now C (ks_ticks s)"
  have "wp (GetDeviceDiskID (ce_cloud C) v) (\<lambda>d c'. attach_commands n v (ks_cloud s) c' \<and>
      attached_evidence (ce_cloud C) n v (ks_cloud s) vol c' \<and>
      (snd d = None \<longrightarrow> device_path_read v (fst d) (ks_cloud s) c')) c"
    by (rule wp_mono [OF GetDeviceDiskID_wp])
      (use cmds ev in \<open>blast intro: attach_commands_later attached_evidence_earlier
        attach_commands_ext ro_ext device_path_read_earlier\<close>)
  then have "wp (GetDeviceDiskID (ce_cloud C) v) (\<lambda>d c'.
      publish_ran C v n s (Fail (ErrFailedToGetDevicePath v n)) (s\<lparr>ks_cloud := c'\<rparr>) \<and>
      (snd d = None \<longrightarrow> publish_ran C v n s (Ok [DevicePathKey \<mapsto> fst d])
        (detach_apply (ClearedAt ?t) v n (s\<lparr>ks_cloud := c', ks_ticks := Suc (ks_ticks s)\<rparr>)))) c"
  proof (rule wp_mono, intro conjI impI, goal_cases)
    case (1 d c')
    then show ?case
      by (intro publish_ranI [where eff = NoEffect and c = c' and x = "ks_ticks s"
            and ms = "[]" and says = False]) (auto simp: publish_answer_def)
  next
    case (2 d c')
    then show ?case
      by (intro publish_ranI [where eff = "ClearedAt ?t" and c = c' and x = "Suc (ks_ticks s)"
            and ms = "[]" and says = False])
        (auto simp: publish_answer_def after_detach_frame ctl_commute)
  qed
  then show ?thesis
    unfolding publish_attached_def wp_bind wp_in_cloud
    by (simp add: publish_attached_def) (erule wp_mono,
      auto simp: newControllerPublishVolumeResponse_def split: option.splits)
qed

lemma publish_body_wp:
  assumes "wait_ok (ce_cloud C)"
  shows "wp (publish_body C v n) (publish_ran C v n s) s"
  unfolding publish_body_def wp_bind wp_in_cloud
proof (rule wp_mono [OF AttachVolume_wp [OF assms]], goal_cases)
  case (1 r c)
  then have cmds: "attach_commands n v (ks_cloud s) c"
    and post: "attach_post (ce_cloud C) n v (ks_cloud s) r c" by (simp_all add: attach_done_def)
  show ?case
  proof (cases r)
    case Panic
    with post show ?thesis by (simp add: attach_post_def)
  next
    case (Return res)
    show ?thesis
    proof (cases res)
      case (Inl e)
      have "wp (reportAttachIaaSError C v n (Some e))
          (\<lambda>_. publish_ran C v n s (Fail (ErrAttachVolume v n))) (s\<lparr>ks_cloud := c\<rparr>)"
      proof (rule wp_mono [OF reportAttachIaaSError_wp], goal_cases)
        case (1 u s')
        then show ?case
          by (intro publish_ranI [where eff = NoEffect and c = c and x = "ks_ticks s"
                and ms = "[iaas_error_mop OpAttach (cls_Reason (Classify (Some e)))]"
                and says = True])
            (use cmds in \<open>auto simp: publish_answer_def ctl_commute\<close>)
      qed
      with Return Inl show ?thesis by simp
    next
      case (Inr found)
      with post Return obtain vol where
        ev: "attached_evidence (ce_cloud C) n v (ks_cloud s) vol c" by (auto simp: attach_post_def)
      from publish_attached_wp [OF cmds ev] Return Inr show ?thesis by simp
    qed
  qed
qed

definition publish_post ::
    "cenv \<Rightarrow> string \<Rightarrow> string \<Rightarrow> ctl \<Rightarrow> publish_response reply \<Rightarrow> ctl \<Rightarrow> bool" where
  "publish_post C v n s r s' \<longleftrightarrow> refused s r s' \<or> publish_ran C v n s r s'"

lemma publish_ran_inflight:
  assumes "publish_ran C v n (s\<lparr>ks_inflight := d\<rparr>) r s'"
  shows "ks_inflight s' = d \<and> publish_ran C v n s r (s'\<lparr>ks_inflight := ks_inflight s\<rparr>)"
proof -
  have ans: "publish_answer C v n (s\<lparr>ks_inflight := d\<rparr>) eff c r = publish_answer C v n s eff c r"
    for eff c by (simp add: publish_answer_def)
  have swap: "s\<lparr>ks_inflight := d, ks_mops := m\<rparr> = (s\<lparr>ks_mops := m\<rparr>)\<lparr>ks_inflight := d\<rparr>" for m
    by (simp add: ctl_commute)
  from assms obtain c eff says et re msg x ms reason' where
    rep: "reports ((detach_apply eff v n (s\<lparr>ks_mops := ks_mops s @ ms\<rparr>))\<lparr>ks_inflight := d,
        ks_ticks := x, ks_cloud := c\<rparr>) says et re msg s'"
    and rest: "attach_commands n v (ks_cloud s) c"
      "ms = [] \<or> eff = NoEffect \<and> ms = [iaas_error_mop OpAttach reason']" "says \<longrightarrow> et = Warning"
      "publish_answer C v n s eff c r"
    unfolding publish_ran_def swap by (simp add: ans swap) blast
  have "reports (((detach_apply eff v n (s\<lparr>ks_mops := ks_mops s @ ms\<rparr>))
      \<lparr>ks_ticks := x, ks_cloud := c\<rparr>)\<lparr>ks_inflight := d\<rparr>) says et re msg s'"
    using rep by (simp add: ctl_commute)
  from reports_inflight [OF this] have "ks_inflight s' = d"
    and rep': "reports ((detach_apply eff v n (s\<lparr>ks_mops := ks_mops s @ ms\<rparr>))
      \<lparr>ks_ticks := x, ks_cloud := c\<rparr>) says et re msg (s'\<lparr>ks_inflight := ks_inflight s\<rparr>)" by simp_all
  with publish_ranI [OF rep' rest] show ?thesis by blast
qed

lemma validate_publish_code:
  "validateControllerPublishVolumeRequest v n cap = Some e \<Longrightarrow> grpc_code_of e = InvalidArgument"
  by (auto simp: validateControllerPublishVolumeRequest_def split: if_splits option.splits)

lemma ControllerPublishVolume_wp:
  assumes "wait_ok (ce_cloud C)"
  shows "wp (ControllerPublishVolume C v n cap) (publish_post C v n s) s"
proof (cases "validateControllerPublishVolumeRequest v n cap")
  case (Some e)
  then show ?thesis
    by (simp add: ControllerPublishVolume_def publish_post_def refused_def validate_publish_code)
next
  case None
  have "wp (ctl_guarded (v @ n) (ErrOperationAlreadyExists v) (publish_body C v n))
      (publish_post C v n s) s"
  proof (rule ctl_guarded_wp, goal_cases)
    case 1
    show ?case
      by (rule wp_mono [OF publish_body_wp [OF assms]])
        (auto simp: publish_post_def dest: publish_ran_inflight)
  next
    case 2
    then show ?case by (simp add: publish_post_def refused_def)
  qed
  with None show ?thesis by (simp add: ControllerPublishVolume_def)
qed

end
