(* ===== verification/CtlDelete.thy ===== *)
theory CtlDelete
  imports CtlDetach
begin

text \<open>
  \<open>DeleteVolume\<close> of the controller service (\<^verbatim>\<open>pkg/driver/controller.go\<close>) and what it can do to a
  volume.
\<close>

section \<open>DeleteVolume\<close>

text \<open>\<open>ListSnapshots.Len\<close> and \<open>IsEmpty\<close> of \<^verbatim>\<open>pkg/cloud/entity/snapshot.go\<close>.\<close>

definition ListSnapshots_Len :: "snapshot_page \<Rightarrow> nat" where
  "ListSnapshots_Len s = length (sp_Items s)"

definition ListSnapshots_IsEmpty :: "snapshot_page \<Rightarrow> bool" where
  "ListSnapshots_IsEmpty s \<longleftrightarrow> ListSnapshots_Len s < 1"

definition delete_command :: "cenv \<Rightarrow> string \<Rightarrow> breaker_key \<Rightarrow> int \<Rightarrow> (ctl, unit reply) state" where
  "delete_command C volumeID bkey now = do {
     d \<leftarrow> in_cloud (DeleteVolume (ce_cloud C) volumeID);
     (case d of
        Some ierr \<Rightarrow> do {
          _ \<leftarrow> onDeleteFailed C volumeID bkey now (Some ierr);
          State_Monad.return (Fail (ErrFailedToDeleteVolume volumeID))
        }
      | None \<Rightarrow> do {
          _ \<leftarrow> onDeleteSucceeded C volumeID bkey now;
          State_Monad.return (Ok ())
        })
   }"

definition delete_attempt :: "cenv \<Rightarrow> string \<Rightarrow> breaker_key \<Rightarrow> int \<Rightarrow> (ctl, unit reply) state" where
  "delete_attempt C volumeID bkey now = do {
     r \<leftarrow> in_cloud (ListSnapshots (ce_cloud C) volumeID 1 10);
     (case r of
        Inl ierr \<Rightarrow> do {
          _ \<leftarrow> onDeleteFailed C volumeID bkey now (Some ierr);
          State_Monad.return (Fail (ErrFailedToListSnapshot volumeID))
        }
      | Inr None \<Rightarrow> State_Monad.return Crashed
      | Inr (Some lstSnapshots) \<Rightarrow>
          if \<not> ListSnapshots_IsEmpty lstSnapshots
          then State_Monad.return (Fail (ErrDeleteVolumeHavingSnapshots volumeID))
          else delete_command C volumeID bkey now)
   }"

definition delete_body :: "cenv \<Rightarrow> string \<Rightarrow> (ctl, unit reply) state" where
  "delete_body C volumeID = (let bkey = \<lparr>VolumeID = volumeID, NodeID = ''''\<rparr> in do {
     now \<leftarrow> clock_now C;
     _ \<leftarrow> evictStaleDeleteState now;
     d \<leftarrow> st (\<lambda>s. (Allow (ks_delete s) bkey now, s));
     (if d = ProbeOnly then do {
        p \<leftarrow> probeVolumeDeletable C volumeID;
        (case p of
           (_, Some _) \<Rightarrow> State_Monad.return (Fail (ErrDeleteVolumePaused volumeID))
         | (deletable, None) \<Rightarrow>
             if \<not> deletable then State_Monad.return (Fail (ErrDeleteVolumePaused volumeID))
             else delete_attempt C volumeID bkey now)
      } else delete_attempt C volumeID bkey now)
   })"

definition Controller_DeleteVolume :: "cenv \<Rightarrow> string \<Rightarrow> (ctl, unit reply) state" where
  "Controller_DeleteVolume C volumeID =
     (case validateDeleteVolumeRequest volumeID of
        Some err \<Rightarrow> State_Monad.return (Fail err)
      | None \<Rightarrow> ctl_guarded volumeID (ErrOperationAlreadyExists volumeID) (delete_body C volumeID))"

section \<open>What it does\<close>

datatype delete_effect = DSwept int | DFailedAt int ierror | DClearedAt int

definition dkey :: "string \<Rightarrow> breaker_key" where
  "dkey v = \<lparr>VolumeID = v, NodeID = ''''\<rparr>"

fun delete_apply :: "delete_effect \<Rightarrow> string \<Rightarrow> ctl \<Rightarrow> ctl" where
  "delete_apply (DSwept t) v s = after_evict_delete t s"
| "delete_apply (DFailedAt t e) v s = after_delete_failed v (dkey v) t e (after_evict_delete t s)"
| "delete_apply (DClearedAt t) v s = after_delete_succeeded v (dkey v) (after_evict_delete t s)"

fun delete_time :: "delete_effect \<Rightarrow> int" where
  "delete_time (DSwept t) = t" | "delete_time (DFailedAt t e) = t" | "delete_time (DClearedAt t) = t"

definition delete_paused :: "cenv \<Rightarrow> string \<Rightarrow> ctl \<Rightarrow> bool" where
  "delete_paused C v s \<longleftrightarrow>
     Allow (ks_delete (after_evict_delete (unpublish_now C s) s)) (dkey v) (unpublish_now C s) = ProbeOnly"

definition delete_says :: "string \<Rightarrow> ctl \<Rightarrow> delete_effect \<Rightarrow> bool" where
  "delete_says v s eff =
     (case eff of
        DClearedAt t \<Rightarrow> breaker_tripped (ks_delete (after_evict_delete t s)) (dkey v)
      | DFailedAt t e \<Rightarrow> delete_speaks (ks_delete (after_evict_delete t s)) (dkey v) t e
      | DSwept t \<Rightarrow> False)"

text \<open>
  The answer that shows a volume without snapshots, and the probe that lets a paused delete through:
  a read of the volume, or a failed lookup of the project, whose error may be classified as a missing
  resource too.
\<close>

fun no_snapshots_event :: "string \<Rightarrow> event \<Rightarrow> bool" where
  "no_snapshots_event v (EvListSnapshots p n w (Inr (Some page))) \<longleftrightarrow> w = v \<and> sp_Items page = []"
| "no_snapshots_event v _ \<longleftrightarrow> False"

fun probe_event :: "string \<Rightarrow> event \<Rightarrow> bool" where
  "probe_event v (EvGet w (Inl e)) \<longleftrightarrow>
     w = v \<and> cls_Reason (Classify (Some e)) = ReasonIaaSResourceNotFound"
| "probe_event v (EvGet w (Inr vol)) \<longleftrightarrow> w = v \<and> entity_CanDelete vol"
| "probe_event v (EvPortal p (Inl e)) \<longleftrightarrow> True"
| "probe_event v _ \<longleftrightarrow> False"

text \<open>
  At most the one delete command, and that only after the volume was seen to have no snapshots, to be
  deletable, and, while the breaker is open, after the probe saw it deletable.
\<close>

definition delete_commands :: "cenv \<Rightarrow> string \<Rightarrow> ctl \<Rightarrow> cstate \<Rightarrow> bool" where
  "delete_commands C v s c \<longleftrightarrow> did [] (ks_cloud s) c \<or>
     (\<exists>x. did [EvDelete v x] (ks_cloud s) c) \<and>
     saw (no_snapshots_event v) (ks_cloud s) c \<and> saw (deletable_event (ce_cloud C) v) (ks_cloud s) c \<and>
     (delete_paused C v s \<longrightarrow> saw (probe_event v) (ks_cloud s) c)"

definition delete_answer :: "cenv \<Rightarrow> string \<Rightarrow> ctl \<Rightarrow> delete_effect \<Rightarrow> cstate \<Rightarrow> unit reply \<Rightarrow> bool" where
  "delete_answer C v s eff c r \<longleftrightarrow> delete_time eff = unpublish_now C s \<and>
     (r = Ok () \<and> (\<exists>t. eff = DClearedAt t) \<and> saw (gone_event v) (ks_cloud s) c
        \<and> saw (no_snapshots_event v) (ks_cloud s) c \<or>
      r = Fail (ErrDeleteVolumePaused v) \<and> (\<exists>t. eff = DSwept t) \<and> delete_paused C v s
        \<and> did [] (ks_cloud s) c \<or>
      r \<in> {Crashed, Fail (ErrDeleteVolumeHavingSnapshots v)} \<and> (\<exists>t. eff = DSwept t)
        \<and> did [] (ks_cloud s) c \<or>
      r = Fail (ErrFailedToListSnapshot v) \<and> (\<exists>t e. eff = DFailedAt t e) \<and> did [] (ks_cloud s) c \<or>
      r = Fail (ErrFailedToDeleteVolume v) \<and> (\<exists>t e. eff = DFailedAt t e))"

definition delete_ran :: "cenv \<Rightarrow> string \<Rightarrow> ctl \<Rightarrow> unit reply \<Rightarrow> ctl \<Rightarrow> bool" where
  "delete_ran C v s r s' \<longleftrightarrow> (\<exists>c eff etype reason msg.
     reports ((delete_apply eff v s)\<lparr>ks_ticks := Suc (ks_ticks s), ks_cloud := c\<rparr>)
       (delete_says v s eff) etype reason msg s' \<and>
     delete_commands C v s c \<and> delete_answer C v s eff c r)"

lemma delete_ranI:
  assumes "reports ((delete_apply eff v s)\<lparr>ks_ticks := Suc (ks_ticks s), ks_cloud := c\<rparr>)
      (delete_says v s eff) etype reason msg s'"
    and "delete_commands C v s c" and "delete_answer C v s eff c r"
  shows "delete_ran C v s r s'"
  unfolding delete_ran_def using assms by blast

lemma after_delete_frame:
  "ks_cloud (after_evict_delete t s) = ks_cloud s" "ks_ticks (after_evict_delete t s) = ks_ticks s"
  "after_evict_delete t (s\<lparr>ks_cloud := c\<rparr>) = (after_evict_delete t s)\<lparr>ks_cloud := c\<rparr>"
  "after_evict_delete t (s\<lparr>ks_inflight := d\<rparr>) = (after_evict_delete t s)\<lparr>ks_inflight := d\<rparr>"
  "after_evict_delete t (s\<lparr>ks_ticks := x\<rparr>) = (after_evict_delete t s)\<lparr>ks_ticks := x\<rparr>"
  "after_delete_failed v k t e (s\<lparr>ks_cloud := c\<rparr>) = (after_delete_failed v k t e s)\<lparr>ks_cloud := c\<rparr>"
  "after_delete_failed v k t e (s\<lparr>ks_inflight := d\<rparr>) = (after_delete_failed v k t e s)\<lparr>ks_inflight := d\<rparr>"
  "after_delete_failed v k t e (s\<lparr>ks_ticks := x\<rparr>) = (after_delete_failed v k t e s)\<lparr>ks_ticks := x\<rparr>"
  "after_delete_succeeded v k (s\<lparr>ks_cloud := c\<rparr>) = (after_delete_succeeded v k s)\<lparr>ks_cloud := c\<rparr>"
  "after_delete_succeeded v k (s\<lparr>ks_inflight := d\<rparr>) = (after_delete_succeeded v k s)\<lparr>ks_inflight := d\<rparr>"
  "after_delete_succeeded v k (s\<lparr>ks_ticks := x\<rparr>) = (after_delete_succeeded v k s)\<lparr>ks_ticks := x\<rparr>"
  by (simp_all add: after_evict_delete_def after_delete_failed_def after_delete_succeeded_def
      split: prod.split)

lemma delete_apply_inflight [simp]:
  "delete_apply eff v (s\<lparr>ks_inflight := d\<rparr>) = (delete_apply eff v s)\<lparr>ks_inflight := d\<rparr>"
  by (cases eff) (simp_all add: after_delete_frame)

lemma delete_apply_keeps [simp]:
  "ks_inflight (delete_apply eff v s) = ks_inflight s" "ks_detach (delete_apply eff v s) = ks_detach s"
  "ks_gate (delete_apply eff v s) = ks_gate s" "ks_kube (delete_apply eff v s) = ks_kube s"
  by (cases eff; simp add: after_evict_delete_def after_delete_failed_def
      after_delete_succeeded_def split: prod.split)+

text \<open>The state of the call after the sweep, with the cloud somewhere along a read-only prefix.\<close>

definition delete_at :: "cenv \<Rightarrow> ctl \<Rightarrow> cstate \<Rightarrow> ctl" where
  "delete_at C s c = (after_evict_delete (unpublish_now C s) s)\<lparr>ks_ticks := Suc (ks_ticks s), ks_cloud := c\<rparr>"

lemma delete_at_simps [simp]:
  "ks_cloud (delete_at C s c) = c" "(delete_at C s c)\<lparr>ks_cloud := c'\<rparr> = delete_at C s c'"
  "ks_delete (delete_at C s c) = ks_delete (after_evict_delete (unpublish_now C s) s)"
  by (simp_all add: delete_at_def)

lemma delete_failed_ran:
  assumes "delete_commands C v s c"
    and "r = Fail (ErrFailedToListSnapshot v) \<and> did [] (ks_cloud s) c \<or> r = Fail (ErrFailedToDeleteVolume v)"
  shows "wp (onDeleteFailed C v (dkey v) (unpublish_now C s) (Some e)) (\<lambda>_. delete_ran C v s r)
    (delete_at C s c)"
proof (rule wp_mono [OF onDeleteFailed_wp], goal_cases)
  case (1 u s')
  then obtain reason msg where rep: "reports (after_delete_failed v (dkey v) (unpublish_now C s) e
      (delete_at C s c)) (delete_speaks (ks_delete (delete_at C s c)) (dkey v) (unpublish_now C s) e)
      Warning reason msg s'" by blast
  have "after_delete_failed v (dkey v) (unpublish_now C s) e (delete_at C s c) =
      (delete_apply (DFailedAt (unpublish_now C s) e) v s)\<lparr>ks_ticks := Suc (ks_ticks s), ks_cloud := c\<rparr>"
    by (simp add: delete_at_def after_delete_frame)
  with rep assms show ?case
    by (intro delete_ranI [where eff = "DFailedAt (unpublish_now C s) e" and c = c
          and etype = Warning and reason = reason and msg = msg])
      (auto simp: delete_says_def delete_answer_def)
qed

lemma delete_silent_ran:
  assumes "did [] (ks_cloud s) c"
    and "r = Fail (ErrDeleteVolumePaused v) \<and> delete_paused C v s \<or>
      r \<in> {Crashed, Fail (ErrDeleteVolumeHavingSnapshots v)}"
  shows "delete_ran C v s r (delete_at C s c)"
  using assms
  by (intro delete_ranI [where eff = "DSwept (unpublish_now C s)" and c = c])
    (auto simp: delete_says_def delete_answer_def delete_commands_def delete_at_def)

lemma delete_cleared_ran:
  assumes "delete_commands C v s c" and "saw (gone_event v) (ks_cloud s) c"
    and "saw (no_snapshots_event v) (ks_cloud s) c"
  shows "wp (onDeleteSucceeded C v (dkey v) (unpublish_now C s)) (\<lambda>_. delete_ran C v s (Ok ()))
    (delete_at C s c)"
proof (rule wp_mono [OF onDeleteSucceeded_wp], goal_cases)
  case (1 u s')
  have "after_delete_succeeded v (dkey v) (delete_at C s c) =
      (delete_apply (DClearedAt (unpublish_now C s)) v s)\<lparr>ks_ticks := Suc (ks_ticks s), ks_cloud := c\<rparr>"
    by (simp add: delete_at_def after_delete_frame)
  with 1 assms show ?case
    by (intro delete_ranI [where eff = "DClearedAt (unpublish_now C s)" and c = c])
      (auto simp: delete_says_def delete_answer_def)
qed

text \<open>The snapshot listing: an answer on record, or an error.\<close>

lemma ListSnapshots_wp:
  "wp (ListSnapshots E v p n) (\<lambda>r s'. ro s s' \<and>
    (\<forall>page. r = Inr (Some page) \<longrightarrow> sp_Items page = [] \<longrightarrow> saw (no_snapshots_event v) s s')) s"
  unfolding ListSnapshots_def wp_bind
proof (rule wp_mono [OF projectClient_wp], goal_cases)
  case (1 c s1)
  then have ro1: "ro s s1" by simp
  show ?case
  proof (cases c)
    case (Inl e)
    with ro1 show ?thesis by simp
  next
    case (Inr q)
    let ?r = "api_ListSnapshots E (cs_hist s1) p n v"
    let ?s2 = "s1\<lparr>cs_hist := EvListSnapshots p n v ?r # cs_hist s1\<rparr>"
    have "saw (no_snapshots_event v) s ?s2" if "?r = Inr (Some page)" "sp_Items page = []" for page
      using that ro_ext [OF ro1] by (intro saw_trans [of s s1]) (auto intro: saw_call)
    moreover have "ro s ?s2" by (rule ro_then_call [OF ro1]) simp
    ultimately show ?thesis using Inr by auto
  qed
qed

lemma delete_command_wp:
  assumes ok: "wait_ok (ce_cloud C)" and ro: "ro (ks_cloud s) c"
    and snaps: "saw (no_snapshots_event v) (ks_cloud s) c"
    and probed: "delete_paused C v s \<Longrightarrow> saw (probe_event v) (ks_cloud s) c"
  shows "wp (delete_command C v (dkey v) (unpublish_now C s)) (delete_ran C v s) (delete_at C s c)"
proof -
  have ext0: "ext (ks_cloud s) c" by (rule ro_ext [OF ro])
  have "wp (DeleteVolume (ce_cloud C) v) (\<lambda>d c'. delete_commands C v s c' \<and>
      saw (no_snapshots_event v) (ks_cloud s) c' \<and>
      (d = None \<longrightarrow> saw (gone_event v) (ks_cloud s) c')) c"
  proof (rule wp_mono [OF DeleteVolume_wp [OF ok]], goal_cases)
    case (1 d c')
    then have cmd: "did [] c c' \<or> (\<exists>x. did [EvDelete v x] c c') \<and> saw (deletable_event (ce_cloud C) v) c c'"
      and gone: "d = None \<longrightarrow> saw (gone_event v) c c'" by (auto simp: delete_post_def)
    have ext1: "ext c c'" using cmd by (auto dest: did_ext)
    have later: "saw P (ks_cloud s) c'" if "saw P (ks_cloud s) c \<or> saw P c c'" for P
      by (rule saw_trans [OF ext0 ext1 that])
    have "did cs (ks_cloud s) c'" if "did cs c c'" for cs
      using did_after_ro [OF _ that] ro by (simp add: ro_did)
    with cmd gone snaps probed later show ?case
      unfolding delete_commands_def by blast
  qed
  then show ?thesis
    unfolding delete_command_def wp_bind wp_in_cloud delete_at_simps
  proof (rule wp_mono, goal_cases)
    case (1 d c')
    show ?case
    proof (cases d)
      case None
      with 1 delete_cleared_ran [of C v s c'] show ?thesis by simp
    next
      case (Some e)
      with 1 delete_failed_ran [of C v s c' "Fail (ErrFailedToDeleteVolume v)" e]
      show ?thesis by simp
    qed
  qed
qed

lemma delete_attempt_wp:
  assumes ok: "wait_ok (ce_cloud C)" and ro: "ro (ks_cloud s) c"
    and probed: "delete_paused C v s \<Longrightarrow> saw (probe_event v) (ks_cloud s) c"
  shows "wp (delete_attempt C v (dkey v) (unpublish_now C s)) (delete_ran C v s) (delete_at C s c)"
  unfolding delete_attempt_def wp_bind wp_in_cloud delete_at_simps
proof (rule wp_mono [OF ListSnapshots_wp], goal_cases)
  case (1 r c')
  have ro': "ro (ks_cloud s) c'" using ro 1 by (blast intro: ro_trans)
  then have none: "did [] (ks_cloud s) c'" by (simp add: ro_did)
  have exts: "ext (ks_cloud s) c" "ext c c'" using ro 1 by (auto dest: ro_ext)
  have probed': "saw (probe_event v) (ks_cloud s) c'" if "delete_paused C v s"
    by (rule saw_trans [OF exts]) (use probed [OF that] in blast)
  have snaps: "saw (no_snapshots_event v) (ks_cloud s) c'" if "r = Inr (Some p)" "sp_Items p = []" for p
    by (rule saw_trans [OF exts]) (use 1 that in blast)
  show ?case
  proof (cases r)
    case (Inl e)
    have "delete_commands C v s c'" using none by (simp add: delete_commands_def)
    with Inl none delete_failed_ran [of C v s c' "Fail (ErrFailedToListSnapshot v)" e]
    show ?thesis by simp
  next
    case (Inr found)
    show ?thesis
    proof (cases found)
      case None
      with Inr delete_silent_ran [OF none] show ?thesis by simp
    next
      case (Some p)
      show ?thesis
      proof (cases "sp_Items p = []")
        case True
        with Inr Some delete_command_wp [OF ok ro' snaps probed'] show ?thesis
          by (simp add: ListSnapshots_IsEmpty_def ListSnapshots_Len_def)
      next
        case False
        with Inr Some delete_silent_ran [OF none] show ?thesis
          by (simp add: ListSnapshots_IsEmpty_def ListSnapshots_Len_def)
      qed
    qed
  qed
qed

lemma projectClient_portal:
  "wp (projectClient E) (\<lambda>r s'. ro s s' \<and>
    (\<forall>e. r = Inl e \<longrightarrow> (\<exists>p x. EvPortal p (Inl x) \<in> set (news s s')))) s"
  unfolding projectClient_def
  by (rule cached_get_wp) (auto simp: resolve_project_def portalLookup_def split: sum.splits)

text \<open>Every read is on record, or the project lookup failed and that is on record.\<close>

lemma getVolumeById_recorded:
  "wp (getVolumeById E v) (\<lambda>r s'. ro s s' \<and> (EvGet v r \<in> set (news s s') \<or>
    (\<exists>e p x. r = Inl e \<and> EvPortal p (Inl x) \<in> set (news s s')))) s"
  unfolding getVolumeById_def wp_bind
proof (rule wp_mono [OF projectClient_portal], goal_cases)
  case (1 c s1)
  then have ro1: "ro s s1" by simp
  let ?r = "api_Get E (cs_hist s1) v"
  let ?s2 = "s1\<lparr>cs_hist := EvGet v ?r # cs_hist s1\<rparr>"
  have "ro s ?s2" by (rule ro_then_call [OF ro1]) simp
  moreover have "news s ?s2 = news s1 ?s2 @ news s s1"
    using ro_ext [OF ro1] by (rule news_trans) simp
  ultimately show ?case using 1 by (auto split: sum.splits)
qed

lemma probe_wp:
  "wp (probeVolumeDeletable C v) (\<lambda>p s'. \<exists>c'. s' = s\<lparr>ks_cloud := c'\<rparr> \<and> ro (ks_cloud s) c' \<and>
    (fst p \<longrightarrow> saw (probe_event v) (ks_cloud s) c')) s"
  unfolding probeVolumeDeletable_def wp_bind wp_in_cloud GetVolume_def
proof (rule wp_mono [OF getVolumeById_recorded], goal_cases)
  case (1 r c')
  have portal: "saw (probe_event v) (ks_cloud s) c'" if "EvPortal p (Inl x) \<in> set (news (ks_cloud s) c')" for p x
    using that unfolding saw_def by (intro bexI [of _ "EvPortal p (Inl x)"]) auto
  have get: "saw (probe_event v) (ks_cloud s) c'"
    if "EvGet v r \<in> set (news (ks_cloud s) c')" "probe_event v (EvGet v r)"
    using that unfolding saw_def by blast
  show ?case
    using 1 portal get by (cases r) (auto simp del: ext_caches)
qed

lemma delete_body_wp:
  assumes ok: "wait_ok (ce_cloud C)"
  shows "wp (delete_body C v) (delete_ran C v s) s"
proof -
  let ?t = "unpublish_now C s"
  have start: "(after_evict_delete ?t s)\<lparr>ks_ticks := Suc (ks_ticks s)\<rparr> = delete_at C s (ks_cloud s)"
    by (simp add: delete_at_def after_evict_delete_def)
  have free: "wp (delete_attempt C v (dkey v) ?t) (delete_ran C v s) (delete_at C s (ks_cloud s))"
    if "\<not> delete_paused C v s"
    by (rule delete_attempt_wp [OF ok]) (use that in simp_all)
  have paused: "wp (probeVolumeDeletable C v) (\<lambda>p. wp (case p of
        (_, Some _) \<Rightarrow> State_Monad.return (Fail (ErrDeleteVolumePaused v))
      | (deletable, None) \<Rightarrow>
          if \<not> deletable then State_Monad.return (Fail (ErrDeleteVolumePaused v))
          else delete_attempt C v (dkey v) ?t) (delete_ran C v s)) (delete_at C s (ks_cloud s))"
    if p: "delete_paused C v s"
  proof (rule wp_mono [OF probe_wp], goal_cases)
    case (1 q s')
    then obtain c' where s': "s' = delete_at C s c'" and ro: "ro (ks_cloud s) c'"
      and saw: "fst q \<longrightarrow> saw (probe_event v) (ks_cloud s) c'" by auto
    from ro have none: "did [] (ks_cloud s) c'" by (simp add: ro_did)
    show ?case
      using s' saw p delete_silent_ran [OF none] delete_attempt_wp [OF ok ro]
      by (auto split: prod.splits option.splits)
  qed
  show ?thesis
    using free paused start unfolding unpublish_now_def
    by (auto simp: delete_body_def Let_def dkey_def [symmetric] unpublish_now_def
        delete_paused_def after_delete_frame)
qed

definition delete_rpc_post :: "cenv \<Rightarrow> string \<Rightarrow> ctl \<Rightarrow> unit reply \<Rightarrow> ctl \<Rightarrow> bool" where
  "delete_rpc_post C v s r s' \<longleftrightarrow> refused s r s' \<or> delete_ran C v s r s'"

lemma delete_ran_inflight:
  assumes "delete_ran C v (s\<lparr>ks_inflight := d\<rparr>) r s'"
  shows "ks_inflight s' = d \<and> delete_ran C v s r (s'\<lparr>ks_inflight := ks_inflight s\<rparr>)"
proof -
  have eqs: "unpublish_now C (s\<lparr>ks_inflight := d\<rparr>) = unpublish_now C s"
    "delete_paused C v (s\<lparr>ks_inflight := d\<rparr>) = delete_paused C v s"
    "delete_says v (s\<lparr>ks_inflight := d\<rparr>) eff = delete_says v s eff" for eff
    by (simp_all add: unpublish_now_def delete_paused_def delete_says_def after_delete_frame
        split: delete_effect.split)
  then have ans: "delete_answer C v (s\<lparr>ks_inflight := d\<rparr>) eff c r = delete_answer C v s eff c r"
    "delete_commands C v (s\<lparr>ks_inflight := d\<rparr>) c = delete_commands C v s c" for eff c
    by (simp_all add: delete_answer_def delete_commands_def)
  from assms obtain c eff et re msg where
    rep: "reports ((delete_apply eff v s)\<lparr>ks_inflight := d, ks_ticks := Suc (ks_ticks s),
        ks_cloud := c\<rparr>) (delete_says v s eff) et re msg s'"
    and rest: "delete_commands C v s c" "delete_answer C v s eff c r"
    unfolding delete_ran_def by (simp add: eqs ans) blast
  have "reports (((delete_apply eff v s)\<lparr>ks_ticks := Suc (ks_ticks s), ks_cloud := c\<rparr>)
      \<lparr>ks_inflight := d\<rparr>) (delete_says v s eff) et re msg s'"
    using rep by (simp add: ctl_commute)
  from reports_inflight [OF this] have "ks_inflight s' = d"
    and rep': "reports ((delete_apply eff v s)\<lparr>ks_ticks := Suc (ks_ticks s), ks_cloud := c\<rparr>)
      (delete_says v s eff) et re msg (s'\<lparr>ks_inflight := ks_inflight s\<rparr>)" by simp_all
  with delete_ranI [OF rep' rest] show ?thesis by blast
qed

lemma Controller_DeleteVolume_wp:
  assumes "wait_ok (ce_cloud C)"
  shows "wp (Controller_DeleteVolume C v) (delete_rpc_post C v s) s"
proof (cases "validateDeleteVolumeRequest v")
  case (Some e)
  then have "grpc_code_of e = InvalidArgument"
    by (auto simp: validateDeleteVolumeRequest_def split: if_splits)
  with Some show ?thesis
    by (simp add: Controller_DeleteVolume_def delete_rpc_post_def refused_def)
next
  case None
  have "wp (ctl_guarded v (ErrOperationAlreadyExists v) (delete_body C v)) (delete_rpc_post C v s) s"
  proof (rule ctl_guarded_wp, goal_cases)
    case 1
    show ?case
      by (rule wp_mono [OF delete_body_wp [OF assms]])
        (auto simp: delete_rpc_post_def dest: delete_ran_inflight)
  next
    case 2
    then show ?case by (simp add: delete_rpc_post_def refused_def)
  qed
  with None show ?thesis by (simp add: Controller_DeleteVolume_def)
qed

end
