(* ===== verification/CtlInvariants.thy ===== *)
theory CtlInvariants
  imports CtlDelete
begin

text \<open>
  Invariants of the controller's observable state, over any sequence of attach, detach and delete
  calls: every recorder call has its metric's shape, and the two "pending" gauges have a series
  exactly for the pairs and volumes whose breaker is open.
\<close>

section \<open>Shapes\<close>

definition mops_ok :: "ctl \<Rightarrow> bool" where
  "mops_ok s \<longleftrightarrow> list_all mop_ok (ks_mops s)"

lemmas shape_defs = shape_ok_def metric_shapes_def metric_name_defs label_defs getLabelNames_def

lemma shape_ok_reports [simp]:
  "shape_ok DetachBreakerTrips CounterVec {(LabelReason, reason)}"
  "shape_ok DeleteBreakerTrips CounterVec {(LabelReason, reason)}"
  "shape_ok IaaSErrors CounterVec {(LabelOp, op), (LabelReason, reason)}"
  "shape_ok DetachPendingSeconds GaugeVec (detach_labels v n)"
  "shape_ok DeletePendingSeconds GaugeVec (delete_labels v)"
  by (auto simp: detach_labels_def delete_labels_def shape_defs)

lemma mop_ok_iaas [simp]: "mop_ok (iaas_error_mop op reason)"
  by (simp add: iaas_error_mop_def)

lemma detach_apply_mops_ok: "mops_ok s \<Longrightarrow> mops_ok (detach_apply eff v n s)"
  by (cases eff) (auto simp: mops_ok_def after_evict_detach_def after_detach_failed_def
      after_detach_succeeded_def detach_failed_mops_def list_all_iff split: prod.splits)

lemma delete_apply_mops_ok: "mops_ok s \<Longrightarrow> mops_ok (delete_apply eff v s)"
  by (cases eff) (auto simp: mops_ok_def after_evict_delete_def after_delete_failed_def
      after_delete_succeeded_def delete_failed_mops_def list_all_iff split: prod.splits)

section \<open>Series\<close>

fun mop_name :: "mop \<Rightarrow> string" where
  "mop_name (MIncreaseCount name h l) = name"
| "mop_name (MObserveHistogram name h x l b) = name"
| "mop_name (MSetGauge name h x l) = name"
| "mop_name (MDeleteGauge name l) = name"
| "mop_name (MAddGauge name h d l) = name"
| "mop_name (MInitializeCounter name h l) = name"
| "mop_name (MInitializeGauge name h l) = name"
| "mop_name (MInitializeHistogram name h l b) = name"

text \<open>The series a list of recorder calls leaves, from none.\<close>

definition gauge :: "string \<Rightarrow> labels \<Rightarrow> mop list \<Rightarrow> rat option" where
  "gauge name ls ms = fold (mop_series name ls) ms None"

lemma mop_series_other: "mop_name m \<noteq> name \<Longrightarrow> mop_series name ls m x = x"
  by (cases m) auto

lemma fold_series_other:
  "\<forall>m\<in>set ms. mop_name m \<noteq> name \<Longrightarrow> fold (mop_series name ls) ms x = x"
  by (induction ms arbitrary: x) (auto simp: mop_series_other)

lemma gauge_append_other:
  "\<forall>m\<in>set ms'. mop_name m \<noteq> name \<Longrightarrow> gauge name ls (ms @ ms') = gauge name ls ms"
  by (simp add: gauge_def fold_series_other)

lemma fold_delete_gauges:
  "fold (mop_series name ls) (map (\<lambda>k. MDeleteGauge name (f k)) ks) x =
    (if ls \<in> f ` set ks then None else x)"
  by (induction ks arbitrary: x) auto

lemma gauge_delete_gauges:
  "gauge name ls (ms @ map (\<lambda>k. MDeleteGauge name (f k)) ks) =
    (if ls \<in> f ` set ks then None else gauge name ls ms)"
  by (simp add: gauge_def fold_delete_gauges)

section \<open>Breaker tables with injective keys\<close>

text \<open>
  The breaker's key is the concatenation of the two ids, so it is injective on pairs whose volume ids
  have one length. \<open>keyed P b\<close>: the table is a map, and each entry is filed under its own key, a key
  that satisfies \<open>P\<close>.
\<close>

definition keyed :: "(breaker_key \<Rightarrow> bool) \<Rightarrow> breaker \<Rightarrow> bool" where
  "keyed P b \<longleftrightarrow> wf_alist b \<and>
     (\<forall>k e. map_of b k = Some e \<longrightarrow> k = key_string (be_key e) \<and> P (be_key e))"

definition inj_keys :: "(breaker_key \<Rightarrow> bool) \<Rightarrow> bool" where
  "inj_keys P \<longleftrightarrow> (\<forall>k k'. P k \<longrightarrow> P k' \<longrightarrow> key_string k = key_string k' \<longrightarrow> k = k')"

lemma inj_keys_length: "inj_keys (\<lambda>k. length (VolumeID k) = L)"
  by (auto simp: inj_keys_def intro: key_string_inj)

lemma inj_keys_dkey: "inj_keys (\<lambda>k. NodeID k = '''')"
  by (auto simp: inj_keys_def key_string_def)

lemma keyed_empty: "keyed P NewBreaker"
  by (simp add: keyed_def NewBreaker_def)

lemma keyed_EvictStale: "keyed P b \<Longrightarrow> keyed P (snd (EvictStale b now))"
  by (auto simp: keyed_def map_of_EvictStale split: option.splits if_splits)

lemma keyed_Success: "keyed P b \<Longrightarrow> keyed P (Success b k)"
  by (auto simp: keyed_def map_of_Success split: if_splits)

lemma failure_key: "be_key (snd (failure_entry e t now)) = be_key e"
  by (auto simp: failure_entry_def)

lemma keyed_Failure:
  assumes "keyed P b" and "P k" and "inj_keys P"
  shows "keyed P (snd (Failure b k t now))"
proof -
  have "be_key (failure_touch b k now) = k"
    using assms by (auto simp: failure_touch_def Let_def keyed_def inj_keys_def split: option.splits)
  with assms show ?thesis
    by (auto simp: keyed_def map_of_Failure failure_key split: if_splits)
qed

lemma evicted_keys:
  assumes "keyed P b" and "P k" and "inj_keys P"
  shows "k \<in> set (fst (EvictStale b now)) \<longleftrightarrow>
    map_of b (key_string k) \<noteq> None \<and> map_of (snd (EvictStale b now)) (key_string k) = None"
proof -
  have wf: "wf_alist b" using assms by (simp add: keyed_def)
  have "be_key e = k" if "map_of b (key_string k) = Some e" for e
    using assms that unfolding keyed_def inj_keys_def by metis
  moreover have "kk = key_string (be_key e)" if "map_of b kk = Some e" for kk e
    using assms that by (simp add: keyed_def)
  ultimately show ?thesis
    unfolding EvictStale_keys [OF wf] by (auto; metis)
qed

lemma tripped_EvictStale:
  assumes "wf_alist b"
  shows "breaker_tripped (snd (EvictStale b now)) k \<longleftrightarrow>
    breaker_tripped b k \<and> map_of (snd (EvictStale b now)) (key_string k) \<noteq> None"
  using assms by (auto simp: breaker_tripped_iff map_of_EvictStale split: option.splits if_splits)

lemma tripped_Failure_other:
  "key_string k' \<noteq> key_string k \<Longrightarrow>
    breaker_tripped (snd (Failure b k t now)) k' = breaker_tripped b k'"
  by (simp add: breaker_tripped_iff map_of_Failure)

lemma tripped_Success:
  "breaker_tripped (Success b k) k' \<longleftrightarrow> key_string k' \<noteq> key_string k \<and> breaker_tripped b k'"
  by (auto simp: breaker_tripped_iff map_of_Success)

section \<open>The gauges\<close>

text \<open>\<open>DetachPendingSeconds\<close> over volume ids of one length, \<open>DeletePendingSeconds\<close> over all volumes.\<close>

definition pair_of_length :: "nat \<Rightarrow> breaker_key \<Rightarrow> bool" where
  "pair_of_length L k \<longleftrightarrow> length (VolumeID k) = L"

definition volume_key :: "breaker_key \<Rightarrow> bool" where
  "volume_key k \<longleftrightarrow> NodeID k = ''''"

definition key_labels :: "breaker_key \<Rightarrow> labels" where
  "key_labels k = detach_labels (VolumeID k) (NodeID k)"

definition detach_gauge_inv :: "nat \<Rightarrow> ctl \<Rightarrow> bool" where
  "detach_gauge_inv L s \<longleftrightarrow> keyed (pair_of_length L) (ks_detach s) \<and>
     (\<forall>k. pair_of_length L k \<longrightarrow>
        (gauge DetachPendingSeconds (key_labels k) (ks_mops s) \<noteq> None \<longleftrightarrow>
         breaker_tripped (ks_detach s) k))"

definition delete_gauge_inv :: "ctl \<Rightarrow> bool" where
  "delete_gauge_inv s \<longleftrightarrow> keyed volume_key (ks_delete s) \<and>
     (\<forall>v. gauge DeletePendingSeconds (delete_labels v) (ks_mops s) \<noteq> None \<longleftrightarrow>
        breaker_tripped (ks_delete s) (dkey v))"

lemma inj_pairs: "inj_keys (pair_of_length L)" "inj_keys volume_key"
  using inj_keys_length [of L] inj_keys_dkey by (simp_all add: inj_keys_def pair_of_length_def volume_key_def)

lemma labels_inj [simp]:
  "key_labels k = key_labels k' \<longleftrightarrow> k = k'" "delete_labels v = delete_labels w \<longleftrightarrow> v = w"
  by (cases k; cases k'; auto simp: key_labels_def detach_labels_def label_defs doubleton_eq_iff
      delete_labels_def)+

lemma key_eta [simp]: "\<lparr>VolumeID = VolumeID k, NodeID = NodeID k\<rparr> = k"
  by simp

lemma key_labels_eq [simp]: "detach_labels v n = key_labels \<lparr>VolumeID = v, NodeID = n\<rparr>"
  by (simp add: key_labels_def)

lemma gauge_after_evict_detach:
  assumes "detach_gauge_inv L s"
  shows "detach_gauge_inv L (after_evict_detach t s)"
proof -
  let ?b = "ks_detach s" and ?b' = "snd (EvictStale (ks_detach s) t)"
  have keyed: "keyed (pair_of_length L) ?b" using assms by (simp add: detach_gauge_inv_def)
  have "gauge DetachPendingSeconds (key_labels k) (ks_mops (after_evict_detach t s)) \<noteq> None \<longleftrightarrow>
      breaker_tripped ?b' k" if k: "pair_of_length L k" for k
  proof -
    have "gauge DetachPendingSeconds (key_labels k) (ks_mops (after_evict_detach t s)) =
        (if k \<in> set (fst (EvictStale ?b t)) then None
         else gauge DetachPendingSeconds (key_labels k) (ks_mops s))"
      using gauge_delete_gauges [of DetachPendingSeconds "key_labels k" "ks_mops s" key_labels]
      by (auto simp: after_evict_detach_def image_iff)
    with k assms evicted_keys [OF keyed k inj_pairs(1), of t] show ?thesis
      using tripped_EvictStale [of ?b t k] keyed
      by (auto simp: detach_gauge_inv_def keyed_def breaker_tripped_iff)
  qed
  moreover have "ks_detach (after_evict_detach t s) = ?b'" by (simp add: after_evict_detach_def)
  ultimately show ?thesis
    using keyed_EvictStale [OF keyed, of t] by (simp add: detach_gauge_inv_def)
qed

lemma series_names:
  "mop_name (iaas_error_mop op r) = IaaSErrors"
  "IaaSErrors \<noteq> DetachPendingSeconds" "DetachBreakerTrips \<noteq> DetachPendingSeconds"
  "DeletePendingSeconds \<noteq> DetachPendingSeconds" "DeleteBreakerTrips \<noteq> DetachPendingSeconds"
  "IaaSErrors \<noteq> DeletePendingSeconds" "DetachBreakerTrips \<noteq> DeletePendingSeconds"
  "DetachPendingSeconds \<noteq> DeletePendingSeconds" "DeleteBreakerTrips \<noteq> DeletePendingSeconds"
  by (simp_all add: iaas_error_mop_def metric_name_defs)

lemma gauge_detach_failed_mops:
  "gauge DetachPendingSeconds ls (ms @ detach_failed_mops v n r since fl) =
    (if snd (snd since) \<and> ls = detach_labels v n then Some (seconds (fst since))
     else gauge DetachPendingSeconds ls ms)"
  by (auto simp: gauge_def detach_failed_mops_def iaas_error_mop_def series_names)

lemma gauge_after_detach_failed:
  assumes inv: "detach_gauge_inv L s" and L: "pair_of_length L \<lparr>VolumeID = v, NodeID = n\<rparr>"
  shows "detach_gauge_inv L (after_detach_failed v n \<lparr>VolumeID = v, NodeID = n\<rparr> t e s)"
proof -
  let ?k = "\<lparr>VolumeID = v, NodeID = n\<rparr>"
  let ?s = "after_detach_failed v n ?k t e s"
  let ?b = "snd (failure_of (ks_detach s) ?k t e)"
  have b: "ks_detach ?s = ?b" by (simp add: after_detach_failed_def split: prod.split)
  have keyed: "keyed (pair_of_length L) ?b"
    using inv L inj_pairs(1) by (simp add: failure_of_def detach_gauge_inv_def keyed_Failure)
  have g: "gauge DetachPendingSeconds ls (ks_mops ?s) =
      (if breaker_tripped ?b ?k \<and> ls = key_labels ?k then Some (seconds (fst (Since ?b ?k t)))
       else gauge DetachPendingSeconds ls (ks_mops s))" for ls
    by (simp add: after_detach_failed_def gauge_detach_failed_mops split: prod.split)
  have "gauge DetachPendingSeconds (key_labels k) (ks_mops ?s) \<noteq> None \<longleftrightarrow> breaker_tripped ?b k"
    if k: "pair_of_length L k" for k
  proof (cases "k = ?k")
    case True
    have "breaker_tripped (ks_detach s) ?k \<Longrightarrow> breaker_tripped ?b ?k"
      using brk.fail_tripped by (simp add: failure_of_def breaker_fail_def)
    with True g inv L show ?thesis by (auto simp: detach_gauge_inv_def)
  next
    case False
    then have "key_string k \<noteq> key_string ?k"
      using k L inj_pairs(1) by (auto simp: inj_keys_def)
    with False g inv k show ?thesis
      by (simp add: detach_gauge_inv_def failure_of_def tripped_Failure_other)
  qed
  with keyed b show ?thesis by (simp add: detach_gauge_inv_def)
qed

lemma gauge_after_detach_succeeded:
  assumes inv: "detach_gauge_inv L s" and L: "pair_of_length L \<lparr>VolumeID = v, NodeID = n\<rparr>"
  shows "detach_gauge_inv L (after_detach_succeeded v n \<lparr>VolumeID = v, NodeID = n\<rparr> s)"
proof -
  let ?k = "\<lparr>VolumeID = v, NodeID = n\<rparr>"
  have g: "gauge DetachPendingSeconds ls (ms @ [MDeleteGauge DetachPendingSeconds (key_labels ?k)]) =
      (if ls = key_labels ?k then None else gauge DetachPendingSeconds ls ms)" for ls ms
    by (auto simp: gauge_def)
  have "key_string k = key_string ?k \<longleftrightarrow> k = ?k" if "pair_of_length L k" for k
    using that L inj_pairs(1) by (auto simp: inj_keys_def)
  with inv L g show ?thesis
    by (auto simp: detach_gauge_inv_def after_detach_succeeded_def keyed_Success tripped_Success)
qed

lemma detach_inv_cong:
  "ks_detach s' = ks_detach s \<Longrightarrow> ks_mops s' = ks_mops s @ ms \<Longrightarrow>
    \<forall>m\<in>set ms. mop_name m \<noteq> DetachPendingSeconds \<Longrightarrow> detach_gauge_inv L s \<Longrightarrow> detach_gauge_inv L s'"
  by (simp add: detach_gauge_inv_def gauge_append_other)

lemma delete_inv_cong:
  "ks_delete s' = ks_delete s \<Longrightarrow> ks_mops s' = ks_mops s @ ms \<Longrightarrow>
    \<forall>m\<in>set ms. mop_name m \<noteq> DeletePendingSeconds \<Longrightarrow> delete_gauge_inv s \<Longrightarrow> delete_gauge_inv s'"
  by (simp add: delete_gauge_inv_def gauge_append_other)

lemma detach_apply_inv:
  assumes "detach_gauge_inv L s" and "length v = L"
  shows "detach_gauge_inv L (detach_apply eff v n s)"
proof -
  have L: "pair_of_length L \<lparr>VolumeID = v, NodeID = n\<rparr>" using assms(2) by (simp add: pair_of_length_def)
  show ?thesis
    using assms(1) gauge_after_evict_detach gauge_after_detach_failed [OF _ L]
      gauge_after_detach_succeeded [OF _ L]
    by (cases eff) simp_all
qed

text \<open>The delete side of a state, the same way.\<close>

lemma gauge_after_evict_delete:
  assumes "delete_gauge_inv s"
  shows "delete_gauge_inv (after_evict_delete t s)"
proof -
  let ?b = "ks_delete s"
  have keyed: "keyed volume_key ?b" using assms by (simp add: delete_gauge_inv_def)
  have vk: "volume_key (dkey v)" for v by (simp add: volume_key_def dkey_def)
  have image: "delete_labels v \<in> (\<lambda>k. delete_labels (VolumeID k)) ` set (fst (EvictStale ?b t))
      \<longleftrightarrow> dkey v \<in> set (fst (EvictStale ?b t))" for v
  proof -
    have "k = dkey (VolumeID k)" if "k \<in> set (fst (EvictStale ?b t))" for k
    proof -
      have "volume_key k"
        using that keyed unfolding EvictStale_keys [OF keyed [unfolded keyed_def, THEN conjunct1]]
        by (auto simp: keyed_def)
      then show ?thesis by (simp add: volume_key_def dkey_def)
    qed
    then show ?thesis by (force simp: dkey_def)
  qed
  have "gauge DeletePendingSeconds (delete_labels v) (ks_mops (after_evict_delete t s)) =
      (if dkey v \<in> set (fst (EvictStale ?b t)) then None
       else gauge DeletePendingSeconds (delete_labels v) (ks_mops s))" for v
    unfolding image [symmetric] by (simp add: after_evict_delete_def gauge_delete_gauges
        [where f = "\<lambda>k. delete_labels (VolumeID k)"])
  then show ?thesis
    using assms evicted_keys [OF keyed vk inj_pairs(2), of _ t] tripped_EvictStale [of ?b t]
      keyed_EvictStale [OF keyed, of t] keyed
    by (auto simp: delete_gauge_inv_def keyed_def breaker_tripped_iff after_evict_delete_def)
qed

lemma dkey_string [simp]: "key_string (dkey v) = v"
  by (simp add: key_string_def dkey_def)

lemma gauge_after_delete_failed:
  assumes inv: "delete_gauge_inv s"
  shows "delete_gauge_inv (after_delete_failed v (dkey v) t e s)"
proof -
  let ?s = "after_delete_failed v (dkey v) t e s"
  let ?b = "snd (failure_of (ks_delete s) (dkey v) t e)"
  have b: "ks_delete ?s = ?b" by (simp add: after_delete_failed_def split: prod.split)
  have "volume_key (dkey v)" by (simp add: volume_key_def dkey_def)
  then have keyed: "keyed volume_key ?b"
    using inv inj_pairs(2) by (simp add: failure_of_def delete_gauge_inv_def keyed_Failure)
  have g: "gauge DeletePendingSeconds ls (ks_mops ?s) =
      (if breaker_tripped ?b (dkey v) \<and> ls = delete_labels v then Some (seconds (fst (Since ?b (dkey v) t)))
       else gauge DeletePendingSeconds ls (ks_mops s))" for ls
    by (auto simp: after_delete_failed_def gauge_def delete_failed_mops_def iaas_error_mop_def
        series_names split: prod.split)
  have "gauge DeletePendingSeconds (delete_labels w) (ks_mops ?s) \<noteq> None \<longleftrightarrow> breaker_tripped ?b (dkey w)"
    for w
  proof (cases "w = v")
    case True
    have "breaker_tripped (ks_delete s) (dkey v) \<Longrightarrow> breaker_tripped ?b (dkey v)"
      using brk.fail_tripped by (simp add: failure_of_def breaker_fail_def)
    with True g inv show ?thesis by (auto simp: delete_gauge_inv_def)
  next
    case False
    with g inv show ?thesis
      by (simp add: delete_gauge_inv_def failure_of_def tripped_Failure_other)
  qed
  with keyed b show ?thesis by (simp add: delete_gauge_inv_def)
qed

lemma gauge_after_delete_succeeded:
  assumes "delete_gauge_inv s"
  shows "delete_gauge_inv (after_delete_succeeded v (dkey v) s)"
proof -
  have "gauge DeletePendingSeconds ls (ms @ [MDeleteGauge DeletePendingSeconds (delete_labels v)]) =
      (if ls = delete_labels v then None else gauge DeletePendingSeconds ls ms)" for ls ms
    by (auto simp: gauge_def)
  with assms show ?thesis
    by (auto simp: delete_gauge_inv_def after_delete_succeeded_def keyed_Success tripped_Success)
qed

lemma delete_apply_inv: "delete_gauge_inv s \<Longrightarrow> delete_gauge_inv (delete_apply eff v s)"
  by (cases eff) (simp_all add: gauge_after_evict_delete gauge_after_delete_failed
      gauge_after_delete_succeeded)

section \<open>Each side leaves the other's gauge alone\<close>

lemma detach_apply_other:
  "\<exists>ms. ks_mops (detach_apply eff v n s) = ks_mops s @ ms \<and>
    (\<forall>m\<in>set ms. mop_name m \<noteq> DeletePendingSeconds)"
  by (cases eff) (auto simp: after_evict_detach_def after_detach_failed_def after_detach_succeeded_def
      detach_failed_mops_def series_names split: prod.split)

lemma delete_apply_other:
  "\<exists>ms. ks_mops (delete_apply eff v s) = ks_mops s @ ms \<and>
    (\<forall>m\<in>set ms. mop_name m \<noteq> DetachPendingSeconds)"
  by (cases eff) (auto simp: after_evict_delete_def after_delete_failed_def after_delete_succeeded_def
      delete_failed_mops_def series_names split: prod.split)

text \<open>All that is preserved, together.\<close>

definition ctl_inv :: "nat \<Rightarrow> ctl \<Rightarrow> bool" where
  "ctl_inv L s \<longleftrightarrow> detach_gauge_inv L s \<and> delete_gauge_inv s \<and> mops_ok s"

lemma ctl_inv_detach:
  assumes "ctl_inv L s" and "length v = L"
  shows "ctl_inv L (detach_apply eff v n s)"
proof -
  obtain ms where "ks_mops (detach_apply eff v n s) = ks_mops s @ ms"
    "\<forall>m\<in>set ms. mop_name m \<noteq> DeletePendingSeconds" using detach_apply_other by blast
  then have "delete_gauge_inv (detach_apply eff v n s)"
    using assms(1) by - (rule delete_inv_cong [of _ s ms], simp_all add: ctl_inv_def)
  with assms show ?thesis by (simp add: ctl_inv_def detach_apply_inv detach_apply_mops_ok)
qed

lemma ctl_inv_delete:
  assumes "ctl_inv L s"
  shows "ctl_inv L (delete_apply eff v s)"
proof -
  obtain ms where "ks_mops (delete_apply eff v s) = ks_mops s @ ms"
    "\<forall>m\<in>set ms. mop_name m \<noteq> DetachPendingSeconds" using delete_apply_other by blast
  then have "detach_gauge_inv L (delete_apply eff v s)"
    using assms by - (rule detach_inv_cong [of _ s ms], simp_all add: ctl_inv_def)
  with assms show ?thesis by (simp add: ctl_inv_def delete_apply_inv delete_apply_mops_ok)
qed

text \<open>What the invariant reads: the breakers and the recorder.\<close>

lemma ctl_inv_cong:
  "ks_detach s' = ks_detach s \<Longrightarrow> ks_delete s' = ks_delete s \<Longrightarrow> ks_mops s' = ks_mops s \<Longrightarrow>
    ctl_inv L s' \<longleftrightarrow> ctl_inv L s"
  by (simp add: ctl_inv_def detach_gauge_inv_def delete_gauge_inv_def mops_ok_def)

lemma ctl_inv_mop:
  assumes "ctl_inv L s" and "mop_ok m" and "mop_name m \<noteq> DetachPendingSeconds"
    and "mop_name m \<noteq> DeletePendingSeconds"
  shows "ctl_inv L (s\<lparr>ks_mops := ks_mops s @ [m]\<rparr>)"
proof -
  let ?s = "s\<lparr>ks_mops := ks_mops s @ [m]\<rparr>"
  have "detach_gauge_inv L ?s"
    by (rule detach_inv_cong [of ?s s "[m]"]) (use assms in \<open>simp_all add: ctl_inv_def\<close>)
  moreover have "delete_gauge_inv ?s"
    by (rule delete_inv_cong [of ?s s "[m]"]) (use assms in \<open>simp_all add: ctl_inv_def\<close>)
  ultimately show ?thesis using assms(1,2) by (simp add: ctl_inv_def mops_ok_def)
qed

lemma ctl_inv_reports:
  assumes "ctl_inv L X" and "reports (X\<lparr>ks_ticks := t, ks_cloud := c\<rparr>) says et r m s'"
  shows "ctl_inv L s'"
proof -
  from assms(2) obtain k where s': "s' = X\<lparr>ks_ticks := t, ks_cloud := c, ks_kube := k\<rparr>"
    unfolding reports_def by blast
  have "ctl_inv L s' \<longleftrightarrow> ctl_inv L X" unfolding s' by (rule ctl_inv_cong) simp_all
  with assms(1) show ?thesis by simp
qed

lemma unpublish_inv:
  assumes "ctl_inv L s" and "unpublish_post C v n s r s'" and "length v = L"
  shows "ctl_inv L s'"
  using assms(2) unfolding unpublish_post_def
proof
  assume "refused s r s'"
  with assms(1) show ?thesis by (simp add: refused_def)
next
  assume "unpublish_ran C v n s r s'"
  then show ?thesis
    unfolding unpublish_ran_def
    by (elim exE conjE) (rule ctl_inv_reports [OF ctl_inv_detach [OF assms(1,3)]])
qed

lemma publish_inv:
  assumes "ctl_inv L s" and "publish_post C v n s r s'" and "length v = L"
  shows "ctl_inv L s'"
  using assms(2) unfolding publish_post_def
proof
  assume "refused s r s'"
  with assms(1) show ?thesis by (simp add: refused_def)
next
  assume "publish_ran C v n s r s'"
  then obtain c eff says et re msg x ms reason where
    rep: "reports ((detach_apply eff v n (s\<lparr>ks_mops := ks_mops s @ ms\<rparr>))
      \<lparr>ks_ticks := x, ks_cloud := c\<rparr>) says et re msg s'"
    and ms: "ms = [] \<or> ms = [iaas_error_mop OpAttach reason]"
    unfolding publish_ran_def by blast
  have "ctl_inv L (s\<lparr>ks_mops := ks_mops s @ ms\<rparr>)"
    using ms assms(1) ctl_inv_mop [OF assms(1), of "iaas_error_mop OpAttach reason"]
    by (auto simp: series_names)
  from ctl_inv_reports [OF ctl_inv_detach [OF this assms(3)] rep] show ?thesis .
qed

lemma delete_inv:
  assumes "ctl_inv L s" and "delete_rpc_post C v s r s'"
  shows "ctl_inv L s'"
  using assms(2) unfolding delete_rpc_post_def
proof
  assume "refused s r s'"
  with assms(1) show ?thesis by (simp add: refused_def)
next
  assume "delete_ran C v s r s'"
  then show ?thesis
    unfolding delete_ran_def
    by (elim exE conjE) (rule ctl_inv_reports [OF ctl_inv_delete [OF assms(1)]])
qed

end
