(* ===== verification/VolumeDto.thy ===== *)
theory VolumeDto
  imports CsiApi SdkApi GoStrings
begin

text \<open>
  The create request of \<^verbatim>\<open>pkg/driver/volume_dto.go\<close>: the record the handler fills with one
  \<open>With\<dots>\<close> call after another, the SDK request and the response context it becomes, and the text of the
  request errors the handler puts into events.
\<close>

section \<open>The record and its builders\<close>

datatype create_from = CreateFromNew | CreateFromSnapshot

record CreateVolumeRequest =
  cv_ClusterID :: string
  cv_VolumeTypeID :: string
  cv_VolumeName :: string
  cv_IsMultiAttach :: bool
  cv_VolumeSize :: uint64
  cv_EncryptedAlgorithm :: string
  cv_PvcNameTag :: string
  cv_PvcNamespaceTag :: string
  cv_IsPoc :: bool
  cv_SnapshotID :: string
  cv_CreateFrom :: create_from
  cv_BlockSize :: string
  cv_InodeSize :: string
  cv_BytesPerInode :: string
  cv_NumberOfInodes :: string
  cv_Ext4ClusterSize :: string
  cv_Ext4BigAlloc :: bool
  cv_Zone :: string
  cv_DriverOptions :: "(int \<times> int) option"

definition NewCreateVolumeRequest :: CreateVolumeRequest where
  "NewCreateVolumeRequest = \<lparr>cv_ClusterID = '''', cv_VolumeTypeID = '''', cv_VolumeName = '''',
     cv_IsMultiAttach = False, cv_VolumeSize = 0, cv_EncryptedAlgorithm = '''', cv_PvcNameTag = '''',
     cv_PvcNamespaceTag = '''', cv_IsPoc = False, cv_SnapshotID = '''', cv_CreateFrom = CreateFromNew,
     cv_BlockSize = '''', cv_InodeSize = '''', cv_BytesPerInode = '''', cv_NumberOfInodes = '''',
     cv_Ext4ClusterSize = '''', cv_Ext4BigAlloc = False, cv_Zone = '''', cv_DriverOptions = None\<rparr>"

definition WithZone :: "string \<Rightarrow> CreateVolumeRequest \<Rightarrow> CreateVolumeRequest" where
  "WithZone zone s = s\<lparr>cv_Zone := zone\<rparr>"

definition WithClusterID :: "string \<Rightarrow> CreateVolumeRequest \<Rightarrow> CreateVolumeRequest" where
  "WithClusterID pclusterID s = s\<lparr>cv_ClusterID := pclusterID\<rparr>"

text \<open>The driver options, as far as the request reads them: the two tag lengths.\<close>

definition WithDriverOptions :: "(int \<times> int) option \<Rightarrow> CreateVolumeRequest \<Rightarrow> CreateVolumeRequest" where
  "WithDriverOptions pdo s = (case pdo of None \<Rightarrow> s | Some d \<Rightarrow> s\<lparr>cv_DriverOptions := Some d\<rparr>)"

definition WithVolumeTypeID :: "string \<Rightarrow> CreateVolumeRequest \<Rightarrow> CreateVolumeRequest" where
  "WithVolumeTypeID pvolumeTypeID s =
     (if pvolumeTypeID = '''' then s else s\<lparr>cv_VolumeTypeID := pvolumeTypeID\<rparr>)"

definition WithVolumeName :: "string \<Rightarrow> CreateVolumeRequest \<Rightarrow> CreateVolumeRequest" where
  "WithVolumeName pvolumeName s = s\<lparr>cv_VolumeName := pvolumeName\<rparr>"

definition WithMultiAttach :: "bool \<Rightarrow> CreateVolumeRequest \<Rightarrow> CreateVolumeRequest" where
  "WithMultiAttach pisMultiAttach s = s\<lparr>cv_IsMultiAttach := pisMultiAttach\<rparr>"

definition WithVolumeSize :: "uint64 \<Rightarrow> CreateVolumeRequest \<Rightarrow> CreateVolumeRequest" where
  "WithVolumeSize pvolumeSize s = s\<lparr>cv_VolumeSize := pvolumeSize\<rparr>"

definition WithPvcNameTag :: "string \<Rightarrow> CreateVolumeRequest \<Rightarrow> CreateVolumeRequest" where
  "WithPvcNameTag ppvcNameTag s = s\<lparr>cv_PvcNameTag := ppvcNameTag\<rparr>"

definition WithPvcNamespaceTag :: "string \<Rightarrow> CreateVolumeRequest \<Rightarrow> CreateVolumeRequest" where
  "WithPvcNamespaceTag ppvcNamespaceTag s = s\<lparr>cv_PvcNamespaceTag := ppvcNamespaceTag\<rparr>"

definition WithBlockSize :: "string \<Rightarrow> CreateVolumeRequest \<Rightarrow> CreateVolumeRequest" where
  "WithBlockSize pblockSize s = s\<lparr>cv_BlockSize := pblockSize\<rparr>"

definition WithInodeSize :: "string \<Rightarrow> CreateVolumeRequest \<Rightarrow> CreateVolumeRequest" where
  "WithInodeSize pinodeSize s = s\<lparr>cv_InodeSize := pinodeSize\<rparr>"

definition WithBytesPerInode :: "string \<Rightarrow> CreateVolumeRequest \<Rightarrow> CreateVolumeRequest" where
  "WithBytesPerInode pbytesPerInode s = s\<lparr>cv_BytesPerInode := pbytesPerInode\<rparr>"

definition WithNumberOfInodes :: "string \<Rightarrow> CreateVolumeRequest \<Rightarrow> CreateVolumeRequest" where
  "WithNumberOfInodes pnumberOfInodes s = s\<lparr>cv_NumberOfInodes := pnumberOfInodes\<rparr>"

definition WithExt4BigAlloc :: "bool \<Rightarrow> CreateVolumeRequest \<Rightarrow> CreateVolumeRequest" where
  "WithExt4BigAlloc pext4BigAlloc s = s\<lparr>cv_Ext4BigAlloc := pext4BigAlloc\<rparr>"

definition WithPoc :: "bool \<Rightarrow> CreateVolumeRequest \<Rightarrow> CreateVolumeRequest" where
  "WithPoc pisPoc s = s\<lparr>cv_IsPoc := pisPoc\<rparr>"

definition WithExt4ClusterSize :: "string \<Rightarrow> CreateVolumeRequest \<Rightarrow> CreateVolumeRequest" where
  "WithExt4ClusterSize pext4ClusterSize s = s\<lparr>cv_Ext4ClusterSize := pext4ClusterSize\<rparr>"

definition WithSnapshotID :: "string \<Rightarrow> CreateVolumeRequest \<Rightarrow> CreateVolumeRequest" where
  "WithSnapshotID psnapshotID s =
     (let s = s\<lparr>cv_SnapshotID := psnapshotID\<rparr> in
      if psnapshotID \<noteq> '''' then s\<lparr>cv_CreateFrom := CreateFromSnapshot\<rparr> else s)"

text \<open>\<open>encs\<close> is \<open>EncryptTypeSet\<close>, the SDK's two encryption types.\<close>

definition WithEncrypted :: "string set \<Rightarrow> string \<Rightarrow> CreateVolumeRequest \<Rightarrow> CreateVolumeRequest" where
  "WithEncrypted encs pencrypted s =
     (let p = ToLower (TrimSpace pencrypted) in
      if p \<in> encs then s\<lparr>cv_EncryptedAlgorithm := p\<rparr> else s\<lparr>cv_EncryptedAlgorithm := ''''\<rparr>)"

section \<open>The SDK request\<close>

text \<open>\<open>trunc\<close> is \<open>Truncate\<close> of the joat library.\<close>

definition prepareTag ::
    "(string \<Rightarrow> int \<Rightarrow> string) \<Rightarrow> string \<Rightarrow> string \<Rightarrow> CreateVolumeRequest \<Rightarrow> int \<Rightarrow> int \<Rightarrow> string list" where
  "prepareTag trunc clusterKey productKey s ptkl ptvl =
     (if cv_ClusterID s \<noteq> '''' then [trunc clusterKey ptkl, trunc (cv_ClusterID s) ptvl] else []) @
     [trunc productKey ptkl, ''vks'']"

definition ToSdkCreateVolumeRequest ::
    "(string \<Rightarrow> int \<Rightarrow> string) \<Rightarrow> string \<Rightarrow> string \<Rightarrow> CreateVolumeRequest \<Rightarrow> create_req go" where
  "ToSdkCreateVolumeRequest trunc clusterKey productKey s =
     (case cv_DriverOptions s of
        None \<Rightarrow> Panic
      | Some (tagKeyLength, tagValueLength) \<Rightarrow>
          Return \<lparr>cr_Name = cv_VolumeName s, cr_VolumeTypeId = cv_VolumeTypeID s,
            cr_Size = cv_VolumeSize s, cr_Poc = cv_IsPoc s, cr_Zone = cv_Zone s,
            cr_MultiAttach = cv_IsMultiAttach s, cr_EncryptionType = cv_EncryptedAlgorithm s,
            cr_Tags = prepareTag trunc clusterKey productKey s tagKeyLength tagValueLength,
            cr_Restore = (if cv_SnapshotID s \<noteq> ''''
                          then Some (cv_SnapshotID s, cv_VolumeTypeID s) else None)\<rparr>)"

section \<open>The response context\<close>

fun validateFormattingOption ::
    "capability list \<Rightarrow> string \<Rightarrow> (string \<rightharpoonup> string set) \<Rightarrow> csi_error option" where
  "validateFormattingOption [] paramName fsConfigs = None"
| "validateFormattingOption (c # cs) paramName fsConfigs =
     (if isBlock c
      then Some (StatusInvalidArgument (''Cannot use '' @ paramName @ '' with block volume''))
      else
        (case GetMount c of
           None \<Rightarrow> Some (StatusInvalidArgument ''CreateVolume: mount is nil within volume capability'')
         | Some mountVolume \<Rightarrow>
             if \<not> isParameterSupported fsConfigs (mv_FsType mountVolume) paramName
             then Some (StatusInvalidArgument
               (''Cannot use '' @ paramName @ '' with fstype '' @ mv_FsType mountVolume))
             else validateFormattingOption cs paramName fsConfigs))"

text \<open>One of the six guarded entries: not wanted, or checked and then written.\<close>

fun context_entries ::
    "capability list \<Rightarrow> (bool \<times> string \<times> string) list \<Rightarrow> (string \<rightharpoonup> string)
      \<Rightarrow> csi_error + (string \<rightharpoonup> string)" where
  "context_entries caps [] ctx = Inr ctx"
| "context_entries caps ((wanted, key, val) # es) ctx =
     (if \<not> wanted then context_entries caps es ctx
      else (case validateFormattingOption caps key FileSystemConfigs of
              Some err \<Rightarrow> Inl err
            | None \<Rightarrow> context_entries caps es (ctx(key \<mapsto> val))))"

definition ToResponseContext ::
    "capability list \<Rightarrow> CreateVolumeRequest \<Rightarrow> csi_error + (string \<rightharpoonup> string)" where
  "ToResponseContext pvolCap s = context_entries pvolCap
     [(0 < length (cv_BlockSize s), BlockSizeKey, cv_BlockSize s),
      (0 < length (cv_InodeSize s), InodeSizeKey, cv_InodeSize s),
      (0 < length (cv_BytesPerInode s), BytesPerInodeKey, cv_BytesPerInode s),
      (0 < length (cv_NumberOfInodes s), NumberOfInodesKey, cv_NumberOfInodes s),
      (cv_Ext4BigAlloc s, Ext4BigAllocKey, ''true''),
      (0 < length (cv_Ext4ClusterSize s), Ext4ClusterSizeKey, cv_Ext4ClusterSize s)] Map.empty"

section \<open>The text of a request error\<close>

text \<open>The description of the \<open>InvalidArgument\<close> errors that reach an event; \<open>Error()\<close> prefixes the code.\<close>

fun invalid_argument_desc :: "csi_error \<Rightarrow> string" where
  "invalid_argument_desc ErrVolumeNameNotProvided = ''Volume name not provided''"
| "invalid_argument_desc ErrVolumeCapabilitiesNotProvided = ''Volume capabilities not provided''"
| "invalid_argument_desc ErrVolumeCapabilitiesNotSupported = ''Volume capabilities not supported''"
| "invalid_argument_desc (StatusInvalidArgument m) = m"
| "invalid_argument_desc _ = ''''"

definition Error_text :: "csi_error \<Rightarrow> string" where
  "Error_text e = ''rpc error: code = InvalidArgument desc = '' @ invalid_argument_desc e"

end
