(* ===== verification/CtlCreate.thy ===== *)
theory CtlCreate
  imports CtlState VolumeDto
begin

text \<open>
  \<open>CreateVolume\<close> of \<^verbatim>\<open>pkg/driver/controller.go\<close>: validation, zone and size before the
  in-flight table, the create gate, the parameters and the content source, the claim's annotations, and
  the create request. A context that ends while the create waits at the gate is \<open>ce_ctx_ends\<close>.
\<close>

section \<open>Reports\<close>

definition getCreateVolumeRequestNamespacedName :: "create_volume_request \<Rightarrow> string \<times> string" where
  "getCreateVolumeRequestNamespacedName preq =
     (let params = map_of (cvq_Parameters preq) in
      (go_index params PVCNamespaceKey, go_index params PVCNameKey))"

definition claim_warning :: "cenv \<Rightarrow> string \<times> string \<Rightarrow> string \<Rightarrow> string \<Rightarrow> (ctl, unit) state" where
  "claim_warning C claim reason msg = in_kube
     (PersistentVolumeClaimEventWarning (ce_kube C) (fst claim) (snd claim) reason (Text msg))"

definition reportCreateIaaSError ::
    "cenv \<Rightarrow> create_volume_request \<Rightarrow> ierror option \<Rightarrow> (ctl, unit) state" where
  "reportCreateIaaSError C preq perr = (case perr of
     None \<Rightarrow> State_Monad.return ()
   | Some pierr \<Rightarrow>
     (let cls = Classify (Some pierr) in do {
       _ \<leftarrow> record_metric (iaas_error_mop OpCreate (cls_Reason cls));
       claim_warning C (getCreateVolumeRequestNamespacedName preq) (cls_Reason cls) (ie_msg pierr)
     }))"

section \<open>Zone and size\<close>

fun zone_of_topologies :: "(string \<rightharpoonup> string) list \<Rightarrow> string option" where
  "zone_of_topologies [] = None"
| "zone_of_topologies (segments # ts) =
     (case segments WellKnownZoneTopologyKey of
        Some zone \<Rightarrow> Some zone
      | None \<Rightarrow> (case segments ZoneTopologyKey of Some zone \<Rightarrow> Some zone | None \<Rightarrow> zone_of_topologies ts))"

definition pickAvailabilityZone :: "topology_requirement option \<Rightarrow> string" where
  "pickAvailabilityZone requirement =
     (case requirement of
        None \<Rightarrow> ''''
      | Some r \<Rightarrow>
          (case zone_of_topologies (top_Preferred r) of
             Some zone \<Rightarrow> zone
           | None \<Rightarrow> (case zone_of_topologies (top_Requisite r) of Some zone \<Rightarrow> zone | None \<Rightarrow> '''')))"

definition portal_zone :: "string \<Rightarrow> zone list \<Rightarrow> string" where
  "portal_zone availabilityZone items =
     (case List.find (\<lambda>az. zone_OpenstackZone az = availabilityZone) items of
        Some az \<Rightarrow> zone_Uuid az | None \<Rightarrow> availabilityZone)"

definition required_bytes :: "create_volume_request \<Rightarrow> int64" where
  "required_bytes preq = (case cvq_RequiredBytes preq of None \<Rightarrow> 0 | Some b \<Rightarrow> b)"

text \<open>A failed lookup of the size: reported, and answered with what the error wraps.\<close>

definition size_lookup_failed ::
    "cenv \<Rightarrow> create_volume_request \<Rightarrow> ierror \<Rightarrow> (ctl, string \<times> int64 \<times> csi_error option) state" where
  "size_lookup_failed C preq sdkErr = do {
     _ \<leftarrow> reportCreateIaaSError C preq (Some sdkErr);
     State_Monad.return ('''', 0, map_option Raw (ie_err sdkErr))
   }"

text \<open>The check against the smallest size of the volume type, and the type id before it.\<close>

definition check_type_size ::
    "cenv \<Rightarrow> create_volume_request \<Rightarrow> string \<Rightarrow> (ctl, string \<times> int64 \<times> csi_error option) state" where
  "check_type_size C preq volumeTypeId = (let volSizeBytes = required_bytes preq in do {
     t \<leftarrow> in_cloud (GetVolumeTypeById (ce_cloud C) volumeTypeId);
     (case t of
        Inl sdkErr \<Rightarrow> size_lookup_failed C preq sdkErr
      | Inr volTypeEntity \<Rightarrow> State_Monad.return
          (if sint volSizeBytes < sint (GiBToBytes (vt_MinSize volTypeEntity))
           then (volumeTypeId, 0, Some (ErrVolumeSizeTooSmall (cvq_Name preq) volSizeBytes))
           else (volumeTypeId, volSizeBytes, None)))
   })"

definition check_named_size ::
    "cenv \<Rightarrow> string \<Rightarrow> create_volume_request \<Rightarrow> string
      \<Rightarrow> (ctl, string \<times> int64 \<times> csi_error option) state" where
  "check_named_size C zoneID preq volType = do {
     i \<leftarrow> in_cloud (GetVolumeTypeIdByName (ce_cloud C) zoneID volType);
     (case i of
        Inl sdkErr \<Rightarrow> size_lookup_failed C preq sdkErr
      | Inr volumeTypeId \<Rightarrow> check_type_size C preq volumeTypeId)
   }"

definition getVolSizeBytes ::
    "cenv \<Rightarrow> string \<Rightarrow> create_volume_request \<Rightarrow> (ctl, string \<times> int64 \<times> csi_error option) state" where
  "getVolSizeBytes C zoneID preq =
     (case map_of (cvq_Parameters preq) VolumeTypeKey of
        Some volType \<Rightarrow> check_named_size C zoneID preq volType
      | None \<Rightarrow> do {
          d \<leftarrow> in_cloud (GetDefaultVolumeType (ce_cloud C));
          (case d of
             Inl sdkErr \<Rightarrow> size_lookup_failed C preq sdkErr
           | Inr vt \<Rightarrow> check_named_size C zoneID preq (vt_Id vt))
        })"

section \<open>Parameters\<close>

definition alnum_option ::
    "cenv \<Rightarrow> string \<Rightarrow> string \<Rightarrow> (string \<Rightarrow> CreateVolumeRequest \<Rightarrow> CreateVolumeRequest)
      \<Rightarrow> CreateVolumeRequest \<Rightarrow> csi_error + CreateVolumeRequest" where
  "alnum_option C key pv build cvr =
     (if \<not> ce_alnum C pv then Inl (ErrCanNotParseRequestArguments key pv) else Inr (build pv cvr))"

definition create_param ::
    "cenv \<Rightarrow> string \<Rightarrow> string \<Rightarrow> CreateVolumeRequest \<Rightarrow> csi_error + CreateVolumeRequest" where
  "create_param C pk pv cvr =
     (let k = ToLower pk in
      if k = EncryptedKey then Inr (WithEncrypted (ce_encrypt C) pv cvr)
      else if k = PVCNameKey then Inr (WithPvcNameTag pv cvr)
      else if k = PVCNamespaceKey then Inr (WithPvcNamespaceTag pv cvr)
      else if k = BlockSizeKey then alnum_option C BlockSizeKey pv WithBlockSize cvr
      else if k = InodeSizeKey then alnum_option C InodeSizeKey pv WithInodeSize cvr
      else if k = BytesPerInodeKey then alnum_option C BytesPerInodeKey pv WithBytesPerInode cvr
      else if k = NumberOfInodesKey then alnum_option C NumberOfInodesKey pv WithNumberOfInodes cvr
      else if k = Ext4ClusterSizeKey then alnum_option C Ext4ClusterSizeKey pv WithExt4ClusterSize cvr
      else if k = Ext4BigAllocKey then Inr (WithExt4BigAlloc (pv = ''true'') cvr)
      else if k = IsPoc then Inr (WithPoc (pv = ''true'') cvr)
      else Inr cvr)"

fun create_params ::
    "cenv \<Rightarrow> (string \<times> string) list \<Rightarrow> CreateVolumeRequest \<Rightarrow> csi_error + CreateVolumeRequest" where
  "create_params C [] cvr = Inr cvr"
| "create_params C ((pk, pv) # ps) cvr =
     (case create_param C pk pv cvr of Inl err \<Rightarrow> Inl err | Inr cvr' \<Rightarrow> create_params C ps cvr')"

definition cvr_claim :: "CreateVolumeRequest \<Rightarrow> string \<times> string" where
  "cvr_claim cvr = (cv_PvcNamespaceTag cvr, cv_PvcNameTag cvr)"

definition create_source ::
    "cenv \<Rightarrow> content_source option \<Rightarrow> CreateVolumeRequest
      \<Rightarrow> (ctl, csi_error + CreateVolumeRequest) state" where
  "create_source C volumeSource cvr =
     (case volumeSource of
        None \<Rightarrow> State_Monad.return (Inr cvr)
      | Some VolumeSource \<Rightarrow> do {
          _ \<leftarrow> claim_warning C (cvr_claim cvr) ''CsiVolumeContentSourceNotSupported''
                 ''VolumeContentSource_Snapshot not supported'';
          State_Monad.return (Inl ErrVolumeContentSourceNotSupported)
        }
      | Some (SnapshotSource None) \<Rightarrow> do {
          _ \<leftarrow> claim_warning C (cvr_claim cvr) ''CsiSnapshotNotFound''
                 ''Snapshot is nil within volumeContentSource'';
          State_Monad.return (Inl ErrSnapshotIsNil)
        }
      | Some (SnapshotSource (Some snapshotId)) \<Rightarrow>
          State_Monad.return (Inr (WithSnapshotID snapshotId cvr)))"

section \<open>The answer\<close>

record create_response =
  crs_VolumeId :: string
  crs_CapacityBytes :: int64
  crs_VolumeContext :: "string \<rightharpoonup> string"
  crs_Segments :: "string \<rightharpoonup> string"
  crs_ContentSource :: "string option"

definition newCreateVolumeResponse ::
    "volume \<Rightarrow> string \<Rightarrow> CreateVolumeRequest \<Rightarrow> (string \<rightharpoonup> string) \<Rightarrow> create_response" where
  "newCreateVolumeResponse disk availabilityZone pcvr prespCtx =
     \<lparr>crs_VolumeId = vol_Id disk, crs_CapacityBytes = vol_Size disk * 1024 * 1024 * 1024,
      crs_VolumeContext = prespCtx, crs_Segments = [ZoneTopologyKey \<mapsto> availabilityZone],
      crs_ContentSource = (if cv_SnapshotID pcvr \<noteq> '''' then Some (cv_SnapshotID pcvr) else None)\<rparr>"

section \<open>The handler\<close>

text \<open>From the finished request: the create call and its report.\<close>

definition create_command ::
    "cenv \<Rightarrow> create_volume_request \<Rightarrow> string \<Rightarrow> CreateVolumeRequest \<Rightarrow> (string \<rightharpoonup> string)
      \<Rightarrow> (ctl, create_response reply) state" where
  "create_command C preq availabilityZone cvr respCtx =
     (case ToSdkCreateVolumeRequest (ce_trunc C) VksClusterIdTagKey VksBillingProductTagKey cvr of
        Panic \<Rightarrow> State_Monad.return Crashed
      | Return req \<Rightarrow> do {
          v \<leftarrow> in_cloud (EitherCreateResizeVolume (ce_cloud C) req);
          (case v of
             Inl sdkErr \<Rightarrow> do {
               _ \<leftarrow> reportCreateIaaSError C preq (Some sdkErr);
               State_Monad.return (fail_with (ie_err sdkErr))
             }
           | Inr None \<Rightarrow> State_Monad.return Crashed
           | Inr (Some newVol) \<Rightarrow> do {
               _ \<leftarrow> in_kube (PersistentVolumeClaimEventNormal (ce_kube C) (cv_PvcNamespaceTag cvr)
                      (cv_PvcNameTag cvr) ''CsiCreateVolumeSuccess''
                      (VolumeCreated (vol_Id newVol) (vol_Name newVol)));
               State_Monad.return (Ok (newCreateVolumeResponse newVol availabilityZone cvr respCtx))
             })
        })"

text \<open>From the response context: the claim and its annotations.\<close>

definition create_claim ::
    "cenv \<Rightarrow> create_volume_request \<Rightarrow> string \<Rightarrow> CreateVolumeRequest \<Rightarrow> (string \<rightharpoonup> string)
      \<Rightarrow> (ctl, create_response reply) state" where
  "create_claim C preq availabilityZone cvr respCtx = do {
     p \<leftarrow> in_kube (GetPersistentVolumeClaimByName (ce_kube C) (cv_PvcNamespaceTag cvr) (cv_PvcNameTag cvr));
     (case p of
        Inl ierr \<Rightarrow> do {
          _ \<leftarrow> claim_warning C (cvr_claim cvr) ''CsiGetPersistentVolumeClaimFailure'' (ie_msg ierr);
          State_Monad.return (fail_with (ie_err ierr))
        }
      | Inr claim \<Rightarrow>
          (let cvr = WithVolumeTypeID (GetCsiVolumeTypeAnnotation claim) cvr;
               cvr = (if GetCsiEncryptedAnnotation claim \<noteq> ''''
                      then WithEncrypted (ce_encrypt C) (GetCsiEncryptedAnnotation claim) cvr else cvr)
           in create_command C preq availabilityZone cvr respCtx))
   }"

text \<open>The last builders before the claim is read.\<close>

definition create_fill ::
    "cenv \<Rightarrow> create_volume_request \<Rightarrow> uint64 \<Rightarrow> CreateVolumeRequest \<Rightarrow> CreateVolumeRequest" where
  "create_fill C preq volSizeGiB cvr =
     WithClusterID (ce_clusterID C)
      (WithVolumeTypeID (parseModifyVolumeParameters (cvq_Mutable preq) '''')
        (WithVolumeSize volSizeGiB
          (WithMultiAttach (isMultiAttach (cvq_Caps preq)) (WithVolumeName (cvq_Name preq) cvr))))"

definition create_build ::
    "cenv \<Rightarrow> create_volume_request \<Rightarrow> string \<Rightarrow> int64 \<Rightarrow> CreateVolumeRequest
      \<Rightarrow> (ctl, create_response reply) state" where
  "create_build C preq availabilityZone volSizeBytes cvr = do {
     s \<leftarrow> create_source C (cvq_Source preq) cvr;
     (case s of
        Inl err \<Rightarrow> State_Monad.return (Fail err)
      | Inr cvr \<Rightarrow>
          (case ToResponseContext (cvq_Caps preq) cvr of
             Inl err \<Rightarrow> do {
               _ \<leftarrow> claim_warning C (cvr_claim cvr) ''CsiCreateVolumeRequestInvalid'' (Error_text err);
               State_Monad.return (Fail err)
             }
           | Inr respCtx \<Rightarrow>
               (case RoundUpSize volSizeBytes (1024 * 1024 * 1024) of
                  Panic \<Rightarrow> State_Monad.return Crashed
                | Return volSizeGiB \<Rightarrow>
                    create_claim C preq availabilityZone (create_fill C preq volSizeGiB cvr) respCtx)))
   }"

text \<open>From the parameters on.\<close>

definition create_parse ::
    "cenv \<Rightarrow> create_volume_request \<Rightarrow> string \<Rightarrow> string \<Rightarrow> string \<Rightarrow> int64
      \<Rightarrow> (ctl, create_response reply) state" where
  "create_parse C preq availabilityZone portalZone volumeTypeId volSizeBytes =
     (case create_params C (cvq_Parameters preq)
             (WithVolumeTypeID volumeTypeId (WithZone portalZone
               (WithDriverOptions (Some (ce_tagKeyLength C, ce_tagValueLength C)) NewCreateVolumeRequest))) of
        Inl err \<Rightarrow> State_Monad.return (Fail err)
      | Inr cvr \<Rightarrow> create_build C preq availabilityZone volSizeBytes cvr)"

text \<open>With a slot of the create gate: the existing volume first.\<close>

definition create_slot ::
    "cenv \<Rightarrow> create_volume_request \<Rightarrow> string \<Rightarrow> string \<Rightarrow> string \<Rightarrow> int64
      \<Rightarrow> (ctl, create_response reply) state" where
  "create_slot C preq availabilityZone portalZone volumeTypeId volSizeBytes = do {
     found \<leftarrow> in_cloud (GetVolumeByName (ce_cloud C) (cvq_Name preq));
     (case found of
        Inl serr \<Rightarrow>
          if \<not> IsError serr EcVServerVolumeNotFound then do {
            _ \<leftarrow> reportCreateIaaSError C preq (Some serr);
            State_Monad.return (Fail (ErrFailedToListVolumeByName (cvq_Name preq)))
          } else create_parse C preq availabilityZone portalZone volumeTypeId volSizeBytes
      | Inr _ \<Rightarrow> create_parse C preq availabilityZone portalZone volumeTypeId volSizeBytes)
   }"

text \<open>The gate around it. A release of a slot that is held never blocks.\<close>

definition gate_acquire :: "cenv \<Rightarrow> (ctl, bool) state" where
  "gate_acquire C = st (\<lambda>s. (case Acquire (ce_ctx_ends C (ks_ticks s)) (ks_gate s) of
     (ok, g) \<Rightarrow> (ok, s\<lparr>ks_gate := g\<rparr>)))"

definition gate_release :: "(ctl, unit) state" where
  "gate_release = st (\<lambda>s. ((), case Release (ks_gate s) of
     None \<Rightarrow> s | Some g \<Rightarrow> s\<lparr>ks_gate := g\<rparr>))"

definition create_gated ::
    "cenv \<Rightarrow> create_volume_request \<Rightarrow> string \<Rightarrow> string \<Rightarrow> string \<Rightarrow> int64
      \<Rightarrow> (ctl, create_response reply) state" where
  "create_gated C preq availabilityZone portalZone volumeTypeId volSizeBytes = do {
     _ \<leftarrow> record_metric (MAddGauge CreateGateWaiting CreateGateWaitingHelp 1 {});
     gateStart \<leftarrow> clock_now C;
     ok \<leftarrow> gate_acquire C;
     _ \<leftarrow> record_metric (MAddGauge CreateGateWaiting CreateGateWaitingHelp (- 1) {});
     now \<leftarrow> clock_now C;
     _ \<leftarrow> record_metric (MObserveHistogram CreateGateWaitSeconds CreateGateWaitSecondsHelp
            (seconds (now - gateStart)) {} CreateGateWaitBuckets);
     (if \<not> ok then State_Monad.return (Fail (ErrWaitingForCreateSlot (cvq_Name preq)))
      else do {
        r \<leftarrow> create_slot C preq availabilityZone portalZone volumeTypeId volSizeBytes;
        _ \<leftarrow> gate_release;
        State_Monad.return r
      })
   }"

definition create_sized ::
    "cenv \<Rightarrow> create_volume_request \<Rightarrow> string \<Rightarrow> string \<Rightarrow> (ctl, create_response reply) state" where
  "create_sized C preq availabilityZone portalZone = do {
     r \<leftarrow> getVolSizeBytes C portalZone preq;
     (case r of
        (_, _, Some err) \<Rightarrow> State_Monad.return (Fail (ErrFailedToValidateVolumeSize (cvq_Name preq) err))
      | (volumeTypeId, volSizeBytes, None) \<Rightarrow>
          ctl_guarded (cvq_Name preq) (ErrVolumeIsCreating (cvq_Name preq))
            (create_gated C preq availabilityZone portalZone volumeTypeId volSizeBytes))
   }"

definition CreateVolume :: "cenv \<Rightarrow> create_volume_request \<Rightarrow> (ctl, create_response reply) state" where
  "CreateVolume C preq =
     (case validateCreateVolumeRequest preq of
        Some err \<Rightarrow> do {
          _ \<leftarrow> claim_warning C (getCreateVolumeRequestNamespacedName preq)
                 ''CsiCreateVolumeInvalidRequest'' (Error_text err);
          State_Monad.return (Fail err)
        }
      | None \<Rightarrow> do {
          z \<leftarrow> in_cloud (GetListZones (ce_cloud C));
          (case z of
             Inl serr \<Rightarrow> do {
               _ \<leftarrow> reportCreateIaaSError C preq (Some serr);
               State_Monad.return (fail_with (ie_err serr))
             }
           | Inr listZones \<Rightarrow>
               (let availabilityZone = pickAvailabilityZone (cvq_Topology preq)
                in create_sized C preq availabilityZone (portal_zone availabilityZone listZones)))
        })"

end
