(* ===== verification/CtlFrame.thy ===== *)
theory CtlFrame
  imports CtlInvariants
begin

text \<open>
  What handlers leave alone, as frames: the reads of the cloud client issue no command; a step of the
  controller is \<open>quiet\<close> when it keeps the breakers, the in-flight table and the gate, adds only
  well-shaped recorder calls on other series than the "pending" gauges, and leaves the level of the gauge
  of waiting creates where it was; it is a \<open>lookup\<close> when it moreover issues no command.
\<close>

section \<open>Reads of the cloud client\<close>

lemma did_caches [simp]:
  "did [] s (s'\<lparr>cs_project := a\<rparr>) = did [] s s'" "did [] s (s'\<lparr>cs_zones := b\<rparr>) = did [] s s'"
  "did [] s (s'\<lparr>cs_types := c\<rparr>) = did [] s s'"
  by (simp_all add: did_def)

lemma projectClient_keeps [frames]: "keeps (did []) (projectClient E)"
  unfolding projectClient_def resolve_project_def portalLookup_def by (intro frames) simp_all

lemma reads_keep [frames]:
  "keeps (did []) (getVolumeByName E n)"
  "keeps (did []) (getVolumeById E v)"
  "keeps (did []) (GetListZones E)"
  "keeps (did []) (GetDefaultVolumeType E)"
  "keeps (did []) (lookupVolumeTypeId E z a b c)"
  "keeps (did []) (GetVolumeTypeById E t)"
  "keeps (did []) (ListSnapshots E v p q)"
  "keeps (did []) (GetDeviceDiskID E v)"
  unfolding getVolumeByName_def getVolumeById_def GetListZones_def load_zones_def GetDefaultVolumeType_def
    lookupVolumeTypeId_def GetVolumeTypeById_def ListSnapshots_def GetDeviceDiskID_def
  by (intro frames; simp)+

lemma GetVolumeTypeIdByName_keeps [frames]: "keeps (did []) (GetVolumeTypeIdByName E z n)"
  unfolding GetVolumeTypeIdByName_def Let_def by (intro frames) (simp add: types_entry_def)

lemma volume_reads_keep [frames]:
  "keeps (did []) (GetVolumeByName E n)" "keeps (did []) (GetVolume E v)"
  by (simp_all add: GetVolumeByName_def GetVolume_def frames)

lemma snapshot_walk_keeps [frames]: "keeps (did []) (snapshot_walk E v n page left)"
  by (induction left arbitrary: page) (auto intro!: frames)

lemma GetVolumeSnapshotByName_keeps [frames]: "keeps (did []) (GetVolumeSnapshotByName E v n)"
  unfolding GetVolumeSnapshotByName_def by (intro frames)

text \<open>One more call: its event is news, and it is the next command when it is one.\<close>

lemma did_event: "did cmds s t \<Longrightarrow> did (commands [ev] @ cmds) s (t\<lparr>cs_hist := ev # cs_hist t\<rparr>)"
  by (erule did_trans) (simp add: did_def)

lemma news_event: "ext s t \<Longrightarrow> ev \<in> set (news s (t\<lparr>cs_hist := ev # cs_hist t\<rparr>))"
  by (auto simp: ext_def news_def)

lemma news_mono: "ext s t \<Longrightarrow> ext t u \<Longrightarrow> set (news s t) \<subseteq> set (news s u)"
  using news_trans [of s t u] by auto

lemma news_later: "ext s t \<Longrightarrow> ext t u \<Longrightarrow> set (news t u) \<subseteq> set (news s u)"
  using news_trans [of s t u] by auto

lemma call_wp:
  assumes "did cmds s t"
    and "\<And>x t'. did (commands [ev x] @ cmds) s t' \<Longrightarrow> ev x \<in> set (news s t') \<Longrightarrow> Q x t'"
  shows "wp (api_call ask ev) Q t"
  unfolding wp_api_call
  by (rule assms(2)) (rule did_event [OF assms(1)], rule news_event [OF did_ext [OF assms(1)]])

section \<open>Quiet steps and lookups of the controller\<close>

text \<open>The level of the gauge of waiting creates; no series is level 0.\<close>

definition waiting_level :: "mop list \<Rightarrow> rat" where
  "waiting_level ms = (case gauge CreateGateWaiting {} ms of None \<Rightarrow> 0 | Some x \<Rightarrow> x)"

definition mop_quiet :: "mop \<Rightarrow> bool" where
  "mop_quiet m \<longleftrightarrow> mop_ok m \<and> mop_name m \<noteq> DetachPendingSeconds \<and> mop_name m \<noteq> DeletePendingSeconds"

definition quiet :: "ctl \<Rightarrow> ctl \<Rightarrow> bool" where
  "quiet s s' \<longleftrightarrow> ks_detach s' = ks_detach s \<and> ks_delete s' = ks_delete s \<and>
     ks_inflight s' = ks_inflight s \<and> ks_gate s' = ks_gate s \<and>
     waiting_level (ks_mops s') = waiting_level (ks_mops s) \<and>
     (\<exists>ms. ks_mops s' = ks_mops s @ ms \<and> list_all mop_quiet ms)"

definition lookup :: "ctl \<Rightarrow> ctl \<Rightarrow> bool" where
  "lookup s s' \<longleftrightarrow> quiet s s' \<and> did [] (ks_cloud s) (ks_cloud s')"

lemma quiet_refl [simp]: "quiet s s"
  by (simp add: quiet_def)

lemma quiet_trans: "quiet s t \<Longrightarrow> quiet t u \<Longrightarrow> quiet s u"
  by (fastforce simp: quiet_def)

interpretation qt: state_frame quiet
  by unfold_locales (auto intro: quiet_trans)

interpretation lk: state_frame lookup
  by unfold_locales (auto simp: lookup_def intro: quiet_trans did_after_ro)

lemmas [frames] = qt.keeps_return qt.keeps_bind lk.keeps_return lk.keeps_bind

lemma waiting_level_other:
  "list_all (\<lambda>m. mop_name m \<noteq> CreateGateWaiting) ms' \<Longrightarrow> waiting_level (ms @ ms') = waiting_level ms"
  by (simp add: waiting_level_def gauge_append_other list_all_iff)

lemma lookup_quiet: "keeps lookup m \<Longrightarrow> keeps quiet m"
  by (erule keeps_mono) (simp add: lookup_def)

lemma in_cloud_keeps [frames]:
  assumes "keeps (did []) m"
  shows "keeps lookup (in_cloud m)"
  by (rule keepsI) (simp add: lookup_def quiet_def wp_mono [OF keepsD [OF assms]])

lemma in_cloud_quiet: "keeps quiet (in_cloud m)"
  by (rule keepsI) (auto simp: quiet_def intro: wpI)

lemma in_kube_keeps [frames]: "keeps lookup (in_kube m)"
  by (rule keepsI) (auto simp: lookup_def quiet_def intro: wpI)

lemma clock_now_keeps [frames]: "keeps lookup (clock_now C)"
  by (rule keepsI) (simp add: lookup_def quiet_def)

lemma record_metric_keeps [frames]:
  assumes "mop_quiet m" and "mop_name m \<noteq> CreateGateWaiting"
  shows "keeps lookup (record_metric m)"
  using assms by (intro keepsI) (simp add: lookup_def quiet_def waiting_level_other)

text \<open>Around a quiet body the guard is quiet, and what holds of the cloud's state inside holds outside.\<close>

lemma guarded_wp:
  assumes body: "keeps quiet body" and "P (Fail busy) (ks_cloud s)"
    and "\<And>t. ks_cloud t = ks_cloud s \<Longrightarrow> wp body (\<lambda>r u. P r (ks_cloud u)) t"
  shows "wp (ctl_guarded key busy body) (\<lambda>r u. quiet s u \<and> P r (ks_cloud u)) s"
proof (rule ctl_guarded_wp, goal_cases)
  case 1
  let ?t = "s\<lparr>ks_inflight := (ks_inflight s)(key \<mapsto> True)\<rparr>"
  have "wp body (\<lambda>r u. P r (ks_cloud u)) ?t" by (rule assms(3)) simp
  from wp_mono [OF wp_conj [OF this keepsD [OF body]]] show ?case
    by (simp add: quiet_def)
next
  case 2
  with assms(2) show ?case by simp
qed

lemma guarded_quiet: "keeps quiet body \<Longrightarrow> keeps quiet (ctl_guarded key busy body)"
  by (rule keepsI, rule wp_mono [OF guarded_wp [where P = "\<lambda>r c. True"]]) (auto intro: wpI)

text \<open>A quiet step keeps the invariant of the controller.\<close>

lemma ctl_inv_quiet:
  assumes inv: "ctl_inv L s" and q: "quiet s s'"
  shows "ctl_inv L s'"
proof -
  from q obtain ms where ms: "ks_mops s' = ks_mops s @ ms" "list_all mop_quiet ms"
    and k: "ks_detach s' = ks_detach s" "ks_delete s' = ks_delete s"
    unfolding quiet_def by blast
  have "detach_gauge_inv L s'"
    by (rule detach_inv_cong [OF k(1) ms(1)]) (use inv ms(2) in \<open>auto simp: ctl_inv_def mop_quiet_def list_all_iff\<close>)
  moreover have "delete_gauge_inv s'"
    by (rule delete_inv_cong [OF k(2) ms(1)]) (use inv ms(2) in \<open>auto simp: ctl_inv_def mop_quiet_def list_all_iff\<close>)
  moreover have "mops_ok s'"
    using inv ms by (auto simp: ctl_inv_def mops_ok_def mop_quiet_def list_all_iff)
  ultimately show ?thesis by (simp add: ctl_inv_def)
qed

end
