(* ===== verification/CtlService.thy ===== *)
theory CtlService
  imports CtlState Samples
begin

text \<open>
  The controller service as \<open>newControllerService\<close> builds it, over the cloud client of \<open>NewCloud\<close>, and a
  concrete environment for the witnesses.
\<close>

section \<open>The service\<close>

definition NewCloud :: cstate where
  "NewCloud = \<lparr>cs_hist = [], cs_project = newPermanentMetaCache,
     cs_zones = newMetaCache metaCacheTTL, cs_types = newKeyedMetaCache metaCacheTTL\<rparr>"

definition newControllerService :: "nat \<Rightarrow> ctl" where
  "newControllerService maxConcurrentVolumeCreates =
     \<lparr>ks_cloud = NewCloud, ks_kube = \<lparr>k_reads = 0, k_events = []\<rparr>, ks_inflight = NewInFlight,
      ks_gate = NewSemaphore maxConcurrentVolumeCreates, ks_detach = NewBreaker,
      ks_delete = NewBreaker, ks_mops = [], ks_ticks = 0\<rparr>"

lemma wp_snd: "wp m (\<lambda>r. P) s \<longleftrightarrow> P (snd (run_state m s))"
  by (simp add: wp_def split: prod.split)

section \<open>A concrete environment\<close>

definition sample_kenv :: kenv where
  "sample_kenv = \<lparr>kube_merge = (++),
     kube_GetPvc = (\<lambda>k ns n. Inr (Some \<lparr>pvc_Namespace = ns, pvc_Name = n, pvc_Annotations = Map.empty\<rparr>)),
     kube_GetPv = (\<lambda>k n. Inr (Some \<lparr>pv_Name = n, pv_Handle = Some ''vol-1'', pv_Claim = Some (''ns'', ''pvc'')\<rparr>)),
     kube_ListPv = (\<lambda>k. Inr [\<lparr>pv_Name = ''pv-1'', pv_Handle = Some ''vol-1'', pv_Claim = Some (''ns'', ''pvc'')\<rparr>]),
     kube_GetSc = (\<lambda>k n. Inr None)\<rparr>"

definition sample_cenv :: "bool \<Rightarrow> ierror option \<Rightarrow> cenv" where
  "sample_cenv att refusal = \<lparr>ce_cloud = sample_env att refusal, ce_kube = sample_kenv,
     ce_now = (\<lambda>k. int k * (6 * Minute)), ce_ctx_ends = (\<lambda>k. False), ce_clusterID = ''k8s-1'',
     ce_tagKeyLength = 15, ce_tagValueLength = 255, ce_alnum = (\<lambda>x. True),
     ce_encrypt = {''aes-xts-plain64_128'', ''aes-xts-plain64_256''}, ce_trunc = (\<lambda>x n. take (nat n) x),
     ce_parse_time = (\<lambda>x. Some 0)\<rparr>"

lemma sample_cenv_ok [simp]: "wait_ok (ce_cloud (sample_cenv att refusal))"
  by (simp add: sample_cenv_def sample_wait_ok)

end
