(* ===== verification/CtlCreateSpec.thy ===== *)
theory CtlCreateSpec
  imports CtlCreate CtlFrame CtlService
begin

text \<open>
  What \<open>CreateVolume\<close> does: it keeps the controller's state (the table, the gate, the breakers, the
  level of waiting creates), and issues at most one command, a create or a resize built from the
  request and from the size and zone it looked up.
\<close>

section \<open>The create call of the cloud client\<close>

text \<open>The latest event of a lookup by name is its listing, which answered one volume or did not.\<close>

definition listed_last :: "string \<Rightarrow> volume option \<Rightarrow> history \<Rightarrow> bool" where
  "listed_last n v evs \<longleftrightarrow> (\<exists>x pre. evs = EvListByName n x # pre \<and>
     (case v of Some vol \<Rightarrow> x = Inr [vol] | None \<Rightarrow> \<forall>vol. x \<noteq> Inr [vol]))"

lemma call_last_wp:
  assumes "did [] s t" and "\<not> is_command (ev (ask (cs_hist t)))"
    and "\<And>x t'. did [] s t' \<Longrightarrow> news s t' = ev x # news s t \<Longrightarrow> Q x t'"
  shows "wp (api_call ask ev) Q t"
  unfolding wp_api_call
proof (rule assms(3))
  let ?e = "ev (ask (cs_hist t))"
  show "did [] s (t\<lparr>cs_hist := ?e # cs_hist t\<rparr>)" using did_event [OF assms(1), of ?e] assms(2) by simp
  show "news s (t\<lparr>cs_hist := ?e # cs_hist t\<rparr>) = ?e # news s t"
    using news_trans [OF did_ext [OF assms(1)] ext_call] by simp
qed

lemma getVolumeByName_wp:
  assumes "n \<noteq> ''''"
  shows "wp (getVolumeByName E n) (\<lambda>r s'. did [] s s' \<and>
    (\<forall>vol. r = Inr vol \<longrightarrow> listed_last n (Some vol) (news s s')) \<and>
    (\<forall>e. r = Inl e \<and> IsError e EcVServerVolumeNotFound \<longrightarrow> listed_last n None (news s s'))) s"
  unfolding getVolumeByName_def if_not_P [OF assms] wp_bind
proof (rule wp_mono [OF projectClient_wp], goal_cases)
  case (1 c t)
  then have t: "did [] s t" by (simp add: ro_def)
  show ?case
  proof (cases c)
    case (Inl e)
    with 1 have "\<not> IsError e EcVServerVolumeNotFound"
      by (auto simp: unresolved_def IsError_def)
    with Inl t show ?thesis by simp
  next
    case (Inr p)
    show ?thesis
      unfolding Inr sum.case wp_bind
      by (rule call_last_wp [OF t])
        (auto simp: listed_last_def length_Suc_conv split: sum.split)
  qed
qed

text \<open>
  Right after the listing of its name: a create when the listing did not answer one volume, and
  otherwise the resize of the volume listed, to the larger of the two sizes, when that changes its size
  or its type.
\<close>

definition right_after :: "event \<Rightarrow> event \<Rightarrow> history \<Rightarrow> bool" where
  "right_after e e' evs \<longleftrightarrow> (\<exists>post pre. evs = post @ e' # e # pre)"

definition new_volume :: "create_req \<Rightarrow> ierror + volume \<Rightarrow> history \<Rightarrow> bool" where
  "new_volume rq x evs \<longleftrightarrow> cr_Name rq = '''' \<and> EvCreate rq x \<in> set evs \<or>
     (\<exists>y. right_after (EvListByName (cr_Name rq) y) (EvCreate rq x) evs \<and> (\<forall>vol. y \<noteq> Inr [vol]))"

definition resize_of :: "create_req \<Rightarrow> volume \<Rightarrow> ierror + volume \<Rightarrow> event" where
  "resize_of rq vol = EvResize (cr_VolumeTypeId rq) (vol_Id vol) (max (vol_Size vol) (cr_Size rq))"

definition fits :: "create_req \<Rightarrow> volume \<Rightarrow> bool" where
  "fits rq vol \<longleftrightarrow> cr_Size rq \<le> vol_Size vol \<and> vol_VolumeTypeID vol = cr_VolumeTypeId rq"

definition grown_volume :: "create_req \<Rightarrow> volume \<Rightarrow> ierror + volume \<Rightarrow> history \<Rightarrow> bool" where
  "grown_volume rq vol x evs \<longleftrightarrow>
     right_after (EvListByName (cr_Name rq) (Inr [vol])) (resize_of rq vol x) evs \<and> \<not> fits rq vol"

definition either_commands :: "create_req \<Rightarrow> cstate \<Rightarrow> cstate \<Rightarrow> bool" where
  "either_commands rq s s' \<longleftrightarrow> did [] s s' \<or>
     (\<exists>x. did [EvCreate rq x] s s' \<and> new_volume rq x (news s s')) \<or>
     (\<exists>vol x. did [resize_of rq vol x] s s' \<and> grown_volume rq vol x (news s s'))"

definition made_volume :: "create_req \<Rightarrow> volume \<Rightarrow> history \<Rightarrow> bool" where
  "made_volume rq vol evs \<longleftrightarrow> EvListByName (cr_Name rq) (Inr [vol]) \<in> set evs \<and> fits rq vol \<or>
     new_volume rq (Inr vol) evs \<or> (\<exists>old. grown_volume rq old (Inr vol) evs)"

definition either_post :: "create_req \<Rightarrow> cstate \<Rightarrow> ierror + volume option \<Rightarrow> cstate \<Rightarrow> bool" where
  "either_post rq s r s' \<longleftrightarrow> either_commands rq s s' \<and>
     (\<forall>vol. r = Inr (Some vol) \<longrightarrow> made_volume rq vol (news s s'))"

text \<open>All of it survives later and earlier events.\<close>

lemma right_after_mono: "right_after e e' evs \<Longrightarrow> right_after e e' (post @ evs @ pre)"
  unfolding right_after_def by (metis append.assoc append_Cons)

lemma right_after_here: "right_after e e' (e' # e # pre)"
  unfolding right_after_def by (rule exI [of _ "[]"]) simp

lemma volume_mono:
  "new_volume rq x evs \<Longrightarrow> new_volume rq x (post @ evs @ pre)"
  "grown_volume rq vol x evs \<Longrightarrow> grown_volume rq vol x (post @ evs @ pre)"
  "made_volume rq vol evs \<Longrightarrow> made_volume rq vol (post @ evs @ pre)"
  unfolding made_volume_def new_volume_def grown_volume_def using right_after_mono by fastforce+

definition found_by_name :: "create_req \<Rightarrow> cstate \<Rightarrow> ierror + volume option \<Rightarrow> cstate \<Rightarrow> bool" where
  "found_by_name rq s f t \<longleftrightarrow> did [] s t \<and>
     (\<forall>v. f = Inr v \<longrightarrow> v = None \<and> cr_Name rq = '''' \<or> listed_last (cr_Name rq) v (news s t))"

lemma listed_last_after: "listed_last n v evs \<Longrightarrow> listed_last n v (evs @ pre)"
  by (auto simp: listed_last_def)

lemma find_volume_wp:
  assumes "did [] s t0"
  shows "wp (if cr_Name rq \<noteq> '''' then do {
       r \<leftarrow> getVolumeByName E (cr_Name rq);
       State_Monad.return (case r of
          Inl serr \<Rightarrow> if \<not> IsError serr EcVServerVolumeNotFound then Inl serr else Inr None
        | Inr vol \<Rightarrow> Inr (Some vol))
     } else State_Monad.return (Inr None)) (found_by_name rq s) t0"
proof (cases "cr_Name rq = ''''")
  case True
  with assms show ?thesis by (simp add: found_by_name_def)
next
  case False
  have "found_by_name rq s (case r of
        Inl serr \<Rightarrow> if \<not> IsError serr EcVServerVolumeNotFound then Inl serr else Inr None
      | Inr vol \<Rightarrow> Inr (Some vol)) t"
    if "did [] t0 t" "\<forall>vol. r = Inr vol \<longrightarrow> listed_last (cr_Name rq) (Some vol) (news t0 t)"
      "\<forall>e. r = Inl e \<and> IsError e EcVServerVolumeNotFound \<longrightarrow> listed_last (cr_Name rq) None (news t0 t)" for r t
    using that did_after_ro [OF assms that(1)] news_trans [OF did_ext [OF assms] did_ext [OF that(1)]]
    by (auto simp: found_by_name_def listed_last_after split: sum.splits if_splits)
  then have "wp (getVolumeByName E (cr_Name rq)) (\<lambda>r. found_by_name rq s (case r of
        Inl serr \<Rightarrow> if \<not> IsError serr EcVServerVolumeNotFound then Inl serr else Inr None
      | Inr vol \<Rightarrow> Inr (Some vol))) t0"
    by (intro wp_mono [OF getVolumeByName_wp [OF False]]) blast
  with False show ?thesis by simp
qed

text \<open>The command that follows the listing.\<close>

lemma create_after:
  assumes "found_by_name rq s (Inr None) t" and "news s t' = EvCreate rq x # news s t"
  shows "new_volume rq x (news s t')"
  using assms right_after_here unfolding found_by_name_def listed_last_def new_volume_def by fastforce

lemma resize_after:
  assumes "found_by_name rq s (Inr (Some vol)) t" and "news s t' = resize_of rq vol x # news s t"
    and "\<not> fits rq vol"
  shows "grown_volume rq vol x (news s t')"
  using assms right_after_here unfolding found_by_name_def listed_last_def grown_volume_def by fastforce

lemma command_last_wp:
  assumes "did [] s t"
    and "\<And>x t'. did (commands [ev x]) s t' \<Longrightarrow> news s t' = ev x # news s t \<Longrightarrow> Q x t'"
  shows "wp (api_call ask ev) Q t"
  unfolding wp_api_call
proof (rule assms(2))
  let ?e = "ev (ask (cs_hist t))"
  show "did (commands [?e]) s (t\<lparr>cs_hist := ?e # cs_hist t\<rparr>)" using did_event [OF assms(1), of ?e] by simp
  show "news s (t\<lparr>cs_hist := ?e # cs_hist t\<rparr>) = ?e # news s t"
    using news_trans [OF did_ext [OF assms(1)] ext_call] by simp
qed

lemma fits_iff:
  "vol_Size vol \<noteq> max (vol_Size vol) (cr_Size rq) \<or> vol_VolumeTypeID vol \<noteq> cr_VolumeTypeId rq \<longleftrightarrow> \<not> fits rq vol"
  by (auto simp: fits_def max_def)

lemma EitherCreateResizeVolume_wp: "wp (EitherCreateResizeVolume E rq) (either_post rq s) s"
  unfolding EitherCreateResizeVolume_def
proof (rule rd.keeps_then [OF projectClient_keeps], goal_cases)
  case (1 c t0)
  show ?case
  proof (cases c)
    case (Inl e)
    with 1 show ?thesis by (simp add: either_post_def either_commands_def)
  next
    case (Inr p)
    show ?thesis
      unfolding Inr sum.case
    proof (subst wp_bind, rule wp_mono [OF find_volume_wp [OF 1]], goal_cases)
      case (1 f t)
      then have t: "did [] s t" by (simp add: found_by_name_def)
      consider (err) e where "f = Inl e" | (new) "f = Inr None" | (old) vol where "f = Inr (Some vol)"
        by (cases f; cases "projr f") auto
      then show ?case
      proof cases
        case err
        with t show ?thesis by (simp add: either_post_def either_commands_def)
      next
        case new
        note after = create_after [OF 1 [unfolded new]]
        show ?thesis
          unfolding new sum.case option.case wp_bind
          by (rule command_last_wp [OF t], frule after)
            (auto simp: either_post_def either_commands_def made_volume_def split: sum.split)
      next
        case (old vol)
        have "wp (do {
            r \<leftarrow> api_call (\<lambda>h. api_Resize E h (cr_VolumeTypeId rq) (vol_Id vol)
                     (max (vol_Size vol) (cr_Size rq))) (resize_of rq vol);
            State_Monad.return (case r of
               Inl sdkErr \<Rightarrow>
                 if IsError sdkErr EcVServerVolumeUnchanged then Inr None else Inl sdkErr
             | Inr tmpVol \<Rightarrow> Inr (Some tmpVol))
          }) (either_post rq s) t" if "\<not> fits rq vol"
          unfolding wp_bind
        proof (rule command_last_wp [OF t], goal_cases)
          case (1 x t')
          from resize_after [OF \<open>found_by_name rq s f t\<close> [unfolded old] 1(2) that] 1(1) show ?case
            by (auto simp: either_post_def either_commands_def made_volume_def resize_of_def
                split: sum.split)
        qed
        with 1 t show ?thesis
          unfolding old sum.case option.case Let_def fits_iff
          by (auto simp: either_post_def either_commands_def made_volume_def found_by_name_def
              listed_last_def resize_of_def)
      qed
    qed
  qed
qed

section \<open>What the builders keep\<close>

lemmas builder_defs = WithZone_def WithClusterID_def WithDriverOptions_def WithVolumeTypeID_def
  WithVolumeName_def WithMultiAttach_def WithVolumeSize_def WithPvcNameTag_def WithPvcNamespaceTag_def
  WithBlockSize_def WithInodeSize_def WithBytesPerInode_def WithNumberOfInodes_def WithExt4BigAlloc_def
  WithPoc_def WithExt4ClusterSize_def WithSnapshotID_def WithEncrypted_def

definition snapshot_of :: "content_source option \<Rightarrow> string" where
  "snapshot_of src = (case src of Some (SnapshotSource (Some i)) \<Rightarrow> i | _ \<Rightarrow> '''')"

text \<open>The last value of a parameter, its name read without case, and the claim the parameters name.\<close>

fun named_param :: "string \<Rightarrow> (string \<times> string) list \<Rightarrow> string \<Rightarrow> string" where
  "named_param key [] d = d"
| "named_param key ((pk, pv) # ps) d = named_param key ps (if ToLower pk = key then pv else d)"

definition named_claim :: "create_volume_request \<Rightarrow> string \<times> string" where
  "named_claim preq = (named_param PVCNamespaceKey (cvq_Parameters preq) '''',
     named_param PVCNameKey (cvq_Parameters preq) '''')"

text \<open>
  The volume type a command asks for: the annotation of that claim, as the cluster answered it, or else
  the mutable parameter, or else the type whose smallest size was checked.
\<close>

definition or_else :: "string \<Rightarrow> string \<Rightarrow> string" where
  "or_else a b = (if a = '''' then b else a)"

definition typed_as :: "cenv \<Rightarrow> create_volume_request \<Rightarrow> string \<Rightarrow> string \<Rightarrow> bool" where
  "typed_as C preq checked t \<longleftrightarrow> (\<exists>k claim.
     kube_GetPvc (ce_kube C) k (fst (named_claim preq)) (snd (named_claim preq)) = Inr (Some claim) \<and>
     t = or_else (GetCsiVolumeTypeAnnotation claim)
           (or_else (parseModifyVolumeParameters (cvq_Mutable preq) '''') checked))"

text \<open>Zone, type, tag lengths, snapshot and a known encryption type, whatever the parameters were.\<close>

definition cvr_ready :: "cenv \<Rightarrow> string \<Rightarrow> string \<Rightarrow> string \<Rightarrow> CreateVolumeRequest \<Rightarrow> bool" where
  "cvr_ready C portalZone typ snapshotId cvr \<longleftrightarrow> cv_Zone cvr = portalZone \<and> cv_VolumeTypeID cvr = typ \<and>
     cv_SnapshotID cvr = snapshotId \<and>
     cv_DriverOptions cvr \<noteq> None \<and> cv_EncryptedAlgorithm cvr \<in> insert '''' (ce_encrypt C)"

lemma create_param_ready:
  "create_param C pk pv cvr = Inr cvr' \<Longrightarrow> cvr_ready C z t i cvr \<Longrightarrow> cvr_ready C z t i cvr'"
  by (auto simp: create_param_def alnum_option_def builder_defs cvr_ready_def Let_def split: if_splits)

lemma create_params_ready:
  "create_params C ps cvr = Inr cvr' \<Longrightarrow> cvr_ready C z t i cvr \<Longrightarrow> cvr_ready C z t i cvr'"
proof (induction ps arbitrary: cvr)
  case Nil
  then show ?case by simp
next
  case (Cons p ps)
  then show ?case
    by (cases p) (auto split: sum.splits dest: create_param_ready)
qed

lemma create_param_claim:
  "create_param C pk pv cvr = Inr cvr' \<Longrightarrow> cvr_claim cvr' =
     (if ToLower pk = PVCNamespaceKey then pv else cv_PvcNamespaceTag cvr,
      if ToLower pk = PVCNameKey then pv else cv_PvcNameTag cvr)"
  by (auto simp: create_param_def alnum_option_def builder_defs cvr_claim_def Let_def EncryptedKey_def
      PVCNameKey_def PVCNamespaceKey_def split: if_splits)

lemma create_params_claim:
  "create_params C ps cvr = Inr cvr' \<Longrightarrow> cvr_claim cvr' =
     (named_param PVCNamespaceKey ps (cv_PvcNamespaceTag cvr), named_param PVCNameKey ps (cv_PvcNameTag cvr))"
proof (induction ps arbitrary: cvr)
  case Nil
  then show ?case by (simp add: cvr_claim_def)
next
  case (Cons p ps)
  obtain pk pv where p: "p = (pk, pv)" by (cases p)
  with Cons.prems obtain cvr1 where 1: "create_param C pk pv cvr = Inr cvr1" "create_params C ps cvr1 = Inr cvr'"
    by (auto split: sum.splits)
  have "cv_PvcNamespaceTag cvr1 = (if ToLower pk = PVCNamespaceKey then pv else cv_PvcNamespaceTag cvr)"
    "cv_PvcNameTag cvr1 = (if ToLower pk = PVCNameKey then pv else cv_PvcNameTag cvr)"
    using create_param_claim [OF 1(1)] by (simp_all add: cvr_claim_def)
  with Cons.IH [OF 1(2)] p show ?case by simp
qed

definition create_matches ::
    "cenv \<Rightarrow> create_volume_request \<Rightarrow> string \<Rightarrow> string \<Rightarrow> int64 \<Rightarrow> create_req \<Rightarrow> bool" where
  "create_matches C preq portalZone checked bytes rq \<longleftrightarrow>
     cr_Name rq = cvq_Name preq \<and> RoundUpSize bytes GiB = Return (cr_Size rq) \<and>
     typed_as C preq checked (cr_VolumeTypeId rq) \<and>
     cr_Zone rq = portalZone \<and> cr_MultiAttach rq = isMultiAttach (cvq_Caps preq) \<and>
     cr_EncryptionType rq \<in> insert '''' (ce_encrypt C) \<and>
     (case cr_Restore rq of None \<Rightarrow> snapshot_of (cvq_Source preq) = ''''
      | Some (i, t) \<Rightarrow> i = snapshot_of (cvq_Source preq) \<and> t = cr_VolumeTypeId rq)"

text \<open>A request built up to its size.\<close>

definition cvr_full ::
    "cenv \<Rightarrow> create_volume_request \<Rightarrow> string \<Rightarrow> string \<Rightarrow> int64 \<Rightarrow> CreateVolumeRequest \<Rightarrow> bool" where
  "cvr_full C preq portalZone typ bytes cvr \<longleftrightarrow>
     cvr_ready C portalZone typ (snapshot_of (cvq_Source preq)) cvr \<and> cv_VolumeName cvr = cvq_Name preq \<and>
     RoundUpSize bytes GiB = Return (cv_VolumeSize cvr) \<and>
     cv_IsMultiAttach cvr = isMultiAttach (cvq_Caps preq)"

lemma create_fill_full:
  assumes "cvr_ready C pz typ (snapshot_of (cvq_Source preq)) cvr"
    and "RoundUpSize bytes (1024 * 1024 * 1024) = Return n"
  shows "cvr_full C preq pz (or_else (parseModifyVolumeParameters (cvq_Mutable preq) '''') typ) bytes
      (create_fill C preq n cvr)"
    and "cvr_claim (create_fill C preq n cvr) = cvr_claim cvr"
  using assms by (auto simp: cvr_full_def cvr_ready_def cvr_claim_def create_fill_def builder_defs GiB_def
      or_else_def)

lemma annotated_full:
  "cvr_full C preq pz typ bytes cvr \<Longrightarrow>
     cvr_full C preq pz (or_else t typ) bytes (WithVolumeTypeID t cvr)"
  "cvr_full C preq pz typ bytes cvr \<Longrightarrow> cvr_full C preq pz typ bytes (WithEncrypted (ce_encrypt C) e cvr)"
  by (auto simp: cvr_full_def cvr_ready_def builder_defs or_else_def Let_def)

lemma sdk_request_matches:
  assumes "cvr_full C preq pz typ bytes cvr" and "typed_as C preq checked typ"
  shows "\<exists>rq. ToSdkCreateVolumeRequest trunc ck pk cvr = Return rq \<and> create_matches C preq pz checked bytes rq"
  using assms by (auto simp: cvr_full_def cvr_ready_def ToSdkCreateVolumeRequest_def create_matches_def)

section \<open>The handler\<close>

text \<open>
  The outcome past the lookups: no command and no success, or the commands of one create call for a
  request that matches, and on success the volume that call made or found.
\<close>

definition answers_with :: "create_response \<Rightarrow> volume \<Rightarrow> bool" where
  "answers_with resp vol \<longleftrightarrow> crs_VolumeId resp = vol_Id vol \<and>
     crs_CapacityBytes resp = GiBToBytes (vol_Size vol)"

definition create_outcome ::
    "cenv \<Rightarrow> create_volume_request \<Rightarrow> string \<Rightarrow> string \<Rightarrow> int64 \<Rightarrow> ctl \<Rightarrow> create_response reply \<Rightarrow> ctl
      \<Rightarrow> bool" where
  "create_outcome C preq portalZone checked bytes s r s' \<longleftrightarrow> quiet s s' \<and>
     (did [] (ks_cloud s) (ks_cloud s') \<and> (\<forall>resp. r \<noteq> Ok resp) \<or>
      (\<exists>rq. create_matches C preq portalZone checked bytes rq \<and> either_commands rq (ks_cloud s) (ks_cloud s') \<and>
        (\<forall>resp. r = Ok resp \<longrightarrow> (\<exists>vol. answers_with resp vol \<and>
           made_volume rq vol (news (ks_cloud s) (ks_cloud s'))))))"

lemma either_after:
  assumes "did [] s t" and "either_commands rq t u"
  shows "either_commands rq s u" "\<And>vol. made_volume rq vol (news t u) \<Longrightarrow> made_volume rq vol (news s u)"
proof -
  have e: "ext t u" using assms(2) by (auto simp: either_commands_def did_def)
  have n: "news s u = [] @ news t u @ news s t"
    using news_trans [OF did_ext [OF assms(1)] e] by simp
  show "either_commands rq s u"
    using assms(2) did_after_ro [OF assms(1)] volume_mono(1,2) unfolding either_commands_def n by blast
  show "made_volume rq vol (news s u)" if "made_volume rq vol (news t u)" for vol
    unfolding n using that by (rule volume_mono)
qed

lemma either_before:
  assumes "either_commands rq s t" and "did [] t u"
  shows "either_commands rq s u" "\<And>vol. made_volume rq vol (news s t) \<Longrightarrow> made_volume rq vol (news s u)"
proof -
  have e: "ext s t" using assms(1) by (auto simp: either_commands_def did_def)
  have n: "news s u = news t u @ news s t @ []"
    using news_trans [OF e did_ext [OF assms(2)]] by simp
  show "either_commands rq s u"
    using assms(1) did_ro_trans [OF _ assms(2)] volume_mono(1,2) unfolding either_commands_def n by blast
  show "made_volume rq vol (news s u)" if "made_volume rq vol (news s t)" for vol
    unfolding n using that by (rule volume_mono)
qed

lemma either_ext: "either_commands rq s t \<Longrightarrow> ext s t"
  by (auto simp: either_commands_def did_def)

lemma outcome_after:
  assumes l: "lookup s t" and o: "create_outcome C preq pz ty b t r s'"
  shows "create_outcome C preq pz ty b s r s'"
proof -
  have q: "quiet s s'" and d: "did [] (ks_cloud s) (ks_cloud t)"
    using l o quiet_trans by (auto simp: lookup_def create_outcome_def)
  from o consider "did [] (ks_cloud t) (ks_cloud s')" "\<forall>resp. r \<noteq> Ok resp"
    | rq where "create_matches C preq pz ty b rq" "either_commands rq (ks_cloud t) (ks_cloud s')"
        "\<forall>resp. r = Ok resp \<longrightarrow> (\<exists>vol. answers_with resp vol \<and>
           made_volume rq vol (news (ks_cloud t) (ks_cloud s')))"
    unfolding create_outcome_def by blast
  then show ?thesis
  proof cases
    case 1
    with q did_after_ro [OF d] show ?thesis by (simp add: create_outcome_def)
  next
    case (2 rq)
    have "\<exists>vol. answers_with resp vol \<and> made_volume rq vol (news (ks_cloud s) (ks_cloud s'))" if "r = Ok resp" for resp
      using 2(3) that either_after(2) [OF d 2(2)] by blast
    with q 2(1) either_after(1) [OF d 2(2)] show ?thesis unfolding create_outcome_def by blast
  qed
qed

lemma outcome_refused:
  "lookup s s' \<Longrightarrow> \<forall>resp. r \<noteq> Ok resp \<Longrightarrow> create_outcome C preq pz ty b s r s'"
  by (simp add: create_outcome_def lookup_def)

text \<open>Reports are lookups: a refusal after one is an outcome.\<close>

lemma claim_warning_keeps [frames]: "keeps lookup (claim_warning C claim reason msg)"
  unfolding claim_warning_def by (rule frames)

lemma iaas_mop_quiet [simp]: "mop_quiet (iaas_error_mop op reason)"
  "mop_name (iaas_error_mop op reason) \<noteq> CreateGateWaiting"
  by (simp add: mop_quiet_def series_names) (simp add: iaas_error_mop_def metric_name_defs)

lemma reportCreateIaaSError_keeps [frames]: "keeps lookup (reportCreateIaaSError C preq e)"
  unfolding reportCreateIaaSError_def Let_def by (intro frames) simp_all

lemma fail_with_not_ok: "fail_with e \<noteq> Ok resp"
  by (simp add: fail_with_def split: option.split)

lemma report_refused:
  assumes "keeps lookup m" and "\<forall>resp. r \<noteq> Ok resp"
  shows "wp (do { _ \<leftarrow> m; State_Monad.return r }) (create_outcome C preq pz ty b s) s"
  by (rule lk.keeps_then [OF assms(1)]) (simp add: outcome_refused assms(2))

lemma outcome_made:
  assumes post: "either_post rq (ks_cloud s) v c" and m: "create_matches C preq pz ty b rq"
    and l: "lookup (s\<lparr>ks_cloud := c\<rparr>) s'"
    and r: "\<forall>resp. r = Ok resp \<longrightarrow> (\<exists>vol. v = Inr (Some vol) \<and> answers_with resp vol)"
  shows "create_outcome C preq pz ty b s r s'"
proof -
  have q: "quiet s s'" using l by (rule_tac quiet_trans [of _ "s\<lparr>ks_cloud := c\<rparr>"]) (auto simp: lookup_def quiet_def)
  have d: "did [] c (ks_cloud s')" using l by (simp add: lookup_def)
  have e: "either_commands rq (ks_cloud s) c" using post by (simp add: either_post_def)
  have made: "made_volume rq vol (news (ks_cloud s) (ks_cloud s'))" if "v = Inr (Some vol)" for vol
    using post that by (intro either_before(2) [OF e d]) (simp add: either_post_def)
  have ok: "\<exists>vol. answers_with resp vol \<and> made_volume rq vol (news (ks_cloud s) (ks_cloud s'))"
    if "r = Ok resp" for resp
  proof -
    from r that obtain vol where "v = Inr (Some vol)" "answers_with resp vol" by auto
    with made show ?thesis by auto
  qed
  show ?thesis
    unfolding create_outcome_def
    by (intro conjI disjI2 exI [of _ rq]) (simp_all add: q m either_before(1) [OF e d] ok)
qed

lemma answers_new: "answers_with (newCreateVolumeResponse vol az cvr ctx) vol"
  by (simp add: answers_with_def newCreateVolumeResponse_def GiBToBytes_def GiB_def)

lemma create_command_wp:
  assumes "cvr_full C preq pz typ b cvr" and "typed_as C preq ty typ"
  shows "wp (create_command C preq az cvr ctx) (create_outcome C preq pz ty b s) s"
proof -
  obtain rq where rq: "ToSdkCreateVolumeRequest (ce_trunc C) VksClusterIdTagKey VksBillingProductTagKey cvr =
      Return rq" and m: "create_matches C preq pz ty b rq"
    using sdk_request_matches [OF assms] by blast
  show ?thesis
    unfolding create_command_def rq go.case wp_bind wp_in_cloud
  proof (rule wp_mono [OF EitherCreateResizeVolume_wp], goal_cases)
    case (1 v c)
    note made = outcome_made [OF 1 m]
    let ?s = "s\<lparr>ks_cloud := c\<rparr>"
    show ?case
    proof (cases v)
      case (Inl e)
      show ?thesis
        unfolding Inl sum.case
        by (rule lk.keeps_then [OF reportCreateIaaSError_keeps], unfold wp_return)
          (rule made, assumption, simp add: fail_with_not_ok)
    next
      case (Inr o')
      show ?thesis
      proof (cases o')
        case None
        have "create_outcome C preq pz ty b s Crashed ?s" by (rule made [OF lk.R_refl]) simp
        with None Inr show ?thesis by simp
      next
        case (Some vol)
        show ?thesis
          unfolding Inr Some sum.case option.case
          by (rule lk.keeps_then [OF in_kube_keeps], unfold wp_return)
            (rule made [unfolded Inr Some], assumption, simp add: answers_new)
      qed
    qed
  qed
qed

lemma claim_read_wp:
  "wp (in_kube (GetPersistentVolumeClaimByName K ns n)) (\<lambda>r t. lookup s t \<and>
     (\<forall>claim. r = Inr claim \<longrightarrow> (\<exists>k. kube_GetPvc K k ns n = Inr (Some claim)))) s"
proof (rule wp_conj [OF keepsD [OF in_kube_keeps]])
  show "wp (in_kube (GetPersistentVolumeClaimByName K ns n))
      (\<lambda>r t. \<forall>claim. r = Inr claim \<longrightarrow> (\<exists>k. kube_GetPvc K k ns n = Inr (Some claim))) s"
    unfolding wp_in_kube GetPersistentVolumeClaimByName_def wp_bind
    by (auto simp: wp_def kube_read_def split: sum.splits option.splits)
qed

lemma create_claim_wp:
  assumes full: "cvr_full C preq pz (or_else (parseModifyVolumeParameters (cvq_Mutable preq) '''') ty) b cvr"
    and named: "cvr_claim cvr = named_claim preq"
  shows "wp (create_claim C preq az cvr ctx) (create_outcome C preq pz ty b s) s"
  unfolding create_claim_def
proof (subst wp_bind, rule wp_mono [OF claim_read_wp], goal_cases)
  case (1 p t)
  then have l: "lookup s t" by simp
  show ?case
  proof (cases p)
    case (Inl e)
    show ?thesis
      unfolding Inl sum.case
      by (rule wp_mono [OF report_refused [OF claim_warning_keeps, where C = C and preq = preq and pz = pz
            and ty = ty and b = b] outcome_after [OF l]]) (simp add: fail_with_not_ok)
  next
    case (Inr claim)
    let ?ctype = "or_else (GetCsiVolumeTypeAnnotation claim)
      (or_else (parseModifyVolumeParameters (cvq_Mutable preq) '''') ty)"
    let ?cvr = "WithVolumeTypeID (GetCsiVolumeTypeAnnotation claim) cvr"
    let ?cvr' = "if GetCsiEncryptedAnnotation claim \<noteq> ''''
      then WithEncrypted (ce_encrypt C) (GetCsiEncryptedAnnotation claim) ?cvr else ?cvr"
    have full': "cvr_full C preq pz ?ctype b ?cvr'" using annotated_full full by simp
    have "typed_as C preq ty ?ctype" using 1 Inr named [symmetric] by (auto simp: typed_as_def cvr_claim_def)
    from wp_mono [OF create_command_wp [OF full' this] outcome_after [OF l]] show ?thesis
      unfolding Inr sum.case Let_def .
  qed
qed

lemma create_source_wp:
  assumes "cvr_ready C pz ty '''' cvr"
  shows "wp (create_source C src cvr) (\<lambda>r t. lookup s t \<and>
    (\<forall>cvr'. r = Inr cvr' \<longrightarrow> cvr_ready C pz ty (snapshot_of src) cvr' \<and> cvr_claim cvr' = cvr_claim cvr)) s"
proof -
  have refuse: "wp (do { _ \<leftarrow> claim_warning C cl reason msg; State_Monad.return (Inl err) })
      (\<lambda>r t. lookup s t \<and> (\<forall>cvr'. r = Inr cvr' \<longrightarrow> cvr_ready C pz ty (snapshot_of src) cvr' \<and>
        cvr_claim cvr' = cvr_claim cvr)) s" for cl reason msg err
    by (rule lk.keeps_then [OF claim_warning_keeps]) simp
  have "cvr_ready C pz ty i (WithSnapshotID i cvr)" "cvr_claim (WithSnapshotID i cvr) = cvr_claim cvr" for i
    using assms by (auto simp: cvr_ready_def cvr_claim_def builder_defs Let_def)
  with assms refuse show ?thesis
    by (auto simp: create_source_def snapshot_of_def lk.R_refl split: option.split content_source.split)
qed

lemma create_build_wp:
  assumes ready0: "cvr_ready C pz ty '''' cvr" and named: "cvr_claim cvr = named_claim preq"
  shows "wp (create_build C preq az b cvr) (create_outcome C preq pz ty b s) s"
  unfolding create_build_def wp_bind
proof (rule wp_mono [OF create_source_wp [OF ready0, of _ s]], goal_cases)
  case (1 r t)
  then have l: "lookup s t" by simp
  show ?case
  proof (cases r)
    case (Inl e)
    with l show ?thesis by (simp add: outcome_refused)
  next
    case (Inr cvr')
    with 1 named have ready: "cvr_ready C pz ty (snapshot_of (cvq_Source preq)) cvr'"
      and named': "cvr_claim cvr' = named_claim preq" by simp_all
    have refused: "wp (do { _ \<leftarrow> claim_warning C cl reason msg; State_Monad.return (Fail err) })
        (create_outcome C preq pz ty b s) t" for cl reason msg err
      by (rule wp_mono [OF report_refused [OF claim_warning_keeps, where C = C and preq = preq and pz = pz
            and ty = ty and b = b] outcome_after [OF l]]) simp
    have crash: "create_outcome C preq pz ty b s Crashed t" using l by (simp add: outcome_refused)
    have go: "wp (create_claim C preq az (create_fill C preq n cvr') ctx) (create_outcome C preq pz ty b s) t"
      if "RoundUpSize b (1024 * 1024 * 1024) = Return n" for n ctx
      by (rule wp_mono [OF create_claim_wp [OF create_fill_full(1) [OF ready that]
            create_fill_full(2) [OF ready that, unfolded named']] outcome_after [OF l]])
    from refused crash go show ?thesis
      unfolding Inr sum.case by (auto split: sum.split go.split)
  qed
qed

lemma create_parse_wp: "wp (create_parse C preq az pz ty b) (create_outcome C preq pz ty b s) s"
proof -
  let ?cvr = "WithVolumeTypeID ty (WithZone pz
      (WithDriverOptions (Some (ce_tagKeyLength C, ce_tagValueLength C)) NewCreateVolumeRequest))"
  have ready: "cvr_ready C pz ty '''' ?cvr"
    by (simp add: cvr_ready_def builder_defs NewCreateVolumeRequest_def)
  have "cv_PvcNamespaceTag ?cvr = ''''" "cv_PvcNameTag ?cvr = ''''"
    by (simp_all add: builder_defs NewCreateVolumeRequest_def)
  then have "cvr_claim cvr' = named_claim preq" if "create_params C (cvq_Parameters preq) ?cvr = Inr cvr'" for cvr'
    using create_params_claim [OF that] by (simp add: named_claim_def)
  with ready show ?thesis
    unfolding create_parse_def
    by (auto intro: create_build_wp create_params_ready outcome_refused lk.R_refl split: sum.split)
qed

lemma create_slot_wp: "wp (create_slot C preq az pz ty b) (create_outcome C preq pz ty b s) s"
  unfolding create_slot_def
proof (rule lk.keeps_then [OF in_cloud_keeps [OF volume_reads_keep(1)]], goal_cases)
  case (1 r t)
  have parse: "wp (create_parse C preq az pz ty b) (create_outcome C preq pz ty b s) t"
    by (rule wp_mono [OF create_parse_wp outcome_after [OF 1]])
  have "wp (do { _ \<leftarrow> reportCreateIaaSError C preq (Some e); State_Monad.return (Fail err) })
      (create_outcome C preq pz ty b s) t" for e err
    by (rule wp_mono [OF report_refused [OF reportCreateIaaSError_keeps, where C = C and preq = preq
          and pz = pz and ty = ty and b = b] outcome_after [OF 1]]) simp
  with parse show ?case by (auto split: sum.split)
qed

section \<open>The gate and the table\<close>

lemma outcome_frame:
  assumes "create_outcome C preq pz ty b t r u" and "ks_cloud t = ks_cloud s" and "ks_cloud v = ks_cloud u"
    and "quiet s v"
  shows "create_outcome C preq pz ty b s r v"
  using assms by (simp add: create_outcome_def)

definition gate_mops :: "rat \<Rightarrow> mop list" where
  "gate_mops x = [MAddGauge CreateGateWaiting CreateGateWaitingHelp 1 {},
     MAddGauge CreateGateWaiting CreateGateWaitingHelp (- 1) {},
     MObserveHistogram CreateGateWaitSeconds CreateGateWaitSecondsHelp x {} CreateGateWaitBuckets]"

lemma gate_mops_quiet: "list_all mop_quiet (gate_mops x)"
  by (simp add: gate_mops_def mop_quiet_def shape_defs)

lemma gate_mops_level: "waiting_level (ms @ gate_mops x) = waiting_level ms"
  by (simp add: waiting_level_def gauge_def gate_mops_def metric_name_defs split: option.split)

text \<open>The state in the gate, and the state after it.\<close>

lemma gate_frame:
  assumes "quiet (s\<lparr>ks_mops := ks_mops s @ gate_mops x, ks_ticks := n, ks_gate := g\<rparr>) u"
  shows "quiet s (u\<lparr>ks_gate := ks_gate s\<rparr>)"
proof -
  from assms obtain ms where ms: "ks_mops u = (ks_mops s @ gate_mops x) @ ms" "list_all mop_quiet ms"
    and rest: "ks_detach u = ks_detach s" "ks_delete u = ks_delete s" "ks_inflight u = ks_inflight s"
      "waiting_level (ks_mops u) = waiting_level (ks_mops s @ gate_mops x)"
    unfolding quiet_def by auto
  have "\<exists>ms'. ks_mops u = ks_mops s @ ms' \<and> list_all mop_quiet ms'"
    using ms gate_mops_quiet by (intro exI [of _ "gate_mops x @ ms"]) simp
  with rest show ?thesis by (simp add: quiet_def gate_mops_level)
qed

lemma create_gated_wp: "wp (create_gated C preq az pz ty b) (create_outcome C preq pz ty b s) s"
proof -
  define n where "n = Suc (Suc (ks_ticks s))"
  define x where "x = seconds (ce_now C (Suc (ks_ticks s)) - ce_now C (ks_ticks s))"
  define gst where "gst = (\<lambda>g. s\<lparr>ks_mops := ks_mops s @ gate_mops x, ks_ticks := n, ks_gate := g\<rparr>)"
  have body: "wp (create_slot C preq az pz ty b)
      (\<lambda>r u. create_outcome C preq pz ty b s r (u\<lparr>ks_gate := ks_gate s\<rparr>) \<and> ks_gate u = g) (gst g)" for g
  proof (rule wp_mono [OF create_slot_wp], goal_cases)
    case (1 r u)
    then have q: "quiet (gst g) u" by (simp add: create_outcome_def)
    then have "quiet s (u\<lparr>ks_gate := ks_gate s\<rparr>)" unfolding gst_def by (rule gate_frame)
    with outcome_frame [OF 1] q show ?case by (simp add: gst_def quiet_def)
  qed
  obtain ok g where acq: "Acquire (ce_ctx_ends C (Suc (ks_ticks s))) (ks_gate s) = (ok, g)" by force
  have "create_outcome C preq pz ty b s (Fail (ErrWaitingForCreateSlot (cvq_Name preq))) (gst g)" if "\<not> ok"
  proof -
    have "g = ks_gate s" using acq that by (auto simp: Acquire_def split: if_splits)
    then have "quiet s (gst g)"
      by (auto simp: gst_def quiet_def gate_mops_level gate_mops_quiet)
    then show ?thesis by (simp add: create_outcome_def gst_def)
  qed
  moreover have "wp (do { r \<leftarrow> create_slot C preq az pz ty b; _ \<leftarrow> gate_release; State_Monad.return r })
      (create_outcome C preq pz ty b s) (gst g)" if ok
    unfolding wp_bind
  proof (rule wp_mono [OF body], goal_cases)
    case (1 r u)
    with Release_Acquire acq that have "Release (ks_gate u) = Some (ks_gate s)" by auto
    with 1 show ?case by (simp add: gate_release_def)
  qed
  ultimately show ?thesis
    by (simp add: create_gated_def gate_acquire_def acq gst_def n_def x_def gate_mops_def ctl_commute)
qed

lemma create_guarded_wp:
  "wp (ctl_guarded key (ErrVolumeIsCreating v) (create_gated C preq az pz ty b))
    (create_outcome C preq pz ty b s) s"
proof (rule ctl_guarded_wp, goal_cases)
  case 1
  show ?case
  proof (rule wp_mono [OF create_gated_wp], goal_cases)
    case (1 r u)
    let ?t = "s\<lparr>ks_inflight := (ks_inflight s)(key \<mapsto> True)\<rparr>" and ?v = "u\<lparr>ks_inflight := ks_inflight s\<rparr>"
    have q: "quiet ?t u" using 1 by (simp add: create_outcome_def)
    then have "quiet s ?v" by (simp add: quiet_def)
    with outcome_frame [OF 1, of s ?v] q show ?case by (simp add: quiet_def)
  qed
next
  case 2
  then show ?case by (simp add: outcome_refused lk.R_refl)
qed

section \<open>The size\<close>

text \<open>Every error of the catalog carries a Go error: \<open>getVolSizeBytes\<close> tells its failure by it.\<close>

definition catalog_loaded :: "env \<Rightarrow> bool" where
  "catalog_loaded E \<longleftrightarrow>
     (\<forall>h e. api_DefaultType E h = Inl e \<longrightarrow> ie_err e \<noteq> None) \<and>
     (\<forall>h z e. api_TypeZones E h z = Inl e \<longrightarrow> ie_err e \<noteq> None) \<and>
     (\<forall>h t e. api_ListTypes E h t = Inl e \<longrightarrow> ie_err e \<noteq> None) \<and>
     (\<forall>h t e. api_GetType E h t = Inl e \<longrightarrow> ie_err e \<noteq> None)"

definition loaded :: "ierror + 'a \<Rightarrow> bool" where
  "loaded r \<longleftrightarrow> (\<forall>e. r = Inl e \<longrightarrow> ie_err e \<noteq> None)"

lemma loaded_simps [simp]: "loaded (Inr x)" "loaded (Inl e) \<longleftrightarrow> ie_err e \<noteq> None"
  by (simp_all add: loaded_def)

lemma catalog_loadedD:
  assumes "catalog_loaded E"
  shows "loaded (api_DefaultType E h)" "loaded (api_TypeZones E h z)" "loaded (api_ListTypes E h t)"
    "loaded (api_GetType E h t)"
  using assms unfolding catalog_loaded_def loaded_def by blast+

lemma client_then:
  assumes "\<And>p t. wp (f p) (\<lambda>r _. loaded r) t"
  shows "wp (do { c \<leftarrow> projectClient E; (case c of
      Inl ierr \<Rightarrow> State_Monad.return (Inl ierr) | Inr p \<Rightarrow> f p) }) (\<lambda>r _. loaded r) s"
  unfolding wp_bind
  by (rule wp_mono [OF projectClient_wp]) (auto simp: unresolved_def assms split: sum.split)

lemma catalog_reads_loaded:
  assumes "catalog_loaded E"
  shows "wp (GetDefaultVolumeType E) (\<lambda>r _. loaded r) s"
    "wp (lookupVolumeTypeId E z n a b) (\<lambda>r _. loaded r) s"
    "wp (GetVolumeTypeById E t) (\<lambda>r _. loaded r) s"
proof -
  note d = catalog_loadedD [OF assms]
  show "wp (GetDefaultVolumeType E) (\<lambda>r _. loaded r) s"
    unfolding GetDefaultVolumeType_def by (rule client_then) (simp add: d)
  show "wp (GetVolumeTypeById E t) (\<lambda>r _. loaded r) s"
    unfolding GetVolumeTypeById_def by (rule client_then) (simp add: d)
  have zones: "ie_err e \<noteq> None" if "api_TypeZones E h z = Inl e" for h e
    using d(2) [of h z] that by simp
  have types: "ie_err e \<noteq> None" if "api_ListTypes E h x = Inl e" for h x e
    using d(3) [of h x] that by simp
  show "wp (lookupVolumeTypeId E z n a b) (\<lambda>r _. loaded r) s"
    unfolding lookupVolumeTypeId_def
    by (rule client_then) (auto dest: zones types split: sum.split option.split)
qed

lemma GetVolumeTypeIdByName_loaded:
  assumes "catalog_loaded E"
  shows "wp (GetVolumeTypeIdByName E z n) (\<lambda>r _. loaded r) s"
proof -
  have "wp (cached_get E g p (lookupVolumeTypeId E z n a b)) (\<lambda>r _. loaded r) s" for g p a b
    using catalog_reads_loaded(2) [OF assms, of z n a b s]
    by (auto simp: cached_get_def wp_def split: prod.splits)
  then show ?thesis by (simp add: GetVolumeTypeIdByName_def Let_def)
qed

text \<open>
  The type that is checked: the name the parameters give, or the id of the default type, turned into an
  id. A name that is not of two parts is an id already; otherwise the id was cached for that zone and
  name, or the call listed the zone's types and found it, or found nothing and took the name.
\<close>

definition requested_type :: "create_volume_request \<Rightarrow> history \<Rightarrow> string \<Rightarrow> bool" where
  "requested_type preq evs n \<longleftrightarrow> (case map_of (cvq_Parameters preq) VolumeTypeKey of
     Some volType \<Rightarrow> n = volType
   | None \<Rightarrow> \<exists>vt. EvDefaultType (Inr vt) \<in> set evs \<and> n = vt_Id vt)"

definition listed_type :: "history \<Rightarrow> string \<Rightarrow> string \<Rightarrow> string \<Rightarrow> string \<Rightarrow> string \<Rightarrow> bool" where
  "listed_type evs z n family iops t \<longleftrightarrow>
     (\<exists>vtZones. EvTypeZones z (Inr vtZones) \<in> set evs \<and> find_named family vtZones = None \<and> t = n) \<or>
     (\<exists>vtZones vtZone vts. EvTypeZones z (Inr vtZones) \<in> set evs \<and> find_named family vtZones = Some vtZone \<and>
        EvListTypes (vt_Id vtZone) (Inr vts) \<in> set evs \<and>
        t = (case find_named iops vts of None \<Rightarrow> n | Some vt \<Rightarrow> vt_Id vt))"

definition type_resolved ::
    "string keyedMetaCache \<Rightarrow> history \<Rightarrow> string \<Rightarrow> string \<Rightarrow> string \<Rightarrow> bool" where
  "type_resolved cache evs z n t \<longleftrightarrow> (let parts = SplitOn CHR ''-'' n in
     if length parts \<noteq> 2 then t = n
     else mc_value (keyed_entry (z @ ''/'' @ n) cache) = Some t \<or>
       listed_type evs z n (ToUpper (parts ! 0)) (TrimPrefix (parts ! 1) ''iops'') t)"

definition size_allowed ::
    "create_volume_request \<Rightarrow> string \<Rightarrow> string keyedMetaCache \<Rightarrow> history \<Rightarrow> string \<Rightarrow> bool" where
  "size_allowed preq z cache evs t \<longleftrightarrow>
     (\<exists>n. requested_type preq evs n \<and> type_resolved cache evs z n t) \<and>
     (\<exists>vt. EvGetType t (Inr vt) \<in> set evs \<and> sint (GiBToBytes (vt_MinSize vt)) \<le> sint (required_bytes preq))"

lemma listed_typeI:
  "EvTypeZones z (Inr vtZones) \<in> set evs \<Longrightarrow> find_named family vtZones = None \<Longrightarrow> listed_type evs z n family iops n"
  "EvTypeZones z (Inr vtZones) \<in> set evs \<Longrightarrow> find_named family vtZones = Some vtZone \<Longrightarrow>
     EvListTypes (vt_Id vtZone) (Inr vts) \<in> set evs \<Longrightarrow>
     listed_type evs z n family iops (case find_named iops vts of None \<Rightarrow> n | Some vt \<Rightarrow> vt_Id vt)"
  unfolding listed_type_def by blast+

lemma type_evidence_mono:
  assumes "set evs \<subseteq> set evs'"
  shows "requested_type preq evs n \<Longrightarrow> requested_type preq evs' n"
    "listed_type evs z n f i t \<Longrightarrow> listed_type evs' z n f i t"
    "type_resolved cache evs z n t \<Longrightarrow> type_resolved cache evs' z n t"
    "size_allowed preq z cache evs t \<Longrightarrow> size_allowed preq z cache evs' t"
proof -
  show 1: "requested_type preq evs n \<Longrightarrow> requested_type preq evs' n" for n
    using assms by (auto simp: requested_type_def split: option.splits)
  show 2: "listed_type evs z n f i t \<Longrightarrow> listed_type evs' z n f i t" for z n f i t
    using assms unfolding listed_type_def by blast
  show 3: "type_resolved cache evs z n t \<Longrightarrow> type_resolved cache evs' z n t" for z n t
  proof (cases "length (SplitOn CHR ''-'' n) = 2")
    case True
    then show "type_resolved cache evs z n t \<Longrightarrow> type_resolved cache evs' z n t"
      using 2 [of z n _ _ t] by (simp only: type_resolved_def Let_def if_False simp_thms) blast
  next
    case False
    then show "type_resolved cache evs z n t \<Longrightarrow> type_resolved cache evs' z n t"
      by (simp add: type_resolved_def)
  qed
  show "size_allowed preq z cache evs t \<Longrightarrow> size_allowed preq z cache evs' t"
    using assms 1 3 unfolding size_allowed_def by blast
qed

text \<open>Two cache misses aside, the reads of the catalog leave the cache of the types alone.\<close>

lemma projectClient_types: "wp (projectClient E) (\<lambda>_ c. cs_types c = cs_types s) s"
proof -
  have "wp (resolve_project E) (\<lambda>_ c. cs_types c = cs_types s) s"
    by (auto simp: resolve_project_def portalLookup_def split: sum.splits)
  then show ?thesis
    by (auto simp: projectClient_def cached_get_def wp_def split: prod.splits)
qed

lemma types_left:
  "wp (GetDefaultVolumeType E) (\<lambda>_ c. cs_types c = cs_types s) s"
  "wp (GetListZones E) (\<lambda>_ c. cs_types c = cs_types s) s"
proof -
  have read: "wp (do { c \<leftarrow> projectClient E; (case c of
      Inl ierr \<Rightarrow> State_Monad.return (Inl ierr) | Inr p \<Rightarrow> api_call (ask p) ev) }) (\<lambda>_ c. cs_types c = cs_types s) s"
    for ask :: "string \<Rightarrow> history \<Rightarrow> ierror + 'b" and ev
    unfolding wp_bind by (rule wp_mono [OF projectClient_types]) (auto split: sum.split)
  show "wp (GetDefaultVolumeType E) (\<lambda>_ c. cs_types c = cs_types s) s"
    unfolding GetDefaultVolumeType_def by (rule read)
  have "wp (load_zones E) (\<lambda>_ c. cs_types c = cs_types s) s"
    unfolding load_zones_def by (rule read)
  then show "wp (GetListZones E) (\<lambda>_ c. cs_types c = cs_types s) s"
    by (auto simp: GetListZones_def cached_get_def wp_def split: prod.splits)
qed

lemma lookupVolumeTypeId_wp:
  "wp (lookupVolumeTypeId E z n family iops) (\<lambda>r c'. \<forall>t. r = Inr t \<longrightarrow> listed_type (news c c') z n family iops t) c"
  unfolding lookupVolumeTypeId_def
proof (rule rd.keeps_then [OF projectClient_keeps], goal_cases)
  case (1 p c1)
  show ?case
  proof (cases p)
    case (Inl e)
    then show ?thesis by simp
  next
    case (Inr pr)
    show ?thesis
      unfolding Inr sum.case wp_bind
    proof (rule call_wp [OF 1], goal_cases)
      case (1 x c2)
      then have d: "did [] c c2" and zs: "EvTypeZones z x \<in> set (news c c2)" by simp_all
      have types: "wp (api_call (\<lambda>h. api_ListTypes E h (vt_Id vz)) (EvListTypes (vt_Id vz)))
          (\<lambda>l. wp (State_Monad.return (case l of Inl sdkErr \<Rightarrow> Inl sdkErr
            | Inr vts \<Rightarrow> (case find_named iops vts of Some vt \<Rightarrow> Inr (vt_Id vt) | None \<Rightarrow> Inr n)))
            (\<lambda>r c'. \<forall>t. r = Inr t \<longrightarrow> listed_type (news c c') z n family iops t)) c2"
        if "x = Inr zones" "find_named family zones = Some vz" for zones vz
      proof (rule call_last_wp [OF d], simp, goal_cases)
        case (1 y c3)
        show ?case
        proof (cases y)
          case (Inl e)
          then show ?thesis by simp
        next
          case (Inr vts)
          have "EvTypeZones z (Inr zones) \<in> set (news c c3)" "EvListTypes (vt_Id vz) (Inr vts) \<in> set (news c c3)"
            using 1(2) zs that(1) Inr by auto
          note listed = listed_typeI(2) [OF this(1) that(2) this(2), of n iops]
          with Inr show ?thesis by (auto split: option.splits)
        qed
      qed
      with zs listed_typeI(1) show ?case by (auto split: sum.split option.split)
    qed
  qed
qed

lemma GetVolumeTypeIdByName_wp:
  "wp (GetVolumeTypeIdByName E z n)
     (\<lambda>r c'. \<forall>t. r = Inr t \<longrightarrow> type_resolved (cs_types c) (news c c') z n t) c"
proof -
  have "wp (cached_get E (\<lambda>s. keyed_entry key (cs_types s)) (types_entry key) (lookupVolumeTypeId E z n f i))
      (\<lambda>r c'. \<forall>t. r = Inr t \<longrightarrow> mc_value (keyed_entry key (cs_types c)) = Some t \<or>
        listed_type (news c c') z n f i t) c" for key f i
    using lookupVolumeTypeId_wp [of E z n f i c]
    by (auto simp: cached_get_def wp_def types_entry_def fresh_def split: prod.splits)
  then show ?thesis by (simp add: GetVolumeTypeIdByName_def type_resolved_def Let_def)
qed

definition sized ::
    "create_volume_request \<Rightarrow> string \<Rightarrow> ctl \<Rightarrow> string \<times> int64 \<times> csi_error option \<Rightarrow> ctl \<Rightarrow> bool" where
  "sized preq z s r s' \<longleftrightarrow> lookup s s' \<and> (case r of (t, b, err) \<Rightarrow> err = None \<longrightarrow> b = required_bytes preq \<and>
     size_allowed preq z (cs_types (ks_cloud s)) (news (ks_cloud s) (ks_cloud s')) t)"

lemma size_lookup_failed_wp:
  assumes "lookup s t" and "ie_err e \<noteq> None"
  shows "wp (size_lookup_failed C preq e) (sized preq z s) t"
  unfolding size_lookup_failed_def
  by (rule lk.keeps_then [OF reportCreateIaaSError_keeps])
    (use assms lk.R_trans [OF assms(1)] in \<open>auto simp: sized_def\<close>)

lemma cloud_lookup_wp:
  assumes "keeps (did []) m" and "\<And>c. wp m (\<lambda>r _. loaded r) c" and "lookup s t"
  shows "wp (in_cloud m) (\<lambda>r u. lookup s u \<and> loaded r \<and>
    set (news (ks_cloud s) (ks_cloud t)) \<subseteq> set (news (ks_cloud s) (ks_cloud u)) \<and>
    set (news (ks_cloud t) (ks_cloud u)) \<subseteq> set (news (ks_cloud s) (ks_cloud u))) t"
proof -
  have "ext (ks_cloud s) (ks_cloud t)" using assms(3) by (simp add: lookup_def did_def)
  then have "wp (in_cloud m) (\<lambda>r u. lookup s u \<and>
    set (news (ks_cloud s) (ks_cloud t)) \<subseteq> set (news (ks_cloud s) (ks_cloud u)) \<and>
    set (news (ks_cloud t) (ks_cloud u)) \<subseteq> set (news (ks_cloud s) (ks_cloud u))) t"
    by (intro wp_mono [OF keepsD [OF in_cloud_keeps [OF assms(1)]]])
      (use lk.R_trans [OF assms(3)] news_mono news_later in \<open>auto simp: lookup_def did_def\<close>)
  moreover have "wp (in_cloud m) (\<lambda>r _. loaded r) t"
    using assms(2) by simp
  ultimately show ?thesis by (rule wp_mono [OF wp_conj]) blast
qed

lemma type_read_wp:
  assumes "lookup s t0"
  shows "wp (in_cloud (GetVolumeTypeById (ce_cloud C) i)) (\<lambda>r u. \<forall>vt. r = Inr vt \<longrightarrow>
    EvGetType i (Inr vt) \<in> set (news (ks_cloud s) (ks_cloud u))) t0"
  unfolding GetVolumeTypeById_def wp_in_cloud
proof (rule rd.keeps_then [OF projectClient_keeps], goal_cases)
  case (1 c t1)
  have d: "did [] (ks_cloud s) t1" using assms 1 did_after_ro by (auto simp: lookup_def)
  show ?case
  proof (cases c)
    case (Inl e)
    then show ?thesis by simp
  next
    case (Inr p)
    show ?thesis unfolding Inr sum.case by (rule call_wp [OF d]) auto
  qed
qed

lemma default_read_wp:
  "wp (in_cloud (GetDefaultVolumeType E)) (\<lambda>r u. \<forall>vt. r = Inr vt \<longrightarrow>
    EvDefaultType (Inr vt) \<in> set (news (ks_cloud s) (ks_cloud u))) s"
  unfolding GetDefaultVolumeType_def wp_in_cloud
proof (rule rd.keeps_then [OF projectClient_keeps], goal_cases)
  case (1 c t1)
  show ?case
  proof (cases c)
    case (Inl e)
    then show ?thesis by simp
  next
    case (Inr p)
    show ?thesis unfolding Inr sum.case by (rule call_wp [OF 1]) auto
  qed
qed

lemma check_type_size_wp:
  assumes "catalog_loaded (ce_cloud C)" and l: "lookup s t0"
    and "requested_type preq (news (ks_cloud s) (ks_cloud t0)) n"
    and "type_resolved (cs_types (ks_cloud s)) (news (ks_cloud s) (ks_cloud t0)) z n i"
  shows "wp (check_type_size C preq i) (sized preq z s) t0"
  unfolding check_type_size_def Let_def
proof (subst wp_bind, rule wp_mono [OF wp_conj [OF cloud_lookup_wp [OF reads_keep(6)
        catalog_reads_loaded(3) [OF assms(1)] l] type_read_wp [OF l]]], goal_cases)
  case (1 r u)
  show ?case
  proof (cases r)
    case (Inl e)
    with 1 show ?thesis by (auto intro: size_lookup_failed_wp)
  next
    case (Inr vt)
    from 1 have "requested_type preq (news (ks_cloud s) (ks_cloud u)) n"
      "type_resolved (cs_types (ks_cloud s)) (news (ks_cloud s) (ks_cloud u)) z n i"
      using type_evidence_mono(1,3) assms(3,4) by blast+
    with 1 Inr show ?thesis by (auto simp: sized_def size_allowed_def)
  qed
qed

lemma check_named_size_wp:
  assumes "catalog_loaded (ce_cloud C)" and l: "lookup s t0"
    and req: "requested_type preq (news (ks_cloud s) (ks_cloud t0)) n"
    and types: "cs_types (ks_cloud t0) = cs_types (ks_cloud s)"
  shows "wp (check_named_size C z preq n) (sized preq z s) t0"
proof -
  have resolved: "wp (in_cloud (GetVolumeTypeIdByName (ce_cloud C) z n)) (\<lambda>r u. \<forall>i. r = Inr i \<longrightarrow>
      type_resolved (cs_types (ks_cloud t0)) (news (ks_cloud t0) (ks_cloud u)) z n i) t0"
    using GetVolumeTypeIdByName_wp [of _ z n "ks_cloud t0"] by simp
  show ?thesis
    unfolding check_named_size_def
  proof (subst wp_bind, rule wp_mono [OF wp_conj [OF cloud_lookup_wp [OF GetVolumeTypeIdByName_keeps
          GetVolumeTypeIdByName_loaded [OF assms(1)] l] resolved]], goal_cases)
    case (1 r u)
    show ?case
    proof (cases r)
      case (Inl e)
      with 1 show ?thesis by (auto intro: size_lookup_failed_wp)
    next
      case (Inr i)
      from 1 have "requested_type preq (news (ks_cloud s) (ks_cloud u)) n"
        using type_evidence_mono(1) req by blast
      moreover from 1 Inr types have "type_resolved (cs_types (ks_cloud s)) (news (ks_cloud s) (ks_cloud u)) z n i"
        using type_evidence_mono(3) by metis
      ultimately show ?thesis using 1 Inr check_type_size_wp [OF assms(1)] by auto
    qed
  qed
qed

lemma getVolSizeBytes_wp:
  assumes cat: "catalog_loaded (ce_cloud C)"
  shows "wp (getVolSizeBytes C z preq) (sized preq z s) s"
proof (cases "map_of (cvq_Parameters preq) VolumeTypeKey")
  case (Some n)
  then have "wp (check_named_size C z preq n) (sized preq z s) s"
    by (intro check_named_size_wp [OF cat lk.R_refl]) (simp_all add: requested_type_def)
  with Some show ?thesis by (simp add: getVolSizeBytes_def)
next
  case None
  have "wp (in_cloud (GetDefaultVolumeType (ce_cloud C)))
      (\<lambda>_ u. cs_types (ks_cloud u) = cs_types (ks_cloud s)) s"
    using types_left(1) [of _ "ks_cloud s"] by simp
  note reads = wp_conj [OF cloud_lookup_wp [OF reads_keep(4) catalog_reads_loaded(1) [OF cat] lk.R_refl]
    wp_conj [OF default_read_wp this]]
  have "wp (do {
          d \<leftarrow> in_cloud (GetDefaultVolumeType (ce_cloud C));
          (case d of Inl sdkErr \<Rightarrow> size_lookup_failed C preq sdkErr
           | Inr vt \<Rightarrow> check_named_size C z preq (vt_Id vt)) }) (sized preq z s) s"
  proof (subst wp_bind, rule wp_mono [OF reads], goal_cases)
    case (1 r u)
    with None show ?case
      by (cases r) (auto simp: requested_type_def intro!: size_lookup_failed_wp check_named_size_wp [OF cat])
  qed
  with None show ?thesis by (simp add: getVolSizeBytes_def)
qed

section \<open>CreateVolume\<close>

text \<open>The zones: those the call listed, or those the cache held, not yet expired, when it began.\<close>

definition zones_read :: "env \<Rightarrow> cstate \<Rightarrow> history \<Rightarrow> zone list \<Rightarrow> bool" where
  "zones_read E c evs zones \<longleftrightarrow> EvListZones (Inr zones) \<in> set evs \<or>
     fresh (e_clock E (cs_hist c)) (cs_zones c) \<and> mc_value (cs_zones c) = Some zones"

lemma GetListZones_wp:
  "wp (GetListZones E) (\<lambda>r c'. \<forall>zones. r = Inr zones \<longrightarrow> zones_read E c (news c c') zones) c"
proof -
  have "wp (load_zones E) (\<lambda>r c'. \<forall>zones. r = Inr zones \<longrightarrow> EvListZones (Inr zones) \<in> set (news c c')) c"
    unfolding load_zones_def
  proof (rule rd.keeps_then [OF projectClient_keeps], goal_cases)
    case (1 p c1)
    show ?case
    proof (cases p)
      case (Inr x)
      show ?thesis unfolding Inr sum.case by (rule call_wp [OF 1]) auto
    qed simp
  qed
  then show ?thesis
    by (auto simp: GetListZones_def cached_get_def zones_read_def wp_def fresh_def split: prod.splits)
qed

text \<open>
  The whole handler: the outcome for the requested number of bytes and the zone its topology picks; a
  command, or a success, only with a type whose smallest size the request reaches and with the zones
  the call read.
\<close>

definition create_safe ::
    "cenv \<Rightarrow> create_volume_request \<Rightarrow> ctl \<Rightarrow> create_response reply \<Rightarrow> ctl \<Rightarrow> bool" where
  "create_safe C preq s r s' \<longleftrightarrow>
     (\<exists>zones checked.
       (let evs = news (ks_cloud s) (ks_cloud s');
            pz = portal_zone (pickAvailabilityZone (cvq_Topology preq)) zones
        in create_outcome C preq pz checked (required_bytes preq) s r s' \<and>
          ((\<exists>resp. r = Ok resp) \<or> commands evs \<noteq> [] \<longrightarrow>
             zones_read (ce_cloud C) (ks_cloud s) evs zones \<and>
             size_allowed preq pz (cs_types (ks_cloud s)) evs checked)))"

lemma create_refused:
  assumes "lookup s s'" and "\<forall>resp. r \<noteq> Ok resp"
  shows "create_safe C preq s r s'"
proof -
  have "commands (news (ks_cloud s) (ks_cloud s')) = []"
    using assms(1) by (simp add: lookup_def did_def)
  with assms show ?thesis by (simp add: create_safe_def outcome_refused Let_def)
qed

lemma create_report_refused:
  assumes "keeps lookup m" and "\<forall>resp. r \<noteq> Ok resp" and "lookup s t"
  shows "wp (do { _ \<leftarrow> m; State_Monad.return r }) (create_safe C preq s) t"
  by (rule lk.keeps_then [OF assms(1)]) (simp add: create_refused assms(2) lk.R_trans [OF assms(3)])

lemma outcome_ext: "create_outcome C preq pz ty b s r s' \<Longrightarrow> ext (ks_cloud s) (ks_cloud s')"
  unfolding create_outcome_def using did_ext either_ext by blast

lemma create_sized_wp:
  assumes cat: "catalog_loaded (ce_cloud C)" and pz: "pz = portal_zone (pickAvailabilityZone (cvq_Topology preq)) zones"
    and l: "lookup s t" and types: "cs_types (ks_cloud t) = cs_types (ks_cloud s)"
    and zs: "zones_read (ce_cloud C) (ks_cloud s) (news (ks_cloud s) (ks_cloud t)) zones"
  shows "wp (create_sized C preq az pz) (create_safe C preq s) t"
  unfolding create_sized_def wp_bind
proof (rule wp_mono [OF getVolSizeBytes_wp [OF cat]], goal_cases)
  case (1 r u)
  obtain i b err where r: "r = (i, b, err)" by (cases r)
  have lu: "lookup s u" using 1 lk.R_trans [OF l] by (simp add: sized_def)
  show ?case
  proof (cases err)
    case (Some e)
    with lu show ?thesis by (simp add: r create_refused)
  next
    case None
    with 1 r types have b: "b = required_bytes preq"
      and size: "size_allowed preq pz (cs_types (ks_cloud s)) (news (ks_cloud t) (ks_cloud u)) i"
      by (auto simp: sized_def)
    have tu: "ext (ks_cloud t) (ks_cloud u)" "ext (ks_cloud s) (ks_cloud t)" "ext (ks_cloud s) (ks_cloud u)"
      using 1 l lu by (auto simp: sized_def lookup_def did_def)
    have "wp (ctl_guarded (cvq_Name preq) (ErrVolumeIsCreating (cvq_Name preq))
        (create_gated C preq az pz i b)) (create_safe C preq s) u"
    proof (rule wp_mono [OF create_guarded_wp], goal_cases)
      case (1 r v)
      note later = news_mono [OF tu(3) outcome_ext [OF 1]]
      have "size_allowed preq pz (cs_types (ks_cloud s)) (news (ks_cloud s) (ks_cloud v)) i"
        using type_evidence_mono(4) [OF subset_trans [OF news_later [OF tu(2,1)] later] size] .
      moreover have "zones_read (ce_cloud C) (ks_cloud s) (news (ks_cloud s) (ks_cloud v)) zones"
        using zs news_mono [OF tu(2,1)] later unfolding zones_read_def by blast
      ultimately show ?case
        using outcome_after [OF lu 1] unfolding create_safe_def b pz Let_def by blast
    qed
    with None show ?thesis by (simp add: r)
  qed
qed

lemma CreateVolume_wp:
  assumes cat: "catalog_loaded (ce_cloud C)"
  shows "wp (CreateVolume C preq) (create_safe C preq s) s"
proof -
  have zones: "wp (in_cloud (GetListZones (ce_cloud C))) (\<lambda>r u. (\<forall>zones. r = Inr zones \<longrightarrow>
        zones_read (ce_cloud C) (ks_cloud s) (news (ks_cloud s) (ks_cloud u)) zones) \<and>
      cs_types (ks_cloud u) = cs_types (ks_cloud s)) s"
    using wp_conj [OF GetListZones_wp types_left(2)] by simp
  have "wp (do {
      z \<leftarrow> in_cloud (GetListZones (ce_cloud C));
      (case z of
         Inl serr \<Rightarrow> do { _ \<leftarrow> reportCreateIaaSError C preq (Some serr); State_Monad.return (fail_with (ie_err serr)) }
       | Inr listZones \<Rightarrow>
           (let availabilityZone = pickAvailabilityZone (cvq_Topology preq)
            in create_sized C preq availabilityZone (portal_zone availabilityZone listZones))) })
    (create_safe C preq s) s"
  proof (subst wp_bind, rule wp_mono [OF wp_conj [OF keepsD [OF in_cloud_keeps [OF reads_keep(3)]] zones]],
      goal_cases)
    case (1 z t)
    then have l: "lookup s t" by simp
    have "wp (do { _ \<leftarrow> reportCreateIaaSError C preq (Some e); State_Monad.return (fail_with (ie_err e)) })
        (create_safe C preq s) t" for e
      by (rule create_report_refused [OF reportCreateIaaSError_keeps _ l]) (simp add: fail_with_not_ok)
    with 1 create_sized_wp [OF cat refl l] show ?case by (auto simp: Let_def split: sum.split)
  qed
  moreover have "wp (do { _ \<leftarrow> claim_warning C cl reason msg; State_Monad.return (Fail err) })
      (create_safe C preq s) s" for cl reason msg err
    by (rule create_report_refused [OF claim_warning_keeps]) (simp_all add: lk.R_refl)
  ultimately show ?thesis
    by (simp add: CreateVolume_def split: option.split)
qed

text \<open>Whatever the catalog answers, the handler is a quiet step.\<close>

lemma size_lookup_failed_keeps [frames]: "keeps lookup (size_lookup_failed C preq e)"
  unfolding size_lookup_failed_def by (intro frames)

lemma getVolSizeBytes_keeps [frames]: "keeps lookup (getVolSizeBytes C z preq)"
  unfolding getVolSizeBytes_def check_named_size_def check_type_size_def Let_def by (intro frames)

lemma guarded_create_quiet: "keeps quiet (ctl_guarded key (ErrVolumeIsCreating v) (create_gated C preq az pz ty b))"
  by (rule keepsI, rule wp_mono [OF create_guarded_wp]) (simp add: create_outcome_def)

lemmas quiet_frames = keeps_if keeps_sum keeps_option keeps_prod keeps_let qt.keeps_return qt.keeps_bind

lemma CreateVolume_quiet: "keeps quiet (CreateVolume C preq)"
  unfolding CreateVolume_def create_sized_def Let_def
  by (intro quiet_frames guarded_create_quiet in_cloud_quiet lookup_quiet [OF getVolSizeBytes_keeps]
      lookup_quiet [OF claim_warning_keeps] lookup_quiet [OF reportCreateIaaSError_keeps])


definition sample_create :: create_volume_request where
  "sample_create = \<lparr>cvq_Name = ''pvc-1'', cvq_Caps = [\<lparr>cap_mode = SingleNodeWriter, cap_type = Block\<rparr>],
     cvq_RequiredBytes = Some 21474836480, cvq_Parameters = [(VolumeTypeKey, ''type-a'')],
     cvq_Mutable = [], cvq_Topology = None, cvq_Source = None\<rparr>"

lemma sample_catalog [simp]: "catalog_loaded (ce_cloud (sample_cenv att refusal))"
  by (simp add: catalog_loaded_def sample_cenv_def sample_env_def)


end
