(* ===== verification/CtlSnapshots.thy ===== *)
theory CtlSnapshots
  imports CtlFrame CtlService
begin

text \<open>
  The snapshot handlers of \<^verbatim>\<open>pkg/driver/controller.go\<close>: create, delete and list, with their
  response builders and the page token.
\<close>

section \<open>Responses\<close>

record csi_snapshot =
  csn_SnapshotId :: string
  csn_SourceVolumeId :: string
  csn_SizeBytes :: int64
  csn_CreationTime :: int
  csn_ReadyToUse :: bool

text \<open>The time a snapshot says it was created, or now when it does not parse.\<close>

definition creation_time :: "cenv \<Rightarrow> string \<Rightarrow> (ctl, int) state" where
  "creation_time C createdAt =
     (case ce_parse_time C createdAt of Some t \<Rightarrow> State_Monad.return t | None \<Rightarrow> clock_now C)"

definition newCreateSnapshotResponse :: "cenv \<Rightarrow> snapshot \<Rightarrow> (ctl, csi_snapshot) state" where
  "newCreateSnapshotResponse C snapshot = do {
     creationTime \<leftarrow> creation_time C (snap_CreatedAt snapshot);
     State_Monad.return \<lparr>csn_SnapshotId = snap_Id snapshot, csn_SourceVolumeId = snap_VolumeId snapshot,
       csn_SizeBytes = snap_VolumeSize snapshot * GiB, csn_CreationTime = creationTime,
       csn_ReadyToUse = True\<rparr>
   }"

definition newListSnapshotsResponseEntry :: "cenv \<Rightarrow> snapshot \<Rightarrow> (ctl, csi_snapshot) state" where
  "newListSnapshotsResponseEntry C snapshot = do {
     creationTime \<leftarrow> creation_time C (snap_CreatedAt snapshot);
     State_Monad.return \<lparr>csn_SnapshotId = snap_Id snapshot, csn_SourceVolumeId = snap_VolumeId snapshot,
       csn_SizeBytes = snap_Size snapshot * GiB, csn_CreationTime = creationTime,
       csn_ReadyToUse = (snap_Status snapshot = SnapshotActiveStatus)\<rparr>
   }"

fun snapshot_entries :: "cenv \<Rightarrow> snapshot list \<Rightarrow> (ctl, csi_snapshot list) state" where
  "snapshot_entries C [] = State_Monad.return []"
| "snapshot_entries C (snap # snaps) = do {
     e \<leftarrow> newListSnapshotsResponseEntry C snap;
     es \<leftarrow> snapshot_entries C snaps;
     State_Monad.return (e # es)
   }"

text \<open>The token of the next page; empty on the last one.\<close>

definition next_token :: "snapshot_page \<Rightarrow> string" where
  "next_token psnapshotList =
     (if sp_Page psnapshotList < sp_TotalPages psnapshotList then Itoa (sp_Page psnapshotList + 1) else '''')"

definition newListSnapshotsResponse ::
    "cenv \<Rightarrow> snapshot_page \<Rightarrow> (ctl, csi_snapshot list \<times> string) state" where
  "newListSnapshotsResponse C psnapshotList = do {
     entries \<leftarrow> snapshot_entries C (sp_Items psnapshotList);
     State_Monad.return (entries, next_token psnapshotList)
   }"

definition newGetSnapshotsResponse :: "cenv \<Rightarrow> string \<Rightarrow> (ctl, csi_snapshot list \<times> string) state" where
  "newGetSnapshotsResponse C psnapshotID = do {
     now \<leftarrow> clock_now C;
     State_Monad.return
       ([\<lparr>csn_SnapshotId = psnapshotID, csn_SourceVolumeId = ''undefined'', csn_SizeBytes = 0,
          csn_CreationTime = now, csn_ReadyToUse = True\<rparr>], '''')
   }"

definition parsePage :: "string \<Rightarrow> int" where
  "parsePage nextToken =
     (if nextToken = '''' then 1 else (case Atoi nextToken of None \<Rightarrow> 1 | Some page \<Rightarrow> page))"

section \<open>Handlers\<close>

text \<open>A nil snapshot handed to the response builder is dereferenced there.\<close>

definition snapshot_response :: "cenv \<Rightarrow> snapshot option \<Rightarrow> (ctl, csi_snapshot reply) state" where
  "snapshot_response C x = (case x of
     None \<Rightarrow> State_Monad.return Crashed
   | Some snap \<Rightarrow> do { resp \<leftarrow> newCreateSnapshotResponse C snap; State_Monad.return (Ok resp) })"

definition create_snapshot_new :: "cenv \<Rightarrow> string \<Rightarrow> string \<Rightarrow> (ctl, csi_snapshot reply) state" where
  "create_snapshot_new C snapshotName volumeID = do {
     r \<leftarrow> in_cloud (CreateSnapshotFromVolume (ce_cloud C) (ce_clusterID C) volumeID snapshotName);
     (case r of
        Panic \<Rightarrow> State_Monad.return Crashed
      | Return (_, Some err) \<Rightarrow> State_Monad.return (Fail (Raw err))
      | Return (snapshot, None) \<Rightarrow> snapshot_response C snapshot)
   }"

definition create_snapshot_body :: "cenv \<Rightarrow> string \<Rightarrow> string \<Rightarrow> (ctl, csi_snapshot reply) state" where
  "create_snapshot_body C snapshotName volumeID = do {
     r \<leftarrow> in_cloud (GetVolumeSnapshotByName (ce_cloud C) volumeID snapshotName);
     (case r of
        (Some snap, None) \<Rightarrow> snapshot_response C (Some snap)
      | (None, None) \<Rightarrow> create_snapshot_new C snapshotName volumeID
      | (snapshot, Some err) \<Rightarrow>
          if \<not> errors_Is err ErrSnapshotNotFound then State_Monad.return (Fail (Raw err))
          else (case snapshot of
                  Some snap \<Rightarrow> snapshot_response C (Some snap)
                | None \<Rightarrow> create_snapshot_new C snapshotName volumeID))
   }"

definition CreateSnapshot :: "cenv \<Rightarrow> string \<Rightarrow> string \<Rightarrow> (ctl, csi_snapshot reply) state" where
  "CreateSnapshot C snapshotName volumeID =
     (case validateCreateSnapshotRequest snapshotName volumeID of
        Some err \<Rightarrow> State_Monad.return (Fail err)
      | None \<Rightarrow> ctl_guarded snapshotName (ErrOperationAlreadyExists volumeID)
                 (create_snapshot_body C snapshotName volumeID))"

definition delete_snapshot_body :: "cenv \<Rightarrow> string \<Rightarrow> (ctl, unit reply) state" where
  "delete_snapshot_body C snapshotID = do {
     err \<leftarrow> in_cloud (DeleteSnapshot (ce_cloud C) snapshotID);
     State_Monad.return (if err \<noteq> None then Fail (ErrFailedToDeleteSnapshot snapshotID) else Ok ())
   }"

definition Controller_DeleteSnapshot :: "cenv \<Rightarrow> string \<Rightarrow> (ctl, unit reply) state" where
  "Controller_DeleteSnapshot C snapshotID =
     (case validateDeleteSnapshotRequest snapshotID of
        Some err \<Rightarrow> State_Monad.return (Fail err)
      | None \<Rightarrow> ctl_guarded snapshotID (ErrSnapshotIsDeleting snapshotID) (delete_snapshot_body C snapshotID))"

definition Controller_ListSnapshots ::
    "cenv \<Rightarrow> string \<Rightarrow> string \<Rightarrow> string \<Rightarrow> int \<Rightarrow> (ctl, (csi_snapshot list \<times> string) reply) state" where
  "Controller_ListSnapshots C snapshotID volumeID startingToken maxEntries =
     (if snapshotID \<noteq> '''' then do {
        r \<leftarrow> newGetSnapshotsResponse C snapshotID;
        State_Monad.return (Ok r)
      } else do {
        r \<leftarrow> in_cloud (ListSnapshots (ce_cloud C) volumeID (parsePage startingToken) maxEntries);
        (case r of
           Inl ierr \<Rightarrow> State_Monad.return (Fail (ErrFailedToListSnapshot volumeID))
         | Inr None \<Rightarrow> State_Monad.return Crashed
         | Inr (Some cloudSnapshots) \<Rightarrow> do {
             resp \<leftarrow> newListSnapshotsResponse C cloudSnapshots;
             State_Monad.return (Ok resp)
           })
      })"

section \<open>What the lookups and the wait see\<close>

text \<open>A listing of the volume's snapshots showed one with the property.\<close>

definition listed :: "string \<Rightarrow> (snapshot \<Rightarrow> bool) \<Rightarrow> cstate \<Rightarrow> cstate \<Rightarrow> bool" where
  "listed v P s s' \<longleftrightarrow> (\<exists>p z res snap. EvListSnapshots p z v (Inr (Some res)) \<in> set (news s s') \<and>
     snap \<in> set (sp_Items res) \<and> P snap)"

lemma listed_mono: "set (news s t) \<subseteq> set (news s' t') \<Longrightarrow> listed v P s t \<Longrightarrow> listed v P s' t'"
  unfolding listed_def by blast

text \<open>Errors of the snapshot calls carry a Go error; without one the driver dereferences nil.\<close>

definition snapshot_errors_loaded :: "env \<Rightarrow> bool" where
  "snapshot_errors_loaded E \<longleftrightarrow>
     (\<forall>h p z v e. api_ListSnapshots E h p z v = Inl e \<longrightarrow> ie_err e \<noteq> None) \<and>
     (\<forall>h n v e. api_CreateSnapshot E h n v = Inl e \<longrightarrow> ie_err e \<noteq> None)"

lemma snapshot_errors_loadedD:
  assumes "snapshot_errors_loaded E"
  shows "api_ListSnapshots E h p z v = Inl e \<Longrightarrow> \<exists>x. ie_err e = Some x"
    "api_CreateSnapshot E h n v = Inl e \<Longrightarrow> \<exists>x. ie_err e = Some x"
  using assms unfolding snapshot_errors_loaded_def by blast+

definition found_snapshot ::
    "string \<Rightarrow> string \<Rightarrow> cstate \<Rightarrow> snapshot option \<times> go_error option \<Rightarrow> cstate \<Rightarrow> bool" where
  "found_snapshot v n s r s' \<longleftrightarrow> did [] s s' \<and> (case r of
     (Some snap, err) \<Rightarrow> err = None \<and> listed v (\<lambda>x. x = snap \<and> snapshot_matches v n x) s s'
   | (None, err) \<Rightarrow> err \<noteq> None)"

lemma found_later:
  assumes "did [] s t" and "found_snapshot v n t r u"
  shows "found_snapshot v n s r u"
proof -
  have d: "did [] t u" using assms(2) by (simp add: found_snapshot_def)
  have "set (news t u) \<subseteq> set (news s u)" by (rule news_later [OF did_ext [OF assms(1)] did_ext [OF d]])
  with assms(2) did_after_ro [OF assms(1) d] show ?thesis
    by (auto simp: found_snapshot_def split: option.splits intro: listed_mono)
qed

lemma snapshot_walk_found:
  assumes "snapshot_errors_loaded E"
  shows "wp (snapshot_walk E v n page left) (found_snapshot v n s) s"
proof (induction left arbitrary: page s)
  case 0
  then show ?case by (simp add: found_snapshot_def)
next
  case (Suc left)
  let ?r = "api_ListSnapshots E (cs_hist s) (int page) (int snapshotListPageSize) v"
  let ?t = "s\<lparr>cs_hist := EvListSnapshots (int page) (int snapshotListPageSize) v ?r # cs_hist s\<rparr>"
  have d: "did [] s ?t" by (simp add: did_def)
  have on: "wp (snapshot_walk E v n (page + 1) left) (found_snapshot v n s) ?t"
    by (rule wp_mono [OF Suc.IH]) (rule found_later [OF d])
  have here: "found_snapshot v n s (Some snap, None) ?t"
    if "?r = Inr (Some res)" "List.find (snapshot_matches v n) (sp_Items res) = Some snap" for res snap
    using d that by (auto simp: found_snapshot_def listed_def find_Some_iff)
  have stop: "found_snapshot v n s (None, Some e) ?t" "found_snapshot v n s (None, Some e) s" for e
    using d by (simp_all add: found_snapshot_def)
  have bad: "found_snapshot v n s (None, ie_err e) ?t" if "?r = Inl e" for e
    using snapshot_errors_loadedD(1) [OF assms that] stop by auto
  show ?case
    using on here stop bad by (auto split: option.split sum.split)
qed

lemma GetVolumeSnapshotByName_found:
  assumes "snapshot_errors_loaded E"
  shows "wp (GetVolumeSnapshotByName E v n) (found_snapshot v n s) s"
  unfolding GetVolumeSnapshotByName_def wp_bind
proof (rule wp_mono [OF wp_conj [OF projectClient_wp keepsD [OF projectClient_keeps]]], goal_cases)
  case (1 c t)
  then have d: "did [] s t" by blast
  show ?case
  proof (cases c)
    case (Inl e)
    with 1 d show ?thesis by (auto simp: found_snapshot_def unresolved_def)
  next
    case (Inr p)
    show ?thesis
      unfolding Inr sum.case
      by (rule wp_mono [OF snapshot_walk_found [OF assms]]) (rule found_later [OF d])
  qed
qed

text \<open>A lookup that finds nothing was shown no match.\<close>

lemma unlisted_trans:
  assumes "ext s t" and "ext t u" and "\<not> listed v P s t" and "\<not> listed v P t u"
  shows "\<not> listed v P s u"
  using assms(3,4) by (auto simp: listed_def news_trans [OF assms(1,2)])

lemma snapshot_walk_missed:
  "wp (snapshot_walk E v n page left) (\<lambda>r s'. ext s s' \<and>
    (fst r = None \<longrightarrow> \<not> listed v (snapshot_matches v n) s s')) s"
proof (induction left arbitrary: page s)
  case 0
  then show ?case by (simp add: listed_def)
next
  case (Suc left)
  let ?r = "api_ListSnapshots E (cs_hist s) (int page) (int snapshotListPageSize) v"
  let ?t = "s\<lparr>cs_hist := EvListSnapshots (int page) (int snapshotListPageSize) v ?r # cs_hist s\<rparr>"
  have none: "\<not> listed v (snapshot_matches v n) s ?t"
    if "\<And>res. ?r = Inr (Some res) \<Longrightarrow> List.find (snapshot_matches v n) (sp_Items res) = None"
    using that by (fastforce simp: listed_def find_None_iff dest: sym)
  have on: "wp (snapshot_walk E v n (page + 1) left) (\<lambda>r s'. ext s s' \<and>
      (fst r = None \<longrightarrow> \<not> listed v (snapshot_matches v n) s s')) ?t"
    if "\<And>res. ?r = Inr (Some res) \<Longrightarrow> List.find (snapshot_matches v n) (sp_Items res) = None"
    by (rule wp_mono [OF Suc.IH]) (auto intro: ext_trans [OF ext_call] dest: unlisted_trans [OF ext_call _ none [OF that]])
  have here: "\<not> listed v (snapshot_matches v n) s s" by (simp add: listed_def)
  show ?case
    using on none here by (auto split: option.split sum.split)
qed

lemma projectClient_no_page:
  "wp (projectClient E) (\<lambda>r s'. ro s s' \<and> (\<forall>e\<in>set (news s s'). \<not> is_snapshot_page e)) s"
  unfolding projectClient_def
  by (rule cached_get_wp) (auto simp: resolve_project_def portalLookup_def split: sum.splits)

lemma no_page_unlisted: "\<forall>e\<in>set (news s s'). \<not> is_snapshot_page e \<Longrightarrow> \<not> listed v P s s'"
  by (auto simp: listed_def)

lemma GetVolumeSnapshotByName_missed:
  "wp (GetVolumeSnapshotByName E v n) (\<lambda>r s'. fst r = None \<longrightarrow> \<not> listed v (snapshot_matches v n) s s') s"
  unfolding GetVolumeSnapshotByName_def wp_bind
proof (rule wp_mono [OF projectClient_no_page], goal_cases)
  case (1 c t)
  then have e: "ext s t" and none: "\<not> listed v (snapshot_matches v n) s t" by (simp_all add: no_page_unlisted ro_ext)
  show ?case
  proof (cases c)
    case (Inl err)
    with none show ?thesis by simp
  next
    case (Inr p)
    show ?thesis
      unfolding Inr sum.case
      by (rule wp_mono [OF snapshot_walk_missed]) (auto dest: unlisted_trans [OF e _ none])
  qed
qed

text \<open>The wait for an active snapshot: it never dereferences nil, and ends well only after it was listed.\<close>

definition active_listed :: "string \<Rightarrow> string \<Rightarrow> cstate \<Rightarrow> cstate \<Rightarrow> bool" where
  "active_listed v n s s' \<longleftrightarrow>
     listed v (\<lambda>x. snapshot_matches v n x \<and> snap_Status x = SnapshotActiveStatus) s s'"

lemma snapshot_condition_step:
  assumes "snapshot_errors_loaded E" and "did [] s t" and "snapshot_condition E v n (b, t) = (c, (b', t'))"
  shows "did [] s t' \<and> b' = b \<and> (c = (True, None) \<longrightarrow> active_listed v n s t')"
proof -
  obtain r err t1 where run: "run_state (GetVolumeSnapshotByName E v n) t = ((r, err), t1)" by (metis surj_pair)
  from wpD [OF GetVolumeSnapshotByName_found [OF assms(1)] run]
  have f: "found_snapshot v n s (r, err) t1" by (rule found_later [OF assms(2)])
  show ?thesis
  proof (cases r)
    case None
    with f run assms(3) show ?thesis by (auto simp: snapshot_condition_def found_snapshot_def)
  next
    case (Some snap)
    with f have "err = None" "did [] s t1" "listed v (\<lambda>x. x = snap \<and> snapshot_matches v n x) s t1"
      by (auto simp: found_snapshot_def)
    with Some run assms(3) show ?thesis
      by (auto simp: snapshot_condition_def active_listed_def listed_def)
  qed
qed

lemma waitSnapshotActive_wp:
  assumes "wait_ok E" and "snapshot_errors_loaded E"
  shows "wp (waitSnapshotActive E v n) (\<lambda>r t. did [] s t \<and> r \<noteq> Panic \<and>
    (r = Return None \<longrightarrow> active_listed v n s t)) s"
proof -
  let ?cond = "snapshot_condition E v n"
  let ?P = "\<lambda>(b, t). did [] s t \<and> \<not> b"
  obtain err b t where w: "e_wait_snapshot E snapshotOperationBackoff ?cond (False, s) = (err, (b, t))"
    by (metis surj_pair)
  have p: "poll ?cond (bo_Steps snapshotOperationBackoff) (False, s) (err, (b, t))"
    using wait_okD(2) [OF assms(1)] w by metis
  have step: "?P x \<Longrightarrow> ?cond x = (c, x') \<Longrightarrow> ?P x'" for x c x'
    by (cases x; cases x') (auto dest: snapshot_condition_step [OF assms(2)])
  have inv: "?P (b, t)" using poll_invariant [OF p, of ?P] step by simp
  have "active_listed v n s t" if "err = None"
  proof -
    have "\<exists>x. ?P x \<and> ?cond x = ((True, None), (b, t))"
      by (rule poll_success [OF p [unfolded that]]) (use step in auto)
    then show ?thesis by (auto dest: snapshot_condition_step [OF assms(2)])
  qed
  with w inv show ?thesis by (simp add: waitSnapshotActive_def)
qed

section \<open>What the handlers do\<close>

text \<open>
  A snapshot answered as ready was listed for the volume under that name, or was created by this call
  and then listed as active.
\<close>

definition snapshot_evidence :: "string \<Rightarrow> string \<Rightarrow> csi_snapshot \<Rightarrow> cstate \<Rightarrow> cstate \<Rightarrow> bool" where
  "snapshot_evidence v n resp s s' \<longleftrightarrow>
     did [] s s' \<and> listed v (\<lambda>x. snap_Id x = csn_SnapshotId resp \<and> snapshot_matches v n x) s s' \<or>
     (\<exists>snap. did [EvCreateSnapshot n v (Inr snap)] s s' \<and> snap_Id snap = csn_SnapshotId resp \<and>
        active_listed v (snap_Name snap) s s')"

text \<open>The creation came after listings of this call that showed no snapshot of that name.\<close>

definition created_unlisted :: "string \<Rightarrow> string \<Rightarrow> cstate \<Rightarrow> cstate \<Rightarrow> bool" where
  "created_unlisted v n s s' \<longleftrightarrow> (\<exists>m x later. did [] s m \<and> \<not> listed v (snapshot_matches v n) s m \<and>
     cs_hist s' = later @ EvCreateSnapshot n v x # cs_hist m \<and> commands later = [])"

definition create_snapshot_post :: "string \<Rightarrow> string \<Rightarrow> cstate \<Rightarrow> csi_snapshot reply \<Rightarrow> cstate \<Rightarrow> bool" where
  "create_snapshot_post v n s r s' \<longleftrightarrow> r \<noteq> Crashed \<and> r \<noteq> NilNil \<and>
     (did [] s s' \<or> (\<exists>x. did [EvCreateSnapshot n v x] s s') \<and> created_unlisted v n s s') \<and>
     (\<forall>resp. r = Ok resp \<longrightarrow> snapshot_evidence v n resp s s')"

lemma creation_time_keeps [frames]: "keeps lookup (creation_time C x)"
  unfolding creation_time_def by (intro frames)

lemma newListSnapshotsResponseEntry_keeps [frames]: "keeps lookup (newListSnapshotsResponseEntry C x)"
  unfolding newListSnapshotsResponseEntry_def by (intro frames)

lemma snapshot_entries_keeps [frames]: "keeps lookup (snapshot_entries C xs)"
  by (induction xs) (auto intro!: frames)

lemma snapshot_response_wp:
  "wp (snapshot_response C (Some snap)) (\<lambda>r t. ks_cloud t = ks_cloud s \<and>
    (\<exists>resp. r = Ok resp \<and> csn_SnapshotId resp = snap_Id snap)) s"
  by (simp add: snapshot_response_def newCreateSnapshotResponse_def creation_time_def split: option.split)

lemma CreateSnapshotFromVolume_wp:
  assumes "wait_ok E" and loaded: "snapshot_errors_loaded E" and d: "did [] s t"
    and unlisted: "\<not> listed v (snapshot_matches v n) s t"
  shows "wp (CreateSnapshotFromVolume E cid v n) (\<lambda>r u.
    (did [] s u \<or> (\<exists>x. did [EvCreateSnapshot n v x] s u) \<and> created_unlisted v n s u) \<and> r \<noteq> Panic \<and> r \<noteq> Return (None, None) \<and>
    (\<forall>snap. r = Return (Some snap, None) \<longrightarrow> did [EvCreateSnapshot n v (Inr snap)] s u \<and>
       active_listed v (snap_Name snap) s u)) t"
  unfolding CreateSnapshotFromVolume_def wp_bind
proof (rule wp_mono [OF wp_conj [OF wp_conj [OF projectClient_wp keepsD [OF projectClient_keeps]]
      projectClient_no_page]], goal_cases)
  case (1 c t1)
  then have d1: "did [] s t1" using did_after_ro [OF d] by blast
  have unlisted1: "\<not> listed v (snapshot_matches v n) s t1"
    using 1 by (intro unlisted_trans [OF did_ext [OF d] _ unlisted] no_page_unlisted) (simp_all add: ro_ext)
  show ?case
  proof (cases c)
    case (Inl e)
    with 1 d1 show ?thesis by (auto simp: unresolved_def)
  next
    case (Inr p)
    let ?x = "api_CreateSnapshot E (cs_hist t1) n v"
    let ?t = "t1\<lparr>cs_hist := EvCreateSnapshot n v ?x # cs_hist t1\<rparr>"
    have d2: "did [EvCreateSnapshot n v ?x] s ?t" using did_event [OF d1, of "EvCreateSnapshot n v ?x"] by simp
    have made: "created_unlisted v n s u" if "did [] ?t u" for u
    proof -
      from that obtain later where "cs_hist u = later @ cs_hist ?t" by (auto simp: did_def ext_def)
      moreover from this have "commands later = []" using that by (simp add: did_def news_append)
      ultimately show ?thesis using d1 unlisted1 by (auto simp: created_unlisted_def)
    qed
    show ?thesis
    proof (cases ?x)
      case (Inl e)
      with Inr d2 made [OF did_refl] snapshot_errors_loadedD(2) [OF loaded Inl] show ?thesis by auto
    next
      case (Inr snap)
      have "wp (waitSnapshotActive E v (snap_Name snap)) (\<lambda>r u. did [EvCreateSnapshot n v ?x] s u \<and>
          created_unlisted v n s u \<and>
          r \<noteq> Panic \<and> (r = Return None \<longrightarrow> active_listed v (snap_Name snap) s u)) ?t"
      proof (rule wp_mono [OF waitSnapshotActive_wp [OF assms(1) loaded, of v "snap_Name snap" ?t]], goal_cases)
        case (1 r u)
        have "set (news ?t u) \<subseteq> set (news s u)" using 1 by (intro news_later did_ext [OF d2]) (simp add: did_def)
        with 1 did_ro_trans [OF d2] made show ?case by (auto simp: active_listed_def intro: listed_mono)
      qed
      then show ?thesis
        unfolding \<open>c = Inr p\<close> sum.case wp_bind wp_api_call Inr wp_return
        by (rule wp_mono) (auto split: go.split)
    qed
  qed
qed

lemma create_snapshot_new_wp:
  assumes "wait_ok (ce_cloud C)" and "snapshot_errors_loaded (ce_cloud C)" and "did [] c (ks_cloud t)"
    and "\<not> listed v (snapshot_matches v n) c (ks_cloud t)"
  shows "wp (create_snapshot_new C n v) (\<lambda>r u. create_snapshot_post v n c r (ks_cloud u)) t"
  unfolding create_snapshot_new_def wp_bind wp_in_cloud
proof (rule wp_mono [OF CreateSnapshotFromVolume_wp [OF assms]], goal_cases)
  case (1 r u)
  have ok: "create_snapshot_post v n c (Ok resp) u"
    if "r = Return (Some snap, None)" "csn_SnapshotId resp = snap_Id snap" for snap resp
    using 1 that by (auto simp: create_snapshot_post_def snapshot_evidence_def)
  have "wp (snapshot_response C (Some snap)) (\<lambda>r u. create_snapshot_post v n c r (ks_cloud u)) (t\<lparr>ks_cloud := u\<rparr>)"
    if "r = Return (Some snap, None)" for snap
    by (rule wp_mono [OF snapshot_response_wp]) (use ok [OF that] in auto)
  note made = this
  have failed: "create_snapshot_post v n c (Fail (Raw e)) u" for e
    using 1 by (auto simp: create_snapshot_post_def)
  consider "r = Panic" | x e where "r = Return (x, Some e)" | "r = Return (None, None)"
    | snap where "r = Return (Some snap, None)"
    by (metis go.exhaust option.exhaust surj_pair)
  then show ?case
  proof cases
    case (2 x e)
    with failed show ?thesis by simp
  next
    case (4 snap)
    with made show ?thesis by simp
  qed (use 1 in simp_all)
qed

lemma create_snapshot_body_wp:
  assumes "wait_ok (ce_cloud C)" and "snapshot_errors_loaded (ce_cloud C)" and "ks_cloud t = c"
  shows "wp (create_snapshot_body C n v) (\<lambda>r u. create_snapshot_post v n c r (ks_cloud u)) t"
  unfolding create_snapshot_body_def wp_bind wp_in_cloud
proof (rule wp_mono [OF wp_conj [OF GetVolumeSnapshotByName_found [OF assms(2)] GetVolumeSnapshotByName_missed]],
    goal_cases)
  case (1 r u)
  let ?t = "t\<lparr>ks_cloud := u\<rparr>"
  have d: "did [] c u" using 1 assms(3) by (simp add: found_snapshot_def)
  have new: "wp (create_snapshot_new C n v) (\<lambda>r u. create_snapshot_post v n c r (ks_cloud u)) ?t"
    if "fst r = None"
    by (rule create_snapshot_new_wp [OF assms(1,2)]) (use d 1 that assms(3) in simp_all)
  have old: "wp (snapshot_response C (Some snap)) (\<lambda>r u. create_snapshot_post v n c r (ks_cloud u)) ?t"
    if "fst r = Some snap" for snap
  proof (rule wp_mono [OF snapshot_response_wp], goal_cases)
    case (1 r' u')
    have "listed v (\<lambda>x. x = snap \<and> snapshot_matches v n x) c u"
      using \<open>found_snapshot v n (ks_cloud t) r u \<and> _\<close> that assms(3) by (cases r) (auto simp: found_snapshot_def)
    with 1 d show ?case by (auto simp: create_snapshot_post_def snapshot_evidence_def listed_def)
  qed
  obtain x err where r: "r = (x, err)" by (cases r)
  have fail: "create_snapshot_post v n c (Fail e) u" for e using d by (simp add: create_snapshot_post_def)
  from new [unfolded r fst_conv] old [unfolded r fst_conv] fail show ?case by (auto simp: r split: option.split)
qed

lemma create_snapshot_body_quiet: "keeps quiet (create_snapshot_body C n v)"
  unfolding create_snapshot_body_def create_snapshot_new_def snapshot_response_def
    newCreateSnapshotResponse_def
  by (intro frames keeps_prod keeps_option in_cloud_quiet lookup_quiet [OF creation_time_keeps])

lemma delete_snapshot_body_quiet: "keeps quiet (delete_snapshot_body C n)"
  unfolding delete_snapshot_body_def by (intro frames in_cloud_quiet)

lemma CreateSnapshot_quiet: "keeps quiet (CreateSnapshot C n v)"
  unfolding CreateSnapshot_def
  by (intro frames guarded_quiet create_snapshot_body_quiet)

lemma DeleteSnapshot_quiet: "keeps quiet (Controller_DeleteSnapshot C n)"
  unfolding Controller_DeleteSnapshot_def
  by (intro frames guarded_quiet delete_snapshot_body_quiet)

lemma Controller_ListSnapshots_keeps: "keeps lookup (Controller_ListSnapshots C i v tok k)"
  unfolding Controller_ListSnapshots_def newGetSnapshotsResponse_def newListSnapshotsResponse_def
  by (intro frames)


text \<open>A server that lists the snapshot, active, once it was created.\<close>

fun sample_made :: "history \<Rightarrow> bool" where
  "sample_made [] = False"
| "sample_made (EvCreateSnapshot n v (Inr x) # h) = True"
| "sample_made (e # h) = sample_made h"

definition sample_snapshots :: "env \<Rightarrow> env" where
  "sample_snapshots E = E\<lparr>api_ListSnapshots := (\<lambda>h p z v. Inr (Some
     \<lparr>sp_Items = (if sample_made h
        then [\<lparr>snap_Id = ''snap-1'', snap_Name = ''snap-a'', snap_VolumeId = ''vol-1'',
               snap_Status = SnapshotActiveStatus, snap_VolumeSize = 20, snap_Size = 20,
               snap_CreatedAt = ''now''\<rparr>] else []),
      sp_Page = 1, sp_TotalPages = 1\<rparr>))\<rparr>"

definition sample_snapshot_cenv :: cenv where
  "sample_snapshot_cenv = (sample_cenv False None)\<lparr>ce_cloud := sample_snapshots (sample_env False None)\<rparr>"


section \<open>Listing page by page\<close>

text \<open>
  A client that follows the tokens: it starts with the empty one and asks again with the one it was
  given until it is given an empty one. \<open>fuel\<close> bounds the number of calls.
\<close>

fun follow_tokens :: "nat \<Rightarrow> cenv \<Rightarrow> string \<Rightarrow> int \<Rightarrow> string \<Rightarrow> (ctl, string list option) state" where
  "follow_tokens 0 C v k token = State_Monad.return None"
| "follow_tokens (Suc fuel) C v k token = do {
     r \<leftarrow> Controller_ListSnapshots C '''' v token k;
     (case r of
        Ok (entries, next) \<Rightarrow>
          if next = '''' then State_Monad.return (Some (map csn_SnapshotId entries))
          else do {
            rest \<leftarrow> follow_tokens fuel C v k next;
            State_Monad.return (map_option (\<lambda>ids. map csn_SnapshotId entries @ ids) rest)
          }
      | _ \<Rightarrow> State_Monad.return None)
   }"

text \<open>A server that keeps answering the same pages for a volume and a page size.\<close>

definition paged_server :: "env \<Rightarrow> string \<Rightarrow> int \<Rightarrow> snapshot list list \<Rightarrow> bool" where
  "paged_server E v k pages \<longleftrightarrow> pages \<noteq> [] \<and> int (length pages) < 2 ^ 63 \<and>
     (\<forall>h. \<exists>p. api_Portal E h (e_ProjectID E) = Inr p) \<and>
     (\<forall>h i. i < length pages \<longrightarrow> api_ListSnapshots E h (int i + 1) k v =
        Inr (Some \<lparr>sp_Items = pages ! i, sp_Page = int i + 1, sp_TotalPages = int (length pages)\<rparr>))"

lemma snapshot_entries_ids:
  "wp (snapshot_entries C xs) (\<lambda>es t. map csn_SnapshotId es = map snap_Id xs) s"
proof (induction xs arbitrary: s)
  case Nil
  then show ?case by simp
next
  case (Cons x xs)
  have "wp (newListSnapshotsResponseEntry C x) (\<lambda>e t. csn_SnapshotId e = snap_Id x) s"
    by (simp add: newListSnapshotsResponseEntry_def creation_time_def split: option.split)
  then show ?case
    unfolding snapshot_entries.simps wp_bind wp_return
    by (rule wp_mono) (rule wp_mono [OF Cons.IH], simp)
qed

lemma projectClient_resolves:
  assumes "\<forall>h. \<exists>p. api_Portal E h (e_ProjectID E) = Inr p"
  shows "wp (projectClient E) (\<lambda>r t. \<exists>p. r = Inr p) s"
proof -
  have "wp (resolve_project E) (\<lambda>r t. \<exists>p. r = Inr p) s"
    using assms [rule_format, of "cs_hist s"] by (auto simp: resolve_project_def portalLookup_def)
  then show ?thesis
    by (auto simp: projectClient_def cached_get_def wp_def split: prod.splits)
qed

lemma list_page_wp:
  assumes server: "paged_server (ce_cloud C) v k pages" and i: "i < length pages"
    and tok: "parsePage token = int i + 1"
  shows "wp (Controller_ListSnapshots C '''' v token k) (\<lambda>r t. \<exists>entries.
    r = Ok (entries, if Suc i < length pages then Itoa (int i + 2) else '''') \<and>
    map csn_SnapshotId entries = map snap_Id (pages ! i)) s"
proof -
  let ?res = "\<lparr>sp_Items = pages ! i, sp_Page = int i + 1, sp_TotalPages = int (length pages)\<rparr>"
  have read: "wp (ListSnapshots (ce_cloud C) v (int i + 1) k) (\<lambda>r t. r = Inr (Some ?res)) c" for c
    using server i unfolding ListSnapshots_def wp_bind
    by (intro wp_mono [OF projectClient_resolves]) (auto simp: paged_server_def)
  have token: "next_token ?res = (if Suc i < length pages then Itoa (int i + 2) else '''')"
    by (auto simp: next_token_def add.commute)
  have resp: "wp (newListSnapshotsResponse C ?res) (\<lambda>x t. snd x = next_token ?res \<and>
      map csn_SnapshotId (fst x) = map snap_Id (pages ! i)) t" for t
    unfolding newListSnapshotsResponse_def wp_bind wp_return
    by (rule wp_mono [OF snapshot_entries_ids]) simp
  show ?thesis
    unfolding Controller_ListSnapshots_def tok simp_thms if_False wp_bind wp_in_cloud
  proof (rule wp_mono [OF read], goal_cases)
    case (1 r t)
    show ?case
      unfolding 1 sum.case option.case wp_bind wp_return
      by (rule wp_mono [OF resp]) (auto simp: token)
  qed
qed

text \<open>C40: Following the page tokens lists everything: on a server whose pages do not change, a client that
starts without a token and asks again with each token it is given gets exactly the snapshots of all
pages, in order, after as many calls as there are pages; a token is parsed back to the page it names.\<close>

theorem snapshot_tokens_list_all:
  assumes "paged_server (ce_cloud C) v k pages" and "length pages \<le> fuel"
  shows "wp (follow_tokens fuel C v k '''') (\<lambda>r t. r = Some (map snap_Id (concat pages))) s"
proof -
  have walk: "wp (follow_tokens fuel C v k token) (\<lambda>r t. r = Some (map snap_Id (concat (drop i pages)))) s"
    if "i < length pages" "length pages \<le> i + fuel" "parsePage token = int i + 1" for i token s
    using that
  proof (induction fuel arbitrary: i token s)
    case 0
    then show ?case by simp
  next
    case (Suc fuel)
    have drop: "drop i pages = pages ! i # drop (Suc i) pages"
      using Suc.prems(1) by (simp add: Cons_nth_drop_Suc)
    have len: "int (length pages) < 2 ^ 63" using assms(1) by (simp add: paged_server_def)
    show ?case
      unfolding follow_tokens.simps wp_bind
    proof (rule wp_mono [OF list_page_wp [OF assms(1) Suc.prems(1,3)]], goal_cases)
      case (1 r t)
      then obtain es where r: "r = Ok (es, if Suc i < length pages then Itoa (int i + 2) else '''')"
        and ids: "map csn_SnapshotId es = map snap_Id (pages ! i)" by blast
      show ?case
      proof (cases "Suc i < length pages")
        case True
        have "parsePage (Itoa (int i + 2)) = int (Suc i) + 1"
          using True len by (simp add: parsePage_def Atoi_Itoa)
        then have "wp (follow_tokens fuel C v k (Itoa (int i + 2)))
            (\<lambda>r t. r = Some (map snap_Id (concat (drop (Suc i) pages)))) t"
          using True Suc.prems(2) by (intro Suc.IH) auto
        then have "wp (follow_tokens fuel C v k (Itoa (int i + 2))) (\<lambda>r t.
            map_option (\<lambda>x. map csn_SnapshotId es @ x) r = Some (map snap_Id (concat (drop i pages)))) t"
          by (rule wp_mono) (simp add: drop ids)
        then show ?thesis by (simp add: r True)
      next
        case False
        then have "drop (Suc i) pages = []" by simp
        then show ?thesis by (simp add: r False ids drop)
      qed
    qed
  qed
  have "pages \<noteq> []" using assms(1) by (simp add: paged_server_def)
  with walk [of 0 "''''"] assms(2) show ?thesis by (simp add: parsePage_def)
qed

definition sample_pages :: "snapshot list list" where
  "sample_pages = map (\<lambda>i. [\<lparr>snap_Id = i, snap_Name = i, snap_VolumeId = ''vol-1'',
     snap_Status = SnapshotActiveStatus, snap_VolumeSize = 20, snap_Size = 20, snap_CreatedAt = ''now''\<rparr>])
     [''snap-1'', ''snap-2'']"

definition sample_paged_cenv :: cenv where
  "sample_paged_cenv = (sample_cenv False None)\<lparr>ce_cloud := (sample_env False None)\<lparr>api_ListSnapshots :=
     (\<lambda>h p z v. Inr (Some \<lparr>sp_Items = sample_pages ! nat (p - 1), sp_Page = p, sp_TotalPages = 2\<rparr>))\<rparr>\<rparr>"

theorem snapshot_tokens_list_all_witness:
  "wp (follow_tokens 2 sample_paged_cenv ''vol-1'' 1 '''')
     (\<lambda>r t. r = Some [''snap-1'', ''snap-2'']) (newControllerService 10)"
proof -
  have "paged_server (ce_cloud sample_paged_cenv) ''vol-1'' 1 sample_pages"
    by (auto simp: paged_server_def sample_paged_cenv_def sample_env_def sample_pages_def)
  moreover have "length sample_pages \<le> 2" by (simp add: sample_pages_def)
  ultimately have "wp (follow_tokens 2 sample_paged_cenv ''vol-1'' 1 '''')
     (\<lambda>r t. r = Some (map snap_Id (concat sample_pages))) (newControllerService 10)"
    by (rule snapshot_tokens_list_all)
  then show ?thesis by (rule wp_mono) (simp add: sample_pages_def)
qed

end
