(* ===== verification/CtlExpand.thy ===== *)
theory CtlExpand
  imports CtlFrame CtlService
begin

text \<open>
  The remaining unary handlers of \<^verbatim>\<open>pkg/driver/controller.go\<close>: capabilities, expand, the two ways
  to modify a volume that do not go through the coalescing manager, and the calls that are not implemented.
\<close>

section \<open>Capabilities\<close>

datatype controller_capability =
    CREATE_DELETE_VOLUME | PUBLISH_UNPUBLISH_VOLUME | CREATE_DELETE_SNAPSHOT | LIST_SNAPSHOTS
  | EXPAND_VOLUME | MODIFY_VOLUME

definition controllerCaps :: "controller_capability list" where
  "controllerCaps = [CREATE_DELETE_VOLUME, PUBLISH_UNPUBLISH_VOLUME, CREATE_DELETE_SNAPSHOT, LIST_SNAPSHOTS,
     EXPAND_VOLUME, MODIFY_VOLUME]"

definition ControllerGetCapabilities :: "controller_capability list reply" where
  "ControllerGetCapabilities = Ok controllerCaps"

definition ControllerGetVolume :: "unit reply" where
  "ControllerGetVolume = Fail (ErrNotImplemented ''ControllerGetVolume'')"

definition ListVolumes :: "unit reply" where
  "ListVolumes = Fail (ErrNotImplemented ''ListVolumes'')"

definition GetCapacity :: "unit reply" where
  "GetCapacity = Fail (ErrNotImplemented ''GetCapacity'')"

definition GetCSIDriverModificationCapability :: "unit reply" where
  "GetCSIDriverModificationCapability = Ok ()"

text \<open>The answer is the capabilities confirmed, if any.\<close>

definition ValidateVolumeCapabilities ::
    "cenv \<Rightarrow> string \<Rightarrow> capability list \<Rightarrow> (ctl, capability list option reply) state" where
  "ValidateVolumeCapabilities C volumeID volCaps =
     (if volumeID = '''' then State_Monad.return (Fail ErrVolumeIDNotProvided)
      else if length volCaps < 1 then State_Monad.return (Fail ErrVolumeCapabilitiesNotProvided)
      else do {
        r \<leftarrow> in_cloud (GetVolume (ce_cloud C) volumeID);
        State_Monad.return (case r of
           Inl err \<Rightarrow>
             if IsError err EcVServerVolumeNotFound then Fail (ErrNoSuchVolume volumeID)
             else Fail (ErrFailedToGetVolume volumeID)
         | Inr _ \<Rightarrow> Ok (if isValidVolumeCapabilities volCaps then Some volCaps else None))
      })"

section \<open>Expand\<close>

text \<open>The answer is the capacity in bytes; the node expansion is always required.\<close>

definition expand_volume ::
    "cenv \<Rightarrow> string \<Rightarrow> int64 \<Rightarrow> uint64 \<Rightarrow> (ctl, (int64 \<times> bool) reply) state" where
  "expand_volume C volumeID volSizeBytes volSizeGB = do {
     r \<leftarrow> in_cloud (GetVolume (ce_cloud C) volumeID);
     (case r of
        Inl err \<Rightarrow> State_Monad.return (Fail (ErrFailedToGetVolume volumeID))
      | Inr volume \<Rightarrow>
          if volSizeGB \<le> vol_Size volume
          then State_Monad.return (Ok (GiBToBytes (vol_Size volume), True))
          else do {
            x \<leftarrow> in_cloud (ExpandVolume (ce_cloud C) volumeID (vol_VolumeTypeID volume) volSizeGB);
            State_Monad.return (case x of
               Panic \<Rightarrow> Crashed
             | Return (Some err) \<Rightarrow> Fail (ErrFailedToExpandVolume volumeID volSizeGB)
             | Return None \<Rightarrow> Ok (volSizeBytes, True))
          })
   }"

definition expand_body :: "cenv \<Rightarrow> expand_request \<Rightarrow> (ctl, (int64 \<times> bool) reply) state" where
  "expand_body C preq =
     (case exq_Range preq of
        None \<Rightarrow> State_Monad.return (Fail ErrCapacityRangeNotProvided)
      | Some (volSizeBytes, maxVolSize) \<Rightarrow>
          (case RoundUpSize volSizeBytes (1024 * 1024 * 1024) of
             Panic \<Rightarrow> State_Monad.return Crashed
           | Return volSizeGB \<Rightarrow>
               if 0 <s maxVolSize \<and> maxVolSize <s volSizeBytes
               then State_Monad.return (Fail (ErrRequestExceedLimit volSizeBytes maxVolSize))
               else expand_volume C (exq_VolumeId preq) volSizeBytes volSizeGB))"

definition ControllerExpandVolume :: "cenv \<Rightarrow> expand_request \<Rightarrow> (ctl, (int64 \<times> bool) reply) state" where
  "ControllerExpandVolume C preq =
     (if exq_VolumeId preq = '''' then State_Monad.return (Fail ErrVolumeIDNotProvided)
      else ctl_guarded (exq_VolumeId preq) (ErrOperationAlreadyExists (exq_VolumeId preq)) (expand_body C preq))"

section \<open>Modify\<close>

definition modify_properties_body ::
    "cenv \<Rightarrow> string \<Rightarrow> string \<Rightarrow> (ctl, unit reply) state" where
  "modify_properties_body C volumeID volumeType = do {
     r \<leftarrow> in_cloud (GetVolume (ce_cloud C) volumeID);
     (case r of
        Inl errSdk \<Rightarrow> State_Monad.return (Fail (ErrFailedToGetVolume volumeID))
      | Inr volume \<Rightarrow> do {
          i \<leftarrow> in_cloud (GetVolumeTypeIdByName (ce_cloud C) (vol_ZoneId volume) volumeType);
          (case i of
             Inl sdkErr \<Rightarrow> State_Monad.return (Fail (ErrFailedToGetVolume volumeID))
           | Inr volumeTypeId \<Rightarrow>
               if vol_VolumeTypeID volume = volumeType \<or> volumeTypeId = vol_VolumeTypeID volume
               then State_Monad.return (Ok ())
               else do {
                 e \<leftarrow> in_cloud (ModifyVolumeType (ce_cloud C) volumeID volumeTypeId (vol_Size volume));
                 State_Monad.return (case e of None \<Rightarrow> Ok () | Some ierr \<Rightarrow> fail_with (ie_err ierr))
               })
        })
   }"

definition ModifyVolumeProperties ::
    "cenv \<Rightarrow> string \<Rightarrow> (string \<times> string) list \<Rightarrow> (ctl, unit reply) state" where
  "ModifyVolumeProperties C name params =
     (case validateModifyVolumePropertiesRequest name of
        Some err \<Rightarrow> State_Monad.return (Fail err)
      | None \<Rightarrow> ctl_guarded name (ErrOperationAlreadyExists name)
                 (modify_properties_body C name (parseModifyVolumeParameters params '''')))"

section \<open>What they do\<close>

lemma ValidateVolumeCapabilities_keeps: "keeps lookup (ValidateVolumeCapabilities C v caps)"
  unfolding ValidateVolumeCapabilities_def by (intro frames)

lemma expand_volume_quiet: "keeps quiet (expand_volume C v b n)"
  unfolding expand_volume_def by (intro frames in_cloud_quiet)

lemma expand_body_quiet: "keeps quiet (expand_body C preq)"
  unfolding expand_body_def by (intro frames expand_volume_quiet)

lemma ControllerExpandVolume_quiet: "keeps quiet (ControllerExpandVolume C preq)"
  unfolding ControllerExpandVolume_def by (intro frames guarded_quiet expand_body_quiet)

lemma ModifyVolumeProperties_quiet: "keeps quiet (ModifyVolumeProperties C name params)"
  unfolding ModifyVolumeProperties_def modify_properties_body_def
  by (intro frames guarded_quiet in_cloud_quiet)

text \<open>The commands of an expansion to at least \<open>n\<close> GiB, and the volume a success stands on.\<close>

definition expand_commands :: "string \<Rightarrow> uint64 \<Rightarrow> cstate \<Rightarrow> cstate \<Rightarrow> bool" where
  "expand_commands v n c c' \<longleftrightarrow> (\<exists>cmds g t. did cmds c c' \<and> modify_commands v g t cmds \<and> n \<le> g)"

definition expand_post ::
    "string \<Rightarrow> int64 \<Rightarrow> uint64 \<Rightarrow> cstate \<Rightarrow> (int64 \<times> bool) reply \<Rightarrow> cstate \<Rightarrow> bool" where
  "expand_post v bytes n c r c' \<longleftrightarrow> r \<noteq> Crashed \<and> r \<noteq> NilNil \<and> expand_commands v n c c' \<and>
     (\<forall>b x. r = Ok (b, x) \<longrightarrow> (\<exists>vol. EvGet v (Inr vol) \<in> set (news c c') \<and> n \<le> vol_Size vol \<and>
        b \<in> {bytes, GiBToBytes (vol_Size vol)}))"

lemma expand_commands_none: "did [] c c' \<Longrightarrow> expand_commands v n c c'"
  unfolding expand_commands_def modify_commands_def by blast

lemma expand_refused: "did [] c c' \<Longrightarrow> expand_post v bytes n c (Fail e) c'"
  by (simp add: expand_post_def expand_commands_none)

lemma expand_volume_wp:
  assumes "wait_ok (ce_cloud C)" and "errors_loaded (ce_cloud C)" and "0 \<le> sint n" and "sint n < 2 ^ 33"
    and c: "ks_cloud s = c"
  shows "wp (expand_volume C v bytes n) (\<lambda>r u. expand_post v bytes n c r (ks_cloud u)) s"
  unfolding expand_volume_def wp_bind wp_in_cloud GetVolume_def c
proof (rule wp_mono [OF getVolumeById_loaded_wp [OF assms(2)]], goal_cases)
  case (1 r c1)
  then have ans: "read_answer v c r c1" by simp
  have d: "did [] c c1" using ro_did [THEN iffD1, OF read_answer_ro [OF ans]] .
  show ?case
  proof (cases r)
    case (Inl e)
    with d show ?thesis by (simp add: expand_refused)
  next
    case (Inr vol)
    have ev: "EvGet v (Inr vol) \<in> set (news c c1)"
      using read_answer_news [OF ext_refl ans] Inr by simp
    have "expand_post v bytes n c (Ok (GiBToBytes (vol_Size vol), x)) c1" if "n \<le> vol_Size vol" for x
      using ev d that by (auto simp: expand_post_def expand_commands_none)
    moreover have "wp (in_cloud (ExpandVolume (ce_cloud C) v (vol_VolumeTypeID vol) n)) (\<lambda>x u.
        expand_post v bytes n c (case x of Panic \<Rightarrow> Crashed
          | Return (Some err) \<Rightarrow> Fail (ErrFailedToExpandVolume v n)
          | Return None \<Rightarrow> Ok (bytes, True)) (ks_cloud u)) (s\<lparr>ks_cloud := c1\<rparr>)"
      unfolding wp_in_cloud
    proof (rule wp_mono, simp, rule ExpandVolume_wp [OF assms(1-4)], goal_cases)
      case (1 x c2)
      then have e1: "ext c1 c2" by (auto simp: did_def)
      have "expand_commands v n c c2"
        using 1 did_after_ro [OF d] unfolding expand_commands_def by blast
      with 1 news_later [OF did_ext [OF d] e1] show ?case
        by (auto simp: expand_post_def split: go.split option.split)
    qed
    ultimately show ?thesis by (simp add: Inr)
  qed
qed

lemma expand_body_wp:
  assumes "wait_ok (ce_cloud C)" and "errors_loaded (ce_cloud C)"
    and req: "exq_Range preq = Some (bytes, limit)" and n: "RoundUpSize bytes GiB = Return n"
    and b: "0 \<le> sint n" "sint n < 2 ^ 33" and c: "ks_cloud s = c"
  shows "wp (expand_body C preq) (\<lambda>r u. expand_post (exq_VolumeId preq) bytes n c r (ks_cloud u)) s"
proof -
  have "RoundUpSize bytes (1024 * 1024 * 1024) = Return n" using n by (simp add: GiB_def)
  with expand_volume_wp [OF assms(1,2) b c] c show ?thesis
    by (simp add: expand_body_def req expand_refused)
qed

text \<open>The rounded size of a request below \<open>2 ^ 62\<close> bytes, and what reaches it.\<close>

lemma expand_size:
  assumes "0 \<le> sint bytes" and "sint bytes < 2 ^ 62"
  shows "\<exists>n. RoundUpSize bytes GiB = Return n \<and> 0 \<le> sint n \<and> sint n < 2 ^ 33 \<and>
    (\<forall>g. n \<le> g \<longrightarrow> sint bytes \<le> uint g * 2 ^ 30)"
proof -
  let ?q = "ceil_div (sint bytes) (sint GiB)"
  let ?n = "word_of_int ?q :: int64"
  have q: "sint ?n = ?q" by (rule sint_ceil_div) simp
  have up: "sint bytes \<le> ?q * 2 ^ 30" and dn: "(?q - 1) * 2 ^ 30 < sint bytes"
    using ceil_div_least [of "sint GiB" "sint bytes"] by simp_all
  from up assms(1) have q0: "0 \<le> ?q" by simp
  from dn assms(2) have "?q < 2 ^ 33" by simp
  moreover have "sint bytes \<le> uint g * 2 ^ 30" if "?n \<le> g" for g
  proof -
    have "?q mod 2 ^ 64 = ?q" using q0 \<open>?q < 2 ^ 33\<close> by (intro mod_pos_pos_trivial) simp_all
    then have "uint ?n = sint ?n" using q by (simp add: uint_word_of_int)
    with that up q show ?thesis by (simp add: word_le_def)
  qed
  ultimately show ?thesis
    using q q0 by (auto simp: RoundUpSize_eq_ceil)
qed

text \<open>A request above its limit does not reach vServer.\<close>

lemma expand_above_limit:
  assumes "exq_Range preq = Some (bytes, limit)" and "0 <s limit" and "limit <s bytes"
  shows "wp (ControllerExpandVolume C preq) (\<lambda>r s'. ks_cloud s' = ks_cloud s \<and> (\<exists>e. r = Fail e)) s"
proof -
  have body: "wp (expand_body C preq) (\<lambda>r u. ks_cloud u = ks_cloud s \<and> (\<exists>e. r = Fail e)) t"
    if "ks_cloud t = ks_cloud s" for t
    using assms that by (simp add: expand_body_def RoundUpSize_eq_ceil)
  have "wp (ctl_guarded k (ErrOperationAlreadyExists v) (expand_body C preq))
      (\<lambda>r u. quiet s u \<and> ks_cloud u = ks_cloud s \<and> (\<exists>e. r = Fail e)) s" for k v
    by (rule guarded_wp [where P = "\<lambda>r c. c = ks_cloud s \<and> (\<exists>e. r = Fail e)", OF expand_body_quiet _ body])
      simp_all
  then have "wp (ctl_guarded k (ErrOperationAlreadyExists v) (expand_body C preq))
      (\<lambda>r u. ks_cloud u = ks_cloud s \<and> (\<exists>e. r = Fail e)) s" for k v
    by (rule wp_mono) blast
  then show ?thesis by (simp add: ControllerExpandVolume_def)
qed

text \<open>C6: An expand call for a size of zero or more and below 2^62 bytes never crashes, gives its key back and leaves breakers and gate alone. A request
above its limit is refused before anything is asked of vServer; otherwise it issues at most one migrate and one resize,
the resize to no fewer bytes than requested, and it answers success only after a read showed the volume at
least that large.\<close>

theorem expand_rpc_safe:
  assumes "wait_ok (ce_cloud C)" and "errors_loaded (ce_cloud C)"
    and "exq_Range preq = Some (bytes, limit)" and "0 \<le> sint bytes" and "sint bytes < 2 ^ 62"
  shows "wp (ControllerExpandVolume C preq) (\<lambda>r s'. r \<noteq> Crashed \<and> r \<noteq> NilNil \<and>
    ks_inflight s' = ks_inflight s \<and> ks_gate s' = ks_gate s \<and> ks_detach s' = ks_detach s \<and>
    ks_delete s' = ks_delete s \<and>
    (0 <s limit \<and> limit <s bytes \<longrightarrow> ks_cloud s' = ks_cloud s \<and> (\<exists>e. r = Fail e)) \<and>
    (\<exists>cmds g t. did cmds (ks_cloud s) (ks_cloud s') \<and> modify_commands (exq_VolumeId preq) g t cmds \<and>
       sint bytes \<le> uint g * 2 ^ 30) \<and>
    (\<forall>b x. r = Ok (b, x) \<longrightarrow>
       (\<exists>vol. EvGet (exq_VolumeId preq) (Inr vol) \<in> set (news (ks_cloud s) (ks_cloud s')) \<and>
          sint bytes \<le> uint (vol_Size vol) * 2 ^ 30 \<and> b \<in> {bytes, GiBToBytes (vol_Size vol)}))) s"
proof -
  let ?v = "exq_VolumeId preq"
  obtain n where n: "RoundUpSize bytes GiB = Return n" "0 \<le> sint n" "sint n < 2 ^ 33"
    and reach: "\<forall>g. n \<le> g \<longrightarrow> sint bytes \<le> uint g * 2 ^ 30"
    using expand_size [OF assms(4,5)] by blast
  have busy: "expand_post ?v bytes n c (Fail e) c" for e c by (rule expand_refused) simp
  have "wp (ControllerExpandVolume C preq)
      (\<lambda>r u. quiet s u \<and> expand_post ?v bytes n (ks_cloud s) r (ks_cloud u)) s"
    using guarded_wp [where P = "expand_post ?v bytes n (ks_cloud s)", OF expand_body_quiet busy
      expand_body_wp [OF assms(1-3) n]]
    by (simp add: ControllerExpandVolume_def expand_refused)
  moreover have "wp (ControllerExpandVolume C preq)
      (\<lambda>r u. 0 <s limit \<and> limit <s bytes \<longrightarrow> ks_cloud u = ks_cloud s \<and> (\<exists>e. r = Fail e)) s"
    using expand_above_limit [OF assms(3)] by (cases "0 <s limit \<and> limit <s bytes") (auto intro: wpI)
  ultimately show ?thesis
  proof (rule wp_mono [OF wp_conj], goal_cases)
    case (1 r u)
    then have p: "expand_post ?v bytes n (ks_cloud s) r (ks_cloud u)" and q: "quiet s u"
      and lim: "0 <s limit \<and> limit <s bytes \<longrightarrow> ks_cloud u = ks_cloud s \<and> (\<exists>e. r = Fail e)" by simp_all
    from p obtain cmds g t where "did cmds (ks_cloud s) (ks_cloud u)" "modify_commands ?v g t cmds" "n \<le> g"
      by (auto simp: expand_post_def expand_commands_def)
    with p q reach lim show ?case by (auto simp: expand_post_def quiet_def) blast+
  qed
qed

theorem expand_rpc_safe_witness:
  "fst (run_state (ControllerExpandVolume (sample_cenv True None)
      \<lparr>exq_VolumeId = ''vol-1'', exq_Range = Some (32212254720, 0)\<rparr>) (newControllerService 10)) =
    Ok (32212254720, True) \<and>
   wp (ControllerExpandVolume (sample_cenv True None)
      \<lparr>exq_VolumeId = ''vol-1'', exq_Range = Some (32212254720, 0)\<rparr>) (\<lambda>r s'. r \<noteq> Crashed)
     (newControllerService 10)"
proof
  show "fst (run_state (ControllerExpandVolume (sample_cenv True None)
      \<lparr>exq_VolumeId = ''vol-1'', exq_Range = Some (32212254720, 0)\<rparr>) (newControllerService 10)) =
    Ok (32212254720, True)" by code_simp
  have "errors_loaded (ce_cloud (sample_cenv True None))"
    by (simp add: sample_cenv_def sample_errors_loaded)
  then show "wp (ControllerExpandVolume (sample_cenv True None)
      \<lparr>exq_VolumeId = ''vol-1'', exq_Range = Some (32212254720, 0)\<rparr>) (\<lambda>r s'. r \<noteq> Crashed)
     (newControllerService 10)"
    by (intro wp_mono [OF expand_rpc_safe [OF sample_cenv_ok, where bytes = 32212254720 and limit = 0]]) simp_all
qed

end
