(* ===== verification/ModifyCoalescing.thy ===== *)
theory ModifyCoalescing
  imports CloudModify CsiApi Samples
begin

text \<open>
  \<^verbatim>\<open>pkg/driver/controller_modify_volume.go\<close>: modifications of one volume that arrive while another waits
  are merged and executed together. Callers and handler goroutines run concurrently, so this is a step
  relation over the manager's map, the callers and the handlers: one step is one channel operation, one
  map operation, the end of a timer or of a context, or the execution of a merged request. The channels
  are unbuffered: a send and its receive are one step.
\<close>

section \<open>Requests\<close>

record modifyVolumeRequest =
  mr_newSize :: int64
  mr_VolumeType :: string

text \<open>Of \<open>ControllerModifyVolume\<close>: what it submits, with no size.\<close>

definition modify_submission :: "string \<Rightarrow> (string \<times> string) list \<Rightarrow> csi_error + modifyVolumeRequest" where
  "modify_submission volumeID params =
     (if volumeID = '''' then Inl ErrVolumeIDNotProvided
      else Inr \<lparr>mr_newSize = 0, mr_VolumeType = parseModifyVolumeParameters params ''''\<rparr>)"

definition validateModifyVolumeRequest ::
    "modifyVolumeRequest \<Rightarrow> modifyVolumeRequest \<Rightarrow> go_error option" where
  "validateModifyVolumeRequest merged r =
     (if mr_newSize r \<noteq> 0 \<and> mr_newSize merged \<noteq> 0 \<and> mr_newSize r \<noteq> mr_newSize merged
      then Some (GoErr ''Different size was requested by a previous request.'')
      else if mr_VolumeType r \<noteq> '''' \<and> mr_VolumeType merged \<noteq> '''' \<and> mr_VolumeType r \<noteq> mr_VolumeType merged
      then Some (GoErr ''Different volume type was requested by a previous request.'')
      else None)"

definition mergeModifyVolumeRequest ::
    "modifyVolumeRequest \<Rightarrow> modifyVolumeRequest \<Rightarrow> modifyVolumeRequest" where
  "mergeModifyVolumeRequest merged r =
     (let merged = (if mr_newSize r \<noteq> 0 then merged\<lparr>mr_newSize := mr_newSize r\<rparr> else merged) in
      if mr_VolumeType r \<noteq> '''' then merged\<lparr>mr_VolumeType := mr_VolumeType r\<rparr> else merged)"

definition executeModifyVolumeRequest ::
    "env \<Rightarrow> string \<Rightarrow> modifyVolumeRequest \<Rightarrow> (cstate, (int64 \<times> go_error option) go) state" where
  "executeModifyVolumeRequest E volumeID req = do {
     r \<leftarrow> ResizeOrModifyDisk E volumeID (mr_newSize req) \<lparr>mo_VolumeType = mr_VolumeType req\<rparr>;
     State_Monad.return (case r of
        Panic \<Rightarrow> Panic
      | Return (n, Some err) \<Rightarrow> Return (0, Some err)
      | Return (actualSizeGiB, None) \<Rightarrow> Return (actualSizeGiB, None))
   }"

text \<open>What \<open>modifyVolumeWithCoalescing\<close> makes of a response, and of the end of its context.\<close>

definition modify_answer :: "go_error option \<Rightarrow> unit reply" where
  "modify_answer err =
     (case err of
        None \<Rightarrow> Ok ()
      | Some e \<Rightarrow>
          if errors_Is e ErrInvalidArgument then Fail (StatusInvalidArgument ''Could not modify volume'')
          else Fail (StatusInternal ''Could not modify volume''))"

definition modify_cancelled :: "unit reply" where
  "modify_cancelled = Fail (StatusInternal ''Could not modify volume: context cancelled'')"

text \<open>
  The handler, for what \<open>modifyVolumeWithCoalescing\<close> answers its caller: the answer of a caller that has
  \<open>Returned\<close> below.
\<close>

definition ControllerModifyVolume ::
    "(string \<Rightarrow> modifyVolumeRequest \<Rightarrow> unit reply) \<Rightarrow> string \<Rightarrow> (string \<times> string) list \<Rightarrow> unit reply" where
  "ControllerModifyVolume modifyVolumeWithCoalescing volumeID params =
     (case modify_submission volumeID params of
        Inl err \<Rightarrow> Fail err
      | Inr options \<Rightarrow> modifyVolumeWithCoalescing volumeID options)"

section \<open>State\<close>

text \<open>
  A caller has loaded a handler from the map but not reached the send, is blocked in the send, has been
  taken in but not reached its \<open>select\<close>, waits in the \<open>select\<close>, or has returned.
\<close>

datatype caller_state = Joining nat | Sending nat | Arriving | Selecting | Returned "unit reply"

record modify_caller =
  cl_volume :: string
  cl_request :: modifyVolumeRequest
  cl_state :: caller_state

text \<open>
  A handler receives until its timer ends, drains what is still being sent, and executes; a request it
  rejects is answered with a blocking send, from which it returns to what it did before (the flag says
  it was draining).
\<close>

datatype handler_phase =
    Receiving
  | Draining
  | Rejecting nat go_error bool
  | Responding "nat list" "int64 \<times> go_error option"
  | Finished

record handler =
  h_volume :: string
  h_merged :: modifyVolumeRequest
  h_chans :: "nat list"
  h_phase :: handler_phase

record manager =
  m_map :: "string \<rightharpoonup> nat"
  m_callers :: "nat \<rightharpoonup> modify_caller"
  m_handlers :: "nat \<rightharpoonup> handler"
  m_cloud :: cstate
  m_calls :: "(nat \<times> string \<times> modifyVolumeRequest \<times> (int64 \<times> go_error option)) list"

definition newModifyVolumeManager :: "cstate \<Rightarrow> manager" where
  "newModifyVolumeManager c =
     \<lparr>m_map = Map.empty, m_callers = Map.empty, m_handlers = Map.empty, m_cloud = c, m_calls = []\<rparr>"

definition newModifyVolumeRequestHandler :: "string \<Rightarrow> modifyVolumeRequest \<Rightarrow> nat \<Rightarrow> handler" where
  "newModifyVolumeRequestHandler volumeID request c =
     \<lparr>h_volume = volumeID, h_merged = request, h_chans = [c], h_phase = Receiving\<rparr>"

definition put_caller :: "nat \<Rightarrow> modify_caller \<Rightarrow> manager \<Rightarrow> manager" where
  "put_caller c x s = s\<lparr>m_callers := (m_callers s)(c \<mapsto> x)\<rparr>"

definition put_handler :: "nat \<Rightarrow> handler \<Rightarrow> manager \<Rightarrow> manager" where
  "put_handler h x s = s\<lparr>m_handlers := (m_handlers s)(h \<mapsto> x)\<rparr>"

text \<open>
  The function literal \<open>process\<close>: the handler takes the request of the caller \<open>c\<close>, while it receives
  or drains (\<open>drain\<close>).
\<close>

definition process_request :: "nat \<Rightarrow> bool \<Rightarrow> modifyVolumeRequest \<Rightarrow> handler \<Rightarrow> handler" where
  "process_request c drain req x =
     (case validateModifyVolumeRequest (h_merged x) req of
        Some err \<Rightarrow> x\<lparr>h_phase := Rejecting c err drain\<rparr>
      | None \<Rightarrow> x\<lparr>h_merged := mergeModifyVolumeRequest (h_merged x) req, h_chans := h_chans x @ [c]\<rparr>)"

definition receiving :: "bool \<Rightarrow> handler_phase" where
  "receiving drain = (if drain then Draining else Receiving)"

section \<open>Steps\<close>

inductive mstep :: "env \<Rightarrow> manager \<Rightarrow> manager \<Rightarrow> bool" for E where
  submit_new: "m_map s v = None \<Longrightarrow> m_callers s c = None \<Longrightarrow> m_handlers s h = None \<Longrightarrow>
    mstep E s (s\<lparr>m_map := (m_map s)(v \<mapsto> h),
      m_callers := (m_callers s)(c \<mapsto> \<lparr>cl_volume = v, cl_request = r, cl_state = Arriving\<rparr>),
      m_handlers := (m_handlers s)(h \<mapsto> newModifyVolumeRequestHandler v r c)\<rparr>)"
| submit_join: "m_map s v = Some h \<Longrightarrow> m_callers s c = None \<Longrightarrow>
    mstep E s (put_caller c \<lparr>cl_volume = v, cl_request = r, cl_state = Joining h\<rparr> s)"
| send: "m_callers s c = Some x \<Longrightarrow> cl_state x = Joining h \<Longrightarrow>
    mstep E s (put_caller c (x\<lparr>cl_state := Sending h\<rparr>) s)"
| receive: "m_callers s c = Some x \<Longrightarrow> cl_state x = Sending h \<Longrightarrow> m_handlers s h = Some y \<Longrightarrow>
    h_phase y = receiving drain \<Longrightarrow>
    mstep E s (put_handler h (process_request c drain (cl_request x) y)
      (put_caller c (x\<lparr>cl_state := Arriving\<rparr>) s))"
| arrive: "m_callers s c = Some x \<Longrightarrow> cl_state x = Arriving \<Longrightarrow>
    mstep E s (put_caller c (x\<lparr>cl_state := Selecting\<rparr>) s)"
| reject: "m_handlers s h = Some y \<Longrightarrow> h_phase y = Rejecting c err drain \<Longrightarrow>
    m_callers s c = Some x \<Longrightarrow> cl_state x = Selecting \<Longrightarrow>
    mstep E s (put_handler h (y\<lparr>h_phase := receiving drain\<rparr>)
      (put_caller c (x\<lparr>cl_state := Returned (modify_answer (Some err))\<rparr>) s))"
| cancel: "m_callers s c = Some x \<Longrightarrow> cl_state x = Selecting \<Longrightarrow>
    mstep E s (put_caller c (x\<lparr>cl_state := Returned modify_cancelled\<rparr>) s)"
| timeout: "m_handlers s h = Some y \<Longrightarrow> h_phase y = Receiving \<Longrightarrow>
    mstep E s (put_handler h (y\<lparr>h_phase := Draining\<rparr>) (s\<lparr>m_map := (m_map s)(h_volume y := None)\<rparr>))"
| execute: "m_handlers s h = Some y \<Longrightarrow> h_phase y = Draining \<Longrightarrow>
    (\<And>c x. m_callers s c = Some x \<Longrightarrow> cl_state x \<noteq> Sending h) \<Longrightarrow>
    run_state (executeModifyVolumeRequest E (h_volume y) (h_merged y)) (m_cloud s) = (Return res, cloud') \<Longrightarrow>
    mstep E s (put_handler h (y\<lparr>h_phase := Responding (h_chans y) res\<rparr>)
      (s\<lparr>m_cloud := cloud', m_calls := (h, h_volume y, h_merged y, res) # m_calls s\<rparr>))"
| respond: "m_handlers s h = Some y \<Longrightarrow> h_phase y = Responding (c # cs) (n, err) \<Longrightarrow>
    m_callers s c = Some x \<Longrightarrow> cl_state x = Selecting \<Longrightarrow>
    mstep E s (put_handler h (y\<lparr>h_phase := Responding cs (n, err)\<rparr>)
      (put_caller c (x\<lparr>cl_state := Returned (modify_answer err)\<rparr>) s))"
| ignore: "m_handlers s h = Some y \<Longrightarrow> h_phase y = Responding (c # cs) res \<Longrightarrow>
    m_callers s c = Some x \<Longrightarrow> cl_state x \<noteq> Selecting \<Longrightarrow>
    mstep E s (put_handler h (y\<lparr>h_phase := Responding cs res\<rparr>) s)"
| finish: "m_handlers s h = Some y \<Longrightarrow> h_phase y = Responding [] res \<Longrightarrow>
    mstep E s (put_handler h (y\<lparr>h_phase := Finished\<rparr>) s)"

abbreviation msteps :: "env \<Rightarrow> manager \<Rightarrow> manager \<Rightarrow> bool" where
  "msteps E \<equiv> (mstep E)\<^sup>*\<^sup>*"

inductive_cases mstepE: "mstep E s s'"

section \<open>Merging\<close>

text \<open>What a caller asked for is in the merged request.\<close>

definition accepts :: "modifyVolumeRequest \<Rightarrow> modifyVolumeRequest \<Rightarrow> bool" where
  "accepts m r \<longleftrightarrow> (mr_newSize r \<noteq> 0 \<longrightarrow> mr_newSize m = mr_newSize r) \<and>
     (mr_VolumeType r \<noteq> '''' \<longrightarrow> mr_VolumeType m = mr_VolumeType r)"

lemma accepts_refl [simp]: "accepts r r"
  by (simp add: accepts_def)

lemma accepts_merge:
  assumes "validateModifyVolumeRequest m r = None"
  shows "accepts (mergeModifyVolumeRequest m r) r" "accepts m q \<Longrightarrow> accepts (mergeModifyVolumeRequest m r) q"
  using assms by (auto simp: accepts_def mergeModifyVolumeRequest_def validateModifyVolumeRequest_def Let_def
      split: if_splits)

section \<open>What never changes\<close>

text \<open>The volume and the request of a caller, and the volume of a handler.\<close>

definition asked :: "manager \<Rightarrow> nat \<Rightarrow> (string \<times> modifyVolumeRequest) option" where
  "asked s c = map_option (\<lambda>x. (cl_volume x, cl_request x)) (m_callers s c)"

lemmas put_defs = put_caller_def put_handler_def

lemma asked_put [simp]:
  "asked (put_handler h y s) = asked s" "asked (s\<lparr>m_map := mp\<rparr>) = asked s"
  "asked (s\<lparr>m_cloud := cl, m_calls := k\<rparr>) = asked s"
  "asked (put_caller c x s) = (asked s)(c \<mapsto> (cl_volume x, cl_request x))"
  by (auto simp: asked_def put_defs)

lemma asked_step: "mstep E s s' \<Longrightarrow> asked s c = Some i \<Longrightarrow> asked s' c = Some i"
  by (induction rule: mstep.induct) (auto simp: asked_def put_defs)

text \<open>
  The callers a handler has taken in, all for its volume; its merged request is the merge of theirs in
  the order they came, and accepts each of them.
\<close>

definition merged_of :: "manager \<Rightarrow> string \<Rightarrow> modifyVolumeRequest \<Rightarrow> nat list \<Rightarrow> bool" where
  "merged_of s v m cs \<longleftrightarrow> (\<exists>r rs. map (asked s) cs = map (\<lambda>r. Some (v, r)) (r # rs) \<and>
     m = foldl mergeModifyVolumeRequest r rs \<and> (\<forall>q\<in>set (r # rs). accepts m q))"

lemma asked_others [simp]:
  "asked (s\<lparr>m_handlers := a\<rparr>) = asked s" "asked (s\<lparr>m_calls := d\<rparr>) = asked s"
  "asked (s\<lparr>m_cloud := e\<rparr>) = asked s"
  by (intro ext, simp add: asked_def)+

lemma merged_of_others [simp]:
  "merged_of (s\<lparr>m_handlers := a\<rparr>) = merged_of s" "merged_of (s\<lparr>m_map := b\<rparr>) = merged_of s"
  "merged_of (s\<lparr>m_calls := d\<rparr>) = merged_of s" "merged_of (s\<lparr>m_cloud := e\<rparr>) = merged_of s"
  by (intro ext, simp add: merged_of_def)+

lemma merged_of_mono:
  assumes "merged_of s v m cs" and "\<And>c i. asked s c = Some i \<Longrightarrow> asked s' c = Some i"
  shows "merged_of s' v m cs"
proof -
  from assms(1) obtain r rs where m: "map (asked s) cs = map (\<lambda>r. Some (v, r)) (r # rs)"
    "m = foldl mergeModifyVolumeRequest r rs" "\<forall>q\<in>set (r # rs). accepts m q"
    unfolding merged_of_def by blast
  have "asked s' c = asked s c" if "c \<in> set cs" for c
  proof -
    have "asked s c \<in> set (map (\<lambda>r. Some (v, r)) (r # rs))" using that m(1) [symmetric] by auto
    then show ?thesis using assms(2) by auto
  qed
  then have "map (asked s') cs = map (asked s) cs" by simp
  with m show ?thesis unfolding merged_of_def by metis
qed

lemma merged_of_snoc:
  assumes "merged_of s v m cs" and "asked s c = Some (v, r)" and "validateModifyVolumeRequest m r = None"
  shows "merged_of s v (mergeModifyVolumeRequest m r) (cs @ [c])"
proof -
  from assms(1) obtain r0 rs where m: "map (asked s) cs = map (\<lambda>r. Some (v, r)) (r0 # rs)"
    "m = foldl mergeModifyVolumeRequest r0 rs" "\<forall>q\<in>set (r0 # rs). accepts m q"
    unfolding merged_of_def by blast
  show ?thesis
    unfolding merged_of_def
    by (rule exI [of _ r0], rule exI [of _ "rs @ [r]"]) (use m assms accepts_merge in auto)
qed

lemma merged_of_accepts:
  assumes "merged_of s v m cs" and "c \<in> set cs" and "asked s c = Some (w, q)"
  shows "w = v" "accepts m q"
proof -
  from assms(1) obtain r rs where m: "map (asked s) cs = map (\<lambda>r. Some (v, r)) (r # rs)"
    "\<forall>q\<in>set (r # rs). accepts m q" unfolding merged_of_def by blast
  have "Some (w, q) \<in> set (map (asked s) cs)" using assms(2,3) by force
  with m show "w = v" "accepts m q" by auto
qed

section \<open>The invariant\<close>

definition collecting :: "handler_phase \<Rightarrow> bool" where
  "collecting p \<longleftrightarrow> p = Receiving \<or> (\<exists>c e. p = Rejecting c e False)"

definition pending :: "handler_phase \<Rightarrow> bool" where
  "pending p \<longleftrightarrow> p = Receiving \<or> p = Draining \<or> (\<exists>c e b. p = Rejecting c e b)"

definition handler_ok :: "manager \<Rightarrow> nat \<Rightarrow> handler \<Rightarrow> bool" where
  "handler_ok s h y \<longleftrightarrow> merged_of s (h_volume y) (h_merged y) (h_chans y) \<and>
     (collecting (h_phase y) \<longleftrightarrow> m_map s (h_volume y) = Some h) \<and>
     (pending (h_phase y) \<longrightarrow> h \<notin> fst ` set (m_calls s)) \<and>
     (\<forall>cs res. h_phase y = Responding cs res \<longrightarrow> set cs \<subseteq> set (h_chans y) \<and>
        (h, h_volume y, h_merged y, res) \<in> set (m_calls s))"

definition caller_ok :: "manager \<Rightarrow> modify_caller \<Rightarrow> bool" where
  "caller_ok s x \<longleftrightarrow>
     (\<forall>h. cl_state x = Joining h \<or> cl_state x = Sending h \<longrightarrow>
        (\<exists>y. m_handlers s h = Some y \<and> h_volume y = cl_volume x)) \<and>
     (cl_state x = Returned (Ok ()) \<longrightarrow> (\<exists>h m n. (h, cl_volume x, m, (n, None)) \<in> set (m_calls s) \<and>
        accepts m (cl_request x)))"

definition call_ok :: "manager \<Rightarrow> nat \<times> string \<times> modifyVolumeRequest \<times> (int64 \<times> go_error option) \<Rightarrow> bool" where
  "call_ok s k \<longleftrightarrow> (case k of (h, v, m, res) \<Rightarrow>
     h \<in> dom (m_handlers s) \<and> (\<exists>cs. cs \<noteq> [] \<and> merged_of s v m cs))"

definition minv :: "manager \<Rightarrow> bool" where
  "minv s \<longleftrightarrow> (\<forall>h y. m_handlers s h = Some y \<longrightarrow> handler_ok s h y) \<and>
     (\<forall>c x. m_callers s c = Some x \<longrightarrow> caller_ok s x) \<and>
     (\<forall>k\<in>set (m_calls s). call_ok s k) \<and> distinct (map fst (m_calls s)) \<and>
     (\<forall>v h. m_map s v = Some h \<longrightarrow> (\<exists>y. m_handlers s h = Some y \<and> h_volume y = v))"

lemma minv_start: "minv (newModifyVolumeManager c)"
  by (simp add: minv_def newModifyVolumeManager_def)

text \<open>A caller moves on, keeping what it asked for.\<close>

lemma minv_put_caller:
  assumes inv: "minv s" and ok: "caller_ok s x"
    and same: "\<And>i. asked s c = Some i \<Longrightarrow> i = (cl_volume x, cl_request x)"
  shows "minv (put_caller c x s)"
proof -
  let ?s = "put_caller c x s"
  have mono: "merged_of s v m cs \<Longrightarrow> merged_of ?s v m cs" for v m cs
    by (erule merged_of_mono) (use same in auto)
  have "handler_ok ?s h y" if "handler_ok s h y" for h y
    using that mono by (simp add: handler_ok_def put_caller_def)
  moreover have "caller_ok ?s z = caller_ok s z" for z by (simp add: caller_ok_def put_caller_def)
  moreover have "call_ok ?s k" if "call_ok s k" for k
    using that mono by (auto simp: call_ok_def put_caller_def split: prod.splits)
  ultimately show ?thesis using inv ok by (simp add: minv_def put_caller_def)
qed

text \<open>A handler moves on, keeping its volume.\<close>

lemma minv_put_handler:
  assumes inv: "minv s" and y: "m_handlers s h = Some y0" "h_volume y = h_volume y0"
    and ok: "handler_ok s h y"
  shows "minv (put_handler h y s)"
proof -
  let ?s = "put_handler h y s"
  have "handler_ok ?s = handler_ok s" by (intro ext) (simp add: handler_ok_def put_handler_def)
  moreover have "caller_ok ?s x" if "caller_ok s x" for x
    using that y by (auto simp: caller_ok_def put_handler_def)
  moreover have "call_ok ?s k" if "call_ok s k" for k
    using that by (auto simp: call_ok_def put_handler_def split: prod.splits)
  moreover have "\<exists>z. m_handlers ?s k = Some z \<and> h_volume z = v" if "m_map ?s v = Some k" for v k
  proof -
    have "m_map s v = Some k" using that by (simp add: put_handler_def)
    then obtain z where "m_handlers s k = Some z" "h_volume z = v" using inv unfolding minv_def by blast
    with y show ?thesis by (cases "k = h") (simp_all add: put_handler_def)
  qed
  ultimately show ?thesis using inv ok y by (auto simp: minv_def put_handler_def)
qed

lemma minv_caller: "minv s \<Longrightarrow> m_callers s c = Some x \<Longrightarrow> caller_ok s x"
  by (simp add: minv_def)

lemma minv_handler: "minv s \<Longrightarrow> m_handlers s h = Some y \<Longrightarrow> handler_ok s h y"
  by (simp add: minv_def)

lemma asked_same: "m_callers s c = Some x \<Longrightarrow> asked s c = Some i \<Longrightarrow> i = (cl_volume x, cl_request x)"
  by (auto simp: asked_def)

lemma minv_move_caller:
  assumes "minv s" and "m_callers s c = Some x" and "caller_ok s (x\<lparr>cl_state := cs\<rparr>)"
  shows "minv (put_caller c (x\<lparr>cl_state := cs\<rparr>) s)"
  by (rule minv_put_caller [OF assms(1,3)]) (use asked_same [OF assms(2)] in simp)

lemma phase_simps [simp]:
  "collecting Receiving" "\<not> collecting Draining" "collecting (Rejecting c e b) = (\<not> b)"
  "\<not> collecting (Responding cs res)" "\<not> collecting Finished"
  "pending Receiving" "pending Draining" "pending (Rejecting c e b)" "\<not> pending (Responding cs res)"
  "\<not> pending Finished" "collecting (receiving b) = (\<not> b)" "pending (receiving b)"
  "receiving b \<noteq> Responding cs res"
  by (auto simp: collecting_def pending_def receiving_def)

lemma minv_receive:
  assumes inv: "minv s" and x: "m_callers s c = Some x" "cl_state x = Sending h"
    and y: "m_handlers s h = Some y" "h_phase y = receiving drain"
  shows "minv (put_handler h (process_request c drain (cl_request x) y) (put_caller c (x\<lparr>cl_state := Arriving\<rparr>) s))"
proof -
  let ?s = "put_caller c (x\<lparr>cl_state := Arriving\<rparr>) s"
  have inv1: "minv ?s" using inv x(1) by (rule minv_move_caller) (simp add: caller_ok_def)
  have y1: "m_handlers ?s h = Some y" using y by (simp add: put_caller_def)
  have hok: "handler_ok ?s h y" using inv1 y1 by (rule minv_handler)
  have vol: "h_volume y = cl_volume x"
    using minv_caller [OF inv x(1)] x(2) y(1) by (auto simp: caller_ok_def)
  then have ask: "asked ?s c = Some (h_volume y, cl_request x)" by simp
  have "handler_ok ?s h (process_request c drain (cl_request x) y)"
  proof (cases "validateModifyVolumeRequest (h_merged y) (cl_request x)")
    case None
    have "merged_of ?s (h_volume y) (h_merged y) (h_chans y)" using hok by (simp add: handler_ok_def)
    from merged_of_snoc [OF this ask None] hok y(2) None show ?thesis
      by (simp add: process_request_def handler_ok_def)
  next
    case (Some e)
    with hok y(2) show ?thesis by (simp add: process_request_def handler_ok_def)
  qed
  then show ?thesis
    by (intro minv_put_handler [OF inv1 y1]) (simp_all add: process_request_def split: option.split)
qed

lemma modify_answer_Ok [simp]: "modify_answer err = Ok () \<longleftrightarrow> err = None"
  by (simp add: modify_answer_def split: option.split)

lemma minv_reject:
  assumes inv: "minv s" and y: "m_handlers s h = Some y" "h_phase y = Rejecting c err drain"
    and x: "m_callers s c = Some x"
  shows "minv (put_handler h (y\<lparr>h_phase := receiving drain\<rparr>)
    (put_caller c (x\<lparr>cl_state := Returned (modify_answer (Some err))\<rparr>) s))"
proof -
  let ?s = "put_caller c (x\<lparr>cl_state := Returned (modify_answer (Some err))\<rparr>) s"
  have inv1: "minv ?s" using inv x(1) by (rule minv_move_caller) (simp add: caller_ok_def)
  have y1: "m_handlers ?s h = Some y" using y by (simp add: put_caller_def)
  from minv_handler [OF inv1 y1] y(2) show ?thesis
    by (intro minv_put_handler [OF inv1 y1]) (simp_all add: handler_ok_def)
qed

lemma minv_respond:
  assumes inv: "minv s" and y: "m_handlers s h = Some y" "h_phase y = Responding (c # cs) (n, err)"
    and x: "m_callers s c = Some x"
  shows "minv (put_handler h (y\<lparr>h_phase := Responding cs (n, err)\<rparr>)
    (put_caller c (x\<lparr>cl_state := Returned (modify_answer err)\<rparr>) s))"
proof -
  let ?x = "x\<lparr>cl_state := Returned (modify_answer err)\<rparr>"
  let ?s = "put_caller c ?x s"
  have hok: "handler_ok s h y" using inv y(1) by (rule minv_handler)
  then have c: "c \<in> set (h_chans y)" "(h, h_volume y, h_merged y, (n, err)) \<in> set (m_calls s)"
    and m: "merged_of s (h_volume y) (h_merged y) (h_chans y)"
    using y(2) by (auto simp: handler_ok_def)
  have "asked s c = Some (cl_volume x, cl_request x)" using x by (simp add: asked_def)
  from merged_of_accepts [OF m c(1) this] c(2) have "caller_ok s ?x"
    unfolding caller_ok_def by auto
  then have inv1: "minv ?s" by (rule minv_move_caller [OF inv x])
  have y1: "m_handlers ?s h = Some y" using y by (simp add: put_caller_def)
  from minv_handler [OF inv1 y1] y(2) show ?thesis
    by (intro minv_put_handler [OF inv1 y1]) (auto simp: handler_ok_def)
qed

lemma minv_timeout:
  assumes inv: "minv s" and y: "m_handlers s h = Some y" "h_phase y = Receiving"
  shows "minv (put_handler h (y\<lparr>h_phase := Draining\<rparr>) (s\<lparr>m_map := (m_map s)(h_volume y := None)\<rparr>))"
proof -
  let ?s = "put_handler h (y\<lparr>h_phase := Draining\<rparr>) (s\<lparr>m_map := (m_map s)(h_volume y := None)\<rparr>)"
  have at_h: "m_map s (h_volume y) = Some h"
    using minv_handler [OF inv y(1)] y(2) by (simp add: handler_ok_def)
  have "handler_ok ?s k z" if "m_handlers ?s k = Some z" for k z
  proof (cases "k = h")
    case True
    with that minv_handler [OF inv y(1)] y(2) show ?thesis
      by (auto simp: handler_ok_def put_handler_def)
  next
    case False
    with that have "m_handlers s k = Some z" by (simp add: put_handler_def)
    from minv_handler [OF inv this] False at_h show ?thesis
      by (auto simp: handler_ok_def put_handler_def)
  qed
  moreover have "caller_ok ?s x" if "caller_ok s x" for x
    using that y(1) by (auto simp: caller_ok_def put_handler_def)
  moreover have "call_ok ?s k" if "call_ok s k" for k
    using that by (auto simp: call_ok_def put_handler_def split: prod.splits)
  moreover have "\<exists>z. m_handlers ?s k = Some z \<and> h_volume z = v" if "m_map ?s v = Some k" for v k
  proof -
    have "m_map s v = Some k" using that by (simp add: put_handler_def split: if_splits)
    then obtain z where "m_handlers s k = Some z" "h_volume z = v" using inv unfolding minv_def by blast
    with y(1) show ?thesis by (cases "k = h") (simp_all add: put_handler_def)
  qed
  ultimately show ?thesis using inv by (simp add: minv_def put_handler_def)
qed

lemma minv_execute:
  assumes inv: "minv s" and y: "m_handlers s h = Some y" "h_phase y = Draining"
  shows "minv (put_handler h (y\<lparr>h_phase := Responding (h_chans y) res\<rparr>)
    (s\<lparr>m_cloud := cl, m_calls := (h, h_volume y, h_merged y, res) # m_calls s\<rparr>))"
proof -
  let ?t = "s\<lparr>m_cloud := cl, m_calls := (h, h_volume y, h_merged y, res) # m_calls s\<rparr>"
  let ?y = "y\<lparr>h_phase := Responding (h_chans y) res\<rparr>"
  let ?s = "put_handler h ?y ?t"
  have hok: "handler_ok s h y" using inv y(1) by (rule minv_handler)
  have fresh: "h \<notin> fst ` set (m_calls s)" using hok y(2) by (simp add: handler_ok_def)
  have "handler_ok ?s k z" if "m_handlers ?s k = Some z" for k z
  proof (cases "k = h")
    case True
    with that hok y(2) show ?thesis
      by (auto simp: handler_ok_def put_handler_def)
  next
    case False
    with that have "m_handlers s k = Some z" by (simp add: put_handler_def)
    from minv_handler [OF inv this] False show ?thesis
      by (auto simp: handler_ok_def put_handler_def)
  qed
  moreover have "caller_ok ?s x" if "caller_ok s x" for x
    using that y(1) by (auto simp: caller_ok_def put_handler_def)
  moreover have "call_ok ?s k" if "call_ok s k" for k
    using that by (auto simp: call_ok_def put_handler_def split: prod.splits)
  moreover have "call_ok ?s (h, h_volume y, h_merged y, res)"
  proof -
    have m: "merged_of s (h_volume y) (h_merged y) (h_chans y)" using hok by (simp add: handler_ok_def)
    then have "h_chans y \<noteq> []" by (auto simp: merged_of_def)
    with m show ?thesis
      by (auto simp: call_ok_def put_handler_def)
  qed
  moreover have "\<exists>z. m_handlers ?s k = Some z \<and> h_volume z = v" if "m_map ?s v = Some k" for v k
  proof -
    have "m_map s v = Some k" using that by (simp add: put_handler_def)
    then obtain z where "m_handlers s k = Some z" "h_volume z = v" using inv unfolding minv_def by blast
    with y(1) show ?thesis by (cases "k = h") (simp_all add: put_handler_def)
  qed
  ultimately show ?thesis using inv fresh by (simp add: minv_def put_handler_def)
qed

lemma minv_submit_new:
  assumes inv: "minv s" and free: "m_map s v = None" "m_callers s c = None" "m_handlers s h = None"
  shows "minv (s\<lparr>m_map := (m_map s)(v \<mapsto> h),
    m_callers := (m_callers s)(c \<mapsto> \<lparr>cl_volume = v, cl_request = r, cl_state = Arriving\<rparr>),
    m_handlers := (m_handlers s)(h \<mapsto> newModifyVolumeRequestHandler v r c)\<rparr>)" (is "minv ?s")
proof -
  have "asked ?s c' = Some i" if "asked s c' = Some i" for c' i
    using that free(2) by (auto simp: asked_def)
  then have mono: "merged_of s v m cs \<Longrightarrow> merged_of ?s v m cs" for v m cs
    by (erule_tac merged_of_mono)
  have fresh: "h \<notin> fst ` set (m_calls s)"
    using inv free(3) by (force simp: minv_def call_ok_def)
  have "merged_of ?s v r [c]"
    unfolding merged_of_def by (rule exI [of _ r], rule exI [of _ "[]"]) (simp add: asked_def)
  then have new: "handler_ok ?s h (newModifyVolumeRequestHandler v r c)"
    using fresh by (simp add: handler_ok_def newModifyVolumeRequestHandler_def)
  have old: "handler_ok ?s k z" if "m_handlers s k = Some z" for k z
    using minv_handler [OF inv that] free that mono by (cases "h_volume z = v") (auto simp: handler_ok_def)
  have "handler_ok ?s k z" if "m_handlers ?s k = Some z" for k z
    using that new old by (cases "k = h") simp_all
  moreover have "caller_ok ?s x" if "caller_ok s x" for x
    using that free(3) by (auto simp: caller_ok_def)
  moreover have "caller_ok ?s \<lparr>cl_volume = v, cl_request = r, cl_state = Arriving\<rparr>"
    by (simp add: caller_ok_def)
  moreover have "call_ok ?s k" if "call_ok s k" for k
    using that mono by (auto simp: call_ok_def split: prod.splits)
  moreover have "\<exists>z. m_handlers ?s k = Some z \<and> h_volume z = w" if "m_map ?s w = Some k" for w k
  proof (cases "w = v")
    case True
    with that show ?thesis by (simp add: newModifyVolumeRequestHandler_def)
  next
    case False
    then have "m_map s w = Some k" using that by simp
    then obtain z where "m_handlers s k = Some z" "h_volume z = w" using inv unfolding minv_def by blast
    with free(3) show ?thesis by (cases "k = h") simp_all
  qed
  ultimately show ?thesis using inv by (simp add: minv_def)
qed

lemma minv_step: "mstep E s s' \<Longrightarrow> minv s \<Longrightarrow> minv s'"
proof (induction rule: mstep.induct)
  case (submit_join s v h c r)
  then obtain y where "m_handlers s h = Some y" "h_volume y = v" unfolding minv_def by blast
  with submit_join show ?case by (intro minv_put_caller) (simp_all add: caller_ok_def asked_def)
next
  case (send s c x h)
  with minv_caller [OF send(3,1)] show ?case by (intro minv_move_caller) (simp_all add: caller_ok_def)
next
  case (ignore s h y c cs res x)
  with minv_handler [OF ignore(5,1)] show ?case
    by (cases res, intro minv_put_handler) (auto simp: handler_ok_def)
next
  case (finish s h y res)
  with minv_handler [OF finish(3,1)] show ?case by (intro minv_put_handler) (auto simp: handler_ok_def)
next
  case (cancel s c x)
  then show ?case by (intro minv_move_caller) (simp_all add: caller_ok_def modify_cancelled_def)
next
  case (arrive s c x)
  then show ?case by (intro minv_move_caller) (simp_all add: caller_ok_def)
qed (simp_all only: minv_submit_new minv_receive minv_reject minv_timeout minv_execute minv_respond)

lemma minv_reachable: "msteps E (newModifyVolumeManager c) s \<Longrightarrow> minv s"
  by (induction rule: rtranclp_induct) (simp_all add: minv_start minv_step)

section \<open>What an executed request does\<close>

definition call_settled :: "history \<Rightarrow> nat \<times> string \<times> modifyVolumeRequest \<times> (int64 \<times> go_error option) \<Rightarrow> bool" where
  "call_settled h k \<longleftrightarrow> (case k of (_, v, m, (n, err)) \<Rightarrow> err = None \<longrightarrow>
     (\<exists>vol. EvGet v (Inr vol) \<in> set h \<and> vol_Status vol \<in> volumeArchivedStatus \<and>
        (mr_VolumeType m = '''' \<or> EqualFold (vol_VolumeTypeID vol) (mr_VolumeType m))))"

lemma executeModifyVolumeRequest_wp:
  assumes "wait_ok E" and "errors_loaded E"
  shows "wp (executeModifyVolumeRequest E v m) (\<lambda>r c'. ext c c' \<and>
    (\<forall>res. r = Return res \<longrightarrow> call_settled (cs_hist c') (h, v, m, res))) c"
proof -
  obtain g where "RoundUpGiB (mr_newSize m) = Return g" using RoundUpGiB_total by blast
  from ResizeOrModifyDisk_wp [OF assms this] show ?thesis
    unfolding executeModifyVolumeRequest_def wp_bind wp_return
  proof (rule wp_mono, goal_cases)
    case (1 r c')
    then have e: "ext c c'" by (auto simp: resize_post_def resize_plan_def did_def)
    then have "set (news c c') \<subseteq> set (cs_hist c')" by (auto simp: ext_def news_def)
    moreover have "\<exists>vol. EvGet v (Inr vol) \<in> set (news c c') \<and> vol_Status vol \<in> volumeArchivedStatus \<and>
        (mr_VolumeType m = '''' \<or> EqualFold (vol_VolumeTypeID vol) (mr_VolumeType m))"
      if "r = Return (n, None)" for n
      using 1 that by (auto simp: resize_post_def resize_result_def read_volume_def settled_at_def)
    ultimately have "call_settled (cs_hist c') (h, v, m, (n, None))" if "r = Return (n, None)" for n
      using that by (auto simp: call_settled_def)
    moreover have "call_settled (cs_hist c') (h, v, m, (n, Some err))" for n err
      by (simp add: call_settled_def)
    ultimately show ?case
      using e by (auto split: go.splits option.splits prod.splits)
  qed
qed

lemma calls_settled_step:
  assumes "wait_ok E" and "errors_loaded E"
  shows "mstep E s s' \<Longrightarrow> \<forall>k\<in>set (m_calls s). call_settled (cs_hist (m_cloud s)) k \<Longrightarrow>
    \<forall>k\<in>set (m_calls s'). call_settled (cs_hist (m_cloud s')) k"
proof (induction rule: mstep.induct)
  case (execute s h y res cloud')
  note new = wpD [OF executeModifyVolumeRequest_wp [OF assms] execute(4)]
  from new [of h] have "set (cs_hist (m_cloud s)) \<subseteq> set (cs_hist cloud')" by (auto simp: ext_def)
  then have "call_settled (cs_hist (m_cloud s)) k \<Longrightarrow> call_settled (cs_hist cloud') k" for k
    by (fastforce simp: call_settled_def split: prod.splits)
  with new execute(5) show ?case by (simp add: put_handler_def)
qed (simp_all add: put_defs)

lemma calls_settled:
  assumes "wait_ok E" and "errors_loaded E" and "msteps E (newModifyVolumeManager c) s"
  shows "\<forall>k\<in>set (m_calls s). call_settled (cs_hist (m_cloud s)) k"
  using assms(3)
  by (induction rule: rtranclp_induct)
    (simp_all add: newModifyVolumeManager_def calls_settled_step [OF assms(1,2)])

section \<open>Properties\<close>

text \<open>C7: Coalescing refines one-at-a-time execution of merged requests. However callers, timers and
contexts interleave, each handler executes at most once, what it executes is the merge, in order, of
requests callers made for that volume, none of which it overrides, and no two handlers collect for one
volume. A caller is told success only when such an execution that includes its request succeeded, and a
read had then shown the volume settled with the type the caller asked for.\<close>

theorem coalescing_refines_merged_calls:
  assumes "wait_ok E" and "errors_loaded E" and "msteps E (newModifyVolumeManager c0) s"
  shows "distinct (map fst (m_calls s)) \<and>
    (\<forall>h v m res. (h, v, m, res) \<in> set (m_calls s) \<longrightarrow>
       (\<exists>cs r rs. cs \<noteq> [] \<and> map (asked s) cs = map (\<lambda>r. Some (v, r)) (r # rs) \<and>
          m = foldl mergeModifyVolumeRequest r rs \<and> (\<forall>q\<in>set (r # rs). accepts m q))) \<and>
    (\<forall>h h' y y'. m_handlers s h = Some y \<and> m_handlers s h' = Some y' \<and> collecting (h_phase y) \<and>
       collecting (h_phase y') \<and> h_volume y = h_volume y' \<longrightarrow> h = h') \<and>
    (\<forall>c x. m_callers s c = Some x \<and> cl_state x = Returned (Ok ()) \<longrightarrow>
       (\<exists>h m n. (h, cl_volume x, m, (n, None)) \<in> set (m_calls s) \<and> accepts m (cl_request x)) \<and>
       (\<exists>vol. EvGet (cl_volume x) (Inr vol) \<in> set (cs_hist (m_cloud s)) \<and>
          vol_Status vol \<in> volumeArchivedStatus \<and>
          (mr_VolumeType (cl_request x) = '''' \<or>
           EqualFold (vol_VolumeTypeID vol) (mr_VolumeType (cl_request x)))))"
proof -
  have inv: "minv s" using assms(3) by (rule minv_reachable)
  have merged: "\<exists>cs r rs. cs \<noteq> [] \<and> map (asked s) cs = map (\<lambda>r. Some (v, r)) (r # rs) \<and>
      m = foldl mergeModifyVolumeRequest r rs \<and> (\<forall>q\<in>set (r # rs). accepts m q)"
    if "(h, v, m, res) \<in> set (m_calls s)" for h v m res
  proof -
    have "call_ok s (h, v, m, res)" using inv that by (auto simp: minv_def)
    then show ?thesis unfolding call_ok_def merged_of_def by auto
  qed
  have one: "h = h'" if "m_handlers s h = Some y" "m_handlers s h' = Some y'" "collecting (h_phase y)"
    "collecting (h_phase y')" "h_volume y = h_volume y'" for h h' y y'
    using minv_handler [OF inv that(1)] minv_handler [OF inv that(2)] that(3-5) by (simp add: handler_ok_def)
  have ok: "\<exists>h m n. (h, cl_volume x, m, (n, None)) \<in> set (m_calls s) \<and> accepts m (cl_request x)"
    if "m_callers s c = Some x" "cl_state x = Returned (Ok ())" for c x
    using minv_caller [OF inv that(1)] that(2) by (simp add: caller_ok_def)
  have real: "\<exists>vol. EvGet (cl_volume x) (Inr vol) \<in> set (cs_hist (m_cloud s)) \<and>
      vol_Status vol \<in> volumeArchivedStatus \<and>
      (mr_VolumeType (cl_request x) = '''' \<or> EqualFold (vol_VolumeTypeID vol) (mr_VolumeType (cl_request x)))"
    if "m_callers s c = Some x" "cl_state x = Returned (Ok ())" for c x
  proof -
    from ok [OF that] obtain h m n where k: "(h, cl_volume x, m, (n, None)) \<in> set (m_calls s)"
      and a: "accepts m (cl_request x)" by blast
    from calls_settled [OF assms] k have "call_settled (cs_hist (m_cloud s)) (h, cl_volume x, m, (n, None))"
      by blast
    with a show ?thesis by (auto simp: call_settled_def accepts_def)
  qed
  have "distinct (map fst (m_calls s))" using inv by (simp add: minv_def)
  with merged one ok real show ?thesis by blast
qed

theorem coalescing_refines_merged_calls_witness:
  "\<exists>s x. msteps (sample_env True None) (newModifyVolumeManager sample_cstate) s \<and>
    m_callers s 0 = Some x \<and> cl_state x = Returned (Ok ()) \<and>
    (\<exists>vol. EvGet ''vol-1'' (Inr vol) \<in> set (cs_hist (m_cloud s)) \<and>
       EqualFold (vol_VolumeTypeID vol) ''type-a'')"
proof -
  let ?v = "''vol-1''" and ?E = "sample_env True None"
  define a where "a = \<lparr>mr_newSize = 0, mr_VolumeType = ''type-a''\<rparr>"
  define x where "x = \<lparr>cl_volume = ?v, cl_request = a, cl_state = Arriving\<rparr>"
  define x2 where "x2 = x\<lparr>cl_state := Selecting\<rparr>"
  define y where "y = newModifyVolumeRequestHandler ?v a 0"
  define y3 where "y3 = y\<lparr>h_phase := Draining\<rparr>"
  define y4 where "y4 = y3\<lparr>h_phase := Responding (h_chans y3) (20, None)\<rparr>"
  define cl where "cl = snd (run_state (executeModifyVolumeRequest ?E ?v a) sample_cstate)"
  define s0 where "s0 = newModifyVolumeManager sample_cstate"
  define s1 where "s1 = s0\<lparr>m_map := (m_map s0)(?v \<mapsto> 0), m_callers := (m_callers s0)(0 \<mapsto> x),
      m_handlers := (m_handlers s0)(0 \<mapsto> y)\<rparr>"
  define s2 where "s2 = put_caller 0 x2 s1"
  define s3 where "s3 = put_handler 0 y3 (s2\<lparr>m_map := (m_map s2)(h_volume y := None)\<rparr>)"
  define s4 where "s4 = put_handler 0 y4
    (s3\<lparr>m_cloud := cl, m_calls := (0, h_volume y3, h_merged y3, (20, None)) # m_calls s3\<rparr>)"
  define s5 where "s5 = put_handler 0 (y4\<lparr>h_phase := Responding [] (20, None)\<rparr>)
    (put_caller 0 (x2\<lparr>cl_state := Returned (modify_answer None)\<rparr>) s4)"
  note sd = put_defs s1_def s2_def s3_def s4_def x_def x2_def y_def y3_def y4_def newModifyVolumeRequestHandler_def
  have "fst (run_state (executeModifyVolumeRequest ?E ?v \<lparr>mr_newSize = 0, mr_VolumeType = ''type-a''\<rparr>) sample_cstate) =
      Return (20, None)" by code_simp
  then have run: "run_state (executeModifyVolumeRequest ?E ?v a) sample_cstate = (Return (20, None), cl)"
    by (simp add: a_def cl_def prod_eq_iff)
  have st1: "mstep ?E s0 s1"
    unfolding s1_def x_def y_def by (rule mstep.submit_new) (simp_all add: s0_def newModifyVolumeManager_def)
  have st2: "mstep ?E s1 s2" unfolding s2_def x2_def by (rule mstep.arrive) (simp_all add: sd)
  have st3: "mstep ?E s2 s3" unfolding s3_def y3_def by (rule mstep.timeout) (simp_all add: sd)
  have st4: "mstep ?E s3 s4"
    unfolding s4_def y4_def
    by (rule mstep.execute) (use run in \<open>auto simp: sd s0_def newModifyVolumeManager_def split: if_splits\<close>)
  have st5: "mstep ?E s4 s5"
    unfolding s5_def by (rule mstep.respond) (simp_all add: sd)
  have "msteps ?E s0 s1" using st1 by (rule r_into_rtranclp [of "mstep ?E"])
  then have "msteps ?E s0 s2" using st2 by (rule rtranclp.rtrancl_into_rtrancl)
  then have "msteps ?E s0 s3" using st3 by (rule rtranclp.rtrancl_into_rtrancl)
  then have "msteps ?E s0 s4" using st4 by (rule rtranclp.rtrancl_into_rtrancl)
  then have "msteps ?E s0 s5" using st5 by (rule rtranclp.rtrancl_into_rtrancl)
  then have reach: "msteps ?E (newModifyVolumeManager sample_cstate) s5" by (simp only: s0_def)
  have got: "m_callers s5 0 = Some (x2\<lparr>cl_state := Returned (Ok ())\<rparr>)"
    by (simp add: s5_def put_defs modify_answer_def)
  have "\<exists>vol. EvGet ?v (Inr vol) \<in> set (cs_hist (m_cloud s5)) \<and> EqualFold (vol_VolumeTypeID vol) ''type-a''"
    using coalescing_refines_merged_calls [OF sample_wait_ok sample_errors_loaded reach] got
    by (fastforce simp: x2_def x_def a_def)
  moreover have "cl_state (x2\<lparr>cl_state := Returned (Ok ())\<rparr>) = Returned (Ok ())" by simp
  ultimately show ?thesis using reach got by blast
qed

text \<open>
  The handler wants to tell a rejected caller so, and the caller has already returned: its context ended
  while it stood in its \<open>select\<close>.
\<close>

definition handler_stuck :: "string \<Rightarrow> nat \<Rightarrow> manager \<Rightarrow> bool" where
  "handler_stuck v h s \<longleftrightarrow> m_map s v = Some h \<and>
     (\<exists>y c err x a. m_handlers s h = Some y \<and> h_volume y = v \<and> h_phase y = Rejecting c err False \<and>
        m_callers s c = Some x \<and> cl_state x = Returned a)"

definition blocked_since :: "manager \<Rightarrow> string \<Rightarrow> nat \<Rightarrow> manager \<Rightarrow> bool" where
  "blocked_since s0 v h s \<longleftrightarrow> (\<forall>c x. m_callers s0 c = None \<and> m_callers s c = Some x \<and> cl_volume x = v \<longrightarrow>
     cl_state x = Joining h \<or> cl_state x = Sending h)"

lemma stuck_step:
  assumes inv: "minv s" and st: "handler_stuck v h s"
  shows "mstep E s s' \<Longrightarrow> handler_stuck v h s'"
proof -
  obtain y c err x a where y: "m_handlers s h = Some y" "h_volume y = v" "h_phase y = Rejecting c err False"
    and x: "m_callers s c = Some x" "cl_state x = Returned a" and m: "m_map s v = Some h"
    using st unfolding handler_stuck_def by blast
  have other: "h_volume z \<noteq> v" if "m_handlers s k = Some z" "h_phase z = Receiving" for k z
    using minv_handler [OF inv that(1)] that m y by (cases "k = h") (auto simp: handler_ok_def)
  assume "mstep E s s'"
  then have "m_map s' v = Some h \<and> m_handlers s' h = Some y \<and> m_callers s' c = Some x"
    using y x m by (cases rule: mstep.cases) (auto simp: put_defs receiving_def dest: other split: if_splits)
  with y x show ?thesis unfolding handler_stuck_def by blast
qed

lemma blocked_step:
  assumes st: "handler_stuck v h s" and b: "blocked_since s0 v h s"
    and grow: "\<forall>c. m_callers s0 c \<noteq> None \<longrightarrow> m_callers s c \<noteq> None"
  shows "mstep E s s' \<Longrightarrow> blocked_since s0 v h s'"
proof -
  obtain y c err where y: "m_handlers s h = Some y" "h_phase y = Rejecting c err False" and m: "m_map s v = Some h"
    using st unfolding handler_stuck_def by blast
  have old: "cl_state x = Joining h \<or> cl_state x = Sending h"
    if "m_callers s k = Some x" "m_callers s0 k = None" "cl_volume x = v" for k x
    using b that unfolding blocked_since_def by blast
  have grown: "m_callers s0 k = None" if "m_callers s k = None" for k using grow that by blast
  assume "mstep E s s'"
  then show ?thesis
    using y m by (cases rule: mstep.cases)
      (auto simp: blocked_since_def put_defs receiving_def dest: old grown split: if_splits)
qed

text \<open>C8: A handler can be lost for good: when a rejected caller's context ends before it takes the answer, the
handler's blocking send never completes. Its volume stays in the map for ever, and every later caller
for that volume neither succeeds nor fails nor notices its own context: it waits for the handler.\<close>

theorem rejected_caller_blocks_volume:
  assumes "msteps E (newModifyVolumeManager c0) s" and "handler_stuck v h s" and "msteps E s s'"
  shows "handler_stuck v h s' \<and> (\<forall>c x. m_callers s c = None \<and> m_callers s' c = Some x \<and> cl_volume x = v \<longrightarrow>
     cl_state x = Joining h \<or> cl_state x = Sending h)"
proof -
  have "minv s" using assms(1) by (rule minv_reachable)
  from assms(3) this assms(2) have "minv s' \<and> handler_stuck v h s' \<and> blocked_since s v h s' \<and>
      (\<forall>c. m_callers s c \<noteq> None \<longrightarrow> m_callers s' c \<noteq> None)"
  proof (induction rule: rtranclp_induct)
    case base
    then show ?case by (auto simp: blocked_since_def)
  next
    case (step t u)
    then have t: "minv t" "handler_stuck v h t" "blocked_since s v h t"
      "\<forall>c. m_callers s c \<noteq> None \<longrightarrow> m_callers t c \<noteq> None" by simp_all
    have "m_callers t c \<noteq> None \<longrightarrow> m_callers u c \<noteq> None" for c
      using step.hyps(2) by (cases rule: mstep.cases) (auto simp: put_defs)
    with t step.hyps(2) show ?case
      using minv_step stuck_step blocked_step by blast
  qed
  then show ?thesis unfolding blocked_since_def by blast
qed

theorem rejected_caller_blocks_volume_witness:
  "\<exists>s. msteps (sample_env True None) (newModifyVolumeManager sample_cstate) s \<and> handler_stuck ''vol-1'' 0 s \<and>
    {s'. msteps (sample_env True None) s s'} \<subseteq> {s'. m_map s' ''vol-1'' = Some 0}"
proof -
  let ?v = "''vol-1''" and ?E = "sample_env True None"
  define a where "a = \<lparr>mr_newSize = 0, mr_VolumeType = ''type-a''\<rparr>"
  define b where "b = \<lparr>mr_newSize = 0, mr_VolumeType = ''type-b''\<rparr>"
  define x where "x = \<lparr>cl_volume = ?v, cl_request = b, cl_state = Joining 0\<rparr>"
  define x3 where "x3 = x\<lparr>cl_state := Sending 0\<rparr>"
  define x4 where "x4 = x3\<lparr>cl_state := Arriving\<rparr>"
  define x5 where "x5 = x4\<lparr>cl_state := Selecting\<rparr>"
  define s0 where "s0 = newModifyVolumeManager sample_cstate"
  define s1 where "s1 = s0\<lparr>m_map := (m_map s0)(?v \<mapsto> 0),
      m_callers := (m_callers s0)(0 \<mapsto> \<lparr>cl_volume = ?v, cl_request = a, cl_state = Arriving\<rparr>),
      m_handlers := (m_handlers s0)(0 \<mapsto> newModifyVolumeRequestHandler ?v a 0)\<rparr>"
  define y where "y = newModifyVolumeRequestHandler ?v a 0"
  define s2 where "s2 = put_caller 1 x s1"
  define s3 where "s3 = put_caller 1 x3 s2"
  define s4 where "s4 = put_handler 0 (process_request 1 False (cl_request x3) y) (put_caller 1 x4 s3)"
  define s5 where "s5 = put_caller 1 x5 s4"
  define s6 where "s6 = put_caller 1 (x5\<lparr>cl_state := Returned modify_cancelled\<rparr>) s5"
  note sd = put_defs s1_def s2_def s3_def s4_def s5_def x_def x3_def x4_def x5_def y_def
  have st1: "mstep ?E s0 s1"
    unfolding s1_def by (rule mstep.submit_new) (simp_all add: s0_def newModifyVolumeManager_def)
  have st2: "mstep ?E s1 s2"
    unfolding s2_def x_def by (rule mstep.submit_join) (simp_all add: sd s0_def newModifyVolumeManager_def)
  have st3: "mstep ?E s2 s3" unfolding s3_def x3_def by (rule mstep.send) (simp_all add: sd)
  have st4: "mstep ?E s3 s4"
    unfolding s4_def x4_def
    by (rule mstep.receive) (simp_all add: sd receiving_def newModifyVolumeRequestHandler_def)
  have st5: "mstep ?E s4 s5" unfolding s5_def x5_def by (rule mstep.arrive) (simp_all add: sd)
  have st6: "mstep ?E s5 s6" unfolding s6_def by (rule mstep.cancel) (simp_all add: sd)
  have "msteps ?E s0 s1" using st1 by (rule r_into_rtranclp [of "mstep ?E"])
  then have "msteps ?E s0 s2" using st2 by (rule rtranclp.rtrancl_into_rtrancl)
  then have "msteps ?E s0 s3" using st3 by (rule rtranclp.rtrancl_into_rtrancl)
  then have "msteps ?E s0 s4" using st4 by (rule rtranclp.rtrancl_into_rtrancl)
  then have "msteps ?E s0 s5" using st5 by (rule rtranclp.rtrancl_into_rtrancl)
  then have "msteps ?E s0 s6" using st6 by (rule rtranclp.rtrancl_into_rtrancl)
  then have reach: "msteps ?E (newModifyVolumeManager sample_cstate) s6" by (simp only: s0_def)
  have "validateModifyVolumeRequest a b \<noteq> None"
    by (simp add: validateModifyVolumeRequest_def a_def b_def)
  then obtain err where "process_request 1 False b y = y\<lparr>h_phase := Rejecting 1 err False\<rparr>"
    by (auto simp: process_request_def y_def newModifyVolumeRequestHandler_def)
  then have "m_handlers s6 0 = Some (y\<lparr>h_phase := Rejecting 1 err False\<rparr>)"
    and "m_callers s6 1 = Some (x5\<lparr>cl_state := Returned modify_cancelled\<rparr>)" and "m_map s6 ?v = Some 0"
    by (simp_all add: s6_def s5_def s4_def s3_def s2_def s1_def put_defs x3_def x_def)
  then have st: "handler_stuck ?v 0 s6"
    by (simp add: handler_stuck_def y_def newModifyVolumeRequestHandler_def)
  have "m_map s' ?v = Some 0" if "msteps ?E s6 s'" for s'
    using rejected_caller_blocks_volume [OF reach st that] by (simp add: handler_stuck_def)
  then have "{s'. msteps ?E s6 s'} \<subseteq> {s'. m_map s' ?v = Some 0}" by (intro subsetI) simp
  with reach st show ?thesis by (intro exI [of _ s6] conjI)
qed

end
