(* ===== verification/CtlRuns.thy ===== *)
theory CtlRuns
  imports CtlCreateSpec CtlSnapshots CtlExpand ModifyCoalescing
begin

text \<open>
  The controller over sequences of calls. The service starts as \<open>newControllerService\<close> builds it and
  then handles any list of calls of every kind, one after another, each against whatever vServer and the
  cluster answer; a modification is taken to be merged with no other.
  The properties of the attach, detach and delete calls come first, then those of whole runs.
\<close>

section \<open>Calls\<close>

datatype rpc =
    RpcPublish string string "capability option"
  | RpcUnpublish string string
  | RpcDelete string
  | RpcCreate create_volume_request
  | RpcCreateSnapshot string string
  | RpcDeleteSnapshot string
  | RpcListSnapshots string string string int
  | RpcValidate string "capability list"
  | RpcExpand expand_request
  | RpcModifyProperties string "(string \<times> string) list"
  | RpcModify string "(string \<times> string) list"

text \<open>
  A \<open>ControllerModifyVolume\<close> that no other is merged with: the coalescing manager, which has its own
  state (\<open>ModifyCoalescing\<close>), executes the request it submits.
\<close>

definition modify_alone :: "cenv \<Rightarrow> string \<Rightarrow> (string \<times> string) list \<Rightarrow> (ctl, unit) state" where
  "modify_alone C volumeID params =
     (case modify_submission volumeID params of
        Inl err \<Rightarrow> State_Monad.return ()
      | Inr req \<Rightarrow> do {
          _ \<leftarrow> in_cloud (executeModifyVolumeRequest (ce_cloud C) volumeID req);
          State_Monad.return ()
        })"

lemma modify_alone_quiet: "keeps quiet (modify_alone C v ps)"
  unfolding modify_alone_def by (intro frames in_cloud_quiet)

text \<open>The volume of an attach or detach call has an id of the length \<open>L\<close>.\<close>

fun rpc_length :: "nat \<Rightarrow> rpc \<Rightarrow> bool" where
  "rpc_length L (RpcPublish v n cap) = (length v = L)"
| "rpc_length L (RpcUnpublish v n) = (length v = L)"
| "rpc_length L _ = True"

fun rpc_step :: "cenv \<Rightarrow> rpc \<Rightarrow> ctl \<Rightarrow> ctl" where
  "rpc_step C (RpcPublish v n cap) s = snd (run_state (ControllerPublishVolume C v n cap) s)"
| "rpc_step C (RpcUnpublish v n) s = snd (run_state (ControllerUnpublishVolume C v n) s)"
| "rpc_step C (RpcDelete v) s = snd (run_state (Controller_DeleteVolume C v) s)"
| "rpc_step C (RpcCreate preq) s = snd (run_state (CreateVolume C preq) s)"
| "rpc_step C (RpcCreateSnapshot n v) s = snd (run_state (CreateSnapshot C n v) s)"
| "rpc_step C (RpcDeleteSnapshot n) s = snd (run_state (Controller_DeleteSnapshot C n) s)"
| "rpc_step C (RpcListSnapshots i v tok k) s = snd (run_state (Controller_ListSnapshots C i v tok k) s)"
| "rpc_step C (RpcValidate v caps) s = snd (run_state (ValidateVolumeCapabilities C v caps) s)"
| "rpc_step C (RpcExpand preq) s = snd (run_state (ControllerExpandVolume C preq) s)"
| "rpc_step C (RpcModifyProperties v ps) s = snd (run_state (ModifyVolumeProperties C v ps) s)"
| "rpc_step C (RpcModify v ps) s = snd (run_state (modify_alone C v ps) s)"

definition rpc_run :: "cenv \<Rightarrow> rpc list \<Rightarrow> ctl \<Rightarrow> ctl" where
  "rpc_run C rpcs s = fold (rpc_step C) rpcs s"

text \<open>Every call but attach, detach and delete is a quiet step.\<close>

lemma keeps_snd: "keeps R m \<Longrightarrow> R s (snd (run_state m s))"
  by (drule keepsD) (simp add: wp_snd)

lemmas quiet_rpcs = CreateVolume_quiet CreateSnapshot_quiet DeleteSnapshot_quiet
  Controller_ListSnapshots_keeps [THEN lookup_quiet] ValidateVolumeCapabilities_keeps [THEN lookup_quiet]
  ControllerExpandVolume_quiet ModifyVolumeProperties_quiet modify_alone_quiet

lemma rpc_step_quiet:
  "\<not> (\<exists>v n cap. rpc = RpcPublish v n cap) \<Longrightarrow> \<not> (\<exists>v n. rpc = RpcUnpublish v n) \<Longrightarrow> \<not> (\<exists>v. rpc = RpcDelete v)
    \<Longrightarrow> quiet s (rpc_step C rpc s)"
  by (cases rpc) (simp_all add: quiet_rpcs [THEN keeps_snd])

section \<open>Runs keep the invariant\<close>

lemma rpc_step_inv:
  assumes ok: "wait_ok (ce_cloud C)" and inv: "ctl_inv L s" and len: "rpc_length L rpc"
  shows "ctl_inv L (rpc_step C rpc s)"
proof -
  consider (publish) v n cap where "rpc = RpcPublish v n cap" | (unpublish) v n where "rpc = RpcUnpublish v n"
    | (delete) v where "rpc = RpcDelete v" | (quiet) "quiet s (rpc_step C rpc s)"
    using rpc_step_quiet by blast
  then show ?thesis
  proof cases
    case (publish v n cap)
    have "wp (ControllerPublishVolume C v n cap) (\<lambda>r. ctl_inv L) s"
      using publish len by (intro wp_mono [OF ControllerPublishVolume_wp [OF ok]] publish_inv [OF inv]) auto
    with publish show ?thesis by (simp add: wp_snd)
  next
    case (unpublish v n)
    have "wp (ControllerUnpublishVolume C v n) (\<lambda>r. ctl_inv L) s"
      using unpublish len
      by (intro wp_mono [OF ControllerUnpublishVolume_wp [OF ok]] unpublish_inv [OF inv]) auto
    with unpublish show ?thesis by (simp add: wp_snd)
  next
    case (delete v)
    have "wp (Controller_DeleteVolume C v) (\<lambda>r. ctl_inv L) s"
      by (intro wp_mono [OF Controller_DeleteVolume_wp [OF ok]] delete_inv [OF inv])
    with delete show ?thesis by (simp add: wp_snd)
  next
    case quiet
    with inv show ?thesis by (rule ctl_inv_quiet)
  qed
qed

lemma rpc_run_inv:
  assumes "wait_ok (ce_cloud C)" and "ctl_inv L s" and "list_all (rpc_length L) rpcs"
  shows "ctl_inv L (rpc_run C rpcs s)"
  using assms by (induction rpcs arbitrary: s) (simp_all add: rpc_run_def rpc_step_inv)

lemma ctl_inv_start: "ctl_inv L (newControllerService cap)"
  by (simp add: ctl_inv_def detach_gauge_inv_def delete_gauge_inv_def mops_ok_def
      newControllerService_def keyed_empty [unfolded NewBreaker_def] gauge_def breaker_tripped_iff NewBreaker_def)

section \<open>One call\<close>

lemma detach_apply_ticks [simp]:
  "ks_ticks (detach_apply eff v n s) = ks_ticks s" "ks_cloud (detach_apply eff v n s) = ks_cloud s"
  by (cases eff; simp add: after_detach_frame after_detach_failed_def after_detach_succeeded_def
      split: prod.split)+

lemma reports_fields:
  assumes "reports X says etype reason msg s'"
  shows "ks_cloud s' = ks_cloud X" "ks_inflight s' = ks_inflight X" "ks_detach s' = ks_detach X"
    "ks_delete s' = ks_delete X" "ks_gate s' = ks_gate X" "ks_mops s' = ks_mops X"
    "ks_ticks s' = ks_ticks X"
  using assms by (auto simp: reports_def)

lemma unpublish_ranE:
  assumes "unpublish_ran C v n s r s'"
  obtains eff where "ks_inflight s' = ks_inflight s" "ks_detach s' = ks_detach (detach_apply eff v n s)"
    "ks_ticks s' = Suc (ks_ticks s)"
    "did [] (ks_cloud s) (ks_cloud s') \<or>
      \<not> unpublish_paused C v n s \<and> (\<exists>x. did [EvDetach n v x] (ks_cloud s) (ks_cloud s'))"
    "unpublish_answer C v n s eff (ks_cloud s') r"
proof -
  from assms obtain c eff et re msg where
    rep: "reports ((detach_apply eff v n s)\<lparr>ks_ticks := Suc (ks_ticks s), ks_cloud := c\<rparr>)
      (unpublish_says v n s eff) et re msg s'"
    and rest: "did [] (ks_cloud s) c \<or>
      \<not> unpublish_paused C v n s \<and> (\<exists>x. did [EvDetach n v x] (ks_cloud s) c)"
      "unpublish_answer C v n s eff c r"
    unfolding unpublish_ran_def by blast
  from reports_fields [OF rep] rest that show ?thesis by simp
qed

lemma answer_cleared:
  "unpublish_answer C v n s eff c (Ok ()) \<Longrightarrow> map_of (ks_detach (detach_apply eff v n s)) (v @ n) = None"
  by (auto simp: unpublish_answer_def after_detach_succeeded_def map_of_Success key_string_def)

lemma answer_no_crash [simp]: "\<not> unpublish_answer C v n s eff c Crashed"
  by (simp add: unpublish_answer_def)

lemma answer_evidence:
  "unpublish_answer C v n s eff c (Ok ()) \<Longrightarrow> detach_evidence (ce_cloud C) n v (ks_cloud s) c"
  by (auto simp: unpublish_answer_def)

text \<open>C1: A detach call of the controller issues at most one detach command, and none while the pair's
breaker is open; it answers success only when a read or the command itself said the volume is off the
node, and then the pair's breaker is clear. It never crashes and always gives its key back.\<close>

theorem unpublish_rpc_safe:
  assumes "wait_ok (ce_cloud C)"
  shows "wp (ControllerUnpublishVolume C v n) (\<lambda>r s'. r \<noteq> Crashed \<and> ks_inflight s' = ks_inflight s \<and>
    (did [] (ks_cloud s) (ks_cloud s') \<or>
      \<not> unpublish_paused C v n s \<and> (\<exists>x. did [EvDetach n v x] (ks_cloud s) (ks_cloud s'))) \<and>
    (r = Ok () \<longrightarrow> detach_evidence (ce_cloud C) n v (ks_cloud s) (ks_cloud s') \<and>
      map_of (ks_detach s') (v @ n) = None)) s"
proof (rule wp_mono [OF ControllerUnpublishVolume_wp [OF assms]], goal_cases)
  case (1 r s')
  then show ?case
    unfolding unpublish_post_def
  proof
    assume "unpublish_ran C v n s r s'"
    then show ?thesis
      by (rule unpublish_ranE) (auto simp: answer_no_crash dest: answer_evidence answer_cleared)
  qed (auto simp: refused_def)
qed

theorem unpublish_rpc_safe_witness:
  "fst (run_state (ControllerUnpublishVolume (sample_cenv True None) ''vol-1'' ''ins-1'')
      (newControllerService 10)) = Ok () \<and>
   wp (ControllerUnpublishVolume (sample_cenv True None) ''vol-1'' ''ins-1'')
     (\<lambda>r s'. r = Ok () \<longrightarrow> map_of (ks_detach s') (''vol-1'' @ ''ins-1'') = None) (newControllerService 10)"
proof
  show "fst (run_state (ControllerUnpublishVolume (sample_cenv True None) ''vol-1'' ''ins-1'')
      (newControllerService 10)) = Ok ()" by code_simp
  show "wp (ControllerUnpublishVolume (sample_cenv True None) ''vol-1'' ''ins-1'')
     (\<lambda>r s'. r = Ok () \<longrightarrow> map_of (ks_detach s') (''vol-1'' @ ''ins-1'') = None) (newControllerService 10)"
    by (rule wp_mono [OF unpublish_rpc_safe [OF sample_cenv_ok]]) simp
qed

lemma publish_ranE:
  assumes "publish_ran C v n s r s'"
  obtains eff ms where "ks_inflight s' = ks_inflight s"
    "ks_detach s' = ks_detach (detach_apply eff v n (s\<lparr>ks_mops := ks_mops s @ ms\<rparr>))"
    "attach_commands n v (ks_cloud s) (ks_cloud s')"
    "publish_answer C v n s eff (ks_cloud s') r"
proof -
  from assms obtain c eff says et re msg x ms where
    rep: "reports ((detach_apply eff v n (s\<lparr>ks_mops := ks_mops s @ ms\<rparr>))\<lparr>ks_ticks := x, ks_cloud := c\<rparr>)
      says et re msg s'"
    and rest: "attach_commands n v (ks_cloud s) c" "publish_answer C v n s eff c r"
    unfolding publish_ran_def by blast
  from reports_fields [OF rep] rest that show ?thesis by simp
qed

lemma publish_answer_no_crash [simp]: "\<not> publish_answer C v n s eff c Crashed"
  by (simp add: publish_answer_def)

lemma publish_answer_ok:
  "publish_answer C v n s eff c (Ok ctx) \<Longrightarrow>
    (\<exists>path. ctx = [DevicePathKey \<mapsto> path] \<and> device_path_read v path (ks_cloud s) c) \<and>
    (\<exists>vol. attached_evidence (ce_cloud C) n v (ks_cloud s) vol c) \<and>
    (\<forall>s'. map_of (ks_detach (detach_apply eff v n s')) (v @ n) = None)"
  by (auto simp: publish_answer_def after_detach_succeeded_def map_of_Success key_string_def)

text \<open>C3: An attach call of the controller issues at most one attach command, or one more after the first
was refused because the volume was busy; it answers success only when a read showed the volume in use on
the node, with the device path that the lookup of its disk id, the last call made, answered (empty only if
that lookup failed with an error holding no Go error); and then the pair's next detach is a real attempt.\<close>

theorem publish_rpc_safe:
  assumes "wait_ok (ce_cloud C)"
  shows "wp (ControllerPublishVolume C v n cap) (\<lambda>r s'. r \<noteq> Crashed \<and> ks_inflight s' = ks_inflight s \<and>
    attach_commands n v (ks_cloud s) (ks_cloud s') \<and>
    (\<forall>ctx. r = Ok ctx \<longrightarrow>
      (\<exists>path. ctx = [DevicePathKey \<mapsto> path] \<and> device_path_read v path (ks_cloud s) (ks_cloud s')) \<and>
      (\<exists>vol. attached_evidence (ce_cloud C) n v (ks_cloud s) vol (ks_cloud s')) \<and>
      (\<forall>now. Allow (ks_detach s') \<lparr>VolumeID = v, NodeID = n\<rparr> now = Full))) s"
proof (rule wp_mono [OF ControllerPublishVolume_wp [OF assms]], goal_cases)
  case (1 r s')
  then show ?case
    unfolding publish_post_def
  proof
    assume "publish_ran C v n s r s'"
    then show ?thesis
      by (rule publish_ranE) (auto simp: Allow_def key_string_def dest!: publish_answer_ok)
  qed (auto simp: refused_def attach_commands_def)
qed

theorem publish_rpc_safe_witness:
  "(case fst (run_state (ControllerPublishVolume (sample_cenv False None) ''vol-1'' ''ins-1''
      (Some \<lparr>cap_mode = SingleNodeWriter, cap_type = Block\<rparr>)) (newControllerService 10)) of
      Ok ctx \<Rightarrow> ctx DevicePathKey = Some ''under-vol-1'' | _ \<Rightarrow> False) \<and>
   wp (ControllerPublishVolume (sample_cenv False None) ''vol-1'' ''ins-1''
      (Some \<lparr>cap_mode = SingleNodeWriter, cap_type = Block\<rparr>))
     (\<lambda>r s'. attach_commands ''ins-1'' ''vol-1'' NewCloud (ks_cloud s')) (newControllerService 10)"
proof
  show "case fst (run_state (ControllerPublishVolume (sample_cenv False None) ''vol-1'' ''ins-1''
      (Some \<lparr>cap_mode = SingleNodeWriter, cap_type = Block\<rparr>)) (newControllerService 10)) of
      Ok ctx \<Rightarrow> ctx DevicePathKey = Some ''under-vol-1'' | _ \<Rightarrow> False" by code_simp
  show "wp (ControllerPublishVolume (sample_cenv False None) ''vol-1'' ''ins-1''
      (Some \<lparr>cap_mode = SingleNodeWriter, cap_type = Block\<rparr>))
     (\<lambda>r s'. attach_commands ''ins-1'' ''vol-1'' NewCloud (ks_cloud s')) (newControllerService 10)"
    by (rule wp_mono [OF publish_rpc_safe [OF sample_cenv_ok]]) (simp add: newControllerService_def)
qed

lemma delete_ranE:
  assumes "delete_ran C v s r s'"
  obtains eff where "ks_inflight s' = ks_inflight s" "ks_delete s' = ks_delete (delete_apply eff v s)"
    "delete_commands C v s (ks_cloud s')" "delete_answer C v s eff (ks_cloud s') r"
proof -
  from assms obtain c eff et re msg where
    rep: "reports ((delete_apply eff v s)\<lparr>ks_ticks := Suc (ks_ticks s), ks_cloud := c\<rparr>)
      (delete_says v s eff) et re msg s'"
    and rest: "delete_commands C v s c" "delete_answer C v s eff c r"
    unfolding delete_ran_def by blast
  from reports_fields [OF rep] rest that show ?thesis by simp
qed

lemma delete_answer_ok:
  "delete_answer C v s eff c (Ok ()) \<Longrightarrow> saw (gone_event v) (ks_cloud s) c \<and>
    saw (no_snapshots_event v) (ks_cloud s) c \<and> map_of (ks_delete (delete_apply eff v s)) v = None"
  by (auto simp: delete_answer_def after_delete_succeeded_def map_of_Success key_string_def dkey_def)



section \<open>Runs\<close>

lemma pending_series:
  assumes "ctl_inv L s"
  shows "\<exists>m. run_mops (ks_mops s) (InitializeRecorder None) = Return (Some m) \<and> recorder_inv m \<and>
    (\<forall>ls. series m DetachPendingSeconds ls = gauge DetachPendingSeconds ls (ks_mops s)) \<and>
    (\<forall>ls. series m DeletePendingSeconds ls = gauge DeletePendingSeconds ls (ks_mops s))"
proof -
  let ?m0 = "\<lparr>rec_metrics = Map.empty, rec_calls = []\<rparr>"
  have inv0: "recorder_inv ?m0" by (simp add: recorder_inv_def)
  have ok: "\<forall>c\<in>set (ks_mops s). mop_ok c"
    using assms by (simp add: ctl_inv_def mops_ok_def list_all_iff)
  obtain r where r: "run_mops (ks_mops s) (Some ?m0) = Return r"
    using run_mops_ok [of "Some ?m0" "ks_mops s"] ok inv0 by (auto simp: recorder_ok_def)
  have shapes: "map_of metric_shapes DetachPendingSeconds = Some (GaugeVec, {LabelVolumeID, LabelNodeID})"
    "map_of metric_shapes DeletePendingSeconds = Some (GaugeVec, {LabelVolumeID})"
    by (simp_all add: metric_shapes_def metric_name_defs)
  have s0: "series ?m0 n ls = None" for n ls by (simp add: series_def)
  have one: "\<exists>m. r = Some m \<and> recorder_inv m \<and> series m n ls = gauge n ls (ks_mops s)"
    if "map_of metric_shapes n = Some (GaugeVec, names)" for n names ls
    using run_mops_series [OF inv0 ok that, of ls] r by (simp add: s0 gauge_def)
  then obtain m where m: "r = Some m" "recorder_inv m" using shapes(1) by blast
  have "series m DetachPendingSeconds ls = gauge DetachPendingSeconds ls (ks_mops s)"
    and "series m DeletePendingSeconds ls = gauge DeletePendingSeconds ls (ks_mops s)" for ls
    using one [OF shapes(1), of ls] one [OF shapes(2), of ls] m(1) by simp_all
  with m r show ?thesis by (auto simp: InitializeRecorder_def)
qed

lemma pending_detach:
  assumes "ctl_inv L s" and "length v = L"
  shows "gauge DetachPendingSeconds (detach_labels v n) (ks_mops s) \<noteq> None \<longleftrightarrow>
    breaker_tripped (ks_detach s) \<lparr>VolumeID = v, NodeID = n\<rparr>"
proof -
  have "pair_of_length L \<lparr>VolumeID = v, NodeID = n\<rparr>" using assms(2) by (simp add: pair_of_length_def)
  with assms(1) show ?thesis unfolding ctl_inv_def detach_gauge_inv_def key_labels_eq by blast
qed

lemma pending_delete:
  "ctl_inv L s \<Longrightarrow> gauge DeletePendingSeconds (delete_labels v) (ks_mops s) \<noteq> None \<longleftrightarrow>
    breaker_tripped (ks_delete s) \<lparr>VolumeID = v, NodeID = ''''\<rparr>"
  unfolding ctl_inv_def delete_gauge_inv_def dkey_def by blast

text \<open>C27: Along any sequence of calls of every kind, over volume ids of one length, whatever vServer
and the cluster answer, the recorder never panics, and the "pending" gauges have a series exactly for the
pairs and the volumes whose breaker is open: an alert on them neither outlives the trouble nor misses it.\<close>

theorem pending_gauges_track_breakers:
  assumes "wait_ok (ce_cloud C)" and "list_all (rpc_length L) rpcs"
  shows "\<exists>m s. s = rpc_run C rpcs (newControllerService cap) \<and>
    run_mops (ks_mops s) (InitializeRecorder None) = Return (Some m) \<and>
    (\<forall>v n. length v = L \<longrightarrow> (series m DetachPendingSeconds (detach_labels v n) \<noteq> None \<longleftrightarrow>
       breaker_tripped (ks_detach s) \<lparr>VolumeID = v, NodeID = n\<rparr>)) \<and>
    (\<forall>v. series m DeletePendingSeconds (delete_labels v) \<noteq> None \<longleftrightarrow>
       breaker_tripped (ks_delete s) \<lparr>VolumeID = v, NodeID = ''''\<rparr>)"
proof -
  let ?s = "rpc_run C rpcs (newControllerService cap)"
  have inv: "ctl_inv L ?s" by (rule rpc_run_inv [OF assms(1) ctl_inv_start assms(2)])
  obtain m where m: "run_mops (ks_mops ?s) (InitializeRecorder None) = Return (Some m)"
    "\<And>ls. series m DetachPendingSeconds ls = gauge DetachPendingSeconds ls (ks_mops ?s)"
    "\<And>ls. series m DeletePendingSeconds ls = gauge DeletePendingSeconds ls (ks_mops ?s)"
    using pending_series [OF inv] by blast
  have "series m DetachPendingSeconds (detach_labels v n) \<noteq> None \<longleftrightarrow>
      breaker_tripped (ks_detach ?s) \<lparr>VolumeID = v, NodeID = n\<rparr>" if "length v = L" for v n
    unfolding m(2) by (rule pending_detach [OF inv that])
  moreover have "series m DeletePendingSeconds (delete_labels v) \<noteq> None \<longleftrightarrow>
      breaker_tripped (ks_delete ?s) \<lparr>VolumeID = v, NodeID = ''''\<rparr>" for v
    unfolding m(3) by (rule pending_delete [OF inv])
  ultimately show ?thesis using m(1) by blast
qed

theorem pending_gauges_track_breakers_witness:
  "\<exists>m s. s = rpc_run (sample_cenv True (Some (sample_error EcVServerVolumeExceedQuota)))
      [RpcUnpublish ''vol-1'' ''ins-1'', RpcDelete ''vol-1''] (newControllerService 10) \<and>
    run_mops (ks_mops s) (InitializeRecorder None) = Return (Some m) \<and>
    series m DetachPendingSeconds (detach_labels ''vol-1'' ''ins-1'') \<noteq> None"
proof -
  let ?C = "sample_cenv True (Some (sample_error EcVServerVolumeExceedQuota))"
  let ?rpcs = "[RpcUnpublish ''vol-1'' ''ins-1'', RpcDelete ''vol-1'']"
  have len: "list_all (rpc_length 5) ?rpcs" "length ''vol-1'' = 5" by simp_all
  have "breaker_tripped (ks_detach (rpc_run ?C ?rpcs (newControllerService 10)))
    \<lparr>VolumeID = ''vol-1'', NodeID = ''ins-1''\<rparr>" by code_simp
  with len(2) pending_gauges_track_breakers [OF sample_cenv_ok len(1), of True
      "Some (sample_error EcVServerVolumeExceedQuota)" 10]
  show ?thesis by blast
qed

section \<open>A detach that keeps failing\<close>

text \<open>\<open>n\<close> calls for one pair in a row, with their answers.\<close>

fun unpublish_retries :: "cenv \<Rightarrow> string \<Rightarrow> string \<Rightarrow> nat \<Rightarrow> ctl \<Rightarrow> unit reply list \<times> ctl" where
  "unpublish_retries C v n 0 s = ([], s)"
| "unpublish_retries C v n (Suc m) s =
     (case run_state (ControllerUnpublishVolume C v n) s of
        (r, s1) \<Rightarrow> (case unpublish_retries C v n m s1 of (rs, s') \<Rightarrow> (r # rs, s')))"

text \<open>The pair is tripped, and its next attempt is not before \<open>b\<close>.\<close>

definition held_until :: "string \<Rightarrow> string \<Rightarrow> int \<Rightarrow> ctl \<Rightarrow> bool" where
  "held_until v n b s \<longleftrightarrow> wf_alist (ks_detach s) \<and>
     (\<exists>e. map_of (ks_detach s) (v @ n) = Some e \<and> be_tripped e \<and> b \<le> be_nextAttempt e)"

lemma held_swept:
  assumes "held_until v n b s" and "t \<le> b + 240 * Minute"
  shows "held_until v n b (after_evict_detach t s)"
  using assms by (auto simp: held_until_def after_evict_detach_def map_of_EvictStale entry_stale_def
      BreakerSteps_nth)

lemma held_failed:
  assumes "held_until v n b s"
  shows "held_until v n (t + 10 * Minute) (after_detach_failed v n \<lparr>VolumeID = v, NodeID = n\<rparr> t e s)"
proof -
  let ?k = "\<lparr>VolumeID = v, NodeID = n\<rparr>" and ?tm = "cls_Terminal (Classify (Some e))"
  let ?e' = "snd (failure_entry (failure_touch (ks_detach s) ?k t) ?tm t)"
  have d: "ks_detach (after_detach_failed v n ?k t e s) = snd (Failure (ks_detach s) ?k ?tm t)"
    by (simp add: after_detach_failed_def failure_of_def split: prod.split)
  have "be_tripped ?e'"
    using assms by (intro failure_entry_stays) (auto simp: held_until_def breaker_tripped_iff key_string_def)
  with failure_entry_wait [OF refl this] assms show ?thesis
    unfolding held_until_def d by (simp add: map_of_Failure key_string_def)
qed

lemma held_not_paused:
  assumes "held_until v n b s" and "\<not> unpublish_paused C v n s" and "unpublish_now C s \<le> b + 240 * Minute"
  shows "b \<le> unpublish_now C s"
proof -
  from held_swept [OF assms(1,3)] obtain e where
    "map_of (ks_detach (after_evict_detach (unpublish_now C s) s)) (v @ n) = Some e"
    "be_tripped e" "b \<le> be_nextAttempt e" by (auto simp: held_until_def)
  with assms(2) show ?thesis
    by (auto simp: unpublish_paused_def Allow_def key_string_def split: if_splits)
qed

lemma held_cong: "ks_detach s' = ks_detach s \<Longrightarrow> held_until v n b s' = held_until v n b s"
  by (simp add: held_until_def)

text \<open>One failing call while the pair is tripped: a pause without a command, or one attempt after \<open>b\<close>.\<close>

lemma retry_step:
  assumes ok: "wait_ok (ce_cloud C)" and run: "run_state (ControllerUnpublishVolume C v n) s = (r, s1)"
    and r: "r \<noteq> Ok ()" and held: "held_until v n b s" and t: "unpublish_now C s \<le> b + 240 * Minute"
  shows "did [] (ks_cloud s) (ks_cloud s1) \<and> held_until v n b s1 \<or>
    b \<le> unpublish_now C s \<and> held_until v n (unpublish_now C s + 10 * Minute) s1 \<and>
      (\<exists>cmds. did cmds (ks_cloud s) (ks_cloud s1) \<and> length cmds \<le> 1)"
proof -
  have "unpublish_post C v n s r s1" using wpD [OF ControllerUnpublishVolume_wp [OF ok] run] .
  then show ?thesis
    unfolding unpublish_post_def
  proof
    assume "refused s r s1"
    with held show ?thesis by (simp add: refused_def)
  next
    assume "unpublish_ran C v n s r s1"
    then show ?thesis
    proof (rule unpublish_ranE)
      fix eff
      assume d: "ks_detach s1 = ks_detach (detach_apply eff v n s)"
        and cmd: "did [] (ks_cloud s) (ks_cloud s1) \<or>
          \<not> unpublish_paused C v n s \<and> (\<exists>x. did [EvDetach n v x] (ks_cloud s) (ks_cloud s1))"
        and ans: "unpublish_answer C v n s eff (ks_cloud s1) r"
      note h = held_cong [OF d]
      from ans r consider "eff = Swept (unpublish_now C s)" "unpublish_paused C v n s"
        | e where "eff = FailedAt (unpublish_now C s) e" "\<not> unpublish_paused C v n s"
        unfolding unpublish_answer_def by blast
      then show ?thesis
      proof cases
        case 1
        with cmd held_swept [OF held t] show ?thesis by (simp add: h)
      next
        case 2
        have "held_until v n (unpublish_now C s + 10 * Minute) s1"
          unfolding h 2(1) detach_apply.simps by (rule held_failed [OF held_swept [OF held t]])
        moreover have "\<exists>cmds. did cmds (ks_cloud s) (ks_cloud s1) \<and> length cmds \<le> 1"
          using cmd by fastforce
        ultimately show ?thesis using held_not_paused [OF held 2(2) t] by blast
      qed
    qed
  qed
qed

lemma retries_bound:
  assumes ok: "wait_ok (ce_cloud C)" and "held_until v n b s" and "hi \<le> b + 240 * Minute"
    and "\<forall>k. ce_now C k \<le> hi" and "unpublish_retries C v n m s = (rs, s')" and "Ok () \<notin> set rs"
  shows "\<exists>cmds. did cmds (ks_cloud s) (ks_cloud s') \<and>
    int (length cmds) \<le> (if b \<le> hi then (hi - b) div (10 * Minute) + 1 else 0)"
  using assms(2,3,5,6)
proof (induction m arbitrary: s b rs)
  case 0
  then show ?case by (auto intro!: exI [of _ "[]"] simp: pos_imp_zdiv_nonneg_iff Minute_def Second_def)
next
  case (Suc m)
  obtain r s1 where r: "run_state (ControllerUnpublishVolume C v n) s = (r, s1)" by force
  obtain rs1 where rs1: "unpublish_retries C v n m s1 = (rs1, s')" "rs = r # rs1"
    using Suc.prems(3) r by (auto split: prod.splits)
  have t: "unpublish_now C s \<le> hi" using assms(4) by (simp add: unpublish_now_def)
  with Suc.prems(2) have t': "unpublish_now C s \<le> b + 240 * Minute" by linarith
  have "r \<noteq> Ok ()" "Ok () \<notin> set rs1" using Suc.prems(4) rs1(2) by auto
  from retry_step [OF ok r this(1) Suc.prems(1) t'] show ?case
  proof (elim disjE conjE exE)
    assume "did [] (ks_cloud s) (ks_cloud s1)" "held_until v n b s1"
    with Suc.IH [OF _ Suc.prems(2) rs1(1) \<open>Ok () \<notin> set rs1\<close>] show ?thesis
      using did_after_ro by blast
  next
    fix cmds
    let ?b = "unpublish_now C s + 10 * Minute"
    assume "b \<le> unpublish_now C s" "held_until v n ?b s1" and c: "did cmds (ks_cloud s) (ks_cloud s1)"
      "length cmds \<le> 1"
    moreover from this have "hi \<le> ?b + 240 * Minute" using Suc.prems(2) by (simp add: Minute_def Second_def)
    ultimately obtain cmds' where c': "did cmds' (ks_cloud s1) (ks_cloud s')"
      "int (length cmds') \<le> (if ?b \<le> hi then (hi - ?b) div (10 * Minute) + 1 else 0)"
      using Suc.IH [of ?b s1 rs1] rs1(1) \<open>Ok () \<notin> set rs1\<close> by blast
    have M: "0 < 10 * Minute" by (simp add: Minute_def Second_def)
    have "(hi - b) div (10 * Minute) \<ge> (if ?b \<le> hi then (hi - ?b) div (10 * Minute) + 1 else 0)"
    proof (cases "?b \<le> hi")
      case True
      have "(hi - ?b) div (10 * Minute) + 1 = (hi - unpublish_now C s) div (10 * Minute)"
        using div_add_self2 [of "10 * Minute" "hi - ?b"] M by simp
      also have "\<dots> \<le> (hi - b) div (10 * Minute)"
        using \<open>b \<le> unpublish_now C s\<close> M by (intro zdiv_mono1) auto
      finally show ?thesis using True by simp
    next
      case False
      with t \<open>b \<le> unpublish_now C s\<close> M show ?thesis by (simp add: pos_imp_zdiv_nonneg_iff)
    qed
    moreover have "b \<le> hi" using t \<open>b \<le> unpublish_now C s\<close> by linarith
    ultimately have "int (length (cmds' @ cmds)) \<le> (if b \<le> hi then (hi - b) div (10 * Minute) + 1 else 0)"
      using c(2) c'(2) by auto
    with did_trans [OF c(1) c'(1)] show ?thesis by blast
  qed
qed

text \<open>C28: However often the attacher retries, a pair whose detach keeps failing costs at most one detach command
per ten minutes: from its trip on, for a window of up to four hours after the end of the first pause.\<close>

theorem detach_commands_bounded:
  assumes "wait_ok (ce_cloud C)" and "wf_alist (ks_detach s)"
    and "map_of (ks_detach s) (v @ n) = Some e" and "be_tripped e"
    and "\<forall>k. ce_now C k \<le> be_nextAttempt e + w" and "0 \<le> w" and "w \<le> 240 * Minute"
    and "unpublish_retries C v n m s = (rs, s')" and "Ok () \<notin> set rs"
  shows "\<exists>cmds. did cmds (ks_cloud s) (ks_cloud s') \<and> int (length cmds) \<le> w div (10 * Minute) + 1"
proof -
  have "held_until v n (be_nextAttempt e) s" using assms(2-4) by (auto simp: held_until_def)
  from retries_bound [OF assms(1) this _ assms(5,8,9)] assms(6,7) show ?thesis by simp
qed

theorem detach_commands_bounded_witness:
  "let C = (sample_cenv True (Some (sample_error EcVServerVolumeExceedQuota)))
       \<lparr>ce_now := (\<lambda>k. int (min k 20) * (6 * Minute))\<rparr>;
       s = snd (run_state (ControllerUnpublishVolume C ''vol-1'' ''ins-1'') (newControllerService 10)) in
   \<exists>cmds. did cmds (ks_cloud s) (ks_cloud (snd (unpublish_retries C ''vol-1'' ''ins-1'' 5 s))) \<and>
     int (length cmds) \<le> 12"
proof -
  define C where "C = (sample_cenv True (Some (sample_error EcVServerVolumeExceedQuota)))
    \<lparr>ce_now := (\<lambda>k. int (min k 20) * (6 * Minute))\<rparr>"
  define s where "s = snd (run_state (ControllerUnpublishVolume C ''vol-1'' ''ins-1'') (newControllerService 10))"
  have ok: "wait_ok (ce_cloud C)"
    by (simp add: C_def sample_cenv_def sample_wait_ok)
  have "map_option (\<lambda>e. (be_tripped e, be_nextAttempt e)) (map_of (ks_detach s) (''vol-1'' @ ''ins-1'')) =
    Some (True, 10 * Minute)" unfolding s_def C_def by code_simp
  then obtain e where e: "map_of (ks_detach s) (''vol-1'' @ ''ins-1'') = Some e" "be_tripped e"
    "be_nextAttempt e = 10 * Minute" by (auto simp: map_option_case split: option.splits)
  have wf: "wf_alist (ks_detach s)" unfolding s_def C_def by code_simp
  have now: "\<forall>k. ce_now C k \<le> be_nextAttempt e + 110 * Minute"
    by (auto simp: C_def e Minute_def Second_def)
  have no: "Ok () \<notin> set (fst (unpublish_retries C ''vol-1'' ''ins-1'' 5 s))"
    unfolding s_def C_def by code_simp
  have "\<exists>cmds. did cmds (ks_cloud s) (ks_cloud (snd (unpublish_retries C ''vol-1'' ''ins-1'' 5 s))) \<and>
     int (length cmds) \<le> 110 * Minute div (10 * Minute) + 1"
    by (rule detach_commands_bounded [OF ok wf e(1,2) now]) (use no in \<open>simp_all add: Minute_def Second_def\<close>)
  then show ?thesis unfolding Let_def C_def [symmetric] s_def [symmetric] by (simp add: Minute_def Second_def)
qed

section \<open>The probe and the portal\<close>

lemma wrapped_portal_404:
  assumes "merge_ok merge" and "ie_code p = EcUnexpectedError"
    and "ie_params p ''statusCode'' = Some (PInt 404)"
  shows "cls_Reason (Classify (Some (errProjectUnresolved merge u (Some p)))) = ReasonIaaSResourceNotFound"
proof -
  let ?e = "errProjectUnresolved merge u (Some p)"
  have code: "effectiveCode ?e = EcUnexpectedError"
    using assms(2) by (simp add: effectiveCode_def errProjectUnresolved_def Let_def)
  have "ie_params ?e ''statusCode'' = Some (PInt 404)"
    using merge_ok_new [OF assms(1)] assms(3) by (simp add: errProjectUnresolved_def Let_def)
  with code show ?thesis
    by (simp add: classify_defs err_set_defs hasResponseStatusCode_def hasServerErrorStatus_def
        hasResponseStatus_def)
qed

text \<open>C38: The probe of a paused delete takes a portal lookup that answered 404 for a missing volume: with the
project still unresolved it reports the volume as deletable without having read it.\<close>

theorem probe_trusts_portal_404:
  assumes "merge_ok (e_merge (ce_cloud C))" and "mc_value (cs_project (ks_cloud s)) = None"
    and "api_Portal (ce_cloud C) (cs_hist (ks_cloud s)) (e_ProjectID (ce_cloud C)) = Inl p"
    and "ie_code p = EcUnexpectedError" and "ie_params p ''statusCode'' = Some (PInt 404)"
  shows "fst (run_state (probeVolumeDeletable C v) s) = (True, None)"
proof -
  let ?E = "ce_cloud C"
  have "fst (run_state (getVolumeById ?E v) (ks_cloud s)) =
      Inl (errProjectUnresolved (e_merge ?E) (e_ProjectID ?E) (Some p))"
    using assms(2,3) by (simp add: getVolumeById_def projectClient_def cached_get_def fresh_def
        resolve_project_def portalLookup_def split: prod.split)
  then obtain c where "run_state (getVolumeById ?E v) (ks_cloud s) =
      (Inl (errProjectUnresolved (e_merge ?E) (e_ProjectID ?E) (Some p)), c)"
    by (cases "run_state (getVolumeById ?E v) (ks_cloud s)") simp
  with wrapped_portal_404 [OF assms(1,4,5), of "e_ProjectID ?E"] show ?thesis
    by (simp add: probeVolumeDeletable_def in_cloud_def GetVolume_def)
qed

theorem probe_trusts_portal_404_witness:
  "fst (run_state (probeVolumeDeletable ((sample_cenv True None)\<lparr>ce_cloud := (sample_env True None)
      \<lparr>api_Portal := (\<lambda>h p. Inl \<lparr>ie_code = EcUnexpectedError, ie_msg = '''', ie_err = None,
         ie_params = [''statusCode'' \<mapsto> PInt 404]\<rparr>)\<rparr>\<rparr>) ''vol-1'') (newControllerService 10)) = (True, None)"
  by (rule probe_trusts_portal_404 [where p = "\<lparr>ie_code = EcUnexpectedError, ie_msg = '''', ie_err = None,
         ie_params = [''statusCode'' \<mapsto> PInt 404]\<rparr>"]) (simp_all add: sample_env_def merge_ok_def newControllerService_def
      NewCloud_def newPermanentMetaCache_def map_add_def split: option.splits)

section \<open>Nothing is left behind\<close>

text \<open>
  A \<open>calm_since\<close> step keeps the in-flight table, the gate and the level of the gauge of waiting creates: what
  the attach, detach and delete handlers leave alone, whatever they do to the breakers.
\<close>

definition calm_since :: "ctl \<Rightarrow> ctl \<Rightarrow> bool" where
  "calm_since s s' \<longleftrightarrow> ks_inflight s' = ks_inflight s \<and> ks_gate s' = ks_gate s \<and>
     waiting_level (ks_mops s') = waiting_level (ks_mops s)"

interpretation cm: state_frame calm_since
  by unfold_locales (auto simp: calm_since_def)

lemma quiet_calm: "quiet s s' \<Longrightarrow> calm_since s s'"
  by (simp add: quiet_def calm_since_def)

named_theorems calm_frames

lemmas [calm_frames] = keeps_if keeps_sum keeps_option keeps_prod keeps_go keeps_let cm.keeps_return
  cm.keeps_bind

lemma keeps_calm [calm_frames]: "keeps calm_since (in_cloud m)" "keeps calm_since (in_kube k)" "keeps calm_since (clock_now C)"
  by (rule keepsI, auto simp: calm_since_def intro: wpI)+

lemma keeps_calm_metric [calm_frames]:
  "mop_name m \<noteq> CreateGateWaiting \<Longrightarrow> keeps calm_since (record_metric m)"
  by (rule keepsI) (simp add: calm_since_def waiting_level_other)

lemma keeps_calm_metrics [calm_frames]:
  "list_all (\<lambda>m. mop_name m \<noteq> CreateGateWaiting) ms \<Longrightarrow> keeps calm_since (record_metrics ms)"
  by (rule keepsI) (simp add: calm_since_def waiting_level_other)

lemma keeps_calm_st [calm_frames]: "(\<And>s. calm_since s (snd (f s))) \<Longrightarrow> keeps calm_since (st f)"
  by (rule keepsI) (simp split: prod.split, metis snd_conv)

lemma keeps_calm_guarded [calm_frames]:
  assumes "keeps calm_since body"
  shows "keeps calm_since (ctl_guarded key busy body)"
proof (rule keepsI, rule ctl_guarded_wp, goal_cases)
  case (1 s)
  show ?case by (rule wp_mono [OF keepsD [OF assms]]) (simp add: calm_since_def)
next
  case (2 s)
  then show ?case by (simp add: calm_since_def)
qed

lemmas report_defs = evictStaleDetachState_def evictStaleDeleteState_def clearDetachStateOnAttach_def
  onDetachFailed_def onDetachSucceeded_def onDeleteFailed_def onDeleteSucceeded_def
  reportAttachIaaSError_def emitVolumeEvent_def

lemma reports_calm [calm_frames]:
  "keeps calm_since (evictStaleDetachState t)" "keeps calm_since (evictStaleDeleteState t)"
  "keeps calm_since (clearDetachStateOnAttach k t)" "keeps calm_since (onDetachFailed C v n k t e)"
  "keeps calm_since (onDetachSucceeded C v n k t)" "keeps calm_since (onDeleteFailed C v k t x)"
  "keeps calm_since (onDeleteSucceeded C v k t)" "keeps calm_since (reportAttachIaaSError C v n x)"
  unfolding report_defs Let_def
  by (intro calm_frames; simp add: calm_since_def list_all_iff iaas_error_mop_def metric_name_defs split: prod.split)+

lemma handlers_calm:
  "keeps calm_since (ControllerPublishVolume C v n cap)" "keeps calm_since (ControllerUnpublishVolume C v n)"
  "keeps calm_since (Controller_DeleteVolume C v)"
  unfolding ControllerPublishVolume_def publish_body_def publish_attached_def ControllerUnpublishVolume_def
    unpublish_body_def unpublish_probe_def unpublish_attempt_def Controller_DeleteVolume_def delete_body_def
    delete_attempt_def delete_command_def probeVolumeDeletable_def Let_def
  by (intro calm_frames; simp add: calm_since_def)+

lemma rpc_step_calm: "calm_since s (rpc_step C rpc s)"
proof -
  consider (publish) v n cap where "rpc = RpcPublish v n cap" | (unpublish) v n where "rpc = RpcUnpublish v n"
    | (delete) v where "rpc = RpcDelete v" | (quiet) "quiet s (rpc_step C rpc s)"
    using rpc_step_quiet by blast
  then show ?thesis
    by cases (simp_all add: handlers_calm [THEN keeps_snd] quiet_calm)
qed

lemma rpc_run_calm: "calm_since s (rpc_run C rpcs s)"
proof (induction rpcs arbitrary: s)
  case Nil
  then show ?case by (simp add: rpc_run_def calm_since_def)
next
  case (Cons r rpcs)
  from cm.R_trans [OF rpc_step_calm Cons.IH] show ?case by (simp add: rpc_run_def)
qed

text \<open>C9: Between calls nothing is left behind: after any sequence of calls of every kind, one after another,
whatever vServer and the cluster answered, no key is in flight, every slot of the create gate is free and the
gauge of waiting creates is back at zero, so no call of the sequence meets a key or a slot that an earlier one
still holds. (A modification waits in the coalescing manager, not on a key or a slot; C8 is about that.)\<close>

theorem runs_leave_nothing_behind:
  "\<exists>s. s = rpc_run C rpcs (newControllerService cap) \<and> ks_inflight s = NewInFlight \<and>
    ks_gate s = NewSemaphore cap \<and> waiting_level (ks_mops s) = 0"
  using rpc_run_calm [of "newControllerService cap" C rpcs]
  by (simp add: calm_since_def newControllerService_def waiting_level_def gauge_def)

end
