(* ===== verification/CtlRaces.thy ===== *)
theory CtlRaces
  imports CtlInvariants CtlService
begin

text \<open>
  The breaker-guarded handlers of \<^verbatim>\<open>pkg/driver/controller.go\<close> running concurrently. \<open>CtlDetach\<close> and
  \<open>CtlDelete\<close> run a handler from start to end; here any number of them interleave. One step is one
  operation of the in-flight table, of the breaker, or one recorder call, which are what the locks of
  these components make atomic; a call of the IaaS is a phase during which every other handler may
  move. The in-flight table keeps two handlers of one key apart, but the sweep of stale entries
  (\<open>evictStaleDetachState\<close>, \<open>evictStaleDeleteState\<close>) is run by every handler over every key.

  A side is what differs between the two breakers: the gauge with its labels, the recorder calls of
  a failure, the keys, and whether the handler is the one of delete. It lists the snapshots before
  it commands, and may end there; while paused it commands as soon as a probe allows it. The handler
  of detach clears the pair as soon as a probe shows it detached, and the handler of attach clears
  it too (\<open>clearDetachStateOnAttach\<close>).
  Events sent to Kubernetes are left out: they touch neither the table, nor a breaker, nor the recorder.
\<close>

section \<open>Handlers\<close>

record side =
  sd_series :: string
  sd_labels :: "breaker_key \<Rightarrow> labels"
  sd_failed :: "breaker_key \<Rightarrow> string \<Rightarrow> int \<times> bool \<times> bool \<Rightarrow> bool \<times> bool \<Rightarrow> mop list"
  sd_keys :: "breaker_key \<Rightarrow> bool"
  sd_delete :: bool

definition detach_calls :: "nat \<Rightarrow> side" where
  "detach_calls L = \<lparr>sd_series = DetachPendingSeconds, sd_labels = key_labels,
     sd_failed = (\<lambda>k. detach_failed_mops (VolumeID k) (NodeID k)), sd_keys = pair_of_length L,
     sd_delete = False\<rparr>"

definition delete_calls :: side where
  "delete_calls = \<lparr>sd_series = DeletePendingSeconds, sd_labels = (\<lambda>k. delete_labels (VolumeID k)),
     sd_failed = (\<lambda>k. delete_failed_mops (VolumeID k)), sd_keys = volume_key, sd_delete = True\<rparr>"

text \<open>
  Where a handler is: before it read the clock, before the sweep, before it asks the breaker, in the
  probe, in the command, after the failure was counted, before the success is noted, with recorder
  calls left, and before it gives its key back.
\<close>

datatype phase =
    Starting | Sweeping | Deciding | Probing | Commanding | Counted ierror "bool \<times> bool"
  | Clearing | Recording "mop list" phase | Leaving

record guarded_call =
  gc_pair :: breaker_key
  gc_attach :: bool
  gc_now :: "int option"
  gc_phase :: phase

text \<open>The log keeps, per key, the commands that began, those that failed, and the clearings.\<close>

datatype log_entry = Began breaker_key int | CommandFailed breaker_key int bool | Closed breaker_key

fun log_key :: "log_entry \<Rightarrow> breaker_key" where
  "log_key (Began k t) = k"
| "log_key (CommandFailed k t b) = k"
| "log_key (Closed k) = k"

record races =
  ra_calls :: "nat \<rightharpoonup> guarded_call"
  ra_tab :: in_flight
  ra_brk :: breaker
  ra_mops :: "mop list"
  ra_clock :: int
  ra_log :: "log_entry list"

definition races_start :: races where
  "races_start = \<lparr>ra_calls = Map.empty, ra_tab = NewInFlight, ra_brk = NewBreaker, ra_mops = [],
     ra_clock = 0, ra_log = []\<rparr>"

definition put_call :: "nat \<Rightarrow> guarded_call \<Rightarrow> races \<Rightarrow> races" where
  "put_call i c s = s\<lparr>ra_calls := (ra_calls s)(i \<mapsto> c)\<rparr>"

definition at_phase :: "guarded_call \<Rightarrow> phase \<Rightarrow> guarded_call" where
  "at_phase c p = c\<lparr>gc_phase := p\<rparr>"

definition noted :: "log_entry \<Rightarrow> races \<Rightarrow> races" where
  "noted e s = s\<lparr>ra_log := ra_log s @ [e]\<rparr>"

definition sweep_mops :: "side \<Rightarrow> breaker_key list \<Rightarrow> mop list" where
  "sweep_mops D ks = map (\<lambda>k. MDeleteGauge (sd_series D) (sd_labels D k)) ks"

text \<open>
  A call ends within four hours, the time after which the sweep takes an untouched entry: its context
  carries the sidecar's deadline, which is minutes.
\<close>

definition call_limit :: int where
  "call_limit = 2 * BreakerSteps ! (length BreakerSteps - 1)"

inductive race_step :: "side \<Rightarrow> races \<Rightarrow> races \<Rightarrow> bool" for D :: side where
  enter: "ra_calls s i = None \<Longrightarrow> sd_keys D k \<Longrightarrow> (att \<Longrightarrow> \<not> sd_delete D) \<Longrightarrow>
    Insert (ra_tab s) (key_string k) = (True, db) \<Longrightarrow>
    race_step D s (put_call i \<lparr>gc_pair = k, gc_attach = att, gc_now = None, gc_phase = Starting\<rparr>
      (s\<lparr>ra_tab := db\<rparr>))"
| attach_failed: "ra_calls s i = Some c \<Longrightarrow> gc_phase c = Starting \<Longrightarrow> gc_attach c \<Longrightarrow>
    ms = [] \<or> (\<exists>reason. ms = [iaas_error_mop OpAttach reason]) \<Longrightarrow>
    race_step D s (put_call i (at_phase c (Recording ms Leaving)) s)"
| clock: "ra_calls s i = Some c \<Longrightarrow> gc_phase c = Starting \<Longrightarrow>
    race_step D s (put_call i (at_phase c Sweeping\<lparr>gc_now := Some (ra_clock s)\<rparr>) s)"
| sweep: "ra_calls s i = Some c \<Longrightarrow> gc_phase c = Sweeping \<Longrightarrow> gc_now c = Some now \<Longrightarrow>
    EvictStale (ra_brk s) now = (ks, b) \<Longrightarrow>
    race_step D s (put_call i (at_phase c (Recording (sweep_mops D ks)
      (if gc_attach c then Clearing else Deciding))) (s\<lparr>ra_brk := b\<rparr>))"
| emit: "ra_calls s i = Some c \<Longrightarrow> gc_phase c = Recording (m # ms) p \<Longrightarrow>
    race_step D s (put_call i (at_phase c (Recording ms p)) (s\<lparr>ra_mops := ra_mops s @ [m]\<rparr>))"
| emitted: "ra_calls s i = Some c \<Longrightarrow> gc_phase c = Recording [] p \<Longrightarrow>
    race_step D s (put_call i (at_phase c p) s)"
| pause: "ra_calls s i = Some c \<Longrightarrow> gc_phase c = Deciding \<Longrightarrow> gc_now c = Some now \<Longrightarrow>
    Allow (ra_brk s) (gc_pair c) now = ProbeOnly \<Longrightarrow>
    race_step D s (put_call i (at_phase c Probing) s)"
| attempt: "ra_calls s i = Some c \<Longrightarrow> gc_phase c = Deciding \<Longrightarrow> gc_now c = Some now \<Longrightarrow>
    Allow (ra_brk s) (gc_pair c) now = Full \<Longrightarrow>
    race_step D s (put_call i (at_phase c Commanding) (noted (Began (gc_pair c) now) s))"
| probe_ends: "ra_calls s i = Some c \<Longrightarrow> gc_phase c = Probing \<Longrightarrow>
    race_step D s (put_call i (at_phase c Leaving) s)"
| probe_clears: "ra_calls s i = Some c \<Longrightarrow> gc_phase c = Probing \<Longrightarrow> \<not> sd_delete D \<Longrightarrow>
    race_step D s (put_call i (at_phase c Clearing) s)"
| probe_allows: "ra_calls s i = Some c \<Longrightarrow> gc_phase c = Probing \<Longrightarrow> gc_now c = Some now \<Longrightarrow> sd_delete D \<Longrightarrow>
    race_step D s (put_call i (at_phase c Commanding) (noted (Began (gc_pair c) now) s))"
| command_ends: "ra_calls s i = Some c \<Longrightarrow> gc_phase c = Commanding \<Longrightarrow> sd_delete D \<Longrightarrow>
    race_step D s (put_call i (at_phase c Leaving) s)"
| succeed: "ra_calls s i = Some c \<Longrightarrow> gc_phase c = Commanding \<Longrightarrow>
    race_step D s (put_call i (at_phase c Clearing) s)"
| fail: "ra_calls s i = Some c \<Longrightarrow> gc_phase c = Commanding \<Longrightarrow> gc_now c = Some now \<Longrightarrow>
    failure_of (ra_brk s) (gc_pair c) now e = (flags, b) \<Longrightarrow>
    race_step D s (put_call i (at_phase c (Counted e flags))
      (noted (CommandFailed (gc_pair c) now (breaker_tripped b (gc_pair c))) (s\<lparr>ra_brk := b\<rparr>)))"
| count: "ra_calls s i = Some c \<Longrightarrow> gc_phase c = Counted e flags \<Longrightarrow> gc_now c = Some now \<Longrightarrow>
    race_step D s (put_call i (at_phase c (Recording (sd_failed D (gc_pair c)
      (cls_Reason (Classify (Some e))) (Since (ra_brk s) (gc_pair c) now) flags) Leaving)) s)"
| clear: "ra_calls s i = Some c \<Longrightarrow> gc_phase c = Clearing \<Longrightarrow>
    race_step D s (put_call i (at_phase c (Recording (sweep_mops D [gc_pair c]) Leaving))
      (noted (Closed (gc_pair c)) (s\<lparr>ra_brk := Success (ra_brk s) (gc_pair c)\<rparr>)))"
| leave: "ra_calls s i = Some c \<Longrightarrow> gc_phase c = Leaving \<Longrightarrow>
    race_step D s (s\<lparr>ra_calls := (ra_calls s)(i := None),
      ra_tab := Delete (ra_tab s) (key_string (gc_pair c))\<rparr>)"
| tick: "ra_clock s \<le> t \<Longrightarrow>
    (\<And>i c now. ra_calls s i = Some c \<Longrightarrow> gc_now c = Some now \<Longrightarrow> t \<le> now + call_limit) \<Longrightarrow>
    race_step D s (s\<lparr>ra_clock := t\<rparr>)"

inductive_cases race_stepE: "race_step D s t"

definition race_reachable :: "side \<Rightarrow> races \<Rightarrow> bool" where
  "race_reachable D = (race_step D)\<^sup>*\<^sup>* races_start"


section \<open>Keys and times\<close>

lemma at_phase_simps [simp]:
  "gc_pair (at_phase c p) = gc_pair c" "gc_attach (at_phase c p) = gc_attach c"
  "gc_now (at_phase c p) = gc_now c" "gc_phase (at_phase c p) = p"
  by (simp_all add: at_phase_def)

lemma noted_simps [simp]:
  "ra_calls (noted e s) = ra_calls s" "ra_tab (noted e s) = ra_tab s" "ra_brk (noted e s) = ra_brk s"
  "ra_mops (noted e s) = ra_mops s" "ra_clock (noted e s) = ra_clock s"
  "ra_log (noted e s) = ra_log s @ [e]"
  by (simp_all add: noted_def)

lemma put_call_simps [simp]:
  "ra_calls (put_call i c s) = (ra_calls s)(i \<mapsto> c)" "ra_tab (put_call i c s) = ra_tab s"
  "ra_brk (put_call i c s) = ra_brk s" "ra_mops (put_call i c s) = ra_mops s"
  "ra_clock (put_call i c s) = ra_clock s" "ra_log (put_call i c s) = ra_log s"
  by (simp_all add: put_call_def)

lemma call_limit_eq: "call_limit = 240 * Minute"
  by (simp add: call_limit_def BreakerSteps_nth)

lemma entry_stale_iff: "entry_stale now e \<longleftrightarrow> be_nextAttempt e + call_limit < now"
  by (auto simp: entry_stale_def call_limit_def)

text \<open>A call holds its key in the table, no two calls hold one pair, and a call is under four hours old.\<close>

definition call_in_time :: "races \<Rightarrow> guarded_call \<Rightarrow> bool" where
  "call_in_time s c \<longleftrightarrow>
     (\<forall>now. gc_now c = Some now \<longrightarrow> now \<le> ra_clock s \<and> ra_clock s \<le> now + call_limit)"

definition calls_apart :: "side \<Rightarrow> races \<Rightarrow> bool" where
  "calls_apart D s \<longleftrightarrow> keyed (sd_keys D) (ra_brk s) \<and>
     (\<forall>i c. ra_calls s i = Some c \<longrightarrow>
        sd_keys D (gc_pair c) \<and> key_string (gc_pair c) \<in> dom (ra_tab s) \<and> call_in_time s c) \<and>
     (\<forall>i j c d. ra_calls s i = Some c \<longrightarrow> ra_calls s j = Some d \<longrightarrow> gc_pair c = gc_pair d \<longrightarrow> i = j)"

lemma calls_apartD:
  assumes "calls_apart D s" and "ra_calls s i = Some c"
  shows "sd_keys D (gc_pair c)" "key_string (gc_pair c) \<in> dom (ra_tab s)" "call_in_time s c"
    "keyed (sd_keys D) (ra_brk s)" "wf_alist (ra_brk s)"
  using assms by (auto simp: calls_apart_def keyed_def)

lemma calls_apart_unique:
  "calls_apart D s \<Longrightarrow> ra_calls s i = Some c \<Longrightarrow> ra_calls s j = Some d \<Longrightarrow> gc_pair c = gc_pair d \<Longrightarrow> i = j"
  unfolding calls_apart_def by blast

text \<open>A call that moves on keeps its pair.\<close>

lemma calls_apart_put:
  assumes apart: "calls_apart D s" and c: "ra_calls s i = Some c" and pair: "gc_pair c' = gc_pair c"
    and now: "gc_now c' = gc_now c \<or> gc_now c' = Some (ra_clock s)"
    and same: "ra_calls s' = ra_calls s" "ra_tab s' = ra_tab s" "ra_clock s' = ra_clock s"
    and brk: "keyed (sd_keys D) (ra_brk s')"
  shows "calls_apart D (put_call i c' s')"
proof -
  have "call_in_time s c'"
    using now calls_apartD(3) [OF apart c] by (auto simp: call_in_time_def call_limit_eq)
  then have "call_in_time (put_call i c' s') d \<longleftrightarrow> call_in_time s d" for d
    by (simp add: call_in_time_def same)
  moreover have "call_in_time s d" if "ra_calls s j = Some d" for j d
    by (rule calls_apartD(3) [OF apart that])
  moreover have "i = j" if "ra_calls s j = Some d" "gc_pair c = gc_pair d" for j d
    by (rule calls_apart_unique [OF apart c that])
  moreover have "j = j'" if "ra_calls s j = Some d" "ra_calls s j' = Some d'" "gc_pair d = gc_pair d'" for j j' d d'
    by (rule calls_apart_unique [OF apart that])
  ultimately show ?thesis
    unfolding calls_apart_def
  proof (intro conjI allI impI, goal_cases)
    case 1
    then show ?case using brk by simp
  next
    case (2 j d)
    show ?case
      by (cases "j = i") (use 2 calls_apartD(1) [OF apart c] calls_apartD(1) [OF apart, of j d] pair same in simp_all)
  next
    case (3 j d)
    show ?case
      by (cases "j = i") (use 3 calls_apartD(2) [OF apart c] calls_apartD(2) [OF apart, of j d] pair same in auto)
  next
    case (4 j d)
    with \<open>call_in_time s c'\<close> show ?case using same by (auto split: if_splits)
  next
    case (5 j j' d d')
    then show ?case using pair same by (simp split: if_splits)
  qed
qed

lemma key_string_pairs:
  "inj_keys P \<Longrightarrow> P k \<Longrightarrow> P k' \<Longrightarrow> key_string k = key_string k' \<longleftrightarrow> k = k'"
  by (auto simp: inj_keys_def)

lemma calls_apart_leave:
  assumes apart: "calls_apart D s" and inj: "inj_keys (sd_keys D)" and c: "ra_calls s i = Some c"
  shows "calls_apart D (s\<lparr>ra_calls := (ra_calls s)(i := None),
    ra_tab := Delete (ra_tab s) (key_string (gc_pair c))\<rparr>)"
proof -
  have "key_string (gc_pair d) \<noteq> key_string (gc_pair c)" if d: "ra_calls s j = Some d" "j \<noteq> i" for j d
    using calls_apartD(1) [OF apart d(1)] calls_apartD(1) [OF apart c] key_string_pairs [OF inj]
      calls_apart_unique [OF apart d(1) c] d(2) by blast
  with apart show ?thesis
    by (auto simp: calls_apart_def Delete_def call_in_time_def)
qed

lemma calls_apart_enter:
  assumes apart: "calls_apart D s" and free: "ra_calls s i = None" and k: "sd_keys D k"
    and ins: "Insert (ra_tab s) (key_string k) = (True, db)"
  shows "calls_apart D (put_call i \<lparr>gc_pair = k, gc_attach = att, gc_now = None, gc_phase = Starting\<rparr>
    (s\<lparr>ra_tab := db\<rparr>))"
proof -
  have fresh: "key_string k \<notin> dom (ra_tab s)" and db: "db = (ra_tab s)(key_string k \<mapsto> True)"
    using ins by (simp_all add: Insert_True)
  then have "gc_pair d \<noteq> k" if "ra_calls s j = Some d" for j d
    using calls_apartD(2) [OF apart that] by blast
  with apart k db show ?thesis
    by (auto simp: calls_apart_def call_in_time_def)
qed

lemma calls_apart_step:
  assumes "race_step D s t" and inj: "inj_keys (sd_keys D)" and apart: "calls_apart D s"
  shows "calls_apart D t"
proof -
  have keyed: "keyed (sd_keys D) (ra_brk s)" using apart by (simp add: calls_apart_def)
  from assms(1) show ?thesis
  proof cases
    case (enter i k att db)
    then show ?thesis using calls_apart_enter [OF apart] by simp
  next
    case (sweep i c now ks b)
    have "b = snd (EvictStale (ra_brk s) now)" using sweep(5) by simp
    with keyed show ?thesis unfolding sweep(1)
      by - (rule calls_apart_put [OF apart sweep(2)], simp_all add: keyed_EvictStale)
  next
    case (fail i c now e flags b)
    have "b = snd (Failure (ra_brk s) (gc_pair c) (cls_Terminal (Classify (Some e))) now)"
      using fail(5) by (simp add: failure_of_def)
    with keyed_Failure [OF keyed calls_apartD(1) [OF apart fail(2)] inj]
    show ?thesis unfolding fail(1)
      by - (rule calls_apart_put [OF apart fail(2)], simp_all)
  next
    case (clear i c)
    with keyed show ?thesis unfolding clear(1)
      by - (rule calls_apart_put [OF apart clear(2)], simp_all add: keyed_Success)
  next
    case (leave i c)
    with calls_apart_leave [OF apart inj] show ?thesis by simp
  next
    case (tick t')
    with apart show ?thesis by (fastforce simp: calls_apart_def call_in_time_def)
  qed (hypsubst, (drule calls_apart_put [OF apart]; simp add: keyed)+)
qed


section \<open>Recorder calls that are due\<close>

text \<open>The pair of a call is tripped, and its pause outlasts the call's clock by ten minutes at least.\<close>

definition held :: "races \<Rightarrow> guarded_call \<Rightarrow> bool" where
  "held s c \<longleftrightarrow> (\<exists>e now. map_of (ra_brk s) (key_string (gc_pair c)) = Some e \<and> be_tripped e \<and>
     gc_now c = Some now \<and> now + 10 * Minute \<le> be_nextAttempt e)"

definition mop_due :: "side \<Rightarrow> races \<Rightarrow> guarded_call \<Rightarrow> mop \<Rightarrow> bool" where
  "mop_due D s c m \<longleftrightarrow> mop_name m \<noteq> sd_series D \<or>
     (\<exists>k. sd_keys D k \<and> m = MDeleteGauge (sd_series D) (sd_labels D k)) \<or>
     (\<exists>h x. m = MSetGauge (sd_series D) h x (sd_labels D (gc_pair c)) \<and> held s c)"

fun phase_ok :: "side \<Rightarrow> races \<Rightarrow> guarded_call \<Rightarrow> phase \<Rightarrow> bool" where
  "phase_ok D s c (Recording ms p) \<longleftrightarrow>
     p \<in> {Deciding, Clearing, Leaving} \<and> (\<forall>m\<in>set ms. mop_due D s c m)"
| "phase_ok D s c (Counted e flags) \<longleftrightarrow> (breaker_tripped (ra_brk s) (gc_pair c) \<longrightarrow> held s c)"
| "phase_ok D s c p \<longleftrightarrow> True"

definition calls_due :: "side \<Rightarrow> races \<Rightarrow> bool" where
  "calls_due D s \<longleftrightarrow> (\<forall>i c. ra_calls s i = Some c \<longrightarrow> phase_ok D s c (gc_phase c))"

lemma calls_dueD: "calls_due D s \<Longrightarrow> ra_calls s i = Some c \<Longrightarrow> gc_phase c = p \<Longrightarrow> phase_ok D s c p"
  by (auto simp: calls_due_def)

fun due :: "phase \<Rightarrow> mop list" where
  "due (Recording ms p) = ms"
| "due p = []"

text \<open>A series that its pair does not justify is about to be deleted.\<close>

definition deletion_due :: "side \<Rightarrow> races \<Rightarrow> breaker_key \<Rightarrow> bool" where
  "deletion_due D s k \<longleftrightarrow> (\<exists>i c. ra_calls s i = Some c \<and>
     MDeleteGauge (sd_series D) (sd_labels D k) \<in> set (due (gc_phase c)))"

definition series_due :: "side \<Rightarrow> races \<Rightarrow> bool" where
  "series_due D s \<longleftrightarrow> (\<forall>k. sd_keys D k \<longrightarrow> gauge (sd_series D) (sd_labels D k) (ra_mops s) \<noteq> None \<longrightarrow>
     breaker_tripped (ra_brk s) k \<or> deletion_due D s k)"

lemma held_simps [simp]:
  "held s (at_phase c p) = held s c" "held (put_call i c' s) c = held s c" "held (noted l s) c = held s c"
  "held (s\<lparr>ra_mops := ms\<rparr>) c = held s c" "held (s\<lparr>ra_tab := db\<rparr>) c = held s c"
  "held (s\<lparr>ra_clock := t\<rparr>) c = held s c" "held (s\<lparr>ra_calls := cs\<rparr>) c = held s c"
  by (simp_all add: held_def)

lemma calls_due_put:
  assumes due: "calls_due D s" and calls: "ra_calls s' = ra_calls s" and c: "phase_ok D s' c (gc_phase c)"
    and others: "\<And>j d. j \<noteq> i \<Longrightarrow> ra_calls s j = Some d \<Longrightarrow>
      phase_ok D s d (gc_phase d) \<Longrightarrow> phase_ok D s' d (gc_phase d)"
  shows "calls_due D (put_call i c s')"
proof -
  have put: "phase_ok D (put_call i c s') d p = phase_ok D s' d p" for d p
    by (cases p) (simp_all add: mop_due_def)
  show ?thesis
    unfolding calls_due_def put
    using due calls c others by (auto simp: calls_due_def split: if_splits)
qed

lemma phase_ok_mono:
  assumes "phase_ok D s c p" and "held s c \<Longrightarrow> held t c"
    and "breaker_tripped (ra_brk t) (gc_pair c) \<Longrightarrow> breaker_tripped (ra_brk s) (gc_pair c)"
  shows "phase_ok D t c p"
  using assms by (cases p) (auto simp: mop_due_def)

lemma phase_ok_same: "ra_brk t = ra_brk s \<Longrightarrow> phase_ok D t c p = phase_ok D s c p"
  by (cases p) (simp_all add: mop_due_def held_def)

lemma phase_ok_simps [simp]:
  "phase_ok D (put_call i c' s) c p = phase_ok D s c p" "phase_ok D (noted l s) c p = phase_ok D s c p"
  "phase_ok D (s\<lparr>ra_mops := ms\<rparr>) c p = phase_ok D s c p" "phase_ok D (s\<lparr>ra_tab := db\<rparr>) c p = phase_ok D s c p"
  "phase_ok D (s\<lparr>ra_clock := t\<rparr>) c p = phase_ok D s c p"
  "phase_ok D (s\<lparr>ra_calls := cs\<rparr>) c p = phase_ok D s c p"
  by (rule phase_ok_same; simp)+

text \<open>What a sweep, a failure and a success of one call do to the pair of another.\<close>

lemma held_sweep:
  assumes "held s d" and "wf_alist (ra_brk s)" and "call_in_time s d" and "now \<le> ra_clock s"
  shows "held (s\<lparr>ra_brk := snd (EvictStale (ra_brk s) now)\<rparr>) d"
proof -
  from assms(1) obtain e now' where e: "map_of (ra_brk s) (key_string (gc_pair d)) = Some e" "be_tripped e"
    and now': "gc_now d = Some now'" "now' + 10 * Minute \<le> be_nextAttempt e" by (auto simp: held_def)
  have "ra_clock s \<le> now' + call_limit" using assms(3) now'(1) by (simp add: call_in_time_def)
  then have "\<not> entry_stale now e"
    unfolding entry_stale_iff using assms(4) now'(2) Minute_pos by linarith
  with e now' assms(2) show ?thesis by (auto simp: held_def map_of_EvictStale)
qed

lemma tripped_sweep:
  "wf_alist b \<Longrightarrow> breaker_tripped (snd (EvictStale b now)) k \<Longrightarrow> breaker_tripped b k"
  by (simp add: tripped_EvictStale)

lemma other_key_failure:
  assumes "key_string (gc_pair d) \<noteq> key_string k"
  shows "held (s\<lparr>ra_brk := snd (failure_of (ra_brk s) k now e)\<rparr>) d = held s d"
    and "breaker_tripped (snd (failure_of (ra_brk s) k now e)) (gc_pair d) = breaker_tripped (ra_brk s) (gc_pair d)"
  using assms by (simp_all add: held_def failure_of_def map_of_Failure tripped_Failure_other)

lemma other_key_success:
  assumes "key_string (gc_pair d) \<noteq> key_string k"
  shows "held (s\<lparr>ra_brk := Success (ra_brk s) k\<rparr>) d = held s d"
    and "breaker_tripped (Success (ra_brk s) k) (gc_pair d) = breaker_tripped (ra_brk s) (gc_pair d)"
  using assms by (simp_all add: held_def map_of_Success tripped_Success)

lemma own_failure_held:
  assumes b: "b = snd (failure_of (ra_brk s) (gc_pair c) now e)" and tr: "breaker_tripped b (gc_pair c)"
    and now: "gc_now c = Some now"
  shows "held (s\<lparr>ra_brk := b\<rparr>) c"
proof -
  let ?e = "snd (failure_entry (failure_touch (ra_brk s) (gc_pair c) now) (cls_Terminal (Classify (Some e))) now)"
  have "be_tripped ?e" using tr b by (simp add: failure_of_def breaker_tripped_Failure)
  moreover from failure_entry_wait [OF refl this] have "now + 10 * Minute \<le> be_nextAttempt ?e" by simp
  ultimately show ?thesis using now b by (simp add: held_def failure_of_def map_of_Failure)
qed

lemma evicted_sd_keys:
  assumes "keyed P b" and "k \<in> set (fst (EvictStale b now))"
  shows "P k"
proof -
  have "wf_alist b" using assms(1) by (simp add: keyed_def)
  with assms show ?thesis by (auto simp: EvictStale_keys keyed_def)
qed


section \<open>Pacing\<close>

text \<open>
  The log of one key, oldest first. It keeps the pauses when the command that follows a failure which left the
  breaker open, with nothing in between, comes ten minutes later at least.
\<close>

definition log_of :: "races \<Rightarrow> breaker_key \<Rightarrow> log_entry list" where
  "log_of s k = filter (\<lambda>l. log_key l = k) (ra_log s)"

fun follows :: "log_entry \<Rightarrow> log_entry \<Rightarrow> bool" where
  "follows (CommandFailed k t True) (Began k' t') \<longleftrightarrow> t + 10 * Minute \<le> t'"
| "follows l l' \<longleftrightarrow> True"

definition pauses_kept :: "log_entry list \<Rightarrow> bool" where
  "pauses_kept ls \<longleftrightarrow> successively follows ls"

text \<open>A key that failed last at \<open>t\<close> is paused beyond \<open>t\<close> plus ten minutes, or that is hours ago.\<close>

definition waits :: "races \<Rightarrow> breaker_key \<Rightarrow> int \<Rightarrow> bool" where
  "waits s k t \<longleftrightarrow> (\<exists>e. map_of (ra_brk s) (key_string k) = Some e \<and> be_tripped e \<and>
     t + 10 * Minute \<le> be_nextAttempt e) \<or> t + 10 * Minute + call_limit < ra_clock s"

definition key_paced :: "races \<Rightarrow> breaker_key \<Rightarrow> bool" where
  "key_paced s k \<longleftrightarrow> pauses_kept (log_of s k) \<and>
     (\<forall>t. log_of s k \<noteq> [] \<longrightarrow> last (log_of s k) = CommandFailed k t True \<longrightarrow> waits s k t)"

definition log_paced :: "side \<Rightarrow> races \<Rightarrow> bool" where
  "log_paced D s \<longleftrightarrow> (\<forall>k. sd_keys D k \<longrightarrow> key_paced s k)"

lemma pauses_kept_snoc: "pauses_kept ls \<Longrightarrow> (ls \<noteq> [] \<Longrightarrow> follows (last ls) l) \<Longrightarrow> pauses_kept (ls @ [l])"
  by (auto simp: pauses_kept_def successively_append_iff)

lemma follows_trivial [simp]: "follows l (CommandFailed k t b)" "follows l (Closed k)"
  by (cases "(l, CommandFailed k t b)" rule: follows.cases; simp; fail)
    (cases "(l, Closed k)" rule: follows.cases; simp)

lemma follows_Began: "follows l (Began k t') \<longleftrightarrow> (\<forall>k0 t. l = CommandFailed k0 t True \<longrightarrow> t + 10 * Minute \<le> t')"
  by (cases "(l, Began k t')" rule: follows.cases) auto

lemma log_of_noted [simp]:
  "log_of (noted l s) k = (if log_key l = k then log_of s k @ [l] else log_of s k)"
  by (simp add: log_of_def)

lemma log_of_simps [simp]:
  "log_of (put_call i c s) k = log_of s k" "log_of (s\<lparr>ra_brk := b\<rparr>) k = log_of s k"
  "log_of (s\<lparr>ra_tab := db\<rparr>) k = log_of s k" "log_of (s\<lparr>ra_mops := ms\<rparr>) k = log_of s k"
  "log_of (s\<lparr>ra_clock := u\<rparr>) k = log_of s k" "log_of (s\<lparr>ra_calls := cs\<rparr>) k = log_of s k"
  by (simp_all add: log_of_def)

lemma log_of_keys: "l \<in> set (log_of s k) \<Longrightarrow> log_key l = k"
  by (simp add: log_of_def)

lemma key_paced_mono:
  assumes "key_paced s k" and "log_of t k = log_of s k" and "\<And>u. waits s k u \<Longrightarrow> waits t k u"
  shows "key_paced t k"
  using assms by (auto simp: key_paced_def)

lemma waits_cong:
  "map_of (ra_brk t) (key_string k) = map_of (ra_brk s) (key_string k) \<Longrightarrow> ra_clock s \<le> ra_clock t \<Longrightarrow>
    waits s k u \<Longrightarrow> waits t k u"
  by (auto simp: waits_def)

lemma waits_sweep:
  assumes "waits s k u" and "wf_alist (ra_brk s)" and "now \<le> ra_clock s"
    and "ra_brk t = snd (EvictStale (ra_brk s) now)" and "ra_clock t = ra_clock s"
  shows "waits t k u"
  using assms by (auto simp: waits_def map_of_EvictStale entry_stale_iff)

section \<open>What both breakers rely on\<close>

locale paused_calls =
  fixes D :: side
  assumes keys_inj: "inj_keys (sd_keys D)"
    and labels_inj: "sd_keys D k \<Longrightarrow> sd_keys D k' \<Longrightarrow> sd_labels D k = sd_labels D k' \<Longrightarrow> k = k'"
    and failed_mops: "m \<in> set (sd_failed D k reason since flags) \<Longrightarrow> mop_name m = sd_series D \<Longrightarrow>
      snd (snd since) \<and> (\<exists>h x. m = MSetGauge (sd_series D) h x (sd_labels D k))"
    and attach_mops: "sd_series D \<noteq> IaaSErrors"
begin

lemma apart_step: "race_step D s t \<Longrightarrow> calls_apart D s \<Longrightarrow> calls_apart D t"
  by (rule calls_apart_step [OF _ keys_inj])

lemma other_key:
  assumes "calls_apart D s" and "ra_calls s i = Some c" and "ra_calls s j = Some d" and "j \<noteq> i"
  shows "key_string (gc_pair d) \<noteq> key_string (gc_pair c)"
  using assms calls_apartD(1) [OF assms(1)] key_string_pairs [OF keys_inj]
    calls_apart_unique [OF assms(1,3,2)] by blast

lemma due_step:
  assumes "race_step D s t" and apart: "calls_apart D s" and due: "calls_due D s"
  shows "calls_due D t"
  using assms(1)
proof cases
  case (enter i k att db)
  then show ?thesis unfolding enter(1)
    by (intro calls_due_put [OF due]) (simp_all)
next
  case (attach_failed i c ms)
  show ?thesis unfolding attach_failed(1)
    by (rule calls_due_put [OF due])
      (use attach_failed(5) attach_mops in \<open>auto simp: mop_due_def iaas_error_mop_def\<close>)
next
  case (sweep i c now ks b)
  have wf: "wf_alist (ra_brk s)" and now: "now \<le> ra_clock s"
    using calls_apartD [OF apart sweep(2)] sweep(4) by (auto simp: call_in_time_def)
  have b: "b = snd (EvictStale (ra_brk s) now)" and ks: "ks = fst (EvictStale (ra_brk s) now)"
    using sweep(5) by simp_all
  have "sd_keys D k" if "k \<in> set ks" for k
    using evicted_sd_keys [OF calls_apartD(4) [OF apart sweep(2)]] that ks by blast
  then have "phase_ok D (s\<lparr>ra_brk := b\<rparr>) (at_phase c q) (Recording (sweep_mops D ks) p)"
    if "p \<in> {Deciding, Clearing, Leaving}" for p q
    using that by (auto simp: mop_due_def sweep_mops_def)
  then show ?thesis unfolding sweep(1)
    by (intro calls_due_put [OF due])
      (auto intro!: phase_ok_mono [of D s] simp: b dest: tripped_sweep [OF wf]
        held_sweep [OF _ wf calls_apartD(3) [OF apart] now])
next
  case (emit i c m ms p)
  then have "phase_ok D s c (Recording (m # ms) p)" by (intro calls_dueD [OF due])
  then show ?thesis unfolding emit(1)
    by (intro calls_due_put [OF due]) (auto simp: mop_due_def)
next
  case (emitted i c p)
  then have "phase_ok D s c (Recording [] p)" by (intro calls_dueD [OF due])
  then show ?thesis unfolding emitted(1)
    by (intro calls_due_put [OF due]) auto
next
  case (fail i c now e flags b)
  have b: "b = snd (failure_of (ra_brk s) (gc_pair c) now e)" using fail(5) by simp
  show ?thesis unfolding fail(1)
    by (rule calls_due_put [OF due])
      (use own_failure_held [OF b _ fail(4)] in \<open>auto intro!: phase_ok_mono [of D s]
        simp: b other_key_failure [OF other_key [OF apart fail(2)]]\<close>)
next
  case (count i c e flags now)
  have "phase_ok D s c (Counted e flags)" by (rule calls_dueD [OF due count(2,3)])
  then have "mop_due D s c m" if "m \<in> set (sd_failed D (gc_pair c) reason (Since (ra_brk s) (gc_pair c) now) flags)"
    for m reason
    using failed_mops [OF that] by (auto simp: mop_due_def)
  then show ?thesis unfolding count(1)
    by (intro calls_due_put [OF due]) (auto simp: mop_due_def)
next
  case (clear i c)
  show ?thesis unfolding clear(1)
    by (rule calls_due_put [OF due])
      (use calls_apartD(1) [OF apart clear(2)] in \<open>auto intro!: phase_ok_mono [of D s]
        simp: mop_due_def sweep_mops_def other_key_success [OF other_key [OF apart clear(2)]]\<close>)
next
  case (leave i c)
  with due show ?thesis by (auto simp: calls_due_def split: if_splits)
next
  case (tick t')
  with due show ?thesis by (auto simp: calls_due_def split: if_splits)
qed (hypsubst, (rule calls_due_put [OF due]; simp))+

text \<open>A series is there only for a tripped pair, or its deletion is due.\<close>

lemma deletion_due_put:
  assumes "ra_calls s i = Some c" and "ra_calls s' = ra_calls s"
    and "set (due (gc_phase c)) \<subseteq> set (due (gc_phase c'))"
  shows "deletion_due D s k \<Longrightarrow> deletion_due D (put_call i c' s') k"
  unfolding deletion_due_def using assms by (auto split: if_splits) (metis option.inject subsetD)+

lemma series_due_put:
  assumes "series_due D s" and "ra_calls s i = Some c" and "ra_calls s' = ra_calls s"
    and "ra_mops s' = ra_mops s" and "set (due (gc_phase c)) \<subseteq> set (due (gc_phase c'))"
    and "\<And>k. sd_keys D k \<Longrightarrow> breaker_tripped (ra_brk s) k \<Longrightarrow> breaker_tripped (ra_brk s') k \<or>
      MDeleteGauge (sd_series D) (sd_labels D k) \<in> set (due (gc_phase c'))"
  shows "series_due D (put_call i c' s')"
  unfolding series_due_def
proof (intro allI impI)
  fix k
  assume k: "sd_keys D k" and g: "gauge (sd_series D) (sd_labels D k) (ra_mops (put_call i c' s')) \<noteq> None"
  have own: "MDeleteGauge (sd_series D) (sd_labels D k) \<in> set (due (gc_phase c')) \<Longrightarrow>
      deletion_due D (put_call i c' s') k"
    by (auto simp: deletion_due_def)
  from k g assms(1,4) have "breaker_tripped (ra_brk s) k \<or> deletion_due D s k" by (simp add: series_due_def)
  then show "breaker_tripped (ra_brk (put_call i c' s')) k \<or> deletion_due D (put_call i c' s') k"
    using assms(6) [OF k] own deletion_due_put [OF assms(2,3,5)] by auto
qed

lemma series_due_emit:
  assumes ser: "series_due D s" and due: "calls_due D s" and key: "sd_keys D (gc_pair c)"
    and c: "ra_calls s i = Some c" "gc_phase c = Recording (m # ms) p"
  shows "series_due D (put_call i (at_phase c (Recording ms p)) (s\<lparr>ra_mops := ra_mops s @ [m]\<rparr>))"
    (is "series_due D ?t")
  unfolding series_due_def
proof (intro allI impI)
  fix k
  assume k: "sd_keys D k" and g: "gauge (sd_series D) (sd_labels D k) (ra_mops ?t) \<noteq> None"
  have m: "mop_due D s c m" using calls_dueD [OF due c] by simp
  have later: "deletion_due D ?t k"
    if del: "deletion_due D s k" and other: "m \<noteq> MDeleteGauge (sd_series D) (sd_labels D k)"
  proof -
    from del obtain j d where d: "ra_calls s j = Some d"
      "MDeleteGauge (sd_series D) (sd_labels D k) \<in> set (due (gc_phase d))" by (auto simp: deletion_due_def)
    then show ?thesis
      using c other by (cases "j = i") (auto simp: deletion_due_def)
  qed
  have step: "gauge (sd_series D) (sd_labels D k) (ra_mops ?t) =
      mop_series (sd_series D) (sd_labels D k) m (gauge (sd_series D) (sd_labels D k) (ra_mops s))"
    by (simp add: gauge_def)
  from m consider (other) "mop_name m \<noteq> sd_series D"
    | (delete) k' where "sd_keys D k'" "m = MDeleteGauge (sd_series D) (sd_labels D k')"
    | (set) h x where "m = MSetGauge (sd_series D) h x (sd_labels D (gc_pair c))" "held s c"
    by (auto simp: mop_due_def)
  then show "breaker_tripped (ra_brk ?t) k \<or> deletion_due D ?t k"
  proof cases
    case other
    with g step have "gauge (sd_series D) (sd_labels D k) (ra_mops s) \<noteq> None" by (simp add: mop_series_other)
    moreover have "m \<noteq> MDeleteGauge (sd_series D) (sd_labels D k)" using other by auto
    ultimately show ?thesis using ser k later by (simp add: series_due_def) blast
  next
    case (delete k')
    with g step have "k \<noteq> k'" "gauge (sd_series D) (sd_labels D k) (ra_mops s) \<noteq> None"
      by (auto split: if_splits)
    with ser k later delete labels_inj [OF k delete(1)] show ?thesis by (auto simp: series_due_def)
  next
    case (set h x)
    show ?thesis
    proof (cases "k = gc_pair c")
      case True
      with set(2) show ?thesis by (auto simp: held_def breaker_tripped_iff)
    next
      case False
      then have "sd_labels D k \<noteq> sd_labels D (gc_pair c)" using labels_inj [OF k key] by blast
      with g step set(1) have "gauge (sd_series D) (sd_labels D k) (ra_mops s) \<noteq> None" by auto
      with ser k later set(1) show ?thesis by (auto simp: series_due_def)
    qed
  qed
qed


lemma series_step:
  assumes "race_step D s t" and apart: "calls_apart D s" and due: "calls_due D s" and ser: "series_due D s"
  shows "series_due D t"
  using assms(1)
proof cases
  case (enter i k att db)
  have "deletion_due D s k' \<Longrightarrow> deletion_due D t k'" for k'
    unfolding enter(1) deletion_due_def using enter(2) by (auto split: if_splits) (metis option.distinct(1))
  with ser show ?thesis by (simp add: series_due_def enter(1)) blast
next
  case (sweep i c now ks b)
  have kd: "keyed (sd_keys D) (ra_brk s)" and wf: "wf_alist (ra_brk s)"
    using calls_apartD [OF apart sweep(2)] by simp_all
  have b: "b = snd (EvictStale (ra_brk s) now)" and ks: "ks = fst (EvictStale (ra_brk s) now)"
    using sweep(5) by simp_all
  have "breaker_tripped b k \<or> k \<in> set ks" if "sd_keys D k" "breaker_tripped (ra_brk s) k" for k
    using evicted_keys [OF kd that(1) keys_inj, of now] tripped_EvictStale [OF wf, of now k] that(2)
    by (auto simp: b ks breaker_tripped_iff)
  then show ?thesis unfolding sweep(1)
    by (intro series_due_put [OF ser sweep(2)]) (auto simp: sweep(3) sweep_mops_def)
next
  case (emit i c m ms p)
  then show ?thesis using series_due_emit [OF ser due calls_apartD(1) [OF apart emit(2)] emit(2,3)] by simp
next
  case (fail i c now e flags b)
  have b: "b = snd (failure_of (ra_brk s) (gc_pair c) now e)" using fail(5) by simp
  have "breaker_tripped b k" if "breaker_tripped (ra_brk s) k" for k
  proof (cases "key_string k = key_string (gc_pair c)")
    case True
    with that have "breaker_tripped (ra_brk s) (gc_pair c)" by (simp add: breaker_tripped_iff)
    then have "breaker_tripped b (gc_pair c)"
      using brk.fail_tripped by (simp add: b failure_of_def breaker_fail_def)
    with True show ?thesis by (simp add: breaker_tripped_iff)
  next
    case False
    with that show ?thesis by (simp add: b failure_of_def tripped_Failure_other)
  qed
  then show ?thesis unfolding fail(1)
    by (intro series_due_put [OF ser fail(2)]) (auto simp: fail(3))
next
  case (clear i c)
  have "key_string k = key_string (gc_pair c) \<longleftrightarrow> k = gc_pair c" if "sd_keys D k" for k
    using key_string_pairs [OF keys_inj that calls_apartD(1) [OF apart clear(2)]] .
  then show ?thesis unfolding clear(1)
    by (intro series_due_put [OF ser clear(2)]) (auto simp: clear(3) tripped_Success sweep_mops_def)
next
  case (leave i c)
  have "deletion_due D s k' \<Longrightarrow> deletion_due D t k'" for k'
    unfolding leave(1) deletion_due_def using leave(2,3) by (auto split: if_splits) (metis due.simps(9) empty_iff empty_set option.inject)
  with ser show ?thesis by (simp add: series_due_def leave(1)) blast
next
  case (tick t')
  with ser show ?thesis by (simp add: series_due_def deletion_due_def)
qed (hypsubst, rule series_due_put [OF ser], assumption, (simp; fail)+)+

lemma log_step:
  assumes "race_step D s t" and detach: "\<not> sd_delete D" and apart: "calls_apart D s" and paced: "log_paced D s"
  shows "log_paced D t"
  unfolding log_paced_def
proof (intro allI impI)
  fix k
  assume k: "sd_keys D k"
  with paced have kp: "key_paced s k" by (simp add: log_paced_def)
  have other: "key_string k \<noteq> key_string (gc_pair c)" if "ra_calls s i = Some c" "k \<noteq> gc_pair c" for i c
    using that key_string_pairs [OF keys_inj k calls_apartD(1) [OF apart]] by blast
  from assms(1) show "key_paced t k"
  proof cases
    case (sweep i c now ks b)
    have "wf_alist (ra_brk s)" "now \<le> ra_clock s"
      using calls_apartD [OF apart sweep(2)] sweep(4) by (auto simp: call_in_time_def)
    then show ?thesis
      using sweep(1,5) by (intro key_paced_mono [OF kp]) (auto intro: waits_sweep)
  next
    case (attempt i c now)
    have "u + 10 * Minute \<le> now" if "waits s (gc_pair c) u" for u
      using that attempt(4,5) calls_apartD(3) [OF apart attempt(2)]
      by (auto simp: waits_def Allow_def call_in_time_def split: if_splits)
    moreover have "k0 = k \<and> waits s k u" if "log_of s k \<noteq> []" "last (log_of s k) = CommandFailed k0 u True" for k0 u
      using kp that log_of_keys [OF last_in_set [OF that(1)]] by (auto simp: key_paced_def)
    moreover have "pauses_kept (log_of s k)" using kp by (simp add: key_paced_def)
    ultimately have "pauses_kept (log_of t k)" if "k = gc_pair c"
      using that by (auto simp: attempt(1) follows_Began intro!: pauses_kept_snoc)
    with kp show ?thesis
      by (cases "k = gc_pair c") (auto simp: key_paced_def attempt(1) waits_def)
  next
    case (fail i c now e flags b)
    have b: "b = snd (failure_of (ra_brk s) (gc_pair c) now e)" using fail(5) by simp
    show ?thesis
    proof (cases "k = gc_pair c")
      case True
      have "waits t k now" if "breaker_tripped b k"
        using own_failure_held [OF b _ fail(4)] that True by (auto simp: fail(1) waits_def held_def fail(4))
      with kp True show ?thesis by (auto simp: key_paced_def fail(1) intro: pauses_kept_snoc)
    next
      case False
      with other [OF fail(2)] show ?thesis
        by (intro key_paced_mono [OF kp]) (auto simp: fail(1) b failure_of_def map_of_Failure intro: waits_cong)
    qed
  next
    case (clear i c)
    show ?thesis
    proof (cases "k = gc_pair c")
      case True
      with kp show ?thesis by (auto simp: key_paced_def clear(1) intro: pauses_kept_snoc)
    next
      case False
      with other [OF clear(2)] show ?thesis
        by (intro key_paced_mono [OF kp]) (auto simp: clear(1) map_of_Success intro: waits_cong)
    qed
  next
    case (probe_allows i c now)
    with detach show ?thesis by simp
  qed (hypsubst, rule key_paced_mono [OF kp], simp, erule waits_cong [rotated 2], (simp; fail)+)+
qed

text \<open>All of it holds in every interleaving.\<close>

lemma reachable_inv:
  assumes "race_reachable D s"
  shows "calls_apart D s \<and> calls_due D s \<and> series_due D s \<and> (\<not> sd_delete D \<longrightarrow> log_paced D s)"
  using assms unfolding race_reachable_def
proof (induction rule: rtranclp_induct)
  case base
  show ?case
    by (simp add: races_start_def calls_apart_def calls_due_def series_due_def log_paced_def key_paced_def
        log_of_def pauses_kept_def gauge_def keyed_empty)
next
  case (step s t)
  then show ?case using apart_step due_step series_step log_step by blast
qed

lemma series_justified:
  assumes "race_reachable D s" and "sd_keys D k"
    and "gauge (sd_series D) (sd_labels D k) (ra_mops s) \<noteq> None"
  shows "breaker_tripped (ra_brk s) k \<or> deletion_due D s k"
  using reachable_inv [OF assms(1)] assms(2,3) by (simp add: series_due_def)

lemma commands_paced:
  assumes "race_reachable D s" and "sd_keys D k" and "\<not> sd_delete D"
  shows "pauses_kept (log_of s k)"
  using reachable_inv [OF assms(1)] assms(2,3) by (simp add: log_paced_def key_paced_def)

lemma one_call_per_key:
  assumes "race_reachable D s" and "ra_calls s i = Some c" and "ra_calls s j = Some d"
    and "gc_pair c = gc_pair d"
  shows "i = j"
  using reachable_inv [OF assms(1)] calls_apart_unique assms(2-) by blast

end

lemma detach_calls_simps [simp]:
  "sd_series (detach_calls L) = DetachPendingSeconds" "sd_labels (detach_calls L) = key_labels"
  "sd_failed (detach_calls L) k = detach_failed_mops (VolumeID k) (NodeID k)"
  "sd_keys (detach_calls L) k = (length (VolumeID k) = L)" "sd_delete (detach_calls L) = False"
  by (simp_all add: detach_calls_def pair_of_length_def)

lemma delete_calls_simps [simp]:
  "sd_series delete_calls = DeletePendingSeconds" "sd_labels delete_calls k = delete_labels (VolumeID k)"
  "sd_failed delete_calls k = delete_failed_mops (VolumeID k)"
  "sd_keys delete_calls k = (NodeID k = '''')" "sd_delete delete_calls = True"
  by (simp_all add: delete_calls_def volume_key_def)

interpretation dt: paused_calls "detach_calls L" for L
proof (unfold_locales, goal_cases)
  case 1
  show ?case using inj_pairs(1) [of L] by (simp add: inj_keys_def pair_of_length_def)
next
  case (3 m k reason since flags)
  then show ?case
    by (auto simp: detach_failed_mops_def series_names split: if_splits)
qed (simp_all add: series_names(2) [symmetric])

interpretation dl: paused_calls delete_calls
proof (unfold_locales, goal_cases)
  case 1
  show ?case using inj_pairs(2) by (simp add: inj_keys_def volume_key_def)
next
  case (3 m k reason since flags)
  then show ?case
    by (auto simp: delete_failed_mops_def series_names split: if_splits)
qed (simp_all add: series_names(6) [symmetric])


section \<open>Runs of one call\<close>

text \<open>What a state shows, but for its log.\<close>

type_synonym races_view = "(nat \<rightharpoonup> guarded_call) \<times> in_flight \<times> breaker \<times> mop list \<times> int"

definition looks :: "races \<Rightarrow> races_view \<Rightarrow> bool" where
  "looks s = (\<lambda>(cs, db, b, ms, now). ra_calls s = cs \<and> ra_tab s = db \<and> ra_brk s = b \<and> ra_mops s = ms \<and>
     ra_clock s = now)"

definition runs :: "(races \<Rightarrow> races \<Rightarrow> bool) \<Rightarrow> races \<Rightarrow> races_view \<Rightarrow> bool" where
  "runs R s v \<longleftrightarrow> (\<exists>t. R\<^sup>*\<^sup>* s t \<and> looks t v)"

abbreviation runs_to :: "side \<Rightarrow> races \<Rightarrow> races_view \<Rightarrow> bool" where
  "runs_to D \<equiv> runs (race_step D)"

lemma runsD:
  assumes "runs R s v" and "\<And>t. looks t v \<Longrightarrow> runs R t w"
  shows "runs R s w"
  using assms unfolding runs_def by (meson rtranclp_trans)

lemma runs_refl: "looks s v \<Longrightarrow> runs R s v"
  unfolding runs_def by blast

lemma runs_step: "R s t \<Longrightarrow> runs R t v \<Longrightarrow> runs R s v"
  unfolding runs_def by (meson converse_rtranclp_into_rtranclp)

lemma runs_mono: "runs R s v \<Longrightarrow> (\<And>t u. R t u \<Longrightarrow> S t u) \<Longrightarrow> runs S s v"
  unfolding runs_def by (metis mono_rtranclp)

text \<open>A step of the call \<open>i\<close>, on the pair \<open>k\<close> and no other, that leaves every other call where it is.\<close>

definition own :: "side \<Rightarrow> nat \<Rightarrow> breaker_key \<Rightarrow> races \<Rightarrow> races \<Rightarrow> bool" where
  "own D i k s t \<longleftrightarrow> race_step D s t \<and> (\<exists>c c'. ra_calls s i = Some c \<and> gc_pair c = k \<and>
     ra_calls t = (ra_calls s)(i \<mapsto> c') \<and> gc_pair c' = k)"

lemma ownI:
  "race_step D s t \<Longrightarrow> ra_calls s i = Some c \<Longrightarrow> ra_calls t = (ra_calls s)(i \<mapsto> c') \<Longrightarrow> gc_pair c' = gc_pair c \<Longrightarrow>
    own D i (gc_pair c) s t"
  by (auto simp: own_def)

text \<open>The call runs to its end: its own steps, and then it gives its key back and is gone.\<close>

definition finishes :: "side \<Rightarrow> nat \<Rightarrow> breaker_key \<Rightarrow> races \<Rightarrow> races_view \<Rightarrow> bool" where
  "finishes D i k s v \<longleftrightarrow> (\<exists>s1 t c. (own D i k)\<^sup>*\<^sup>* s s1 \<and> ra_calls s1 i = Some c \<and> gc_pair c = k \<and>
     gc_phase c = Leaving \<and> race_step D s1 t \<and> ra_calls t = (ra_calls s1)(i := None) \<and> looks t v)"

lemma finishes_step: "own D i k s t \<Longrightarrow> finishes D i k t v \<Longrightarrow> finishes D i k s v"
  unfolding finishes_def using converse_rtranclp_into_rtranclp [of "own D i k" s t] by blast

lemma finishesD:
  assumes "runs (own D i k) s v" and "\<And>t. looks t v \<Longrightarrow> finishes D i k t w"
  shows "finishes D i k s w"
  using assms unfolding runs_def finishes_def by (meson rtranclp_trans)

lemma own_runs: "runs (own D i k) s v \<Longrightarrow> runs_to D s v"
  by (erule runs_mono) (simp add: own_def)

lemma finishes_runs: "finishes D i k s v \<Longrightarrow> runs_to D s v"
proof -
  assume "finishes D i k s v"
  then obtain s1 t where "(own D i k)\<^sup>*\<^sup>* s s1" "race_step D s1 t" "looks t v" unfolding finishes_def by blast
  moreover from this(1) have "(race_step D)\<^sup>*\<^sup>* s s1"
    by (rule rtranclp_mono [THEN predicate2D, rotated]) (auto simp: own_def)
  ultimately show ?thesis unfolding runs_def by (meson rtranclp.rtrancl_into_rtrancl)
qed

text \<open>
  One call on a pair, from its start to its end with nobody else moving: the clock goes on, the call
  enters, and it runs to its end.
\<close>

definition starting :: "bool \<Rightarrow> breaker_key \<Rightarrow> guarded_call" where
  "starting att k = \<lparr>gc_pair = k, gc_attach = att, gc_now = None, gc_phase = Starting\<rparr>"

definition one_call :: "side \<Rightarrow> bool \<Rightarrow> breaker_key \<Rightarrow> races \<Rightarrow> races_view \<Rightarrow> bool" where
  "one_call D att k s v \<longleftrightarrow> (\<exists>i now t. race_step D s (s\<lparr>ra_clock := now\<rparr>) \<and> ra_calls s i = None \<and>
     race_step D (s\<lparr>ra_clock := now\<rparr>) t \<and> ra_calls t = (ra_calls s)(i \<mapsto> starting att k) \<and> finishes D i k t v)"

lemma one_call_runs: "one_call D att k s v \<Longrightarrow> runs_to D s v"
  unfolding one_call_def using finishes_runs by (blast intro: runs_step)

lemma starting_simps [simp]:
  "gc_pair (starting att k) = k" "gc_attach (starting att k) = att" "gc_now (starting att k) = None"
  "gc_phase (starting att k) = Starting"
  by (simp_all add: starting_def)

lemma run_tick:
  assumes "looks s (cs, db, b, ms, now)" and "now \<le> now'"
    and "\<And>i c u. cs i = Some c \<Longrightarrow> gc_now c = Some u \<Longrightarrow> now' \<le> u + call_limit"
  shows "runs_to D s (cs, db, b, ms, now')"
  by (rule runs_step [of "race_step D", OF tick [of s now']], use assms in \<open>auto simp: looks_def intro!: runs_refl\<close>)

lemma step_enter:
  assumes s: "looks s (cs, db, b, ms, now)" and "cs i = None" and "sd_keys D k" and "att \<Longrightarrow> \<not> sd_delete D"
    and "key_string k \<notin> dom db"
  shows "race_step D s (put_call i (starting att k) (s\<lparr>ra_tab := db(key_string k \<mapsto> True)\<rparr>))"
  unfolding starting_def by (rule enter) (use assms in \<open>auto simp: looks_def Insert_True\<close>)

lemma run_enter:
  assumes s: "looks s (cs, db, b, ms, now)" and "cs i = None" and "sd_keys D k" and "att \<Longrightarrow> \<not> sd_delete D"
    and "key_string k \<notin> dom db"
  shows "runs_to D s (cs(i \<mapsto> starting att k), db(key_string k \<mapsto> True), b, ms, now)"
  by (rule runs_step [of "race_step D", OF step_enter [OF assms]])
    (use s in \<open>auto simp: looks_def intro!: runs_refl\<close>)

lemma one_callI:
  assumes s: "looks s (Map.empty, db, b, ms, now0)" and now: "now0 \<le> now" and k: "sd_keys D k"
    and att: "att \<Longrightarrow> \<not> sd_delete D" and free: "key_string k \<notin> dom db"
    and rest: "\<And>t. looks t ([0 \<mapsto> starting att k], db(key_string k \<mapsto> True), b, ms, now) \<Longrightarrow> finishes D 0 k t v"
  shows "one_call D att k s v"
proof -
  let ?s1 = "s\<lparr>ra_clock := now\<rparr>"
  let ?t = "put_call 0 (starting att k) (?s1\<lparr>ra_tab := db(key_string k \<mapsto> True)\<rparr>)"
  have s1: "looks ?s1 (Map.empty, db, b, ms, now)" using s by (simp add: looks_def)
  have "race_step D s ?s1" by (rule tick) (use s now in \<open>auto simp: looks_def\<close>)
  moreover have "race_step D ?s1 ?t" by (rule step_enter [OF s1 _ k att free]) simp
  moreover have "finishes D 0 k ?t v" by (rule rest) (use s in \<open>auto simp: looks_def\<close>)
  moreover have "ra_calls s 0 = None" "ra_calls ?t = (ra_calls s)(0 \<mapsto> starting att k)"
    using s by (simp_all add: looks_def)
  ultimately show ?thesis unfolding one_call_def by blast
qed

lemma run_sweep:
  assumes s: "looks s (cs, db, b, ms, now)" and c: "cs i = Some c" "gc_phase c = Starting"
  shows "runs (own D i (gc_pair c)) s (cs(i \<mapsto> c\<lparr>gc_now := Some now,
      gc_phase := Recording (sweep_mops D (fst (EvictStale b now))) (if gc_attach c then Clearing else Deciding)\<rparr>),
    db, snd (EvictStale b now), ms, now)"
proof -
  let ?c1 = "at_phase c Sweeping\<lparr>gc_now := Some now\<rparr>"
  let ?s1 = "put_call i ?c1 s"
  let ?c2 = "at_phase ?c1 (Recording (sweep_mops D (fst (EvictStale b now))) (if gc_attach ?c1 then Clearing else Deciding))"
  let ?s2 = "put_call i ?c2 (?s1\<lparr>ra_brk := snd (EvictStale b now)\<rparr>)"
  have "race_step D s ?s1" using clock [of s i c D] s c by (simp add: looks_def)
  then have 1: "own D i (gc_pair c) s ?s1" by (rule ownI [where c' = ?c1]) (use s c in \<open>auto simp: looks_def\<close>)
  have "race_step D ?s1 ?s2" by (rule sweep) (use s in \<open>auto simp: looks_def\<close>)
  then have "own D i (gc_pair ?c1) ?s1 ?s2" by (rule ownI [where c' = ?c2]) auto
  then have 2: "own D i (gc_pair c) ?s1 ?s2" by simp
  have "looks ?s2 (cs(i \<mapsto> c\<lparr>gc_now := Some now, gc_phase := Recording (sweep_mops D (fst (EvictStale b now)))
      (if gc_attach c then Clearing else Deciding)\<rparr>), db, snd (EvictStale b now), ms, now)"
    using s by (auto simp: looks_def at_phase_def)
  from runs_step [of "own D i (gc_pair c)", OF 1 runs_step [of "own D i (gc_pair c)", OF 2 runs_refl [OF this]]]
  show ?thesis .
qed

lemma own_put:
  assumes "looks s (cs, db, b, ms, now)" and "cs i = Some c" and "race_step D s (put_call i c' t)"
    and "ra_calls t = ra_calls s" and "gc_pair c' = gc_pair c"
  shows "own D i (gc_pair c) s (put_call i c' t)"
  by (rule ownI [OF assms(3), where c' = c']) (use assms in \<open>auto simp: looks_def\<close>)

lemma run_emit:
  assumes "looks s (cs, db, b, ms, now)" and "cs i = Some c" and "gc_phase c = Recording ms' p"
  shows "runs (own D i (gc_pair c)) s (cs(i \<mapsto> at_phase c p), db, b, ms @ ms', now)"
  using assms
proof (induction ms' arbitrary: s cs c ms)
  case Nil
  have "race_step D s (put_call i (at_phase c p) s)"
    by (rule emitted) (use Nil in \<open>auto simp: looks_def\<close>)
  from own_put [OF Nil(1,2) this] Nil show ?case
    by (intro runs_step [of "own D i (gc_pair c)" s "put_call i (at_phase c p) s"] runs_refl) (auto simp: looks_def)
next
  case (Cons m ms')
  let ?c = "at_phase c (Recording ms' p)"
  let ?t = "put_call i ?c (s\<lparr>ra_mops := ra_mops s @ [m]\<rparr>)"
  have "runs (own D i (gc_pair ?c)) ?t (cs(i \<mapsto> ?c, i \<mapsto> at_phase ?c p), db, b, (ms @ [m]) @ ms', now)"
    by (rule Cons.IH) (use Cons.prems(1) in \<open>auto simp: looks_def\<close>)
  then have "runs (own D i (gc_pair c)) ?t (cs(i \<mapsto> at_phase c p), db, b, ms @ m # ms', now)"
    by (simp add: at_phase_def)
  moreover have "race_step D s ?t" using Cons.prems by (intro emit) (auto simp: looks_def)
  then have "own D i (gc_pair c) s ?t" by (rule own_put [OF Cons.prems(1,2)]) simp_all
  ultimately show ?case by (rule runs_step [rotated])
qed

lemma run_leave:
  assumes "looks s (cs, db, b, ms, now)" and "cs i = Some c" and "gc_phase c = Leaving"
  shows "finishes D i (gc_pair c) s (cs(i := None), db(key_string (gc_pair c) := None), b, ms, now)"
proof -
  let ?t = "s\<lparr>ra_calls := (ra_calls s)(i := None), ra_tab := Delete (ra_tab s) (key_string (gc_pair c))\<rparr>"
  have "race_step D s ?t" by (rule leave) (use assms in \<open>auto simp: looks_def\<close>)
  then show ?thesis
    unfolding finishes_def
    by (intro exI [of _ s] exI [of _ ?t] exI [of _ c]) (use assms in \<open>auto simp: looks_def Delete_def\<close>)
qed

lemma run_emit_leave:
  assumes s: "looks s (cs, db, b, ms, now)" and c: "cs i = Some c" "gc_phase c = Recording ms' Leaving"
  shows "finishes D i (gc_pair c) s (cs(i := None), db(key_string (gc_pair c) := None), b, ms @ ms', now)"
proof (rule finishesD [OF run_emit [OF s c]], goal_cases)
  case (1 t)
  from run_leave [OF this, of i "at_phase c Leaving"] show ?case by simp
qed

lemma run_decide:
  assumes "looks s (cs, db, b, ms, now)" and "cs i = Some c" and "gc_phase c = Deciding" and "gc_now c = Some u"
  shows "runs (own D i (gc_pair c)) s
    (cs(i \<mapsto> at_phase c (if Allow b (gc_pair c) u = ProbeOnly then Probing else Commanding)), db, b, ms, now)"
proof (cases "Allow b (gc_pair c) u")
  case ProbeOnly
  have "race_step D s (put_call i (at_phase c Probing) s)"
    by (rule pause) (use assms ProbeOnly in \<open>auto simp: looks_def\<close>)
  from own_put [OF assms(1,2) this] ProbeOnly assms show ?thesis
    by (intro runs_step [of "own D i (gc_pair c)" s "put_call i (at_phase c Probing) s"] runs_refl)
      (auto simp: looks_def)
next
  case Full
  let ?t = "put_call i (at_phase c Commanding) (noted (Began (gc_pair c) u) s)"
  have "race_step D s ?t"
    by (rule attempt) (use assms Full in \<open>auto simp: looks_def\<close>)
  from own_put [OF assms(1,2) this] Full assms show ?thesis
    by (intro runs_step [of "own D i (gc_pair c)" s ?t] runs_refl) (auto simp: looks_def)
qed

lemma run_fail:
  assumes s: "looks s (cs, db, b, ms, now)" and c: "cs i = Some c" "gc_phase c = Commanding" "gc_now c = Some u"
    and F: "failure_of b (gc_pair c) u e = (flags, b')"
  shows "finishes D i (gc_pair c) s (cs(i := None), db(key_string (gc_pair c) := None), b',
    ms @ sd_failed D (gc_pair c) (cls_Reason (Classify (Some e))) (Since b' (gc_pair c) u) flags, now)"
proof -
  let ?c = "at_phase c (Counted e flags)" and ?k = "gc_pair c"
  let ?s1 = "put_call i ?c (noted (CommandFailed ?k u (breaker_tripped b' ?k)) (s\<lparr>ra_brk := b'\<rparr>))"
  let ?ms = "sd_failed D ?k (cls_Reason (Classify (Some e))) (Since b' ?k u) flags"
  let ?c2 = "at_phase ?c (Recording ?ms Leaving)"
  let ?s2 = "put_call i ?c2 ?s1"
  have "race_step D s ?s1" by (rule fail) (use s c F in \<open>auto simp: looks_def\<close>)
  then have 1: "own D i ?k s ?s1" by (rule own_put [OF s c(1)]) simp_all
  have l1: "looks ?s1 (cs(i \<mapsto> ?c), db, b', ms, now)" using s by (auto simp: looks_def)
  have "race_step D ?s1 ?s2" using count [of ?s1 i ?c e flags u D] c by simp
  from own_put [OF l1 _ this, of ?c] have 2: "own D i ?k ?s1 ?s2" by simp
  have "finishes D i (gc_pair ?c2) ?s2 ((cs(i \<mapsto> ?c2))(i := None), db(key_string (gc_pair ?c2) := None), b', ms @ ?ms, now)"
    by (rule run_emit_leave) (use s in \<open>auto simp: looks_def\<close>)
  then have "finishes D i ?k ?s2 (cs(i := None), db(key_string ?k := None), b', ms @ ?ms, now)" by simp
  from finishes_step [OF 1 finishes_step [OF 2 this]] show ?thesis .
qed

lemma run_clear:
  assumes s: "looks s (cs, db, b, ms, now)" and c: "cs i = Some c" "gc_phase c = Clearing"
  shows "finishes D i (gc_pair c) s (cs(i := None), db(key_string (gc_pair c) := None), Success b (gc_pair c),
    ms @ sweep_mops D [gc_pair c], now)"
proof -
  let ?k = "gc_pair c"
  let ?c = "at_phase c (Recording (sweep_mops D [?k]) Leaving)"
  let ?s1 = "put_call i ?c (noted (Closed ?k) (s\<lparr>ra_brk := Success (ra_brk s) ?k\<rparr>))"
  have "race_step D s ?s1" by (rule clear) (use s c in \<open>auto simp: looks_def\<close>)
  then have 1: "own D i ?k s ?s1" by (rule own_put [OF s c(1)]) simp_all
  have "finishes D i (gc_pair ?c) ?s1 ((cs(i \<mapsto> ?c))(i := None), db(key_string (gc_pair ?c) := None), Success b ?k,
      ms @ sweep_mops D [?k], now)"
    by (rule run_emit_leave) (use s in \<open>auto simp: looks_def\<close>)
  then have "finishes D i ?k ?s1 (cs(i := None), db(key_string ?k := None), Success b ?k, ms @ sweep_mops D [?k], now)"
    by simp
  from finishes_step [OF 1 this] show ?thesis .
qed

lemma run_succeed:
  assumes s: "looks s (cs, db, b, ms, now)" and c: "cs i = Some c"
    and p: "gc_phase c = Commanding \<or> gc_phase c = Probing \<and> \<not> sd_delete D"
  shows "finishes D i (gc_pair c) s (cs(i := None), db(key_string (gc_pair c) := None), Success b (gc_pair c),
    ms @ sweep_mops D [gc_pair c], now)"
proof -
  let ?c = "at_phase c Clearing"
  let ?s1 = "put_call i ?c s"
  have "race_step D s ?s1" using s c p by (auto simp: looks_def intro: succeed probe_clears)
  then have 1: "own D i (gc_pair c) s ?s1" by (rule own_put [OF s c]) simp_all
  have "finishes D i (gc_pair ?c) ?s1 ((cs(i \<mapsto> ?c))(i := None), db(key_string (gc_pair ?c) := None),
      Success b (gc_pair ?c), ms @ sweep_mops D [gc_pair ?c], now)"
    by (rule run_clear) (use s in \<open>auto simp: looks_def\<close>)
  then have "finishes D i (gc_pair c) ?s1 (cs(i := None), db(key_string (gc_pair c) := None),
      Success b (gc_pair c), ms @ sweep_mops D [gc_pair c], now)" by simp
  from finishes_step [OF 1 this] show ?thesis .
qed

text \<open>A call from its entry to its decision.\<close>

definition decided :: "breaker \<Rightarrow> breaker_key \<Rightarrow> int \<Rightarrow> guarded_call" where
  "decided b k now = \<lparr>gc_pair = k, gc_attach = False, gc_now = Some now,
     gc_phase = (if Allow b k now = ProbeOnly then Probing else Commanding)\<rparr>"

lemma decided_simps [simp]:
  "gc_pair (decided b k now) = k" "gc_now (decided b k now) = Some now"
  "gc_phase (decided b k now) = (if Allow b k now = ProbeOnly then Probing else Commanding)"
  by (simp_all add: decided_def)

lemma run_to_decision:
  assumes s: "looks s ([0 \<mapsto> starting False k], db, b, ms, now)"
  shows "runs (own D 0 k) s ([0 \<mapsto> decided (snd (EvictStale b now)) k now], db, snd (EvictStale b now),
    ms @ sweep_mops D (fst (EvictStale b now)), now)"
proof -
  let ?b = "snd (EvictStale b now)" and ?ms = "sweep_mops D (fst (EvictStale b now))"
  let ?c1 = "starting False k\<lparr>gc_now := Some now, gc_phase := Recording ?ms Deciding\<rparr>"
  have swept: "runs (own D 0 k) s ([0 \<mapsto> ?c1], db, ?b, ms, now)"
    using run_sweep [OF s, of 0 "starting False k"] by simp
  have emitted: "runs (own D 0 k) t ([0 \<mapsto> at_phase ?c1 Deciding], db, ?b, ms @ ?ms, now)"
    if "looks t ([0 \<mapsto> ?c1], db, ?b, ms, now)" for t
    using run_emit [OF that, of 0 ?c1] by simp
  have decides: "runs (own D 0 k) t ([0 \<mapsto> decided ?b k now], db, ?b, ms @ ?ms, now)"
    if "looks t ([0 \<mapsto> at_phase ?c1 Deciding], db, ?b, ms @ ?ms, now)" for t
    using run_decide [OF that, of 0 "at_phase ?c1 Deciding" now] by (simp add: decided_def at_phase_def starting_def)
  show ?thesis
    by (rule runsD [OF swept], rule runsD [OF emitted], assumption, rule decides)
qed


section \<open>The sequential handlers are such runs\<close>

lemma reports_shows:
  "reports X says et re msg s' \<Longrightarrow> ks_inflight s' = ks_inflight X \<and> ks_detach s' = ks_detach X \<and>
    ks_delete s' = ks_delete X \<and> ks_mops s' = ks_mops X"
  by (auto simp: reports_def)

lemma key_free_again: "k \<notin> dom db \<Longrightarrow> (db(k \<mapsto> x))(k := None) = db"
  by (auto simp: fun_upd_idem_iff dom_def)

lemma call_gone: "[0 \<mapsto> c](0 := None) = (Map.empty :: nat \<rightharpoonup> guarded_call)"
  by (rule ext) simp

text \<open>The three ends of a call that got to its decision: nothing more, a failure, a success.\<close>

lemma run_call:
  assumes s: "looks s (Map.empty, db, b, ms, now0)" and now: "now0 \<le> now" and k: "sd_keys D k"
    and free: "key_string k \<notin> dom db"
  defines "b1 \<equiv> snd (EvictStale b now)" and "ms1 \<equiv> ms @ sweep_mops D (fst (EvictStale b now))"
  shows "Allow b1 k now = ProbeOnly \<or> sd_delete D \<Longrightarrow> one_call D False k s (Map.empty, db, b1, ms1, now)"
    and "Allow b1 k now \<noteq> ProbeOnly \<or> sd_delete D \<Longrightarrow> failure_of b1 k now e = (flags, b2) \<Longrightarrow>
      one_call D False k s (Map.empty, db, b2,
        ms1 @ sd_failed D k (cls_Reason (Classify (Some e))) (Since b2 k now) flags, now)"
    and "one_call D False k s (Map.empty, db, Success b1 k, ms1 @ sweep_mops D [k], now)"
proof -
  let ?c = "decided b1 k now" and ?db = "db(key_string k \<mapsto> True)"
  let ?v = "([0 \<mapsto> ?c], ?db, b1, ms1, now)"
  have decides: "runs (own D 0 k) t ?v" if "looks t ([0 \<mapsto> starting False k], ?db, b, ms, now)" for t
    using run_to_decision [OF that, of D] by (simp only: b1_def ms1_def)
  have ends: "one_call D False k s w" if "\<And>t. looks t ?v \<Longrightarrow> finishes D 0 k t w" for w
    by (rule one_callI [OF s now k _ free], simp, rule finishesD [OF decides], assumption, rule that)
  have command: "runs (own D 0 k) t ([0 \<mapsto> at_phase ?c Commanding], ?db, b1, ms1, now)"
    if t: "looks t ?v" and ok: "Allow b1 k now \<noteq> ProbeOnly \<or> sd_delete D" for t
  proof (cases "Allow b1 k now = ProbeOnly")
    case True
    let ?t = "put_call 0 (at_phase ?c Commanding) (noted (Began (gc_pair ?c) now) t)"
    have "race_step D t ?t" by (rule probe_allows) (use t ok True in \<open>auto simp: looks_def\<close>)
    from own_put [OF t _ this, of ?c] have "own D 0 k t ?t" by simp
    moreover have "looks ?t ([0 \<mapsto> at_phase ?c Commanding], ?db, b1, ms1, now)" using t by (auto simp: looks_def)
    ultimately show ?thesis by (rule runs_step [OF _ runs_refl])
  next
    case False
    then have "?c = at_phase ?c Commanding" by (simp add: decided_def at_phase_def)
    with t show ?thesis by (intro runs_refl) simp
  qed
  show "one_call D False k s (Map.empty, db, b1, ms1, now)" if "Allow b1 k now = ProbeOnly \<or> sd_delete D"
  proof (rule ends)
    fix t
    assume t: "looks t ?v"
    let ?c' = "at_phase ?c Leaving"
    let ?t = "put_call 0 ?c' t"
    have "race_step D t ?t"
      using t that by (cases "Allow b1 k now = ProbeOnly") (auto simp: looks_def intro: probe_ends command_ends)
    from own_put [OF t _ this, of ?c] have "own D 0 k t ?t" by simp
    moreover have "finishes D 0 (gc_pair ?c') ?t ([0 \<mapsto> ?c'](0 := None), ?db(key_string (gc_pair ?c') := None), b1, ms1, now)"
      by (rule run_leave) (use t in \<open>auto simp: looks_def\<close>)
    then have "finishes D 0 k ?t (Map.empty, db, b1, ms1, now)"
      using key_free_again [OF free] by (simp add: call_gone)
    ultimately show "finishes D 0 k t (Map.empty, db, b1, ms1, now)" by (rule finishes_step)
  qed
  show "one_call D False k s (Map.empty, db, b2, ms1 @ sd_failed D k (cls_Reason (Classify (Some e))) (Since b2 k now) flags, now)"
    if ok: "Allow b1 k now \<noteq> ProbeOnly \<or> sd_delete D" and F: "failure_of b1 k now e = (flags, b2)"
  proof (rule ends, rule finishesD [OF command [OF _ ok]], assumption, goal_cases)
    case (1 t t')
    from run_fail [OF 1(2), of 0 "at_phase ?c Commanding" now e flags b2 D] F key_free_again [OF free]
    show ?case by (simp add: call_gone)
  qed
  show "one_call D False k s (Map.empty, db, Success b1 k, ms1 @ sweep_mops D [k], now)"
  proof (rule ends)
    fix t
    assume t: "looks t ?v"
    show "finishes D 0 k t (Map.empty, db, Success b1 k, ms1 @ sweep_mops D [k], now)"
    proof (cases "Allow b1 k now \<noteq> ProbeOnly \<or> sd_delete D")
      case True
      show ?thesis
      proof (rule finishesD [OF command [OF t True]], goal_cases)
        case (1 t')
        from run_succeed [OF this, of 0 "at_phase ?c Commanding" D] key_free_again [OF free]
        show ?case by (simp add: call_gone)
      qed
    next
      case False
      with run_succeed [OF t, of 0 ?c D] key_free_again [OF free] show ?thesis by (simp add: call_gone)
    qed
  qed
qed


lemma detach_sweep_mops:
  "sweep_mops (detach_calls L) ks = map (\<lambda>k. MDeleteGauge DetachPendingSeconds (detach_labels (VolumeID k) (NodeID k))) ks"
  "sweep_mops delete_calls ks = map (\<lambda>k. MDeleteGauge DeletePendingSeconds (delete_labels (VolumeID k))) ks"
  by (simp_all add: sweep_mops_def)

lemma guarded_busy: "key \<in> dom (ks_inflight s) \<Longrightarrow> run_state (ctl_guarded key busy body) s = (Fail busy, s)"
  by (simp add: ctl_guarded_def with_inflight_busy)

definition detach_view :: "ctl \<Rightarrow> int \<Rightarrow> (nat \<rightharpoonup> guarded_call) \<times> in_flight \<times> breaker \<times> mop list \<times> int" where
  "detach_view s now = (Map.empty, ks_inflight s, ks_detach s, ks_mops s, now)"

definition delete_view :: "ctl \<Rightarrow> int \<Rightarrow> (nat \<rightharpoonup> guarded_call) \<times> in_flight \<times> breaker \<times> mop list \<times> int" where
  "delete_view s now = (Map.empty, ks_inflight s, ks_delete s, ks_mops s, now)"

lemma detach_call_runs:
  assumes ok: "wait_ok (ce_cloud C)" and run: "run_state (ControllerUnpublishVolume C v n) s = (r, s')"
    and a: "looks a (detach_view s now)" and now: "now \<le> ce_now C (ks_ticks s)"
  shows "s' = s \<or> (\<exists>now'. one_call (detach_calls (length v)) False \<lparr>VolumeID = v, NodeID = n\<rparr> a (detach_view s' now'))"
proof -
  let ?D = "detach_calls (length v)" and ?k = "\<lparr>VolumeID = v, NodeID = n\<rparr>"
  let ?now = "ce_now C (ks_ticks s)"
  have post: "unpublish_post C v n s r s'"
    by (rule wpD [OF ControllerUnpublishVolume_wp [OF ok] run])
  show ?thesis
  proof (cases "s' = s")
    case True
    then show ?thesis ..
  next
    case False
    then have ran: "unpublish_ran C v n s r s'" using post by (auto simp: unpublish_post_def refused_def)
    have free: "key_string ?k \<notin> dom (ks_inflight s)"
    proof
      assume "key_string ?k \<in> dom (ks_inflight s)"
      then have "v @ n \<in> dom (ks_inflight s)" by (simp add: key_string_def)
      then have "s' = s"
        using run by (simp add: ControllerUnpublishVolume_def guarded_busy split: option.splits)
      with False show False by simp
    qed
    from ran obtain c eff says et re msg where
      rep: "reports ((detach_apply eff v n s)\<lparr>ks_ticks := Suc (ks_ticks s), ks_cloud := c\<rparr>) says et re msg s'"
      and ans: "unpublish_answer C v n s eff c r" unfolding unpublish_ran_def by blast
    from reports_shows [OF rep] have view: "detach_view s' ?now = detach_view (detach_apply eff v n s) ?now"
      by (simp add: detach_view_def)
    note call = run_call [OF a [unfolded detach_view_def] now, of ?D ?k]
    have "one_call ?D False ?k a (detach_view (detach_apply eff v n s) ?now)"
      using ans unfolding unpublish_answer_def
    proof (elim disjE exE conjE, goal_cases)
      case 1
      with call(3) free show ?case
        by (simp add: detach_view_def unpublish_now_def after_evict_detach_def after_detach_succeeded_def
            detach_sweep_mops)
    next
      case 2
      with call(1) free show ?case
        by (simp add: detach_view_def unpublish_now_def unpublish_paused_def after_evict_detach_def
            detach_sweep_mops)
    next
      case (3 e)
      obtain flags b where F: "failure_of (snd (EvictStale (ks_detach s) ?now)) ?k ?now e = (flags, b)"
        by (cases "failure_of (snd (EvictStale (ks_detach s) ?now)) ?k ?now e")
      from 3 call(2) [OF _ _ _ F] free F show ?case
        by (simp add: detach_view_def unpublish_now_def unpublish_paused_def after_evict_detach_def
            after_detach_failed_def detach_sweep_mops)
    qed
    with view show ?thesis by (intro disjI2 exI [of _ ?now]) simp
  qed
qed

lemma delete_call_runs:
  assumes ok: "wait_ok (ce_cloud C)" and run: "run_state (Controller_DeleteVolume C v) s = (r, s')"
    and a: "looks a (delete_view s now)" and now: "now \<le> ce_now C (ks_ticks s)"
  shows "s' = s \<or> (\<exists>now'. one_call delete_calls False \<lparr>VolumeID = v, NodeID = ''''\<rparr> a (delete_view s' now'))"
proof -
  let ?now = "ce_now C (ks_ticks s)"
  have post: "delete_rpc_post C v s r s'"
    by (rule wpD [OF Controller_DeleteVolume_wp [OF ok] run])
  show ?thesis
  proof (cases "s' = s")
    case True
    then show ?thesis ..
  next
    case False
    then have ran: "delete_ran C v s r s'" using post by (auto simp: delete_rpc_post_def refused_def)
    have free: "key_string (dkey v) \<notin> dom (ks_inflight s)"
    proof
      assume "key_string (dkey v) \<in> dom (ks_inflight s)"
      then have "v \<in> dom (ks_inflight s)" by simp
      then have "s' = s"
        using run by (simp add: Controller_DeleteVolume_def guarded_busy split: option.splits)
      with False show False by simp
    qed
    from ran obtain c eff et re msg where
      rep: "reports ((delete_apply eff v s)\<lparr>ks_ticks := Suc (ks_ticks s), ks_cloud := c\<rparr>) (delete_says v s eff) et re msg s'"
      and ans: "delete_answer C v s eff c r" unfolding delete_ran_def by blast
    have t: "delete_time eff = ?now" using ans by (simp add: delete_answer_def unpublish_now_def)
    from reports_shows [OF rep] have view: "delete_view s' ?now = delete_view (delete_apply eff v s) ?now"
      by (simp add: delete_view_def)
    have k: "sd_keys delete_calls (dkey v)" by (simp add: dkey_def)
    note call = run_call [OF a [unfolded delete_view_def] now k free]
    have "one_call delete_calls False (dkey v) a (delete_view (delete_apply eff v s) ?now)"
    proof (cases eff)
      case (DSwept u)
      with t call(1) show ?thesis
        by (simp add: delete_view_def after_evict_delete_def detach_sweep_mops)
    next
      case (DFailedAt u e)
      obtain flags b where F: "failure_of (snd (EvictStale (ks_delete s) ?now)) (dkey v) ?now e = (flags, b)"
        by (cases "failure_of (snd (EvictStale (ks_delete s) ?now)) (dkey v) ?now e")
      from DFailedAt t call(2) [OF _ F] F show ?thesis
        by (simp add: delete_view_def after_evict_delete_def after_delete_failed_def detach_sweep_mops)
          (simp add: dkey_def)
    next
      case (DClearedAt u)
      with t call(3) show ?thesis
        by (simp add: delete_view_def after_evict_delete_def after_delete_succeeded_def detach_sweep_mops)
          (simp add: dkey_def)
    qed
    with view show ?thesis by (intro disjI2 exI [of _ ?now]) (simp add: dkey_def)
  qed
qed


text \<open>A call of attach: it fails, with or without a report, or clears the pair.\<close>

lemma run_attach:
  assumes s: "looks s (Map.empty, db, b, ms, now0)" and k: "sd_keys D k" "\<not> sd_delete D"
    and free: "key_string k \<notin> dom db"
  shows "ms' = [] \<or> ms' = [iaas_error_mop OpAttach reason] \<Longrightarrow>
      one_call D True k s (Map.empty, db, b, ms @ ms', now0)"
    and "now0 \<le> now \<Longrightarrow> one_call D True k s (Map.empty, db, Success (snd (EvictStale b now)) k,
      (ms @ sweep_mops D (fst (EvictStale b now))) @ sweep_mops D [k], now)"
proof -
  let ?c = "starting True k" and ?db = "db(key_string k \<mapsto> True)"
  show "one_call D True k s (Map.empty, db, b, ms @ ms', now0)"
    if ms': "ms' = [] \<or> ms' = [iaas_error_mop OpAttach reason]"
  proof (rule one_callI [OF s order_refl k(1) k(2) free])
    fix t
    assume t: "looks t ([0 \<mapsto> ?c], ?db, b, ms, now0)"
    let ?c' = "at_phase ?c (Recording ms' Leaving)"
    let ?t = "put_call 0 ?c' t"
    have "race_step D t ?t" by (rule attach_failed) (use t ms' in \<open>auto simp: looks_def\<close>)
    from own_put [OF t _ this, of ?c] have "own D 0 k t ?t" by simp
    moreover have "finishes D 0 (gc_pair ?c') ?t ([0 \<mapsto> ?c'](0 := None), ?db(key_string (gc_pair ?c') := None), b, ms @ ms', now0)"
      by (rule run_emit_leave) (use t in \<open>auto simp: looks_def\<close>)
    then have "finishes D 0 k ?t (Map.empty, db, b, ms @ ms', now0)"
      using key_free_again [OF free] by (simp add: call_gone)
    ultimately show "finishes D 0 k t (Map.empty, db, b, ms @ ms', now0)" by (rule finishes_step)
  qed
  let ?ms = "sweep_mops D (fst (EvictStale b now))"
  let ?c1 = "?c\<lparr>gc_now := Some now, gc_phase := Recording ?ms Clearing\<rparr>"
  have swept: "runs (own D 0 k) t ([0 \<mapsto> ?c1], ?db, snd (EvictStale b now), ms, now)"
    if "looks t ([0 \<mapsto> ?c], ?db, b, ms, now)" for t
    using run_sweep [OF that, of 0 ?c] by simp
  have emitted: "runs (own D 0 k) t ([0 \<mapsto> at_phase ?c1 Clearing], ?db, snd (EvictStale b now), ms @ ?ms, now)"
    if "looks t ([0 \<mapsto> ?c1], ?db, snd (EvictStale b now), ms, now)" for t
    using run_emit [OF that, of 0 ?c1] by simp
  have cleared: "finishes D 0 k t (Map.empty, db, Success (snd (EvictStale b now)) k, (ms @ ?ms) @ sweep_mops D [k], now)"
    if "looks t ([0 \<mapsto> at_phase ?c1 Clearing], ?db, snd (EvictStale b now), ms @ ?ms, now)" for t
    using run_clear [OF that, of 0 "at_phase ?c1 Clearing" D] key_free_again [OF free] by (simp add: call_gone)
  show "one_call D True k s (Map.empty, db, Success (snd (EvictStale b now)) k, (ms @ ?ms) @ sweep_mops D [k], now)"
    if "now0 \<le> now"
    by (rule one_callI [OF s that k(1) k(2) free], rule finishesD [OF swept], assumption,
        rule finishesD [OF emitted], assumption, rule cleared)
qed

lemma attach_call_runs:
  assumes ok: "wait_ok (ce_cloud C)" and run: "run_state (ControllerPublishVolume C v n cap) s = (r, s')"
    and a: "looks a (detach_view s now)" and now: "now \<le> ce_now C (ks_ticks s)"
  shows "s' = s \<or> (\<exists>now'. one_call (detach_calls (length v)) True \<lparr>VolumeID = v, NodeID = n\<rparr> a (detach_view s' now'))"
proof -
  let ?D = "detach_calls (length v)" and ?k = "\<lparr>VolumeID = v, NodeID = n\<rparr>"
  have post: "publish_post C v n s r s'"
    by (rule wpD [OF ControllerPublishVolume_wp [OF ok] run])
  show ?thesis
  proof (cases "s' = s")
    case True
    then show ?thesis ..
  next
    case False
    then have ran: "publish_ran C v n s r s'" using post by (auto simp: publish_post_def refused_def)
    have free: "key_string ?k \<notin> dom (ks_inflight s)"
    proof
      assume "key_string ?k \<in> dom (ks_inflight s)"
      then have "v @ n \<in> dom (ks_inflight s)" by (simp add: key_string_def)
      then have "s' = s"
        using run by (simp add: ControllerPublishVolume_def guarded_busy split: option.splits)
      with False show False by simp
    qed
    from ran obtain c eff says et re msg x ms reason where
      rep: "reports ((detach_apply eff v n (s\<lparr>ks_mops := ks_mops s @ ms\<rparr>))\<lparr>ks_ticks := x, ks_cloud := c\<rparr>) says et re msg s'"
      and ms: "ms = [] \<or> eff = NoEffect \<and> ms = [iaas_error_mop OpAttach reason]"
      and ans: "publish_answer C v n s eff c r" unfolding publish_ran_def by blast
    have view: "detach_view s' u = detach_view (detach_apply eff v n (s\<lparr>ks_mops := ks_mops s @ ms\<rparr>)) u" for u
      using reports_shows [OF rep] by (simp add: detach_view_def)
    note call = run_attach [OF a [unfolded detach_view_def], of ?D ?k]
    from ans consider "eff = NoEffect" | "eff = ClearedAt (ce_now C (ks_ticks s))"
      by (auto simp: publish_answer_def)
    then show ?thesis
    proof cases
      case 1
      with call(1) [of ms reason] ms free show ?thesis
        unfolding view by (intro disjI2 exI [of _ now]) (auto simp: detach_view_def)
    next
      case 2
      with call(2) [OF _ _ _ now] ms free show ?thesis
        unfolding view by (intro disjI2 exI [of _ "ce_now C (ks_ticks s)"])
          (auto simp: detach_view_def after_evict_detach_def after_detach_succeeded_def detach_sweep_mops)
    qed
  qed
qed


section \<open>The sweep of one call and the gauge of another\<close>

text \<open>Two errors, one that passes and one that does not; two pairs of one volume.\<close>

definition passing :: ierror where
  "passing = sample_error EcInternalServerError"

definition lasting :: ierror where
  "lasting = sample_error LsEcVServerVolumeIsInErrorState"

definition pair_n :: breaker_key where
  "pair_n = \<lparr>VolumeID = ''v'', NodeID = ''n''\<rparr>"

definition pair_m :: breaker_key where
  "pair_m = \<lparr>VolumeID = ''v'', NodeID = ''m''\<rparr>"

lemma sample_errors_class:
  "cls_Terminal (Classify (Some passing)) = False" "cls_Terminal (Classify (Some lasting)) = True"
  by code_simp+


text \<open>
  The breaker along the run below: an attempt on the first pair fails at 0; four hours later a second
  attempt on it has begun when a call for the other pair, one minute later still, sweeps the entry
  away; then the second attempt fails for good.
\<close>

definition race_entry :: breaker_entry where
  "race_entry = \<lparr>be_key = pair_n, be_failures = 1, be_firstFailAt = 0, be_step = 0, be_nextAttempt = 0,
     be_tripped = False\<rparr>"

definition race_open :: breaker where
  "race_open = snd (failure_of [] pair_n (240 * Minute) lasting)"

lemma race_breaker:
  "EvictStale NewBreaker 0 = ([], [])"
  "failure_of [] pair_n 0 passing = ((False, False), [(''vn'', race_entry)])"
  "EvictStale [(''vn'', race_entry)] (240 * Minute) = ([], [(''vn'', race_entry)])"
  "EvictStale [(''vn'', race_entry)] (241 * Minute) = ([pair_n], [])"
  "Allow [(''vn'', race_entry)] pair_n (240 * Minute) = Full"
  by (simp_all add: EvictStale_def entry_stale_def race_entry_def failure_of_def Failure_def failure_entry_def
      failure_touch_def Let_def pair_n_def key_string_def sample_errors_class BreakerSteps_nth BreakerTripAfter_def
      Minute_def Second_def Allow_def NewBreaker_def)

lemma race_failure: "\<exists>flags. failure_of [] pair_n (240 * Minute) lasting = (flags, race_open)"
  by (cases "failure_of [] pair_n (240 * Minute) lasting") (simp add: race_open_def)

lemma race_paused: "Allow (Success race_open pair_m) pair_n (241 * Minute) = ProbeOnly"
  by (simp add: race_open_def failure_of_def Failure_def failure_entry_def
      failure_touch_def Let_def pair_n_def pair_m_def key_string_def sample_errors_class BreakerSteps_nth
      Minute_def Second_def Allow_def Success_def)

definition call_n :: guarded_call where
  "call_n = \<lparr>gc_pair = pair_n, gc_attach = False, gc_now = Some (240 * Minute), gc_phase = Commanding\<rparr>"

definition call_m :: guarded_call where
  "call_m = \<lparr>gc_pair = pair_m, gc_attach = False, gc_now = Some (241 * Minute),
     gc_phase = Recording (sweep_mops (detach_calls 1) [pair_n]) Deciding\<rparr>"

lemma race_keys:
  "sd_keys (detach_calls 1) pair_n" "sd_keys (detach_calls 1) pair_m"
  "key_string pair_n = ''vn''" "key_string pair_m = ''vm''"
  by (simp_all add: pair_n_def pair_m_def key_string_def)

lemma race_sweeps:
  "\<exists>ms. runs_to (detach_calls 1) races_start
     ([0 \<mapsto> call_n, 1 \<mapsto> call_m], [''vn'' \<mapsto> True, ''vm'' \<mapsto> True], [], ms, 241 * Minute)"
proof -
  let ?D = "detach_calls 1" and ?b = "[(''vn'', race_entry)]"
  have s: "looks races_start (Map.empty, Map.empty, NewBreaker, [], 0)"
    by (simp add: looks_def races_start_def NewInFlight_def)
  obtain ms where first: "runs_to ?D races_start (Map.empty, Map.empty, ?b, ms, 0)"
    using one_call_runs [OF run_call(2) [OF s _ race_keys(1), of 0 passing "(False, False)" ?b]] race_breaker(1,2)
    by (auto simp: Allow_def)
  have ticks: "runs_to ?D t (Map.empty, Map.empty, ?b, ms, 240 * Minute)"
    if "looks t (Map.empty, Map.empty, ?b, ms, 0)" for t
    by (rule run_tick [OF that]) (simp_all add: Minute_def Second_def)
  have begins: "runs_to ?D t ([0 \<mapsto> starting False pair_n], [''vn'' \<mapsto> True], ?b, ms, 240 * Minute)"
    if "looks t (Map.empty, Map.empty, ?b, ms, 240 * Minute)" for t
    using run_enter [OF that, where i = 0 and D = ?D and k = pair_n and att = False] race_keys by simp
  have second: "runs_to ?D t ([0 \<mapsto> call_n], [''vn'' \<mapsto> True], ?b, ms, 240 * Minute)"
    if "looks t ([0 \<mapsto> starting False pair_n], [''vn'' \<mapsto> True], ?b, ms, 240 * Minute)" for t
    using own_runs [OF run_to_decision [OF that, of ?D]] race_breaker(3,5)
    by (simp add: sweep_mops_def call_n_def decided_def)
  have later: "runs_to ?D t ([0 \<mapsto> call_n], [''vn'' \<mapsto> True], ?b, ms, 241 * Minute)"
    if "looks t ([0 \<mapsto> call_n], [''vn'' \<mapsto> True], ?b, ms, 240 * Minute)" for t
    by (rule run_tick [OF that]) (auto simp: call_n_def call_limit_eq Minute_def Second_def split: if_splits)
  let ?c = "starting False pair_m"
  let ?tab = "[''vn'' \<mapsto> True, ''vm'' \<mapsto> True]"
  have enters: "runs_to ?D t ([0 \<mapsto> call_n, 1 \<mapsto> ?c], ?tab, ?b, ms, 241 * Minute)"
    if "looks t ([0 \<mapsto> call_n], [''vn'' \<mapsto> True], ?b, ms, 241 * Minute)" for t
    using run_enter [OF that, of 1 ?D pair_m False] race_keys by simp
  have sweeps: "runs_to ?D t ([0 \<mapsto> call_n, 1 \<mapsto> call_m], ?tab, [], ms, 241 * Minute)"
    if "looks t ([0 \<mapsto> call_n, 1 \<mapsto> ?c], ?tab, ?b, ms, 241 * Minute)" for t
    using own_runs [OF run_sweep [OF that, of 1 ?c ?D]] race_breaker(4) by (simp add: call_m_def starting_def)
  show ?thesis
    by (rule exI [of _ ms], rule runsD [OF first], rule runsD [OF ticks], assumption,
        rule runsD [OF begins], assumption, rule runsD [OF second], assumption,
        rule runsD [OF later], assumption, rule runsD [OF enters], assumption, rule sweeps)
qed

lemma race_ends:
  assumes "looks s ([0 \<mapsto> call_n, 1 \<mapsto> call_m], [''vn'' \<mapsto> True, ''vm'' \<mapsto> True], [], ms, 241 * Minute)"
  shows "\<exists>ms. runs_to (detach_calls 1) s (Map.empty, Map.empty, Success race_open pair_m,
     (ms @ sweep_mops (detach_calls 1) [pair_n]) @ sweep_mops (detach_calls 1) [pair_m], 241 * Minute)"
proof -
  let ?D = "detach_calls 1"
  have drops: "[0 \<mapsto> call_n, 1 \<mapsto> call_m](0 := None) = [1 :: nat \<mapsto> call_m]"
    "[''vn'' \<mapsto> True, ''vm'' \<mapsto> True](''vn'' := None) = [''vm'' \<mapsto> True]"
    "[1 \<mapsto> c](1 := None) = (Map.empty :: nat \<rightharpoonup> guarded_call)"
    "[''vm'' \<mapsto> True](''vm'' := None) = (Map.empty :: in_flight)" for c
    by (auto simp: fun_eq_iff)
  obtain ms' where fails: "runs_to ?D s ([1 \<mapsto> call_m], [''vm'' \<mapsto> True], race_open, ms', 241 * Minute)"
    using race_failure finishes_runs [OF run_fail [OF assms, of 0 call_n "240 * Minute" lasting _ race_open ?D]] drops race_keys(3)
    by (auto simp: call_n_def)
  have deletes: "runs_to ?D t ([1 \<mapsto> at_phase call_m Deciding], [''vm'' \<mapsto> True], race_open,
      ms' @ sweep_mops ?D [pair_n], 241 * Minute)"
    if "looks t ([1 \<mapsto> call_m], [''vm'' \<mapsto> True], race_open, ms', 241 * Minute)" for t
    using own_runs [OF run_emit [OF that, of 1 call_m]] by (simp add: call_m_def)
  have "Allow race_open pair_m (241 * Minute) = Full"
    by (simp add: race_open_def failure_of_def Failure_def failure_entry_def failure_touch_def Let_def
        pair_n_def pair_m_def key_string_def sample_errors_class Allow_def)
  then have decides: "runs_to ?D t ([1 \<mapsto> at_phase call_m Commanding], [''vm'' \<mapsto> True], race_open,
      ms' @ sweep_mops ?D [pair_n], 241 * Minute)"
    if "looks t ([1 \<mapsto> at_phase call_m Deciding], [''vm'' \<mapsto> True], race_open,
      ms' @ sweep_mops ?D [pair_n], 241 * Minute)" for t
    using own_runs [OF run_decide [OF that, of 1 "at_phase call_m Deciding" "241 * Minute" ?D]]
    by (simp add: at_phase_def call_m_def)
  have ends: "runs_to ?D t (Map.empty, Map.empty, Success race_open pair_m,
      (ms' @ sweep_mops ?D [pair_n]) @ sweep_mops ?D [pair_m], 241 * Minute)"
    if "looks t ([1 \<mapsto> at_phase call_m Commanding], [''vm'' \<mapsto> True], race_open,
      ms' @ sweep_mops ?D [pair_n], 241 * Minute)" for t
    using finishes_runs [OF run_succeed [OF that, of 1 "at_phase call_m Commanding" ?D]] race_keys(4) drops
    by (simp add: call_m_def)
  show ?thesis
    by (rule exI [of _ ms'], rule runsD [OF fails], rule runsD [OF deletes], assumption,
        rule runsD [OF decides], assumption, rule ends)
qed

section \<open>A pause that runs out\<close>

text \<open>The log only grows.\<close>

lemma race_log: "(race_step D)\<^sup>*\<^sup>* s t \<Longrightarrow> set (ra_log s) \<subseteq> set (ra_log t)"
proof (induction rule: rtranclp_induct)
  case (step t u)
  from step(2) have "set (ra_log t) \<subseteq> set (ra_log u)" by (cases rule: race_stepE) auto
  with step(3) show ?case by simp
qed simp

lemma pause_breaker:
  "failure_of [] pair_n 0 lasting = (flags, b) \<Longrightarrow> breaker_tripped b pair_n"
  "failure_of [] pair_n 0 lasting = (flags, b) \<Longrightarrow>
     Allow (snd (EvictStale b (10 * Minute))) pair_n (10 * Minute) = Full"
  by (auto simp: failure_of_def Failure_def failure_entry_def failure_touch_def Let_def pair_n_def key_string_def
      sample_errors_class BreakerSteps_nth Minute_def Second_def Allow_def EvictStale_def entry_stale_def
      breaker_tripped_iff)

text \<open>A call whose failure opens the breaker at 0, and the next command, ten minutes later.\<close>

lemma pause_runs_out:
  "\<exists>s. race_reachable (detach_calls 1) s \<and> CommandFailed pair_n 0 True \<in> set (ra_log s) \<and>
     Began pair_n (10 * Minute) \<in> set (ra_log s)"
proof -
  let ?D = "detach_calls 1" and ?now = "10 * Minute"
  obtain flags b where F: "failure_of [] pair_n 0 lasting = (flags, b)"
    by (cases "failure_of [] pair_n 0 lasting")
  have s: "looks races_start (Map.empty, Map.empty, [], [], 0)"
    by (simp add: looks_def races_start_def NewInFlight_def NewBreaker_def)
  have "runs_to ?D races_start ([0 \<mapsto> starting False pair_n], [''vn'' \<mapsto> True], [], [], 0)"
    using run_enter [OF s, where i = 0 and D = ?D and k = pair_n and att = False] race_keys by simp
  then obtain t1 where t1: "(race_step ?D)\<^sup>*\<^sup>* races_start t1"
    "looks t1 ([0 \<mapsto> decided [] pair_n 0], [''vn'' \<mapsto> True], [], [], 0)"
    using own_runs [OF run_to_decision [where D = ?D and k = pair_n and now = 0 and b = "[]"]]
    by (auto simp: runs_def EvictStale_def sweep_mops_def) (meson rtranclp_trans)
  let ?c2 = "at_phase (decided [] pair_n 0) (Counted lasting flags)"
  let ?t2 = "put_call 0 ?c2 (noted (CommandFailed pair_n 0 (breaker_tripped b pair_n)) (t1\<lparr>ra_brk := b\<rparr>))"
  have "race_step ?D t1 ?t2"
    using fail [of t1 0 "decided [] pair_n 0" 0 lasting flags b ?D] t1(2) F by (simp add: looks_def Allow_def)
  with t1(1) have t2: "(race_step ?D)\<^sup>*\<^sup>* races_start ?t2" "CommandFailed pair_n 0 True \<in> set (ra_log ?t2)"
    using pause_breaker(1) [OF F] by (auto intro: rtranclp.rtrancl_into_rtrancl)
  let ?ms = "sd_failed ?D pair_n (cls_Reason (Classify (Some lasting))) (Since b pair_n 0) flags"
  let ?c3 = "at_phase ?c2 (Recording ?ms Leaving)"
  let ?t3 = "put_call 0 ?c3 ?t2"
  have 23: "race_step ?D ?t2 ?t3" using count [of ?t2 0 ?c2 lasting flags 0 ?D] by simp
  have "finishes ?D 0 (gc_pair ?c3) ?t3 ([0 \<mapsto> ?c3](0 := None),
      [''vn'' \<mapsto> True](key_string (gc_pair ?c3) := None), b, [] @ ?ms, 0)"
    by (rule run_emit_leave) (use t1(2) in \<open>auto simp: looks_def\<close>)
  then have "runs_to ?D ?t3 (Map.empty, Map.empty, b, ?ms, 0)"
    using finishes_runs race_keys(3) key_free_again [of "''vn''" Map.empty] by (fastforce simp: call_gone)
  then obtain t4 where t4: "(race_step ?D)\<^sup>*\<^sup>* ?t2 t4" "looks t4 (Map.empty, Map.empty, b, ?ms, 0)"
    using 23 unfolding runs_def by (meson converse_rtranclp_into_rtranclp)
  let ?c = "starting False pair_n"
  let ?c1 = "?c\<lparr>gc_now := Some ?now, gc_phase := Recording (sweep_mops ?D (fst (EvictStale b ?now))) Deciding\<rparr>"
  let ?b = "snd (EvictStale b ?now)"
  have ticks: "runs_to ?D t4 (Map.empty, Map.empty, b, ?ms, ?now)"
    by (rule run_tick [OF t4(2)]) (simp_all add: Minute_def Second_def)
  have enters: "runs_to ?D t ([0 \<mapsto> ?c], [''vn'' \<mapsto> True], b, ?ms, ?now)"
    if "looks t (Map.empty, Map.empty, b, ?ms, ?now)" for t
    using run_enter [OF that, where i = 0 and D = ?D and k = pair_n and att = False] race_keys by simp
  have sweeps: "runs_to ?D t ([0 \<mapsto> ?c1], [''vn'' \<mapsto> True], ?b, ?ms, ?now)"
    if "looks t ([0 \<mapsto> ?c], [''vn'' \<mapsto> True], b, ?ms, ?now)" for t
    using own_runs [OF run_sweep [OF that, of 0 ?c ?D]] by simp
  have emits: "runs_to ?D t ([0 \<mapsto> at_phase ?c1 Deciding], [''vn'' \<mapsto> True], ?b,
      ?ms @ sweep_mops ?D (fst (EvictStale b ?now)), ?now)"
    if "looks t ([0 \<mapsto> ?c1], [''vn'' \<mapsto> True], ?b, ?ms, ?now)" for t
    using own_runs [OF run_emit [OF that, of 0 ?c1]] by simp
  have "runs_to ?D t4 ([0 \<mapsto> at_phase ?c1 Deciding], [''vn'' \<mapsto> True], ?b,
      ?ms @ sweep_mops ?D (fst (EvictStale b ?now)), ?now)"
    by (rule runsD [OF ticks], rule runsD [OF enters], assumption, rule runsD [OF sweeps], assumption, rule emits)
  then obtain t5 where t5: "(race_step ?D)\<^sup>*\<^sup>* t4 t5" "ra_calls t5 0 = Some (at_phase ?c1 Deciding)" "ra_brk t5 = ?b"
    by (auto simp: runs_def looks_def)
  let ?t6 = "put_call 0 (at_phase (at_phase ?c1 Deciding) Commanding) (noted (Began pair_n ?now) t5)"
  have "race_step ?D t5 ?t6"
    using attempt [of t5 0 "at_phase ?c1 Deciding" ?now ?D] t5 pause_breaker(2) [OF F] by simp
  then have 46: "(race_step ?D)\<^sup>*\<^sup>* ?t2 ?t6"
    using t4(1) t5(1) by (meson rtranclp.rtrancl_into_rtrancl rtranclp_trans)
  have "race_reachable ?D ?t6" unfolding race_reachable_def by (rule rtranclp_trans [OF t2(1) 46])
  moreover have "CommandFailed pair_n 0 True \<in> set (ra_log ?t6)" using race_log [OF 46] t2(2) by blast
  moreover have "Began pair_n ?now \<in> set (ra_log ?t6)" by simp
  ultimately show ?thesis by blast
qed

section \<open>Properties\<close>

text \<open>C10: Calls exclude each other per key and stay paced. However attach and detach calls interleave with
each other's sweeps, over volume ids of one length and with every call shorter than four hours, at most one
call is inside one pair; and when a call commands a detach of a pair after a failure that left the pair's
breaker open, with nothing in between, the clock it read at its start is at least ten minutes after the clock
that the failed call had read at its own start. (The code reads the clock before it commands, so the pause
counts from there and not from the moment the command failed: a command that is slow to fail eats into it.)\<close>

theorem concurrent_detach_paced:
  assumes "race_reachable (detach_calls L) s" and "length (VolumeID k) = L"
  shows "pauses_kept (log_of s k) \<and>
    (\<forall>i j c d. ra_calls s i = Some c \<and> ra_calls s j = Some d \<and> gc_pair c = k \<and> gc_pair d = k \<longrightarrow> i = j)"
  using dt.commands_paced [OF assms(1)] dt.one_call_per_key [OF assms(1)] assms(2) by simp

theorem concurrent_detach_paced_witness:
  "\<exists>s. race_reachable (detach_calls 1) s \<and> CommandFailed pair_n 0 True \<in> set (log_of s pair_n) \<and>
    Began pair_n (10 * Minute) \<in> set (log_of s pair_n) \<and> pauses_kept (log_of s pair_n)"
proof -
  obtain s where s: "race_reachable (detach_calls 1) s" "CommandFailed pair_n 0 True \<in> set (ra_log s)"
    "Began pair_n (10 * Minute) \<in> set (ra_log s)" using pause_runs_out by blast
  moreover from concurrent_detach_paced [OF s(1), of pair_n] have "pauses_kept (log_of s pair_n)"
    by (simp add: pair_n_def)
  ultimately show ?thesis by (auto simp: log_of_def)
qed

text \<open>C11: No alert outlives its pause. In any interleaving of delete calls, or of detach and attach calls over
volume ids of one length (so that no two pairs have one key), with every call shorter than four hours, a
series of the pending gauge belongs to a key whose breaker is open, or a call under way is about
to delete it; so once no call is under way every series is one of an open breaker.\<close>

theorem pending_series_justified:
  assumes "race_reachable D s" and "D = detach_calls L \<or> D = delete_calls" and "sd_keys D k"
    and "gauge (sd_series D) (sd_labels D k) (ra_mops s) \<noteq> None"
  shows "(breaker_tripped (ra_brk s) k \<or> deletion_due D s k) \<and>
    (ra_calls s = Map.empty \<longrightarrow> breaker_tripped (ra_brk s) k)"
proof -
  have "breaker_tripped (ra_brk s) k \<or> deletion_due D s k"
    using assms dt.series_justified [of L s k] dl.series_justified [of s k] by auto
  moreover have "\<not> deletion_due D s k" if "ra_calls s = Map.empty"
    using that by (simp add: deletion_due_def)
  ultimately show ?thesis by blast
qed

theorem pending_series_justified_witness:
  "\<exists>s. race_reachable (detach_calls 1) s \<and> ra_calls s = Map.empty \<and>
    gauge DetachPendingSeconds (key_labels pair_n) (ra_mops s) \<noteq> None \<and> breaker_tripped (ra_brk s) pair_n"
proof -
  have s: "looks races_start (Map.empty, Map.empty, NewBreaker, [], 0)"
    by (simp add: looks_def races_start_def NewInFlight_def)
  obtain flags b where F: "failure_of NewBreaker pair_n 0 lasting = (flags, b)"
    by (cases "failure_of NewBreaker pair_n 0 lasting")
  have tripped: "breaker_tripped b pair_n"
    using brk.fail_terminal [of NewBreaker pair_n 0] F
    by (simp add: failure_of_def sample_errors_class breaker_fail_def)
  obtain t where t: "race_reachable (detach_calls 1) t" "ra_calls t = Map.empty"
    "gauge DetachPendingSeconds (key_labels pair_n) (ra_mops t) \<noteq> None"
    using one_call_runs [OF run_call(2) [OF s _ race_keys(1), of 0 lasting flags b]] F race_breaker(1) tripped
      gauge_detach_failed_mops [of "key_labels pair_n" "[]" "VolumeID pair_n" "NodeID pair_n" _ "Since b pair_n 0" flags]
    by (auto simp: runs_def race_reachable_def looks_def NewBreaker_def Allow_def sweep_mops_def)
  from pending_series_justified [OF t(1), of 1 pair_n] t(2,3) have "breaker_tripped (ra_brk t) pair_n"
    using race_keys(1) by simp
  with t show ?thesis by blast
qed

text \<open>C12: The converse fails: a sweep is not atomic with the gauge series it deletes. A call for one pair
takes the stale entry of another out of the table; before it deletes that pair's series, the call of that
pair, under way since before, fails for good and opens the breaker with a new series; the late deletion
removes it. No call is left, detaches of the pair are paused, and no series says so.\<close>

theorem sweep_race_drops_series:
  "\<exists>s k. race_reachable (detach_calls 1) s \<and> ra_calls s = Map.empty \<and>
    Allow (ra_brk s) k (ra_clock s) = ProbeOnly \<and>
    gauge DetachPendingSeconds (key_labels k) (ra_mops s) = None"
proof -
  obtain ms s1 where "race_reachable (detach_calls 1) s1"
    and "looks s1 ([0 \<mapsto> call_n, 1 \<mapsto> call_m], [''vn'' \<mapsto> True, ''vm'' \<mapsto> True], [], ms, 241 * Minute)"
    using race_sweeps by (auto simp: runs_def race_reachable_def)
  with race_ends obtain ms' s where s: "race_reachable (detach_calls 1) s"
    "looks s (Map.empty, Map.empty, Success race_open pair_m,
      (ms' @ sweep_mops (detach_calls 1) [pair_n]) @ sweep_mops (detach_calls 1) [pair_m], 241 * Minute)"
    unfolding runs_def race_reachable_def by (meson rtranclp_trans)
  have "gauge DetachPendingSeconds (key_labels pair_n) (ra_mops s) = None"
    using s(2) by (simp add: looks_def sweep_mops_def gauge_def)
  with s race_paused show ?thesis
    by (intro exI [of _ s] exI [of _ pair_n]) (simp add: looks_def)
qed

text \<open>C13: The step relation is the code's: from any state with no call under way, a handler of attach, detach
or delete that runs from start to end either is turned away and changes nothing, or what it does to the table,
its breaker and the recorder is a run of the relation by exactly one call: the clock goes on, a call of the
handler's own kind enters on the handler's own pair, nobody else moves, and the call gives its key back.\<close>

theorem sequential_calls_are_runs:
  assumes "wait_ok (ce_cloud C)" and "now \<le> ce_now C (ks_ticks s)"
  shows "(\<forall>r s'. run_state (ControllerUnpublishVolume C v n) s = (r, s') \<longrightarrow> looks a (detach_view s now) \<longrightarrow>
      s' = s \<or> (\<exists>now'. one_call (detach_calls (length v)) False \<lparr>VolumeID = v, NodeID = n\<rparr> a (detach_view s' now'))) \<and>
    (\<forall>r s'. run_state (ControllerPublishVolume C v n cap) s = (r, s') \<longrightarrow> looks a (detach_view s now) \<longrightarrow>
      s' = s \<or> (\<exists>now'. one_call (detach_calls (length v)) True \<lparr>VolumeID = v, NodeID = n\<rparr> a (detach_view s' now'))) \<and>
    (\<forall>r s'. run_state (Controller_DeleteVolume C v) s = (r, s') \<longrightarrow> looks a (delete_view s now) \<longrightarrow>
      s' = s \<or> (\<exists>now'. one_call delete_calls False \<lparr>VolumeID = v, NodeID = ''''\<rparr> a (delete_view s' now')))"
  using detach_call_runs [OF assms(1) _ _ assms(2)] attach_call_runs [OF assms(1) _ _ assms(2)]
    delete_call_runs [OF assms(1) _ _ assms(2)] by blast

theorem sequential_calls_are_runs_witness:
  "\<exists>now'. one_call (detach_calls (length ''vol-1'')) False \<lparr>VolumeID = ''vol-1'', NodeID = ''ins-1''\<rparr>
     races_start (detach_view (snd (run_state (ControllerUnpublishVolume (sample_cenv True None) ''vol-1'' ''ins-1'')
       (newControllerService 4))) now')"
proof -
  let ?m = "ControllerUnpublishVolume (sample_cenv True None) ''vol-1'' ''ins-1''" and ?s = "newControllerService 4"
  have "looks races_start (detach_view ?s 0)"
    by (simp add: looks_def detach_view_def races_start_def newControllerService_def)
  moreover have "0 \<le> ce_now (sample_cenv True None) (ks_ticks ?s)"
    by (simp add: sample_cenv_def newControllerService_def)
  moreover have "ks_ticks (snd (run_state ?m ?s)) \<noteq> ks_ticks ?s" by code_simp
  then have "snd (run_state ?m ?s) \<noteq> ?s" by metis
  moreover obtain r s' where "run_state ?m ?s = (r, s')" by (cases "run_state ?m ?s")
  ultimately show ?thesis
    using sequential_calls_are_runs [OF sample_cenv_ok, of 0 True None ?s "''vol-1''" "''ins-1''" races_start] by simp
qed

end
