(* ===== verification/NodeOs.thy ===== *)
theory NodeOs
  imports CsiApi SdkApi InFlightTable
begin

text \<open>
  What the node service runs on, and \<^verbatim>\<open>pkg/driver/mount.go\<close> over it. The operating system and
  the \<^verbatim>\<open>mount-utils\<close> library are an environment \<open>N\<close>: what a call answers may depend on every
  call before it, so each answer is a function of the history. The state of the service is its
  in-flight table and that history, latest call first. The standard library's \<open>os.ReadDir\<close> and
  the like are calls of the environment because their answers are the machine's.
\<close>

section \<open>History\<close>

record fs_metrics =
  fm_Available :: int64
  fm_Capacity :: int64
  fm_Used :: int64
  fm_InodesFree :: int64
  fm_Inodes :: int64
  fm_InodesUsed :: int64

text \<open>The calls with their arguments and answers; a \<open>Resize\<close>'s boolean is dropped by its callers.\<close>

datatype nev =
    NReadDir string "string list" "go_error option"
  | NWriteFile string "go_error option"
  | NCommand string "string list" string "go_error option"
  | NStat string "go_error + 32 word"
  | NPathExists string "go_error + bool"
  | NDeviceName string "go_error + (string \<times> int)"
  | NNeedResize string string "go_error + bool"
  | NIsLikelyNotMountPoint string "go_error + bool"
  | NStatFS string "go_error + fs_metrics"
  | NCloseFile string "go_error option"
  | NMkdirAll string "go_error option"
  | NCreateFile string "go_error option"
  | NRemove string "go_error option"
  | NFormatAndMount string string string "string list" "string list" "go_error option"
  | NResize string string "go_error option"
  | NMount string string string "string list" "go_error option"
  | NCleanup string "go_error option"

type_synonym nhist = "nev list"

text \<open>A change is a call that may change a file system or the mount table.\<close>

fun is_change :: "nev \<Rightarrow> bool" where
  "is_change (NMkdirAll p e) = True"
| "is_change (NCreateFile p e) = True"
| "is_change (NRemove p e) = True"
| "is_change (NFormatAndMount d t f os fos e) = True"
| "is_change (NResize d t e) = True"
| "is_change (NMount d t f os e) = True"
| "is_change (NCleanup t e) = True"
| "is_change _ = False"

definition changes :: "nhist \<Rightarrow> nhist" where
  "changes h = filter is_change h"

lemma changes_simps [simp]:
  "changes [] = []" "changes (e # h) = (if is_change e then e # changes h else changes h)"
  "changes (h1 @ h2) = changes h1 @ changes h2"
  by (simp_all add: changes_def)

record nstate =
  nd_inflight :: in_flight
  nd_hist :: nhist

section \<open>Environment\<close>

text \<open>
  \<open>ne_wait\<close> is \<^verbatim>\<open>wait.ExponentialBackoff\<close> at the state the device wait polls: the variable its
  closure assigns (\<open>Panic\<close> once the closure panicked) over the service's state. The predicates on
  errors are those of \<^verbatim>\<open>os\<close> and \<^verbatim>\<open>mount-utils\<close>; \<open>ne_text\<close> is the text of an error.
\<close>

type_synonym device_state = "string go \<times> nstate"

record node_env =
  ne_wait :: "backoff \<Rightarrow> device_state poll_cond \<Rightarrow> device_state \<Rightarrow> go_error option \<times> device_state"
  ne_IsExist :: "go_error \<Rightarrow> bool"
  ne_IsNotExist :: "go_error \<Rightarrow> bool"
  ne_IsCorruptedMnt :: "go_error \<Rightarrow> bool"
  ne_text :: "go_error \<Rightarrow> string"
  ne_show_capability :: "capability \<Rightarrow> string"
  ne_alnum :: "string \<Rightarrow> bool"
  os_ReadDir :: "nhist \<Rightarrow> string \<Rightarrow> string list \<times> go_error option"
  os_WriteFile :: "nhist \<Rightarrow> string \<Rightarrow> go_error option"
  os_Command :: "nhist \<Rightarrow> string \<Rightarrow> string list \<Rightarrow> string \<times> go_error option"
  os_Stat :: "nhist \<Rightarrow> string \<Rightarrow> go_error + 32 word"
  os_MkdirAll :: "nhist \<Rightarrow> string \<Rightarrow> go_error option"
  os_CreateFile :: "nhist \<Rightarrow> string \<Rightarrow> go_error option"
  os_CloseFile :: "nhist \<Rightarrow> string \<Rightarrow> go_error option"
  os_Remove :: "nhist \<Rightarrow> string \<Rightarrow> go_error option"
  mu_PathExists :: "nhist \<Rightarrow> string \<Rightarrow> go_error + bool"
  mu_GetDeviceNameFromMount :: "nhist \<Rightarrow> string \<Rightarrow> go_error + (string \<times> int)"
  mu_FormatAndMount ::
    "nhist \<Rightarrow> string \<Rightarrow> string \<Rightarrow> string \<Rightarrow> string list \<Rightarrow> string list \<Rightarrow> go_error option"
  mu_NeedResize :: "nhist \<Rightarrow> string \<Rightarrow> string \<Rightarrow> go_error + bool"
  mu_Resize :: "nhist \<Rightarrow> string \<Rightarrow> string \<Rightarrow> go_error option"
  mu_IsLikelyNotMountPoint :: "nhist \<Rightarrow> string \<Rightarrow> go_error + bool"
  mu_Mount :: "nhist \<Rightarrow> string \<Rightarrow> string \<Rightarrow> string \<Rightarrow> string list \<Rightarrow> go_error option"
  mu_CleanupMountPoint :: "nhist \<Rightarrow> string \<Rightarrow> go_error option"
  mu_GetMetrics :: "nhist \<Rightarrow> string \<Rightarrow> go_error + fs_metrics"

definition os_call :: "(nhist \<Rightarrow> 'r) \<Rightarrow> ('r \<Rightarrow> nev) \<Rightarrow> (nstate, 'r) state" where
  "os_call ask ev = st (\<lambda>s. let r = ask (nd_hist s) in (r, s\<lparr>nd_hist := ev r # nd_hist s\<rparr>))"

definition exec_command :: "node_env \<Rightarrow> string \<Rightarrow> string list \<Rightarrow> (nstate, string \<times> go_error option) state" where
  "exec_command N prog args =
     os_call (\<lambda>h. os_Command N h prog args) (\<lambda>r. NCommand prog args (fst r) (snd r))"

section \<open>Paths\<close>

text \<open>\<open>filepath.Clean\<close> and \<open>filepath.Dir\<close> on Unix paths.\<close>

fun clean_components :: "bool \<Rightarrow> string list \<Rightarrow> string list \<Rightarrow> string list" where
  "clean_components rooted out [] = rev out"
| "clean_components rooted out (c # cs) =
     (if c = '''' \<or> c = ''.'' then clean_components rooted out cs
      else if c = ''..'' then
        (case out of
           [] \<Rightarrow> if rooted then clean_components rooted out cs else clean_components rooted [c] cs
         | d # ds \<Rightarrow> if d = ''..'' then clean_components rooted (c # out) cs
                   else clean_components rooted ds cs)
      else clean_components rooted (c # out) cs)"

definition Clean :: "string \<Rightarrow> string" where
  "Clean p =
     (let rooted = prefix ''/'' p;
          q = (if rooted then ''/'' else '''') @
              JoinWith (CHR ''/'') (clean_components rooted [] (SplitOn (CHR ''/'') p)) in
      if q = '''' then ''.'' else q)"

definition Dir :: "string \<Rightarrow> string" where
  "Dir p = (case LastIndexByte p (CHR ''/'') of None \<Rightarrow> Clean '''' | Some i \<Rightarrow> Clean (take (Suc i) p))"

text \<open>\<open>%q\<close>, for a text without characters that need escaping.\<close>

definition quoted :: "string \<Rightarrow> string" where
  "quoted s = CHR 0x22 # s @ [CHR 0x22]"

section \<open>mount.go: files\<close>

definition PathExists :: "node_env \<Rightarrow> string \<Rightarrow> (nstate, go_error + bool) state" where
  "PathExists N p = os_call (\<lambda>h. mu_PathExists N h p) (NPathExists p)"

definition MakeDir :: "node_env \<Rightarrow> string \<Rightarrow> (nstate, go_error option) state" where
  "MakeDir N p = do {
     r \<leftarrow> os_call (\<lambda>h. os_MkdirAll N h p) (NMkdirAll p);
     State_Monad.return
       (case r of
          Some err \<Rightarrow> if \<not> ne_IsExist N err then Some err else None
        | None \<Rightarrow> None)
   }"

text \<open>
  After a tolerated \<open>OpenFile\<close> error the file is nil, and closing a nil file answers
  \<open>os.ErrInvalid\<close> without touching anything.
\<close>

definition ErrInvalid :: go_error where
  "ErrInvalid = GoErr ''invalid argument''"

definition MakeFile :: "node_env \<Rightarrow> string \<Rightarrow> (nstate, go_error option) state" where
  "MakeFile N p = do {
     r \<leftarrow> os_call (\<lambda>h. os_CreateFile N h p) (NCreateFile p);
     (case r of
        Some err \<Rightarrow>
          if \<not> ne_IsExist N err then State_Monad.return (Some err)
          else State_Monad.return (Some ErrInvalid)
      | None \<Rightarrow> os_call (\<lambda>h. os_CloseFile N h p) (NCloseFile p))
   }"

definition RemoveFile :: "node_env \<Rightarrow> string \<Rightarrow> (nstate, go_error option) state" where
  "RemoveFile N p = os_call (\<lambda>h. os_Remove N h p) (NRemove p)"

section \<open>mount.go: mounts\<close>

definition GetDeviceNameFromMount :: "node_env \<Rightarrow> string \<Rightarrow> (nstate, go_error + (string \<times> int)) state" where
  "GetDeviceNameFromMount N mountPath =
     os_call (\<lambda>h. mu_GetDeviceNameFromMount N h mountPath) (NDeviceName mountPath)"

definition FormatAndMount ::
    "node_env \<Rightarrow> string \<Rightarrow> string \<Rightarrow> string \<Rightarrow> string list \<Rightarrow> string list \<Rightarrow> (nstate, go_error option) state" where
  "FormatAndMount N source target fstype options formatOptions =
     os_call (\<lambda>h. mu_FormatAndMount N h source target fstype options formatOptions)
       (NFormatAndMount source target fstype options formatOptions)"

definition NeedResize :: "node_env \<Rightarrow> string \<Rightarrow> string \<Rightarrow> (nstate, go_error + bool) state" where
  "NeedResize N devicePath deviceMountPath =
     os_call (\<lambda>h. mu_NeedResize N h devicePath deviceMountPath) (NNeedResize devicePath deviceMountPath)"

text \<open>\<open>NewResizeFs\<close> never fails.\<close>

definition NewResizeFs :: "(nstate, go_error option) state" where
  "NewResizeFs = State_Monad.return None"

definition Resize :: "node_env \<Rightarrow> string \<Rightarrow> string \<Rightarrow> (nstate, go_error option) state" where
  "Resize N devicePath deviceMountPath =
     os_call (\<lambda>h. mu_Resize N h devicePath deviceMountPath) (NResize devicePath deviceMountPath)"

definition IsLikelyNotMountPoint :: "node_env \<Rightarrow> string \<Rightarrow> (nstate, go_error + bool) state" where
  "IsLikelyNotMountPoint N p =
     os_call (\<lambda>h. mu_IsLikelyNotMountPoint N h p) (NIsLikelyNotMountPoint p)"

definition MountFs ::
    "node_env \<Rightarrow> string \<Rightarrow> string \<Rightarrow> string \<Rightarrow> string list \<Rightarrow> (nstate, go_error option) state" where
  "MountFs N source target fstype options =
     os_call (\<lambda>h. mu_Mount N h source target fstype options) (NMount source target fstype options)"

definition Unstage :: "node_env \<Rightarrow> string \<Rightarrow> (nstate, go_error option) state" where
  "Unstage N p = do {
     r \<leftarrow> os_call (\<lambda>h. mu_CleanupMountPoint N h p) (NCleanup p);
     State_Monad.return
       (case r of
          None \<Rightarrow> None
        | Some err \<Rightarrow> if Contains (ne_text N err) ''not mounted'' then None else Some err)
   }"

definition Unpublish :: "node_env \<Rightarrow> string \<Rightarrow> (nstate, go_error option) state" where
  "Unpublish N p = Unstage N p"

definition GetMountFs :: "node_env \<Rightarrow> string \<Rightarrow> (nstate, string \<times> go_error option) state" where
  "GetMountFs N volumePath =
     exec_command N ''findmnt''
       [''-o'', ''source'', ''--first-only'', ''--noheadings'', ''--target'', volumePath]"

section \<open>mount.go: devices\<close>

text \<open>The names a volume may have; slicing the identifier at 20 panics when it is shorter.\<close>

definition candidateDeviceNodes :: "string \<Rightarrow> string list go" where
  "candidateDeviceNodes pvolID =
     (if length pvolID < 20 then Panic
      else Return
        [''virtio-'' @ take 20 pvolID,
         ''virtio-'' @ pvolID,
         ''scsi-0QEMU_QEMU_HARDDISK_'' @ take 20 pvolID,
         ''scsi-0QEMU_QEMU_HARDDISK_'' @ pvolID,
         ''wwn-0x'' @ filter (\<lambda>c. c \<noteq> CHR ''-'') pvolID])"

definition by_id :: string where
  "by_id = ''/dev/disk/by-id/''"

text \<open>The two loops; joining the directory and the name of one of its entries just appends them.\<close>

fun matching_device :: "string list \<Rightarrow> string list \<Rightarrow> string" where
  "matching_device [] candidates = ''''"
| "matching_device (f # fs) candidates =
     (if f \<in> set candidates then by_id @ f else matching_device fs candidates)"

definition getDevicePathBySerialID :: "node_env \<Rightarrow> string \<Rightarrow> (nstate, string go) state" where
  "getDevicePathBySerialID N pvolID =
     (case candidateDeviceNodes pvolID of
        Panic \<Rightarrow> State_Monad.return Panic
      | Return candidates \<Rightarrow> do {
          files \<leftarrow> os_call (\<lambda>h. os_ReadDir N h by_id) (\<lambda>r. NReadDir by_id (fst r) (snd r));
          State_Monad.return (Return (matching_device (fst files) candidates))
        })"

definition scsiPath :: string where
  "scsiPath = ''/sys/class/scsi_host/''"

fun rescan_hosts :: "node_env \<Rightarrow> string list \<Rightarrow> (nstate, go_error option) state" where
  "rescan_hosts N [] = State_Monad.return None"
| "rescan_hosts N (f # fs) = do {
     w \<leftarrow> os_call (\<lambda>h. os_WriteFile N h (scsiPath @ f @ ''/scan'')) (NWriteFile (scsiPath @ f @ ''/scan''));
     (case w of
        Some err \<Rightarrow> State_Monad.return (Some (GoWrap (''Unable to scan '' @ f) err))
      | None \<Rightarrow> rescan_hosts N fs)
   }"

definition probeVolume :: "node_env \<Rightarrow> (nstate, go_error option) state" where
  "probeVolume N = do {
     dirs \<leftarrow> os_call (\<lambda>h. os_ReadDir N h scsiPath) (\<lambda>r. NReadDir scsiPath (fst r) (snd r));
     scanned \<leftarrow> (case snd dirs of None \<Rightarrow> rescan_hosts N (fst dirs) | Some _ \<Rightarrow> State_Monad.return None);
     (case scanned of
        Some err \<Rightarrow> State_Monad.return (Some err)
      | None \<Rightarrow> do {
          out \<leftarrow> exec_command N ''udevadm'' [''trigger''];
          State_Monad.return (snd out)
        })
   }"

definition deviceBackoff :: backoff where
  "deviceBackoff = \<lparr>bo_Duration = Second, bo_Factor_x10 = 11, bo_Steps = 15\<rparr>"

text \<open>The closure that is polled; an error of the probe is only logged.\<close>

definition device_condition :: "node_env \<Rightarrow> string \<Rightarrow> device_state poll_cond" where
  "device_condition N pvolId = (\<lambda>(_, s).
     (case run_state (getDevicePathBySerialID N pvolId) s of
        (Panic, s') \<Rightarrow> ((True, None), (Panic, s'))
      | (Return devicePath, s') \<Rightarrow>
          if devicePath \<noteq> '''' then ((True, None), (Return devicePath, s'))
          else ((False, None), (Return devicePath, snd (run_state (probeVolume N) s')))))"

definition wait_Interrupted :: "go_error option \<Rightarrow> bool" where
  "wait_Interrupted err \<longleftrightarrow> err = Some ErrWaitTimeout \<or> err = Some CtxErr"

definition GetDevicePathBySerialID :: "node_env \<Rightarrow> string \<Rightarrow> (nstate, (go_error + string) go) state" where
  "GetDevicePathBySerialID N pvolId = st (\<lambda>s.
     (case ne_wait N deviceBackoff (device_condition N pvolId) (Return '''', s) of
        (err, (Panic, s')) \<Rightarrow> (Panic, s')
      | (err, (Return devicePath, s')) \<Rightarrow>
          if wait_Interrupted err
          then (Return (Inl (GoErr (''failed to find device for the volumeID: '' @ quoted pvolId @
            '' within the alloted time''))), s')
          else if devicePath = ''''
          then (Return (Inl (GoErr (''device path was empty for volumeID: '' @ quoted pvolId))), s')
          else (Return (Inr devicePath), s')))"

section \<open>What a call does\<close>

text \<open>
  \<open>trace s evs t\<close>: between the two states the calls \<open>evs\<close> were made, latest first, and the table is
  as it was. \<open>does m P\<close>: wherever it starts, \<open>m\<close> makes calls that satisfy \<open>P\<close> together with its
  result. The rules run a handler call by call.
\<close>

definition trace :: "nstate \<Rightarrow> nhist \<Rightarrow> nstate \<Rightarrow> bool" where
  "trace s evs t \<longleftrightarrow> nd_hist t = evs @ nd_hist s \<and> nd_inflight t = nd_inflight s"

definition does :: "(nstate, 'r) state \<Rightarrow> ('r \<Rightarrow> nhist \<Rightarrow> bool) \<Rightarrow> bool" where
  "does m P \<longleftrightarrow> (\<forall>s. wp m (\<lambda>r t. \<exists>evs. trace s evs t \<and> P r evs) s)"

lemma trace_refl [simp]: "trace s [] s"
  by (simp add: trace_def)

lemma trace_trans: "trace s e1 t \<Longrightarrow> trace t e2 u \<Longrightarrow> trace s (e2 @ e1) u"
  by (simp add: trace_def)

lemma trace_unique: "trace s e1 t \<Longrightarrow> trace s e2 t \<Longrightarrow> e1 = e2"
  by (simp add: trace_def)

lemma doesI: "(\<And>s. wp m (\<lambda>r t. \<exists>evs. trace s evs t \<and> P r evs) s) \<Longrightarrow> does m P"
  by (simp add: does_def)

lemma doesD: "does m P \<Longrightarrow> wp m (\<lambda>r t. \<exists>evs. trace s evs t \<and> P r evs) s"
  by (simp add: does_def)

lemma does_mono:
  assumes "does m P" and "\<And>r evs. P r evs \<Longrightarrow> Q r evs"
  shows "does m Q"
  by (rule doesI, rule wp_mono [OF doesD [OF assms(1)]]) (auto intro: assms(2))

lemma does_return: "P r [] \<Longrightarrow> does (State_Monad.return r) P"
  by (rule doesI) (auto intro!: exI [of _ "[]"])

lemma does_bind:
  assumes m: "does m P" and f: "\<And>r evs. P r evs \<Longrightarrow> does (f r) (\<lambda>r' evs'. Q r' (evs' @ evs))"
  shows "does (State_Monad.bind m f) Q"
proof (rule doesI)
  fix s
  have step: "wp (f r) (\<lambda>r' u. \<exists>e. trace s e u \<and> Q r' e) t" if "\<exists>evs. trace s evs t \<and> P r evs" for r t
  proof -
    from that obtain evs where t: "trace s evs t" and p: "P r evs" by blast
    show ?thesis
      by (rule wp_mono [OF doesD [OF f [OF p]]]) (use trace_trans [OF t] in blast)
  qed
  show "wp (State_Monad.bind m f) (\<lambda>r' u. \<exists>e. trace s e u \<and> Q r' e) s"
    unfolding wp_bind by (rule wp_mono [OF doesD [OF m]]) (rule step)
qed

lemma does_os_call: "(\<And>x. P x [ev x]) \<Longrightarrow> does (os_call ask ev) P"
  by (rule doesI) (auto simp: os_call_def Let_def trace_def)

text \<open>A call and what follows it: the calls that follow are put in front of it.\<close>

lemma does_call:
  "(\<And>x. does (f x) (\<lambda>r evs. Q r (evs @ [ev x]))) \<Longrightarrow> does (State_Monad.bind (os_call ask ev) f) Q"
  by (rule does_bind [OF does_os_call [where P = "\<lambda>x evs. evs = [ev x]"]]) auto

text \<open>The branches of a handler.\<close>

lemma does_if: "(b \<Longrightarrow> does m Q) \<Longrightarrow> (\<not> b \<Longrightarrow> does m' Q) \<Longrightarrow> does (if b then m else m') Q"
  by simp

lemma does_sum:
  "(\<And>e. x = Inl e \<Longrightarrow> does (f e) Q) \<Longrightarrow> (\<And>y. x = Inr y \<Longrightarrow> does (g y) Q) \<Longrightarrow>
    does (case x of Inl e \<Rightarrow> f e | Inr y \<Rightarrow> g y) Q"
  by (cases x) simp_all

lemma does_option:
  "(x = None \<Longrightarrow> does m Q) \<Longrightarrow> (\<And>y. x = Some y \<Longrightarrow> does (g y) Q) \<Longrightarrow>
    does (case x of None \<Rightarrow> m | Some y \<Rightarrow> g y) Q"
  by (cases x) simp_all

lemma does_prod: "(\<And>a b. x = (a, b) \<Longrightarrow> does (f a b) Q) \<Longrightarrow> does (case x of (a, b) \<Rightarrow> f a b) Q"
  by (cases x) simp

lemmas does_branch = does_if does_sum does_option does_prod

section \<open>The device wait\<close>

definition node_wait_ok :: "node_env \<Rightarrow> bool" where
  "node_wait_ok N \<longleftrightarrow> (\<forall>b cond s. poll cond (bo_Steps b) s (ne_wait N b cond s))"

text \<open>The directory was read and held an entry with one of the volume's names.\<close>

definition device_seen :: "string \<Rightarrow> string \<Rightarrow> nhist \<Rightarrow> bool" where
  "device_seen pvolID d evs \<longleftrightarrow>
     (\<exists>files e f candidates. NReadDir by_id files e \<in> set evs \<and> f \<in> set files \<and>
        candidateDeviceNodes pvolID = Return candidates \<and> f \<in> set candidates \<and> d = by_id @ f)"

lemma device_seen_later: "device_seen v d evs \<Longrightarrow> device_seen v d (evs' @ evs)"
  unfolding device_seen_def by auto

lemma matching_device_found:
  "matching_device fs cs \<noteq> '''' \<Longrightarrow> \<exists>f. f \<in> set fs \<and> f \<in> set cs \<and> matching_device fs cs = by_id @ f"
  by (induction fs) (auto split: if_splits)

definition quiet_probe :: "'r \<Rightarrow> nhist \<Rightarrow> bool" where
  "quiet_probe r evs \<longleftrightarrow> changes evs = []"

lemma rescan_does: "does (rescan_hosts N fs) quiet_probe"
proof (induction fs)
  case Nil
  then show ?case by (simp add: does_return quiet_probe_def)
next
  case (Cons f fs)
  show ?case unfolding rescan_hosts.simps
  proof (rule does_call)
    fix x
    show "does (case x of None \<Rightarrow> rescan_hosts N fs
        | Some err \<Rightarrow> State_Monad.return (Some (GoWrap (''Unable to scan '' @ f) err)))
      (\<lambda>r evs. quiet_probe r (evs @ [NWriteFile (scsiPath @ f @ ''/scan'') x]))"
    proof (cases x)
      case None
      have "does (rescan_hosts N fs)
          (\<lambda>r evs. quiet_probe r (evs @ [NWriteFile (scsiPath @ f @ ''/scan'') x]))"
        by (rule does_mono [OF Cons.IH]) (simp add: quiet_probe_def)
      with None show ?thesis by simp
    next
      case (Some e)
      then show ?thesis by (simp add: does_return quiet_probe_def)
    qed
  qed
qed

lemma probe_does: "does (probeVolume N) quiet_probe"
proof -
  have scan: "does (case e of None \<Rightarrow> rescan_hosts N fs | Some x \<Rightarrow> State_Monad.return None) quiet_probe" for e fs
    using rescan_does by (auto intro!: does_return simp: quiet_probe_def split: option.split)
  have rest: "does (case r of Some err \<Rightarrow> State_Monad.return (Some err)
      | None \<Rightarrow> do { out \<leftarrow> exec_command N p as; State_Monad.return (snd out) }) quiet_probe" for r p as
    unfolding exec_command_def
    by (auto intro!: does_call does_return simp: quiet_probe_def split: option.split)
  show ?thesis unfolding probeVolume_def
  proof (rule does_call)
    fix x :: "string list \<times> go_error option"
    have "does (do { scanned \<leftarrow> (case snd x of None \<Rightarrow> rescan_hosts N (fst x) | Some _ \<Rightarrow> State_Monad.return None);
        (case scanned of Some err \<Rightarrow> State_Monad.return (Some err)
         | None \<Rightarrow> do { out \<leftarrow> exec_command N ''udevadm'' [''trigger'']; State_Monad.return (snd out) }) })
        quiet_probe"
      by (rule does_bind [OF scan], rule does_mono [OF rest]) (simp add: quiet_probe_def)
    then show "does (do { scanned \<leftarrow> (case snd x of None \<Rightarrow> rescan_hosts N (fst x) | Some _ \<Rightarrow> State_Monad.return None);
        (case scanned of Some err \<Rightarrow> State_Monad.return (Some err)
         | None \<Rightarrow> do { out \<leftarrow> exec_command N ''udevadm'' [''trigger'']; State_Monad.return (snd out) }) })
        (\<lambda>r evs. quiet_probe r (evs @ [NReadDir scsiPath (fst x) (snd x)]))"
      by (rule does_mono) (simp add: quiet_probe_def)
  qed
qed

definition device_inv :: "string \<Rightarrow> nstate \<Rightarrow> device_state \<Rightarrow> bool" where
  "device_inv pvolID s = (\<lambda>(v, t). \<exists>evs. trace s evs t \<and> changes evs = [] \<and>
     (case v of Panic \<Rightarrow> length pvolID < 20 | Return d \<Rightarrow> d = '''' \<or> device_seen pvolID d evs))"

lemma getDevice_does: "does (getDevicePathBySerialID N v) (\<lambda>r evs. changes evs = [] \<and>
    (case r of Panic \<Rightarrow> length v < 20 | Return d \<Rightarrow> d = '''' \<or> device_seen v d evs))"
proof (cases "candidateDeviceNodes v")
  case Panic
  then show ?thesis
    by (auto intro!: does_return simp: getDevicePathBySerialID_def candidateDeviceNodes_def split: if_splits)
next
  case (Return cs)
  have "device_seen v (matching_device files cs) [NReadDir by_id files e]"
    if "matching_device files cs \<noteq> ''''" for files e
    using matching_device_found [OF that] Return unfolding device_seen_def by auto
  then show ?thesis
    unfolding getDevicePathBySerialID_def Return go.case
    by (intro does_call does_return) auto
qed

lemma device_condition_inv:
  assumes inv: "device_inv v s p" and run: "device_condition N v p = (c, q)"
  shows "device_inv v s q"
proof -
  obtain x t where p: "p = (x, t)" by (cases p)
  from inv p obtain evs where t: "trace s evs t" and ch: "changes evs = []"
    by (auto simp: device_inv_def)
  obtain r u where g: "run_state (getDevicePathBySerialID N v) t = (r, u)"
    by (cases "run_state (getDevicePathBySerialID N v) t")
  from wpD [OF doesD [OF getDevice_does] g] obtain e1 where u: "trace t e1 u" "changes e1 = []"
    and r: "case r of Panic \<Rightarrow> length v < 20 | Return d \<Rightarrow> d = '''' \<or> device_seen v d e1" by blast
  from doesD [OF probe_does, of N u] obtain e2 where w: "trace u e2 (snd (run_state (probeVolume N) u))"
      "changes e2 = []"
    by (auto simp: wp_def quiet_probe_def split: prod.splits)
  have su: "trace s (e1 @ evs) u" and sw: "trace s (e2 @ e1 @ evs) (snd (run_state (probeVolume N) u))"
    using trace_trans [OF t u(1)] trace_trans [OF trace_trans [OF t u(1)] w(1)] by simp_all
  have seen: "device_seen v d (e1 @ evs)" if "device_seen v d e1" for d
    using that unfolding device_seen_def by auto
  show ?thesis
  proof (cases r)
    case Panic
    with run p g r su ch u(2) show ?thesis by (auto simp: device_condition_def device_inv_def)
  next
    case (Return d)
    show ?thesis
    proof (cases "d = ''''")
      case True
      with Return run p g sw ch u(2) w(2) show ?thesis
        by (auto simp: device_condition_def device_inv_def)
    next
      case False
      with Return run p g have q: "q = (Return d, u)" by (auto simp: device_condition_def)
      from r Return False seen have "device_seen v d (e1 @ evs)" by simp
      with q su ch u(2) show ?thesis by (auto simp: device_inv_def intro!: exI [of _ "e1 @ evs"])
    qed
  qed
qed

text \<open>
  Asking for a device changes nothing; a device that is answered is an entry that was seen, and only
  an identifier shorter than 20 characters can panic.
\<close>

lemma GetDevicePathBySerialID_does:
  assumes "node_wait_ok N"
  shows "does (GetDevicePathBySerialID N v) (\<lambda>r evs. changes evs = [] \<and>
    (case r of Panic \<Rightarrow> length v < 20 | Return (Inl _) \<Rightarrow> True | Return (Inr d) \<Rightarrow> device_seen v d evs))"
proof (rule doesI)
  fix s
  obtain err x t where w: "ne_wait N deviceBackoff (device_condition N v) (Return '''', s) = (err, (x, t))"
    by (metis prod_cases3)
  from assms have "poll (device_condition N v) (bo_Steps deviceBackoff) (Return '''', s) (err, (x, t))"
    unfolding node_wait_ok_def w [symmetric] by blast
  then have "device_inv v s (snd (err, (x, t)))"
  proof (rule poll_invariant)
    show "device_inv v s (Return '''', s)" by (auto simp: device_inv_def intro!: exI [of _ "[]"])
  qed (rule device_condition_inv)
  then show "wp (GetDevicePathBySerialID N v) (\<lambda>r t. \<exists>evs. trace s evs t \<and> changes evs = [] \<and>
      (case r of Panic \<Rightarrow> length v < 20 | Return (Inl _) \<Rightarrow> True | Return (Inr d) \<Rightarrow> device_seen v d evs)) s"
    by (auto simp: GetDevicePathBySerialID_def wp_def w device_inv_def split: go.splits)
qed

end
