(* ===== verification/NodeService.thy ===== *)
theory NodeService
  imports NodeOs K8sClient
begin

text \<open>
  The node service of \<^verbatim>\<open>pkg/driver/node.go\<close>: one definition per RPC over the environment of
  \<open>NodeOs\<close>, with its helpers. A request is a record of what the handlers read of it. The state is
  the in-flight table and the calls made; \<open>metadata\<close> and the two quota calls of \<open>NodeGetInfo\<close> are
  arguments of that operation.
\<close>

section \<open>Mount options\<close>

fun hasMountOption :: "string list \<Rightarrow> string \<Rightarrow> bool" where
  "hasMountOption [] opt = False"
| "hasMountOption (x # xs) opt = (if x = opt then True else hasMountOption xs opt)"

text \<open>The loop that appends the flags that are not there yet.\<close>

fun add_mount_options :: "string list \<Rightarrow> string list \<Rightarrow> string list" where
  "add_mount_options options [] = options"
| "add_mount_options options (opt # flags) =
     (if \<not> hasMountOption options opt then add_mount_options (options @ [opt]) flags
      else add_mount_options options flags)"

definition collectMountOptions :: "string \<Rightarrow> string list \<Rightarrow> string list" where
  "collectMountOptions fsType mntFlags =
     (let options = add_mount_options [] mntFlags in
      if fsType = FSTypeXfs \<and> \<not> hasMountOption options ''nouuid'' then options @ [''nouuid'']
      else options)"

section \<open>Formatting options\<close>

record formatting =
  fmt_blockSize :: string
  fmt_inodeSize :: string
  fmt_bytesPerInode :: string
  fmt_numInodes :: string
  fmt_ext4BigAlloc :: string
  fmt_ext4ClusterSize :: string

text \<open>The six rechecks, in the order of the code; the first error ends them.\<close>

fun recheck_all ::
    "(string \<Rightarrow> bool) \<Rightarrow> (string \<rightharpoonup> string) \<Rightarrow> string \<Rightarrow> string list \<Rightarrow> csi_error + (string \<rightharpoonup> string)" where
  "recheck_all alnum ctx fsType [] = Inr Map.empty"
| "recheck_all alnum ctx fsType (key # keys) =
     (case recheckFormattingOptionParameter alnum ctx key FileSystemConfigs fsType of
        Inl err \<Rightarrow> Inl err
      | Inr v \<Rightarrow>
          (case recheck_all alnum ctx fsType keys of
             Inl err \<Rightarrow> Inl err
           | Inr vs \<Rightarrow> Inr (vs(key \<mapsto> v))))"

definition formatting_parameters ::
    "(string \<Rightarrow> bool) \<Rightarrow> (string \<rightharpoonup> string) \<Rightarrow> string \<Rightarrow> csi_error + formatting" where
  "formatting_parameters alnum ctx fsType =
     (case recheck_all alnum ctx fsType
             [BlockSizeKey, InodeSizeKey, BytesPerInodeKey, NumberOfInodesKey, Ext4BigAllocKey,
              Ext4ClusterSizeKey] of
        Inl err \<Rightarrow> Inl err
      | Inr vs \<Rightarrow> Inr
          \<lparr>fmt_blockSize = go_index vs BlockSizeKey, fmt_inodeSize = go_index vs InodeSizeKey,
           fmt_bytesPerInode = go_index vs BytesPerInodeKey, fmt_numInodes = go_index vs NumberOfInodesKey,
           fmt_ext4BigAlloc = go_index vs Ext4BigAllocKey,
           fmt_ext4ClusterSize = go_index vs Ext4ClusterSizeKey\<rparr>)"

definition format_options :: "string \<Rightarrow> formatting \<Rightarrow> string list" where
  "format_options fsType f =
     (if 0 < length (fmt_blockSize f)
      then [''-b'', if fsType = FSTypeXfs then ''size='' @ fmt_blockSize f else fmt_blockSize f]
      else []) @
     (if 0 < length (fmt_inodeSize f)
      then (if fsType = FSTypeXfs then [''-i'', ''size='' @ fmt_inodeSize f]
            else [''-I'', fmt_inodeSize f])
      else []) @
     (if 0 < length (fmt_bytesPerInode f) then [''-i'', fmt_bytesPerInode f] else []) @
     (if 0 < length (fmt_numInodes f) then [''-N'', fmt_numInodes f] else []) @
     (if fmt_ext4BigAlloc f = ''true'' then [''-O'', ''bigalloc''] else []) @
     (if 0 < length (fmt_ext4ClusterSize f) then [''-C'', fmt_ext4ClusterSize f] else [])"

section \<open>Helpers\<close>

definition node_guarded :: "string \<Rightarrow> csi_error \<Rightarrow> (nstate, 'r reply) state \<Rightarrow> (nstate, 'r reply) state" where
  "node_guarded key busy body =
     with_inflight nd_inflight (\<lambda>db s. s\<lparr>nd_inflight := db\<rparr>) key (Fail busy) body"

definition getDevicePath :: "node_env \<Rightarrow> string \<Rightarrow> (nstate, (go_error + string) go) state" where
  "getDevicePath N volumeID = do {
     r \<leftarrow> GetDevicePathBySerialID N volumeID;
     State_Monad.return
       (case r of
          Panic \<Rightarrow> Panic
        | Return (Inl err) \<Rightarrow>
            Return (Inl (GoWrap (''failed to get device path for volume '' @ volumeID) err))
        | Return (Inr devicePath) \<Rightarrow> Return (Inr devicePath))
   }"

definition S_IFMT :: "32 word" where "S_IFMT = 0xf000"
definition S_IFBLK :: "32 word" where "S_IFBLK = 0x6000"

unbundle bit_operations_syntax

definition IsBlockDevice :: "node_env \<Rightarrow> string \<Rightarrow> (nstate, go_error + bool) state" where
  "IsBlockDevice N fullPath = do {
     r \<leftarrow> os_call (\<lambda>h. os_Stat N h fullPath) (NStat fullPath);
     State_Monad.return (case r of Inl err \<Rightarrow> Inl err | Inr mode \<Rightarrow> Inr ((mode AND S_IFMT) = S_IFBLK))
   }"

definition getBlockSizeBytes :: "node_env \<Rightarrow> string \<Rightarrow> (nstate, go_error + int64) state" where
  "getBlockSizeBytes N devicePath = do {
     out \<leftarrow> exec_command N ''blockdev'' [''--getsize64'', devicePath];
     State_Monad.return
       (case snd out of
          Some err \<Rightarrow>
            Inl (GoWrap (''error when getting size of block volume at path '' @ devicePath) err)
        | None \<Rightarrow>
            (let strOut = TrimSpace (fst out) in
             case Atoi strOut of
               None \<Rightarrow> Inl (GoErr (''failed to parse size '' @ strOut @ '' as int''))
             | Some gotSizeBytes \<Rightarrow> Inr (word_of_int gotSizeBytes)))
   }"

text \<open>
  \<open>isMounted\<close>. The aggregate of the two errors drops the one that is nil. A corrupted mount is
  unmounted and counts as not mounted.
\<close>

definition isMounted :: "node_env \<Rightarrow> string \<Rightarrow> (nstate, csi_error + bool) state" where
  "isMounted N target = do {
     r \<leftarrow> IsLikelyNotMountPoint N target;
     (case r of
        Inr notMnt \<Rightarrow> State_Monad.return (Inr (\<not> notMnt))
      | Inl err \<Rightarrow>
          if ne_IsNotExist N err then State_Monad.return (Inr False)
          else do {
            p \<leftarrow> PathExists N target;
            (case p of
               Inr _ \<Rightarrow> State_Monad.return (Inl (ErrFailedCheckTargetPathIsMountPoint target [err]))
             | Inl pathErr \<Rightarrow>
                 if \<not> ne_IsCorruptedMnt N pathErr
                 then State_Monad.return (Inl (ErrFailedCheckTargetPathIsMountPoint target [err, pathErr]))
                 else do {
                   u \<leftarrow> Unpublish N target;
                   State_Monad.return
                     (case u of
                        Some mntErr \<Rightarrow> Inl (ErrCanNotUnmountTarget target mntErr)
                      | None \<Rightarrow> Inr False)
                 })
          })
   }"

section \<open>NodeStageVolume\<close>

record stage_request =
  sq_VolumeId :: string
  sq_StagingTargetPath :: string
  sq_Capability :: "capability option"
  sq_VolumeContext :: "string \<rightharpoonup> string"
  sq_PublishContext :: "string \<rightharpoonup> string"

text \<open>From the point where the source is known to be staged elsewhere or not at all.\<close>

definition stage_resize :: "node_env \<Rightarrow> string \<Rightarrow> string \<Rightarrow> string \<Rightarrow> (nstate, unit reply) state" where
  "stage_resize N volumeID source target = do {
     n \<leftarrow> NeedResize N source target;
     (case n of
        Inl err \<Rightarrow> State_Monad.return (Fail (ErrDetermineVolumeResize volumeID source err))
      | Inr needResize \<Rightarrow>
          if \<not> needResize then State_Monad.return (Ok ())
          else do {
            f \<leftarrow> NewResizeFs;
            (case f of
               Some err \<Rightarrow> State_Monad.return (Fail (ErrAttemptCreateResizeFs err))
             | None \<Rightarrow> do {
                 r \<leftarrow> Resize N source target;
                 State_Monad.return
                   (case r of
                      Some err \<Rightarrow> Fail (ErrCanNotResizeVolumeOnNode volumeID source err)
                    | None \<Rightarrow> Ok ())
               })
          })
   }"

definition stage_mount ::
    "node_env \<Rightarrow> string \<Rightarrow> string \<Rightarrow> string \<Rightarrow> string \<Rightarrow> string list \<Rightarrow> formatting
      \<Rightarrow> (nstate, unit reply) state" where
  "stage_mount N volumeID source target fsType mountOptions f = do {
     d \<leftarrow> GetDeviceNameFromMount N target;
     (case d of
        Inl err \<Rightarrow> State_Monad.return (Fail (ErrFailedToCheckVolumeMounted err))
      | Inr (device, _) \<Rightarrow>
          if device = source then State_Monad.return (Ok ())
          else do {
            m \<leftarrow> FormatAndMount N source target fsType mountOptions (format_options fsType f);
            (case m of
               Some err \<Rightarrow> State_Monad.return (Fail (ErrCanNotFormatAndMountVolume source target err))
             | None \<Rightarrow> stage_resize N volumeID source target)
          })
   }"

definition stage_body ::
    "node_env \<Rightarrow> stage_request \<Rightarrow> string \<Rightarrow> string list \<Rightarrow> formatting \<Rightarrow> (nstate, unit reply) state" where
  "stage_body N preq fsType mountOptions f =
     (let volumeID = sq_VolumeId preq; target = sq_StagingTargetPath preq in
      case sq_PublishContext preq DevicePathKey of
        None \<Rightarrow> State_Monad.return (Fail ErrDevicePathNotProvided)
      | Some devicePath \<Rightarrow> do {
          r \<leftarrow> getDevicePath N devicePath;
          (case r of
             Panic \<Rightarrow> State_Monad.return Crashed
           | Return (Inl err) \<Rightarrow> State_Monad.return (Fail (ErrFailedToFindTargetPath devicePath err))
           | Return (Inr source) \<Rightarrow> do {
               e \<leftarrow> PathExists N target;
               (case e of
                  Inl err \<Rightarrow> State_Monad.return (Fail (ErrFailedToCheckTargetPathExists target err))
                | Inr exists \<Rightarrow>
                    if exists then stage_mount N volumeID source target fsType mountOptions f
                    else do {
                      d \<leftarrow> MakeDir N target;
                      (case d of
                         Some err \<Rightarrow> State_Monad.return (Fail (ErrCanNotCreateTargetDir target err))
                       | None \<Rightarrow> stage_mount N volumeID source target fsType mountOptions f)
                    })
             })
        })"

definition NodeStageVolume :: "node_env \<Rightarrow> stage_request \<Rightarrow> (nstate, unit reply) state" where
  "NodeStageVolume N preq =
     (if length (sq_VolumeId preq) = 0 then State_Monad.return (Fail ErrVolumeIDNotProvided)
      else if length (sq_StagingTargetPath preq) = 0
      then State_Monad.return (Fail ErrStagingTargetPathNotProvided)
      else (case sq_Capability preq of
         None \<Rightarrow> State_Monad.return (Fail ErrVolumeCapabilitiesNotProvided)
       | Some volCap \<Rightarrow>
           if \<not> isValidVolumeCapabilities [volCap]
           then State_Monad.return (Fail ErrVolumeCapabilitiesNotSupported)
           else if \<not> isValidVolumeContext (sq_VolumeContext preq)
           then State_Monad.return (Fail ErrVolumeAttributesInvalid)
           else if isBlock volCap then State_Monad.return (Ok ())
           else (case GetMount volCap of
              None \<Rightarrow> State_Monad.return (Fail ErrMountIsNil)
            | Some mountVolume \<Rightarrow>
                (let fsType = (if length (mv_FsType mountVolume) = 0 then defaultFsType
                               else mv_FsType mountVolume) in
                 if ToLower fsType \<notin> ValidFSTypes
                 then State_Monad.return (Fail (ErrInvalidFstype fsType))
                 else (case formatting_parameters (ne_alnum N) (sq_VolumeContext preq) fsType of
                    Inl err \<Rightarrow> State_Monad.return (Fail err)
                  | Inr f \<Rightarrow>
                      node_guarded (sq_VolumeId preq) (ErrOperationAlreadyExists (sq_VolumeId preq))
                        (stage_body N preq fsType
                           (collectMountOptions fsType (mv_MountFlags mountVolume)) f))))))"

section \<open>NodeUnstageVolume\<close>

definition unstage_body :: "node_env \<Rightarrow> string \<Rightarrow> (nstate, unit reply) state" where
  "unstage_body N target = do {
     d \<leftarrow> GetDeviceNameFromMount N target;
     (case d of
        Inl err \<Rightarrow> State_Monad.return (Fail (ErrFailedCheckTargetPathIsMountPoint target [err]))
      | Inr (dev, refCount) \<Rightarrow>
          if refCount = 0 then State_Monad.return (Ok ())
          else do {
            u \<leftarrow> Unstage N target;
            State_Monad.return
              (case u of Some err \<Rightarrow> Fail (ErrCanNotUnmountTarget target err) | None \<Rightarrow> Ok ())
          })
   }"

definition NodeUnstageVolume :: "node_env \<Rightarrow> string \<Rightarrow> string \<Rightarrow> (nstate, unit reply) state" where
  "NodeUnstageVolume N volumeID target =
     (if length volumeID = 0 then State_Monad.return (Fail ErrVolumeIDNotProvided)
      else if length target = 0 then State_Monad.return (Fail ErrStagingTargetNotProvided)
      else node_guarded volumeID (ErrOperationAlreadyExists volumeID) (unstage_body N target))"

section \<open>NodePublishVolume\<close>

record publish_request =
  pq_VolumeId :: string
  pq_StagingTargetPath :: string
  pq_TargetPath :: string
  pq_Capability :: "capability option"
  pq_Readonly :: bool
  pq_VolumeContext :: "string \<rightharpoonup> string"
  pq_PublishContext :: "string \<rightharpoonup> string"

text \<open>The block mount proper; when it fails the target file is removed again.\<close>

definition block_mount ::
    "node_env \<Rightarrow> string \<Rightarrow> string \<Rightarrow> string list \<Rightarrow> (nstate, unit reply) state" where
  "block_mount N source target mountOptions = do {
     b \<leftarrow> isMounted N target;
     (case b of
        Inl err \<Rightarrow> State_Monad.return (Fail (ErrCheckDiskIsMounted target err))
      | Inr mounted \<Rightarrow>
          if mounted then State_Monad.return (Ok ())
          else do {
            m \<leftarrow> MountFs N source target '''' mountOptions;
            (case m of
               None \<Rightarrow> State_Monad.return (Ok ())
             | Some err \<Rightarrow> do {
                 r \<leftarrow> RemoveFile N target;
                 State_Monad.return
                   (case r of
                      Some removeErr \<Rightarrow> Fail (ErrCanNotRemoveMountTarget target removeErr)
                    | None \<Rightarrow> Fail (ErrCanNotMountAtTarget source target err))
               })
          })
   }"

definition block_target ::
    "node_env \<Rightarrow> string \<Rightarrow> string \<Rightarrow> string list \<Rightarrow> (nstate, unit reply) state" where
  "block_target N source target mountOptions = do {
     f \<leftarrow> MakeFile N target;
     (case f of
        None \<Rightarrow> block_mount N source target mountOptions
      | Some err \<Rightarrow> do {
          r \<leftarrow> RemoveFile N target;
          State_Monad.return
            (case r of
               Some removeErr \<Rightarrow> Fail (ErrCanNotRemoveMountTarget target removeErr)
             | None \<Rightarrow> Fail (ErrCanNotCreateFile target err))
        })
   }"

definition nodePublishVolumeForBlock ::
    "node_env \<Rightarrow> publish_request \<Rightarrow> string list \<Rightarrow> (nstate, unit reply) state" where
  "nodePublishVolumeForBlock N req mountOptions =
     (let target = pq_TargetPath req; globalMountPath = Dir target in
      case pq_PublishContext req DevicePathKey of
        None \<Rightarrow> State_Monad.return (Fail ErrDevicePathNotProvided)
      | Some devicePath \<Rightarrow>
          if \<not> isValidVolumeContext (pq_VolumeContext req)
          then State_Monad.return (Fail ErrVolumeAttributesInvalid)
          else do {
            r \<leftarrow> getDevicePath N devicePath;
            (case r of
               Panic \<Rightarrow> State_Monad.return Crashed
             | Return (Inl err) \<Rightarrow> State_Monad.return (Fail (ErrFailedToFindTargetPath devicePath err))
             | Return (Inr source) \<Rightarrow> do {
                 e \<leftarrow> PathExists N globalMountPath;
                 (case e of
                    Inl err \<Rightarrow> State_Monad.return (Fail (ErrFailedToCheckPathExists globalMountPath err))
                  | Inr exists \<Rightarrow>
                      if exists then block_target N source target mountOptions
                      else do {
                        d \<leftarrow> MakeDir N globalMountPath;
                        (case d of
                           Some err \<Rightarrow>
                             State_Monad.return (Fail (ErrCanNotCreateTargetDir globalMountPath err))
                         | None \<Rightarrow> block_target N source target mountOptions)
                      })
               })
          })"

definition preparePublishTarget :: "node_env \<Rightarrow> string \<Rightarrow> (nstate, go_error option) state" where
  "preparePublishTarget N target = do {
     d \<leftarrow> MakeDir N target;
     State_Monad.return (case d of Some err \<Rightarrow> Some err | None \<Rightarrow> None)
   }"

definition requested_fsType :: "mount_volume option \<Rightarrow> string" where
  "requested_fsType m =
     (let fsType = (case m of None \<Rightarrow> '''' | Some mv \<Rightarrow> mv_FsType mv) in
      if length fsType = 0 then defaultFsType else fsType)"

definition filesystem_mount ::
    "node_env \<Rightarrow> string \<Rightarrow> string \<Rightarrow> string \<Rightarrow> string list \<Rightarrow> (nstate, unit reply) state" where
  "filesystem_mount N source target fsType mountOptions = do {
     b \<leftarrow> isMounted N target;
     (case b of
        Inl err \<Rightarrow> State_Monad.return (Fail (ErrCheckDiskIsMounted target err))
      | Inr mounted \<Rightarrow>
          if mounted then State_Monad.return (Ok ())
          else if ToLower fsType \<notin> ValidFSTypes then State_Monad.return (Fail (ErrInvalidFstype fsType))
          else do {
            r \<leftarrow> MountFs N source target fsType (collectMountOptions fsType mountOptions);
            State_Monad.return
              (case r of
                 Some err \<Rightarrow> Fail (ErrCanNotMountAtTarget source target err)
               | None \<Rightarrow> Ok ())
          })
   }"

definition nodePublishVolumeForFileSystem ::
    "node_env \<Rightarrow> publish_request \<Rightarrow> string list \<Rightarrow> mount_volume option \<Rightarrow> (nstate, unit reply) state" where
  "nodePublishVolumeForFileSystem N req mountOptions m =
     (let target = pq_TargetPath req; source = pq_StagingTargetPath req;
          mountOptions' = (case m of
             None \<Rightarrow> mountOptions | Some mv \<Rightarrow> add_mount_options mountOptions (mv_MountFlags mv)) in do {
        p \<leftarrow> preparePublishTarget N target;
        (case p of
           Some err \<Rightarrow> State_Monad.return (Fail (ErrCanNotCreateTargetDir target err))
         | None \<Rightarrow> filesystem_mount N source target (requested_fsType m) mountOptions')
      })"

text \<open>An access type that is neither block nor mount takes neither branch of the switch.\<close>

definition NodePublishVolume :: "node_env \<Rightarrow> publish_request \<Rightarrow> (nstate, unit reply) state" where
  "NodePublishVolume N preq =
     (if length (pq_VolumeId preq) = 0 then State_Monad.return (Fail ErrVolumeIDNotProvided)
      else if length (pq_StagingTargetPath preq) = 0
      then State_Monad.return (Fail ErrStagingTargetNotProvided)
      else if length (pq_TargetPath preq) = 0 then State_Monad.return (Fail ErrTargetPathNotProvided)
      else (case pq_Capability preq of
         None \<Rightarrow> State_Monad.return (Fail ErrVolumeCapabilityNotProvided)
       | Some volCap \<Rightarrow>
           if \<not> isValidVolumeCapabilities [volCap]
           then State_Monad.return (Fail ErrVolumeCapabilityNotSupported)
           else node_guarded (pq_VolumeId preq) (ErrOperationAlreadyExists (pq_VolumeId preq))
             (let mountOptions = (if pq_Readonly preq then [''bind'', ''ro''] else [''bind'']) in
              case cap_type volCap of
                Block \<Rightarrow> nodePublishVolumeForBlock N preq mountOptions
              | MountOf m \<Rightarrow> nodePublishVolumeForFileSystem N preq mountOptions m
              | NoAccessType \<Rightarrow> State_Monad.return (Ok ()))))"

section \<open>NodeUnpublishVolume\<close>

definition NodeUnpublishVolume :: "node_env \<Rightarrow> string \<Rightarrow> string \<Rightarrow> (nstate, unit reply) state" where
  "NodeUnpublishVolume N volumeID target =
     (if length volumeID = 0 then State_Monad.return (Fail ErrVolumeIDNotProvided)
      else if length target = 0 then State_Monad.return (Fail ErrTargetPathNotProvided)
      else node_guarded volumeID (ErrOperationAlreadyExists volumeID) (do {
        u \<leftarrow> Unpublish N target;
        State_Monad.return
          (case u of Some err \<Rightarrow> Fail (ErrCanNotUnmountTarget target err) | None \<Rightarrow> Ok ())
      }))"

section \<open>NodeGetVolumeStats\<close>

text \<open>The usage entries: bytes of a block device, or bytes and inodes of a file system.\<close>

datatype volume_usage =
    BytesTotal int64
  | BytesUsage int64 int64 int64
  | InodesUsage int64 int64 int64

definition NodeGetVolumeStats ::
    "node_env \<Rightarrow> string \<Rightarrow> string \<Rightarrow> (nstate, volume_usage list reply) state" where
  "NodeGetVolumeStats N volumeId volumePath =
     (if length volumeId = 0 then State_Monad.return (Fail ErrVolumeIDNotProvided)
      else if length volumePath = 0 then State_Monad.return (Fail ErrVolumePathNotProvided)
      else do {
        e \<leftarrow> PathExists N volumePath;
        (case e of
           Inl err \<Rightarrow> State_Monad.return (Fail (ErrUnknownStatsOnPath volumePath err))
         | Inr exists \<Rightarrow>
             if \<not> exists then State_Monad.return (Fail (ErrPathNotExists volumePath))
             else do {
               b \<leftarrow> IsBlockDevice N volumePath;
               (case b of
                  Inl err \<Rightarrow> State_Monad.return (Fail (ErrDeterminedBlockDevice volumePath err))
                | Inr ibv \<Rightarrow>
                    if ibv then do {
                      c \<leftarrow> getBlockSizeBytes N volumePath;
                      State_Monad.return
                        (case c of
                           Inl blockErr \<Rightarrow> Fail (ErrCanNotGetBlockCapacity volumePath None)
                         | Inr bcap \<Rightarrow> Ok [BytesTotal bcap])
                    }
                    else do {
                      m \<leftarrow> os_call (\<lambda>h. mu_GetMetrics N h volumePath) (NStatFS volumePath);
                      State_Monad.return
                        (case m of
                           Inl err \<Rightarrow> Fail (ErrFailedToGetFsInfo volumePath err)
                         | Inr metrics \<Rightarrow>
                             Ok [BytesUsage (fm_Available metrics) (fm_Capacity metrics) (fm_Used metrics),
                                 InodesUsage (fm_InodesFree metrics) (fm_Inodes metrics)
                                   (fm_InodesUsed metrics)])
                    })
             })
      })"

section \<open>NodeExpandVolume\<close>

text \<open>The answer is \<open>CapacityBytes\<close>, 0 where the code leaves it out.\<close>

definition expand_filesystem :: "node_env \<Rightarrow> string \<Rightarrow> string \<Rightarrow> (nstate, int64 reply) state" where
  "expand_filesystem N volumeID volumePath = do {
     out \<leftarrow> GetMountFs N volumePath;
     (case snd out of
        Some err \<Rightarrow> State_Monad.return (Fail (StatusInternal (ne_text N err)))
      | None \<Rightarrow>
          (let devicePath = TrimSpace (fst out) in
           if devicePath = ''''
           then State_Monad.return
             (Fail (StatusInternal (''failed to get device path for volume '' @ volumeID)))
           else do {
             f \<leftarrow> NewResizeFs;
             (case f of
                Some err \<Rightarrow> State_Monad.return
                  (Fail (StatusInternal (''Error attempting to create new ResizeFs:  '' @ ne_text N err)))
              | None \<Rightarrow> do {
                  r \<leftarrow> Resize N devicePath volumePath;
                  (case r of
                     Some err \<Rightarrow> State_Monad.return
                       (Fail (StatusInternal (''Could not resize volume '' @ quoted volumeID @ '' ('' @
                          quoted devicePath @ ''):  '' @ ne_text N err)))
                   | None \<Rightarrow> do {
                       c \<leftarrow> getBlockSizeBytes N devicePath;
                       State_Monad.return
                         (case c of
                            Inl err \<Rightarrow> Fail (StatusInternal (''failed to get block capacity on path '' @
                              volumePath @ '': '' @ ne_text N err))
                          | Inr bcap \<Rightarrow> Ok bcap)
                     })
                })
           }))
   }"

definition NodeExpandVolume ::
    "node_env \<Rightarrow> string \<Rightarrow> string \<Rightarrow> capability option \<Rightarrow> (nstate, int64 reply) state" where
  "NodeExpandVolume N volumeID volumePath volumeCapability =
     (if length volumeID = 0 then State_Monad.return (Fail ErrVolumeIDNotProvided)
      else if length volumePath = 0 then State_Monad.return (Fail ErrVolumePathNotProvided)
      else (case volumeCapability of
         Some c \<Rightarrow>
           if \<not> isValidVolumeCapabilities [c]
           then State_Monad.return (Fail (StatusInvalidArgument
             (''VolumeCapability is invalid: '' @ ne_show_capability N c)))
           else if isBlock c then State_Monad.return (Ok 0)
           else expand_filesystem N volumeID volumePath
       | None \<Rightarrow> do {
           b \<leftarrow> IsBlockDevice N volumePath;
           (case b of
              Inl err \<Rightarrow> State_Monad.return (Fail (StatusInternal
                (''failed to determine if volumePath ['' @ volumePath @ ''] is a block device: '' @
                 ne_text N err)))
            | Inr ibv \<Rightarrow>
                if ibv then do {
                  c \<leftarrow> getBlockSizeBytes N volumePath;
                  State_Monad.return
                    (case c of
                       Inl err \<Rightarrow> Fail (StatusInternal (''failed to get block capacity on path '' @
                         volumePath @ '': '' @ ne_text N err))
                     | Inr bcap \<Rightarrow> Ok bcap)
                }
                else expand_filesystem N volumeID volumePath)
         }))"

section \<open>NodeGetCapabilities and NodeGetInfo\<close>

datatype node_capability = STAGE_UNSTAGE_VOLUME | EXPAND_VOLUME | GET_VOLUME_STATS

definition nodeCaps :: "node_capability list" where
  "nodeCaps = [STAGE_UNSTAGE_VOLUME, EXPAND_VOLUME, GET_VOLUME_STATS]"

definition NodeGetCapabilities :: "node_capability list reply" where
  "NodeGetCapabilities = Ok (map (\<lambda>capa. capa) nodeCaps)"

record metadata_info =
  md_UUID :: string
  md_Name :: string
  md_ProjectID :: string
  md_AvailabilityZone :: string

record node_info =
  ni_NodeId :: string
  ni_MaxVolumesPerNode :: int64
  ni_Segments :: "string \<rightharpoonup> string"

text \<open>
  The two SDK calls are arguments: the portal's project identifier for a project, and the attach
  quota of a portal project. \<open>GetError()\<close> of an SDK error may be nil.
\<close>

definition NodeGetInfo ::
    "metadata_info \<Rightarrow> int \<Rightarrow> (string \<Rightarrow> ierror + string) \<Rightarrow> (string \<Rightarrow> ierror + int) \<Rightarrow> node_info reply" where
  "NodeGetInfo metadata maxVolumesPerNode portal quota =
     (let nodeUUID = md_UUID metadata; zone = md_AvailabilityZone metadata;
          info = (\<lambda>mvpn. Ok \<lparr>ni_NodeId = nodeUUID, ni_MaxVolumesPerNode = word_of_int mvpn,
                    ni_Segments = [ZoneTopologyKey \<mapsto> zone]\<rparr>) in
      if maxVolumesPerNode < 1
      then (let projectID = md_ProjectID metadata in
            if length projectID < 1 then Fail (Raw (GoErr ''projectID is empty''))
            else (case portal projectID of
               Inl sdkErr \<Rightarrow> fail_with (ie_err sdkErr)
             | Inr portalProject \<Rightarrow>
                 (case quota portalProject of
                    Inl sdkErr \<Rightarrow> fail_with (ie_err sdkErr)
                  | Inr limit \<Rightarrow> info limit)))
      else info maxVolumesPerNode)"

end
