(* ===== verification/NodeMachine.thy ===== *)
theory NodeMachine
  imports NodeService
begin

text \<open>
  The mount table as the history of calls determines it, and one concrete machine whose answers follow it,
  on which the witnesses run.
\<close>

section \<open>The mount table\<close>

fun depth :: "string \<Rightarrow> nhist \<Rightarrow> nat" where
  "depth t [] = 0"
| "depth t (NMount d t' f os None # h) = (if t' = t then Suc (depth t h) else depth t h)"
| "depth t (NFormatAndMount d t' f os fos None # h) = (if t' = t then Suc (depth t h) else depth t h)"
| "depth t (NCleanup t' None # h) = (if t' = t then depth t h - 1 else depth t h)"
| "depth t (_ # h) = depth t h"

section \<open>A machine\<close>

text \<open>
  A machine with one attached volume. Its mount table names the device as the kernel does, the way
  \<^verbatim>\<open>mount\<close> records a source that was given as a link.
\<close>

definition sample_volume_id :: string where
  "sample_volume_id = ''vol-0123456789abcdef01''"

definition sample_node :: node_env where
  "sample_node =
     \<lparr>ne_wait = (\<lambda>b. poll_all (bo_Steps b)), ne_IsExist = (\<lambda>_. False), ne_IsNotExist = (\<lambda>_. False),
      ne_IsCorruptedMnt = (\<lambda>_. False), ne_text = (\<lambda>e. case e of GoErr m \<Rightarrow> m | _ \<Rightarrow> ''''),
      ne_show_capability = (\<lambda>_. ''''), ne_alnum = (\<lambda>_. True),
      os_ReadDir = (\<lambda>h p. if p = by_id then ([''ata-disk'', ''virtio-'' @ take 20 sample_volume_id], None)
                         else ([], None)),
      os_WriteFile = (\<lambda>h p. None), os_Command = (\<lambda>h prog args. (''1024'', None)),
      os_Stat = (\<lambda>h p. Inr 0x4000), os_MkdirAll = (\<lambda>h p. None), os_CreateFile = (\<lambda>h p. None),
      os_CloseFile = (\<lambda>h p. None), os_Remove = (\<lambda>h p. None),
      mu_PathExists = (\<lambda>h p. Inr True),
      mu_GetDeviceNameFromMount = (\<lambda>h t. Inr (if depth t h = 0 then ('''', 0) else (''/dev/vdb'', int (depth t h)))),
      mu_FormatAndMount = (\<lambda>h d t f os fos. None), mu_NeedResize = (\<lambda>h d t. Inr False),
      mu_Resize = (\<lambda>h d t. None), mu_IsLikelyNotMountPoint = (\<lambda>h t. Inr (depth t h = 0)),
      mu_Mount = (\<lambda>h d t f os. None),
      mu_CleanupMountPoint = (\<lambda>h t. if depth t h = 0 then Some (GoErr ''not mounted'') else None),
      mu_GetMetrics = (\<lambda>h p. Inl (GoErr ''statfs''))\<rparr>"

lemma sample_node_ok: "node_wait_ok sample_node"
  by (simp add: node_wait_ok_def sample_node_def poll_all_poll)

definition sample_mount :: capability where
  "sample_mount = \<lparr>cap_mode = SingleNodeWriter, cap_type = MountOf (Some \<lparr>mv_FsType = ''xfs'', mv_MountFlags = []\<rparr>)\<rparr>"

definition sample_stage :: stage_request where
  "sample_stage = \<lparr>sq_VolumeId = sample_volume_id, sq_StagingTargetPath = ''/stage'',
     sq_Capability = Some sample_mount, sq_VolumeContext = [BlockSizeKey \<mapsto> ''4096''],
     sq_PublishContext = [DevicePathKey \<mapsto> sample_volume_id]\<rparr>"

definition sample_publish :: publish_request where
  "sample_publish = \<lparr>pq_VolumeId = sample_volume_id, pq_StagingTargetPath = ''/stage'', pq_TargetPath = ''/pod'',
     pq_Capability = Some sample_mount, pq_Readonly = True, pq_VolumeContext = Map.empty,
     pq_PublishContext = [DevicePathKey \<mapsto> sample_volume_id]\<rparr>"

definition node_start :: nstate where
  "node_start = \<lparr>nd_inflight = NewInFlight, nd_hist = []\<rparr>"

end
