(* ===== verification/NodeSpec.thy ===== *)
theory NodeSpec
  imports NodeMachine
begin

text \<open>
  What the node handlers promise: the exact calls each of them makes that change a mount or a file
  system, on which evidence, and which answer goes with them. \<open>NodeOs\<close>'s rules run a handler call by
  call, so a handler's lemma is the composition of its parts' lemmas.
\<close>

section \<open>Guards and small parts\<close>

lemma node_guarded_does:
  assumes "does body P" and "P (Fail busy) []"
  shows "does (node_guarded key busy body) P"
proof (rule doesI)
  fix s
  show "wp (node_guarded key busy body) (\<lambda>r t. \<exists>evs. trace s evs t \<and> P r evs) s"
  proof (cases "key \<in> dom (nd_inflight s)")
    case True
    then show ?thesis
      by (auto simp: node_guarded_def wp_def with_inflight_busy assms(2) intro!: exI [of _ "[]"])
  next
    case False
    let ?t = "s\<lparr>nd_inflight := (nd_inflight s)(key \<mapsto> True)\<rparr>"
    from False have none: "nd_inflight s key = None" by auto
    obtain r u where b: "run_state body ?t = (r, u)" by (cases "run_state body ?t")
    from wpD [OF doesD [OF assms(1)] b] obtain evs where "trace ?t evs u" and "P r evs" by blast
    with False b none show ?thesis
      by (auto simp: node_guarded_def wp_def with_inflight_free trace_def Delete_def
          intro!: exI [of _ evs])
  qed
qed

text \<open>A handler whose key is held answers the busy error and makes no call.\<close>

lemma node_guarded_busy:
  "key \<in> dom (nd_inflight s) \<Longrightarrow> run_state (node_guarded key busy body) s = (Fail busy, s)"
  by (simp add: node_guarded_def with_inflight_busy)

lemma getDevicePath_does:
  assumes "node_wait_ok N"
  shows "does (getDevicePath N v) (\<lambda>r evs. changes evs = [] \<and>
    (case r of Panic \<Rightarrow> length v < 20 | Return (Inl _) \<Rightarrow> True | Return (Inr d) \<Rightarrow> device_seen v d evs))"
  unfolding getDevicePath_def
  by (rule does_bind [OF GetDevicePathBySerialID_does [OF assms]])
    (auto intro!: does_return split: go.splits sum.splits)

text \<open>A directory is made by one call; an error that only says it exists is dropped.\<close>

lemma MakeDir_does: "does (MakeDir N p) (\<lambda>r evs. \<exists>x. evs = [NMkdirAll p x] \<and> (r = None \<or> r = x))"
  unfolding MakeDir_def by (auto intro!: does_call does_return split: option.splits)

lemma IsBlockDevice_first:
  "does (IsBlockDevice N p) (\<lambda>r evs. changes evs = [] \<and>
     (\<forall>b. r = Inr b \<longrightarrow> (\<exists>mode. evs = [NStat p (Inr mode)] \<and> b = ((mode AND S_IFMT) = S_IFBLK))))"
  unfolding IsBlockDevice_def by (auto intro!: does_call does_return split: sum.splits)

text \<open>The size is what the command printed.\<close>

definition printed_size :: "string \<Rightarrow> int64 \<Rightarrow> nhist \<Rightarrow> bool" where
  "printed_size p n evs \<longleftrightarrow> (\<exists>out v. NCommand ''blockdev'' [''--getsize64'', p] out None \<in> set evs \<and>
     Atoi (TrimSpace out) = Some v \<and> n = word_of_int v)"

lemma getBlockSizeBytes_does:
  "does (getBlockSizeBytes N p) (\<lambda>r evs. changes evs = [] \<and>
     (case r of Inl _ \<Rightarrow> True | Inr n \<Rightarrow> printed_size p n evs))"
  unfolding getBlockSizeBytes_def exec_command_def
  by (auto intro!: does_call does_return simp: printed_size_def Let_def split: option.splits)

section \<open>Mount options\<close>

lemma hasMountOption_iff: "hasMountOption xs x \<longleftrightarrow> x \<in> set xs"
  by (induction xs) auto

lemma add_mount_options_eq:
  "add_mount_options os flags = os @ filter (\<lambda>x. x \<notin> set os) (rev (remdups (rev flags)))"
proof (induction flags arbitrary: os)
  case Nil
  then show ?case by simp
next
  case (Cons f fs)
  let ?keep = "rev (remdups (rev fs))"
  have first: "rev (remdups (rev (f # fs))) = f # filter (\<lambda>x. x \<noteq> f) ?keep"
  proof -
    have "remdups (xs @ [f]) = filter (\<lambda>x. x \<noteq> f) (remdups xs) @ [f]" for xs :: "string list"
      by (induction xs) auto
    then show ?thesis by (simp add: rev_filter)
  qed
  show ?case
  proof (cases "f \<in> set os")
    case True
    then have "filter (\<lambda>x. x \<notin> set os) (filter (\<lambda>x. x \<noteq> f) ?keep) = filter (\<lambda>x. x \<notin> set os) ?keep"
      by (auto intro!: filter_cong)
    with True Cons.IH [of os] show ?thesis by (simp add: hasMountOption_iff first del: rev.simps remdups.simps)
  next
    case False
    have "filter (\<lambda>x. x \<notin> set (os @ [f])) ?keep = filter (\<lambda>x. x \<notin> set os) (filter (\<lambda>x. x \<noteq> f) ?keep)"
      by (auto intro!: filter_cong)
    with False Cons.IH [of "os @ [f]"] show ?thesis
      by (simp add: hasMountOption_iff first del: rev.simps remdups.simps)
  qed
qed

text \<open>C21: The mount options are the requested flags, each once, in the order they first occur, with
nouuid at the end for xfs unless it was requested.\<close>

theorem collectMountOptions_keeps_first:
  "distinct (collectMountOptions fsType flags) \<and>
   collectMountOptions fsType flags = rev (remdups (rev flags)) @
     (if fsType = FSTypeXfs \<and> ''nouuid'' \<notin> set flags then [''nouuid''] else [])"
  by (simp add: collectMountOptions_def add_mount_options_eq hasMountOption_iff Let_def)

section \<open>Formatting options\<close>

text \<open>The node's repetition of the alphanumeric check of a formatting option never looks at the
option's value: whatever the value, it is rejected or not all the same, and an accepted value is
handed on unchanged.\<close>

theorem recheck_ignores_value:
  "isl (recheckFormattingOptionParameter alnum (ctx(key \<mapsto> v)) key configs fsType) =
   isl (recheckFormattingOptionParameter alnum (ctx(key \<mapsto> w)) key configs fsType) \<and>
   recheckFormattingOptionParameter alnum (ctx(key \<mapsto> v)) key configs fsType \<in>
     {Inl (ErrInvalidFormatParameter key), Inl (ErrCanNotUseSpecifiedFstype key fsType), Inr v}"
  by (simp add: recheckFormattingOptionParameter_def)

section \<open>Staging\<close>

text \<open>
  How a staging ends once the device is known. \<open>fmt\<close> is the one call that formats and mounts, as a
  function of its answer.
\<close>

definition stage_resized :: "string \<Rightarrow> string \<Rightarrow> string \<Rightarrow> unit reply \<Rightarrow> nhist \<Rightarrow> bool" where
  "stage_resized volumeID source target r evs \<longleftrightarrow>
     changes evs = [] \<and> (NNeedResize source target (Inr False) \<in> set evs \<and> r = Ok () \<or>
       (\<exists>err. r = Fail (ErrDetermineVolumeResize volumeID source err))) \<or>
     (\<exists>y. changes evs = [NResize source target y] \<and> NNeedResize source target (Inr True) \<in> set evs \<and>
        r = (case y of None \<Rightarrow> Ok () | Some err \<Rightarrow> Fail (ErrCanNotResizeVolumeOnNode volumeID source err)))"

definition stage_mounted ::
    "string \<Rightarrow> string \<Rightarrow> string \<Rightarrow> (go_error option \<Rightarrow> nev) \<Rightarrow> unit reply \<Rightarrow> nhist \<Rightarrow> bool" where
  "stage_mounted volumeID source target fmt r evs \<longleftrightarrow>
     changes evs = [] \<and> ((\<exists>n. NDeviceName target (Inr (source, n)) \<in> set evs \<and> r = Ok ()) \<or>
       (\<exists>err. r = Fail (ErrFailedToCheckVolumeMounted err))) \<or>
     (\<exists>device n. device \<noteq> source \<and> NDeviceName target (Inr (device, n)) \<in> set evs \<and>
        ((\<exists>err. changes evs = [fmt (Some err)] \<and> r = Fail (ErrCanNotFormatAndMountVolume source target err)) \<or>
         (\<exists>later before. evs = later @ fmt None # before \<and> changes before = [] \<and>
            stage_resized volumeID source target r later)))"

lemma stage_mounted_later:
  "stage_resized v d t r later \<Longrightarrow> device \<noteq> d \<Longrightarrow>
    stage_mounted v d t fmt r (later @ [fmt None, NDeviceName t (Inr (device, n))])"
  unfolding stage_mounted_def
  by (intro disjI2 exI [of _ device] exI [of _ n] conjI exI [of _ later]
      exI [of _ "[NDeviceName t (Inr (device, n))]"]) auto

lemma stage_resize_does: "does (stage_resize N v d t) (stage_resized v d t)"
  unfolding stage_resize_def NeedResize_def NewResizeFs_def Resize_def
  by (intro does_call) (auto intro!: does_call does_return simp: stage_resized_def split: sum.split option.split)

lemma stage_mount_does:
  "does (stage_mount N v d t fs os f) (stage_mounted v d t (NFormatAndMount d t fs os (format_options fs f)))"
proof -
  let ?fmt = "NFormatAndMount d t fs os (format_options fs f)"
  have ch: "changes [?fmt x] = [?fmt x]" for x by simp
  have res: "does (stage_resize N v d t) (\<lambda>r evs. stage_mounted v d t ?fmt r
      (evs @ [?fmt None, NDeviceName t (Inr (device, n))]))" if "device \<noteq> d" for device n
    by (rule does_mono [OF stage_resize_does]) (rule stage_mounted_later [OF _ that])
  have "does (case d' of Inl err \<Rightarrow> State_Monad.return (Fail (ErrFailedToCheckVolumeMounted err))
      | Inr (device, _) \<Rightarrow>
          if device = d then State_Monad.return (Ok ())
          else do {
            m \<leftarrow> os_call (\<lambda>h. mu_FormatAndMount N h d t fs os (format_options fs f)) ?fmt;
            (case m of
               Some err \<Rightarrow> State_Monad.return (Fail (ErrCanNotFormatAndMountVolume d t err))
             | None \<Rightarrow> stage_resize N v d t)
          }) (\<lambda>r evs. stage_mounted v d t ?fmt r (evs @ [NDeviceName t d']))" for d'
  proof (cases d')
    case (Inl err)
    then show ?thesis by (auto intro!: does_return simp: stage_mounted_def)
  next
    case (Inr p)
    obtain device n where p: "p = (device, n)" by (cases p)
    show ?thesis
    proof (cases "device = d")
      case True
      with Inr p show ?thesis by (auto intro!: does_return simp: stage_mounted_def)
    next
      case False
      have "does (case m of Some err \<Rightarrow> State_Monad.return (Fail (ErrCanNotFormatAndMountVolume d t err))
          | None \<Rightarrow> stage_resize N v d t)
          (\<lambda>r evs. stage_mounted v d t ?fmt r ((evs @ [?fmt m]) @ [NDeviceName t (Inr (device, n))]))" for m
        using False res [OF False]
        by (cases m) (auto intro!: does_return simp: stage_mounted_def)
      with Inr p False show ?thesis by (auto intro!: does_call)
    qed
  qed
  then show ?thesis
    unfolding stage_mount_def GetDeviceNameFromMount_def FormatAndMount_def by (rule does_call)
qed

text \<open>The target directory is made when it was not there.\<close>

definition stage_located ::
    "string \<Rightarrow> string \<Rightarrow> string \<Rightarrow> (go_error option \<Rightarrow> nev) \<Rightarrow> unit reply \<Rightarrow> nhist \<Rightarrow> bool" where
  "stage_located volumeID source target fmt r evs \<longleftrightarrow>
     changes evs = [] \<and> (\<exists>err. r = Fail (ErrFailedToCheckTargetPathExists target err)) \<or>
     (\<exists>err. changes evs = [NMkdirAll target (Some err)] \<and> r = Fail (ErrCanNotCreateTargetDir target err)) \<or>
     (\<exists>later before. evs = later @ before \<and> stage_mounted volumeID source target fmt r later \<and>
        (changes before = [] \<or>
         (\<exists>x. changes before = [NMkdirAll target x] \<and> NPathExists target (Inr False) \<in> set before)))"

definition stage_ran ::
    "string \<Rightarrow> string \<Rightarrow> string option \<Rightarrow> (string \<Rightarrow> go_error option \<Rightarrow> nev) \<Rightarrow> unit reply \<Rightarrow> nhist \<Rightarrow> bool" where
  "stage_ran volumeID target devicePath fmt r evs \<longleftrightarrow>
     (case devicePath of
        None \<Rightarrow> evs = [] \<and> r = Fail ErrDevicePathNotProvided
      | Some v \<Rightarrow>
          changes evs = [] \<and> (r = Crashed \<and> length v < 20 \<or> (\<exists>err. r = Fail (ErrFailedToFindTargetPath v err))) \<or>
          (\<exists>source later before. evs = later @ before \<and> changes before = [] \<and> device_seen v source before \<and>
             stage_located volumeID source target (fmt source) r later))"

lemma stage_body_does:
  assumes "node_wait_ok N"
  shows "does (stage_body N req fs os f)
    (stage_ran (sq_VolumeId req) (sq_StagingTargetPath req) (sq_PublishContext req DevicePathKey)
      (\<lambda>source. NFormatAndMount source (sq_StagingTargetPath req) fs os (format_options fs f)))"
proof (cases "sq_PublishContext req DevicePathKey")
  case None
  then show ?thesis by (auto intro!: does_return simp: stage_body_def stage_ran_def)
next
  case (Some v)
  let ?v = "sq_VolumeId req" and ?t = "sq_StagingTargetPath req"
  let ?fmt = "\<lambda>source. NFormatAndMount source ?t fs os (format_options fs f)"
  have located: "does (do {
       e \<leftarrow> PathExists N ?t;
       (case e of
          Inl err \<Rightarrow> State_Monad.return (Fail (ErrFailedToCheckTargetPathExists ?t err))
        | Inr exists \<Rightarrow>
            if exists then stage_mount N ?v d ?t fs os f
            else do {
              x \<leftarrow> MakeDir N ?t;
              (case x of
                 Some err \<Rightarrow> State_Monad.return (Fail (ErrCanNotCreateTargetDir ?t err))
               | None \<Rightarrow> stage_mount N ?v d ?t fs os f)
            })
     }) (stage_located ?v d ?t (?fmt d))" for d
  proof -
    have go: "does (stage_mount N ?v d ?t fs os f) (\<lambda>r evs. stage_located ?v d ?t (?fmt d) r (evs @ before))"
      if "changes before = [] \<or>
        (\<exists>x. changes before = [NMkdirAll ?t x] \<and> NPathExists ?t (Inr False) \<in> set before)" for before
      by (rule does_mono [OF stage_mount_does]) (use that in \<open>unfold stage_located_def, blast\<close>)
    show ?thesis unfolding PathExists_def
    proof (rule does_call, goal_cases)
      case (1 e)
      show ?case
      proof (cases e)
        case (Inl err)
        then show ?thesis by (auto intro!: does_return simp: stage_located_def)
      next
        case (Inr ex)
        have made: "does (stage_mount N ?v d ?t fs os f)
            (\<lambda>r evs. stage_located ?v d ?t (?fmt d) r ((evs @ [NMkdirAll ?t x]) @ [NPathExists ?t (Inr False)]))" for x
          using go [of "[NMkdirAll ?t x, NPathExists ?t (Inr False)]"] by simp
        have "does (do { x \<leftarrow> MakeDir N ?t;
              (case x of Some err \<Rightarrow> State_Monad.return (Fail (ErrCanNotCreateTargetDir ?t err))
               | None \<Rightarrow> stage_mount N ?v d ?t fs os f) })
            (\<lambda>r evs. stage_located ?v d ?t (?fmt d) r (evs @ [NPathExists ?t (Inr False)]))"
        proof (rule does_bind [OF MakeDir_does], goal_cases)
          case (1 r evs)
          then obtain x where evs: "evs = [NMkdirAll ?t x]" and r: "r = None \<or> r = x" by blast
          show ?case
          proof (cases r)
            case None
            with evs made [of x] show ?thesis by simp
          next
            case (Some err)
            with evs r show ?thesis by (auto intro!: does_return simp: stage_located_def)
          qed
        qed
        with Inr go [of "[NPathExists ?t (Inr True)]"] show ?thesis by simp
      qed
    qed
  qed
  show ?thesis
    unfolding stage_body_def Let_def Some option.case
  proof (rule does_bind [OF getDevicePath_does [OF assms]], goal_cases)
    case (1 r evs)
    have "does m (\<lambda>r' evs'. stage_ran ?v ?t (Some v) ?fmt r' (evs' @ evs))"
      if "does m (stage_located ?v d ?t (?fmt d))" and "changes evs = []" and "device_seen v d evs" for m d
      by (rule does_mono [OF that(1)]) (use that(2,3) in \<open>unfold stage_ran_def option.case, blast\<close>)
    with 1 located show ?case
      by (auto intro!: does_return simp: stage_ran_def split: go.splits sum.splits)
  qed
qed

text \<open>The mount a stage request asks for: its file system, options and formatting parameters.\<close>

definition stage_wants :: "node_env \<Rightarrow> stage_request \<Rightarrow> string \<Rightarrow> string list \<Rightarrow> formatting \<Rightarrow> bool" where
  "stage_wants N req fsType options f \<longleftrightarrow>
     (\<exists>c m. sq_Capability req = Some c \<and> isValidCapability c \<and> GetMount c = Some m \<and>
        fsType = (if mv_FsType m = '''' then defaultFsType else mv_FsType m) \<and>
        ToLower fsType \<in> ValidFSTypes \<and> options = collectMountOptions fsType (mv_MountFlags m) \<and>
        formatting_parameters (ne_alnum N) (sq_VolumeContext req) fsType = Inr f)"

definition stage_post :: "node_env \<Rightarrow> stage_request \<Rightarrow> unit reply \<Rightarrow> nhist \<Rightarrow> bool" where
  "stage_post N req r evs \<longleftrightarrow>
     evs = [] \<and> ((\<exists>e. r = Fail e) \<or> r = Ok () \<and> (\<exists>c. sq_Capability req = Some c \<and> isBlock c)) \<or>
     (\<exists>fsType options f. stage_wants N req fsType options f \<and>
        stage_ran (sq_VolumeId req) (sq_StagingTargetPath req) (sq_PublishContext req DevicePathKey)
          (\<lambda>source. NFormatAndMount source (sq_StagingTargetPath req) fsType options
             (format_options fsType f)) r evs)"

lemma NodeStageVolume_does:
  assumes "node_wait_ok N"
  shows "does (NodeStageVolume N req) (stage_post N req)"
proof -
  have none: "does (State_Monad.return (Fail e)) (stage_post N req)" for e
    by (rule does_return) (simp add: stage_post_def)
  have body: "does (node_guarded (sq_VolumeId req) busy
      (stage_body N req fsType options f)) (stage_post N req)" if "stage_wants N req fsType options f"
    for busy fsType options f
    by (rule node_guarded_does, rule does_mono [OF stage_body_does [OF assms]])
      (use that in \<open>unfold stage_post_def, blast+\<close>)
  show ?thesis
    unfolding NodeStageVolume_def Let_def
    by (auto intro!: none body does_return split: option.split sum.split
        simp: stage_post_def stage_wants_def)
qed

fun is_format :: "nev \<Rightarrow> bool" where
  "is_format (NFormatAndMount d t f os fos x) = True"
| "is_format _ = False"

lemma is_format_change: "is_format e \<Longrightarrow> is_change e"
  by (cases e) auto

lemma formats_changes: "filter is_format evs = filter is_format (changes evs)"
  unfolding changes_def filter_filter by (auto intro: filter_cong dest: is_format_change)

text \<open>What a staging did, as seen in its calls.\<close>

definition staged_on :: "string \<Rightarrow> string \<Rightarrow> string \<Rightarrow> nhist \<Rightarrow> bool" where
  "staged_on v source target evs \<longleftrightarrow> device_seen v source evs \<and>
     ((\<exists>n. NDeviceName target (Inr (source, n)) \<in> set evs) \<or>
      (\<exists>fs os fos. NFormatAndMount source target fs os fos None \<in> set evs) \<and>
        (NNeedResize source target (Inr False) \<in> set evs \<or> NResize source target None \<in> set evs))"

lemma only_change: "changes evs = [e] \<Longrightarrow> e \<in> set evs"
  using filter_is_subset [of is_change evs] by (simp add: changes_def)

lemma stage_resized_facts:
  assumes "stage_resized v d t r evs"
  shows "filter is_format evs = []" "r \<noteq> Crashed" "r \<noteq> NilNil"
    "r = Ok () \<Longrightarrow> NNeedResize d t (Inr False) \<in> set evs \<or> NResize d t None \<in> set evs"
proof -
  show "filter is_format evs = []"
    using assms by (subst formats_changes) (auto simp: stage_resized_def)
  show "r \<noteq> Crashed" "r \<noteq> NilNil" using assms by (auto simp: stage_resized_def split: option.splits)
  assume "r = Ok ()"
  with assms show "NNeedResize d t (Inr False) \<in> set evs \<or> NResize d t None \<in> set evs"
    by (auto simp: stage_resized_def split: option.splits dest: only_change)
qed

definition stage_done ::
    "string \<Rightarrow> string \<Rightarrow> (go_error option \<Rightarrow> nev) \<Rightarrow> unit reply \<Rightarrow> nhist \<Rightarrow> bool" where
  "stage_done source target fmt r evs \<longleftrightarrow> r \<noteq> Crashed \<and> r \<noteq> NilNil \<and>
     (filter is_format evs = [] \<or>
      (\<exists>x. filter is_format evs = [fmt x]) \<and>
      (\<exists>device n. device \<noteq> source \<and> NDeviceName target (Inr (device, n)) \<in> set evs)) \<and>
     (r = Ok () \<longrightarrow>
        (\<exists>n. NDeviceName target (Inr (source, n)) \<in> set evs) \<and> filter is_format evs = [] \<or>
        fmt None \<in> set evs \<and>
          (NNeedResize source target (Inr False) \<in> set evs \<or> NResize source target None \<in> set evs))"

lemma no_format: "changes evs = [] \<Longrightarrow> filter is_format evs = []"
  by (subst formats_changes) simp

lemma stage_done_before: "stage_done d t fmt r later \<Longrightarrow> filter is_format before = [] \<Longrightarrow>
    stage_done d t fmt r (later @ before)"
  unfolding stage_done_def by auto

lemma stage_mounted_done:
  assumes "stage_mounted v d t fmt r evs" and fmt: "\<And>x. is_format (fmt x)"
  shows "stage_done d t fmt r evs"
proof -
  consider "changes evs = []" "(\<exists>n. NDeviceName t (Inr (d, n)) \<in> set evs \<and> r = Ok ()) \<or>
       (\<exists>err. r = Fail (ErrFailedToCheckVolumeMounted err))"
    | device n err where "device \<noteq> d" "NDeviceName t (Inr (device, n)) \<in> set evs"
      "changes evs = [fmt (Some err)]" "r = Fail (ErrCanNotFormatAndMountVolume d t err)"
    | device n later before where "device \<noteq> d" "NDeviceName t (Inr (device, n)) \<in> set evs"
      "evs = later @ fmt None # before" "changes before = []" "stage_resized v d t r later"
    using assms(1) unfolding stage_mounted_def by blast
  then show ?thesis
  proof cases
    case 1
    then show ?thesis by (auto simp: stage_done_def no_format)
  next
    case 2
    have "filter is_format evs = [fmt (Some err)]" by (subst formats_changes) (simp add: 2 fmt)
    with 2 show ?thesis by (auto simp: stage_done_def)
  next
    case 3
    note f = stage_resized_facts [OF 3(5)]
    have "filter is_format evs = [fmt None]" by (simp add: 3 f(1) no_format fmt)
    moreover have "fmt None \<in> set evs" by (simp add: 3)
    ultimately show ?thesis
      using 3(1,2) f(2,3,4) unfolding stage_done_def 3(3) by auto
  qed
qed

lemma stage_located_done:
  assumes "stage_located v d t fmt r evs" and fmt: "\<And>x. is_format (fmt x)"
  shows "stage_done d t fmt r evs"
proof -
  have mk: "filter is_format before = []" if "changes before = [NMkdirAll t x]" for before x
    by (subst formats_changes) (simp add: that)
  show ?thesis
    using assms(1) unfolding stage_located_def
    by (auto intro: stage_done_before stage_mounted_done [OF _ fmt] mk no_format)
      (auto simp: stage_done_def mk no_format)
qed

definition stage_safe :: "node_env \<Rightarrow> stage_request \<Rightarrow> unit reply \<Rightarrow> nhist \<Rightarrow> bool" where
  "stage_safe N req r evs \<longleftrightarrow> r \<noteq> NilNil \<and>
    (r = Crashed \<longrightarrow> (\<exists>v. sq_PublishContext req DevicePathKey = Some v \<and> length v < 20)) \<and>
    (filter is_format evs = [] \<or>
     (\<exists>v source fsType options f x. sq_PublishContext req DevicePathKey = Some v \<and>
        device_seen v source evs \<and> stage_wants N req fsType options f \<and>
        filter is_format evs = [NFormatAndMount source (sq_StagingTargetPath req) fsType options
          (format_options fsType f) x] \<and>
        (\<exists>device n. device \<noteq> source \<and>
           NDeviceName (sq_StagingTargetPath req) (Inr (device, n)) \<in> set evs))) \<and>
    (r = Ok () \<longrightarrow> (\<exists>c. sq_Capability req = Some c \<and> isBlock c) \<and> evs = [] \<or>
       (\<exists>v source. sq_PublishContext req DevicePathKey = Some v \<and>
          staged_on v source (sq_StagingTargetPath req) evs))"

lemma stage_ran_safe:
  assumes "stage_wants N req fs os f"
    and "stage_ran (sq_VolumeId req) (sq_StagingTargetPath req) (sq_PublishContext req DevicePathKey)
      (\<lambda>d. NFormatAndMount d (sq_StagingTargetPath req) fs os (format_options fs f)) r evs"
  shows "stage_safe N req r evs"
proof (cases "sq_PublishContext req DevicePathKey")
  case None
  with assms(2) show ?thesis by (auto simp: stage_ran_def stage_safe_def)
next
  case (Some v)
  let ?t = "sq_StagingTargetPath req"
  let ?fmt = "\<lambda>d. NFormatAndMount d ?t fs os (format_options fs f)"
  from assms(2) Some consider "changes evs = []"
      "r = Crashed \<and> length v < 20 \<or> (\<exists>err. r = Fail (ErrFailedToFindTargetPath v err))"
    | d later before where "evs = later @ before" "changes before = []" "device_seen v d before"
      "stage_located (sq_VolumeId req) d ?t (?fmt d) r later"
    unfolding stage_ran_def by auto
  then show ?thesis
  proof cases
    case 1
    with Some show ?thesis by (auto simp: no_format stage_safe_def)
  next
    case 2
    have "stage_done d ?t (?fmt d) r evs"
      unfolding 2(1) by (intro stage_done_before stage_located_done [OF 2(4)] no_format 2) simp
    moreover have "device_seen v d evs" unfolding 2(1) by (rule device_seen_later [OF 2(3)])
    ultimately show ?thesis
      using Some assms(1) unfolding stage_done_def staged_on_def stage_safe_def by blast
  qed
qed

text \<open>C14: A stage call formats and mounts at most once, and only a volume whose device was found under one of
its names and is not what the mount table shows at the target; it mounts what the request asked for,
at the request's target. It answers success for a block volume, or when the device is there already,
or when it was mounted and needed no resizing or was resized. It panics only on a device identifier
shorter than 20 characters, and leaves the in-flight table as it found it.\<close>

theorem node_stage_safe:
  assumes "node_wait_ok N"
  shows "wp (NodeStageVolume N req) (\<lambda>r t. \<exists>evs. trace s evs t \<and> stage_safe N req r evs) s"
proof (rule wp_mono [OF doesD [OF NodeStageVolume_does [OF assms]]], elim exE conjE, goal_cases)
  case (1 r t evs)
  have "stage_safe N req r evs"
    using 1(2) stage_ran_safe [of N req _ _ _ r evs] unfolding stage_post_def
    by (auto simp: stage_safe_def)
  with 1(1) show ?case by blast
qed

theorem node_stage_safe_witness:
  "wp (NodeStageVolume sample_node sample_stage) (\<lambda>r t. r \<noteq> NilNil \<and>
     (r = Ok () \<longrightarrow> (\<exists>source evs. staged_on sample_volume_id source ''/stage'' evs))) node_start"
  by (rule wp_mono [OF node_stage_safe [OF sample_node_ok]])
    (auto simp: sample_stage_def sample_mount_def isBlock_def stage_safe_def)

section \<open>Publishing\<close>

fun is_mount :: "nev \<Rightarrow> bool" where
  "is_mount (NMount d t f os x) = True"
| "is_mount _ = False"

fun is_cleanup :: "nev \<Rightarrow> bool" where
  "is_cleanup (NCleanup t x) = True"
| "is_cleanup _ = False"

lemma mounts_changes: "filter is_mount evs = filter is_mount (changes evs)"
proof -
  have "is_mount e \<Longrightarrow> is_change e" for e by (cases e) auto
  then show ?thesis unfolding changes_def filter_filter by (auto intro: filter_cong)
qed

lemma cleanups_changes: "filter is_cleanup evs = filter is_cleanup (changes evs)"
proof -
  have "is_cleanup e \<Longrightarrow> is_change e" for e by (cases e) auto
  then show ?thesis unfolding changes_def filter_filter by (auto intro: filter_cong)
qed

text \<open>
  What a publish may do at its target, whatever it answers: a clean-up only of a corrupted mount, one
  mount at most, and that right after a look which found nothing mounted there: the mount point check said
  so, or failed because the target does not exist, or failed otherwise and the corrupted mount behind it
  was cleaned up, or turned out not to be mounted.
\<close>

definition corrupted_seen :: "node_env \<Rightarrow> string \<Rightarrow> nhist \<Rightarrow> bool" where
  "corrupted_seen N target before \<longleftrightarrow> (\<exists>pathErr err rest.
     before = NPathExists target (Inl pathErr) # NIsLikelyNotMountPoint target (Inl err) # rest \<and>
     ne_IsCorruptedMnt N pathErr \<and> \<not> ne_IsNotExist N err)"

definition cleared :: "node_env \<Rightarrow> go_error option \<Rightarrow> bool" where
  "cleared N x \<longleftrightarrow> (case x of None \<Rightarrow> True | Some err \<Rightarrow> Contains (ne_text N err) ''not mounted'')"

definition looked :: "node_env \<Rightarrow> string \<Rightarrow> nhist \<Rightarrow> bool" where
  "looked N target before \<longleftrightarrow> (\<exists>rest.
     before = NIsLikelyNotMountPoint target (Inr True) # rest \<or>
     (\<exists>err. before = NIsLikelyNotMountPoint target (Inl err) # rest \<and> ne_IsNotExist N err) \<or>
     (\<exists>x. before = NCleanup target x # rest \<and> cleared N x \<and> corrupted_seen N target rest))"

definition cleaned :: "node_env \<Rightarrow> string \<Rightarrow> nhist \<Rightarrow> bool" where
  "cleaned N target evs \<longleftrightarrow> filter is_cleanup evs = [] \<or>
     (\<exists>x later before. evs = later @ NCleanup target x # before \<and>
        filter is_cleanup (later @ before) = [] \<and> corrupted_seen N target before)"

definition publish_done ::
    "node_env \<Rightarrow> string \<Rightarrow> (go_error option \<Rightarrow> nev) \<Rightarrow> unit reply \<Rightarrow> nhist \<Rightarrow> bool" where
  "publish_done N target mnt r evs \<longleftrightarrow> r \<noteq> Crashed \<and> r \<noteq> NilNil \<and> cleaned N target evs \<and>
     (filter is_mount evs = [] \<or>
      (\<exists>x later before. evs = later @ mnt x # before \<and> filter is_mount (later @ before) = [] \<and>
         looked N target before)) \<and>
     (r = Ok () \<longrightarrow>
        NIsLikelyNotMountPoint target (Inr False) \<in> set evs \<and> filter is_mount evs = [] \<or>
        mnt None \<in> set evs)"

lemma corrupted_seen_before: "corrupted_seen N t evs \<Longrightarrow> corrupted_seen N t (evs @ before)"
  by (auto simp: corrupted_seen_def)

lemma looked_before: "looked N t evs \<Longrightarrow> looked N t (evs @ before)"
  using corrupted_seen_before by (fastforce simp: looked_def)

lemma cleaned_around:
  "cleaned N t evs \<Longrightarrow> filter is_cleanup (later @ before) = [] \<Longrightarrow> cleaned N t (later @ evs @ before)"
proof -
  have "cleaned N t (later @ (l @ NCleanup t x # b) @ before)"
    if "filter is_cleanup (l @ b) = []" "filter is_cleanup (later @ before) = []" "corrupted_seen N t b" for l x b
    unfolding cleaned_def
    by (rule disjI2, rule exI [of _ x], rule exI [of _ "later @ l"], rule exI [of _ "b @ before"])
      (use that corrupted_seen_before in auto)
  then show "cleaned N t evs \<Longrightarrow> filter is_cleanup (later @ before) = [] \<Longrightarrow> cleaned N t (later @ evs @ before)"
    unfolding cleaned_def [of N t evs] by (auto simp: cleaned_def)
qed

lemma Unstage_does: "does (Unstage N t) (\<lambda>r evs. \<exists>x. evs = [NCleanup t x] \<and>
    (if r = None then cleared N x else r = x))"
  unfolding Unstage_def by (rule does_call, rule does_return) (fastforce simp: cleared_def split: option.splits)

definition mount_seen :: "node_env \<Rightarrow> string \<Rightarrow> csi_error + bool \<Rightarrow> nhist \<Rightarrow> bool" where
  "mount_seen N t r evs \<longleftrightarrow> filter is_mount evs = [] \<and> cleaned N t evs \<and>
     (r = Inr True \<longrightarrow> NIsLikelyNotMountPoint t (Inr False) \<in> set evs) \<and>
     (r = Inr False \<longrightarrow> looked N t evs)"

lemma isMounted_does: "does (isMounted N t) (mount_seen N t)"
proof -
  have seen: "does (do { u \<leftarrow> Unpublish N t;
       State_Monad.return (case u of Some mntErr \<Rightarrow> Inl (ErrCanNotUnmountTarget t mntErr) | None \<Rightarrow> Inr False) })
     (\<lambda>r evs. mount_seen N t r ((evs @ [NPathExists t (Inl e)]) @ [NIsLikelyNotMountPoint t (Inl e0)]))"
    if "ne_IsCorruptedMnt N e" "\<not> ne_IsNotExist N e0" for e e0
  proof -
    have c: "corrupted_seen N t [NPathExists t (Inl e), NIsLikelyNotMountPoint t (Inl e0)]"
      using that by (simp add: corrupted_seen_def)
    have "cleaned N t [NCleanup t x, NPathExists t (Inl e), NIsLikelyNotMountPoint t (Inl e0)]" for x
      unfolding cleaned_def by (rule disjI2, rule exI [of _ x], rule exI [of _ "[]"]) (simp add: c)
    moreover have "looked N t [NCleanup t x, NPathExists t (Inl e), NIsLikelyNotMountPoint t (Inl e0)]"
      if "cleared N x" for x
      using c that by (auto simp: looked_def)
    ultimately show ?thesis
      unfolding Unpublish_def
      by (intro does_bind [OF Unstage_does] does_return) (auto simp: mount_seen_def split: option.splits)
  qed
  show ?thesis
    unfolding isMounted_def IsLikelyNotMountPoint_def PathExists_def
    by (intro does_call, auto intro!: does_call does_return simp: mount_seen_def cleaned_def looked_def
        split: sum.split)
      (use seen in \<open>auto simp: mount_seen_def cleaned_def looked_def\<close>)
qed

lemma publish_done_before:
  assumes d: "publish_done N t mnt r later" and "filter is_mount before = []" "filter is_cleanup before = []"
  shows "publish_done N t mnt r (later @ before)"
proof -
  have "cleaned N t ([] @ later @ before)"
    using d assms(3) by (intro cleaned_around) (simp_all add: publish_done_def)
  moreover have "\<exists>x l b'. later @ before = l @ mnt x # b' \<and> filter is_mount (l @ b') = [] \<and> looked N t b'"
    if "later = l @ mnt x # b" "filter is_mount (l @ b) = []" "looked N t b" for x l b
    by (rule exI [of _ x], rule exI [of _ l], rule exI [of _ "b @ before"])
      (use that assms(2) looked_before in auto)
  ultimately show ?thesis
    using d assms(2) unfolding publish_done_def by auto
qed

lemma publish_fail:
  "cleaned N t evs \<Longrightarrow> filter is_mount evs = [] \<Longrightarrow> publish_done N t mnt (Fail e) evs"
  by (simp add: publish_done_def)

text \<open>After the look at the target: the mount, and for a block volume the removal of the target file.\<close>

lemma looked_then:
  assumes seen: "mount_seen N t (Inr False) before"
    and later: "filter is_mount later = []" "filter is_cleanup later = []" and mnt: "\<not> is_cleanup (mnt x)"
    and r: "r \<noteq> Crashed" "r \<noteq> NilNil" "r = Ok () \<Longrightarrow> x = None"
  shows "publish_done N t mnt r (later @ mnt x # before)"
proof -
  have "cleaned N t ((later @ [mnt x]) @ before @ [])"
    using seen later(2) mnt by (intro cleaned_around) (simp_all add: mount_seen_def)
  moreover have "\<exists>y l b. later @ mnt x # before = l @ mnt y # b \<and> filter is_mount (l @ b) = [] \<and> looked N t b"
    by (rule exI [of _ x], rule exI [of _ later], rule exI [of _ before])
      (use seen later(1) in \<open>auto simp: mount_seen_def\<close>)
  ultimately show ?thesis using r unfolding publish_done_def by auto
qed

lemma seen_answers:
  "mount_seen N t (Inl e) evs \<Longrightarrow> publish_done N t mnt (Fail err) evs"
  "mount_seen N t (Inr True) evs \<Longrightarrow> publish_done N t mnt (Ok ()) evs"
  "mount_seen N t (Inr False) evs \<Longrightarrow> publish_done N t mnt (Fail err) evs"
  by (simp_all add: mount_seen_def publish_done_def)

lemma block_mount_does:
  "does (block_mount N d t os) (publish_done N t (NMount d t '''' os))"
  unfolding block_mount_def
proof (rule does_bind [OF isMounted_does], goal_cases)
  case (1 r evs)
  show ?case
  proof (cases "r = Inr False")
    case False
    with 1 show ?thesis
      by (cases r) (auto intro!: does_return intro: seen_answers)
  next
    case True
    with 1 have seen: "mount_seen N t (Inr False) evs" by simp
    note then_mount = looked_then [OF seen, where mnt = "NMount d t '''' os"]
    have "does (case m of None \<Rightarrow> State_Monad.return (Ok ())
        | Some err \<Rightarrow> do {
            x \<leftarrow> RemoveFile N t;
            State_Monad.return
              (case x of Some removeErr \<Rightarrow> Fail (ErrCanNotRemoveMountTarget t removeErr)
               | None \<Rightarrow> Fail (ErrCanNotMountAtTarget d t err)) })
        (\<lambda>r' evs'. publish_done N t (NMount d t '''' os) r' ((evs' @ [NMount d t '''' os m]) @ evs))" for m
    proof (cases m)
      case None
      then show ?thesis
        using then_mount [of "[]" None "Ok ()"] by (auto intro!: does_return)
    next
      case (Some err)
      have "publish_done N t (NMount d t '''' os) (Fail e) ([NRemove t x] @ NMount d t '''' os m # evs)" for e x
        by (rule then_mount) simp_all
      with Some show ?thesis unfolding RemoveFile_def
        by (auto intro!: does_call does_return split: option.split)
    qed
    with True show ?thesis unfolding MountFs_def by (auto intro!: does_call)
  qed
qed

lemma MakeFile_does:
  "does (MakeFile N p) (\<lambda>r evs. filter is_mount evs = [] \<and> filter is_cleanup evs = [])"
  unfolding MakeFile_def by (auto intro!: does_call does_return does_os_call split: option.split)

lemma RemoveFile_does: "does (RemoveFile N p) (\<lambda>r evs. evs = [NRemove p r])"
  unfolding RemoveFile_def by (auto intro!: does_os_call)

lemma block_target_does:
  "does (block_target N d t os) (publish_done N t (NMount d t '''' os))"
  unfolding block_target_def
proof (rule does_bind [OF MakeFile_does], goal_cases)
  case (1 r evs)
  have mounted: "does (block_mount N d t os) (\<lambda>r' evs'. publish_done N t (NMount d t '''' os) r' (evs' @ evs))"
    by (rule does_mono [OF block_mount_does]) (use 1 in \<open>auto intro: publish_done_before\<close>)
  have removed: "publish_done N t (NMount d t '''' os) (Fail e) (NRemove t x # evs)" for e x
    using 1 by (intro publish_fail) (simp_all add: cleaned_def)
  show ?case
  proof (cases r)
    case None
    with mounted show ?thesis by simp
  next
    case (Some err)
    then show ?thesis unfolding RemoveFile_def
      by (auto intro!: does_call does_return removed split: option.split)
  qed
qed

definition quiet_calls :: "nhist \<Rightarrow> bool" where
  "quiet_calls evs \<longleftrightarrow> filter is_mount evs = [] \<and> filter is_cleanup evs = []"

lemma quiet_calls_simps [simp]:
  "quiet_calls []" "quiet_calls (e # evs) = (\<not> is_mount e \<and> \<not> is_cleanup e \<and> quiet_calls evs)"
  "quiet_calls (evs @ evs') = (quiet_calls evs \<and> quiet_calls evs')"
  by (auto simp: quiet_calls_def)

lemma no_changes_quiet: "changes evs = [] \<Longrightarrow> quiet_calls evs"
  unfolding quiet_calls_def by (simp add: mounts_changes [of evs] cleanups_changes [of evs])

lemma publish_fail_quiet: "quiet_calls evs \<Longrightarrow> publish_done N t mnt (Fail e) evs"
  by (rule publish_fail) (simp_all add: quiet_calls_def cleaned_def)

lemma publish_later_quiet:
  "publish_done N t mnt r later \<Longrightarrow> quiet_calls before \<Longrightarrow> publish_done N t mnt r (later @ before)"
  unfolding quiet_calls_def by (blast intro: publish_done_before)

definition block_post :: "node_env \<Rightarrow> publish_request \<Rightarrow> string list \<Rightarrow> unit reply \<Rightarrow> nhist \<Rightarrow> bool" where
  "block_post N req os r evs \<longleftrightarrow>
     quiet_calls evs \<and> ((\<exists>e. r = Fail e) \<or>
       r = Crashed \<and> (\<exists>v. pq_PublishContext req DevicePathKey = Some v \<and> length v < 20)) \<or>
     (\<exists>v d. pq_PublishContext req DevicePathKey = Some v \<and> device_seen v d evs \<and>
        publish_done N (pq_TargetPath req) (NMount d (pq_TargetPath req) '''' os) r evs)"

lemma publish_block_does:
  assumes "node_wait_ok N"
  shows "does (nodePublishVolumeForBlock N req os) (block_post N req os)"
proof (cases "pq_PublishContext req DevicePathKey")
  case None
  then show ?thesis
    by (auto intro!: does_return simp: nodePublishVolumeForBlock_def Let_def block_post_def)
next
  case (Some v)
  let ?t = "pq_TargetPath req"
  let ?dir = "Dir ?t" and ?done = "\<lambda>d. publish_done N ?t (NMount d ?t '''' os)"
  have target: "does (block_target N d ?t os) (\<lambda>r' evs'. ?done d r' (evs' @ evs))"
    if "quiet_calls evs" for d evs
    by (rule does_mono [OF block_target_does]) (use that in \<open>auto intro: publish_later_quiet\<close>)
  have prepared: "does (do {
       e \<leftarrow> PathExists N ?dir;
       (case e of
          Inl err \<Rightarrow> State_Monad.return (Fail (ErrFailedToCheckPathExists ?dir err))
        | Inr exists \<Rightarrow>
            if exists then block_target N d ?t os
            else do {
              x \<leftarrow> MakeDir N ?dir;
              (case x of
                 Some err \<Rightarrow> State_Monad.return (Fail (ErrCanNotCreateTargetDir ?dir err))
               | None \<Rightarrow> block_target N d ?t os)
            })
     }) (?done d)" for d
    unfolding PathExists_def
  proof (rule does_call, goal_cases)
    case (1 e)
    have made: "does (do { x \<leftarrow> MakeDir N ?dir;
          (case x of Some err \<Rightarrow> State_Monad.return (Fail (ErrCanNotCreateTargetDir ?dir err))
           | None \<Rightarrow> block_target N d ?t os) }) (\<lambda>r evs. ?done d r (evs @ [NPathExists ?dir e]))"
    proof (rule does_bind [OF MakeDir_does], goal_cases)
      case (1 r evs)
      then have q: "quiet_calls (evs @ [NPathExists ?dir e])" by auto
      show ?case
        using target [OF q] q by (cases r) (auto intro!: does_return publish_fail_quiet)
    qed
    with target [of "[NPathExists ?dir e]"] show ?case
      by (cases e) (auto intro!: does_return publish_fail_quiet)
  qed
  show ?thesis
  proof (cases "isValidVolumeContext (pq_VolumeContext req)")
    case False
    with Some show ?thesis
      by (auto intro!: does_return simp: nodePublishVolumeForBlock_def Let_def block_post_def)
  next
    case True
    then show ?thesis
      unfolding nodePublishVolumeForBlock_def Let_def Some option.case
    proof (simp only: not_True_eq_False if_False, intro does_bind [OF getDevicePath_does [OF assms]], goal_cases)
      case (1 r evs)
      have q: "quiet_calls evs" using 1 by (intro no_changes_quiet) simp
      have "does m (\<lambda>r' evs'. block_post N req os r' (evs' @ evs))"
        if "does m (?done d)" and "device_seen v d evs" for m d
        by (rule does_mono [OF that(1)])
          (use that(2) q Some in \<open>auto simp: block_post_def intro: publish_later_quiet device_seen_later\<close>)
      with 1 q prepared Some show ?case
        by (auto intro!: does_return simp: block_post_def split: go.splits sum.splits)
    qed
  qed
qed

lemma filesystem_mount_does:
  "does (filesystem_mount N d t fs os) (publish_done N t (NMount d t fs (collectMountOptions fs os)))"
  unfolding filesystem_mount_def
proof (rule does_bind [OF isMounted_does], goal_cases)
  case (1 r evs)
  show ?case
  proof (cases "r = Inr False")
    case False
    with 1 show ?thesis
      by (cases r) (auto intro!: does_return intro: seen_answers)
  next
    case True
    with 1 have seen: "mount_seen N t (Inr False) evs" by simp
    show ?thesis
    proof (cases "ToLower fs \<in> ValidFSTypes")
      case False
      with True seen show ?thesis by (auto intro!: does_return seen_answers)
    next
      case valid: True
      have "publish_done N t (NMount d t fs (collectMountOptions fs os))
          (case x of Some err \<Rightarrow> Fail (ErrCanNotMountAtTarget d t err) | None \<Rightarrow> Ok ())
          ([] @ NMount d t fs (collectMountOptions fs os) x # evs)" for x
        by (rule looked_then [OF seen]) (auto split: option.splits)
      with True valid show ?thesis unfolding MountFs_def
        by (auto intro!: does_call does_return)
    qed
  qed
qed

text \<open>The options a publish of a file system passes on, before those of the file system.\<close>

definition publish_flags :: "publish_request \<Rightarrow> mount_volume option \<Rightarrow> string list" where
  "publish_flags req m = add_mount_options (if pq_Readonly req then [''bind'', ''ro''] else [''bind''])
     (case m of None \<Rightarrow> [] | Some mv \<Rightarrow> mv_MountFlags mv)"

lemma publish_filesystem_does:
  "does (nodePublishVolumeForFileSystem N req (if pq_Readonly req then [''bind'', ''ro''] else [''bind'']) m)
    (publish_done N (pq_TargetPath req)
      (NMount (pq_StagingTargetPath req) (pq_TargetPath req) (requested_fsType m)
         (collectMountOptions (requested_fsType m) (publish_flags req m))))"
  unfolding nodePublishVolumeForFileSystem_def Let_def
proof (rule does_bind [where P = "\<lambda>r evs. quiet_calls evs"], goal_cases)
  case 1
  show ?case unfolding preparePublishTarget_def
    by (rule does_bind [OF MakeDir_does]) (auto intro!: does_return)
next
  case (2 r evs)
  let ?os = "if pq_Readonly req then [''bind'', ''ro''] else [''bind'']"
  let ?os' = "case m of None \<Rightarrow> ?os | Some mv \<Rightarrow> add_mount_options ?os (mv_MountFlags mv)"
  have flags: "?os' = publish_flags req m"
    unfolding publish_flags_def by (cases m) simp_all
  show ?case
  proof (cases r)
    case None
    have "does (filesystem_mount N d t fs os)
        (\<lambda>r evs'. publish_done N t (NMount d t fs (collectMountOptions fs os)) r (evs' @ evs))" for d t fs os
      by (rule does_mono [OF filesystem_mount_does]) (rule publish_later_quiet [OF _ 2])
    with None show ?thesis unfolding flags by simp
  next
    case (Some err)
    with 2 show ?thesis by (auto intro!: does_return publish_fail_quiet)
  qed
qed

definition node_publish_post :: "node_env \<Rightarrow> publish_request \<Rightarrow> unit reply \<Rightarrow> nhist \<Rightarrow> bool" where
  "node_publish_post N req r evs \<longleftrightarrow>
     quiet_calls evs \<and> ((\<exists>e. r = Fail e) \<or>
       r = Crashed \<and> (\<exists>v. pq_PublishContext req DevicePathKey = Some v \<and> length v < 20)) \<or>
     (\<exists>c. pq_Capability req = Some c \<and> isValidCapability c \<and>
        (case cap_type c of
           NoAccessType \<Rightarrow> r = Ok () \<and> evs = []
         | Block \<Rightarrow> (\<exists>v d. pq_PublishContext req DevicePathKey = Some v \<and> device_seen v d evs \<and>
             publish_done N (pq_TargetPath req)
               (NMount d (pq_TargetPath req) '''' (if pq_Readonly req then [''bind'', ''ro''] else [''bind'']))
               r evs)
         | MountOf m \<Rightarrow> publish_done N (pq_TargetPath req)
             (NMount (pq_StagingTargetPath req) (pq_TargetPath req) (requested_fsType m)
                (collectMountOptions (requested_fsType m) (publish_flags req m))) r evs))"

lemma NodePublishVolume_does:
  assumes "node_wait_ok N"
  shows "does (NodePublishVolume N req) (node_publish_post N req)"
proof -
  let ?os = "if pq_Readonly req then [''bind'', ''ro''] else [''bind'']"
  have none: "does (State_Monad.return (Fail e)) (node_publish_post N req)" for e
    by (rule does_return) (simp add: node_publish_post_def)
  have busy: "node_publish_post N req (Fail e) []" for e by (simp add: node_publish_post_def)
  have body: "does (case cap_type c of
        Block \<Rightarrow> nodePublishVolumeForBlock N req ?os
      | MountOf m \<Rightarrow> nodePublishVolumeForFileSystem N req ?os m
      | NoAccessType \<Rightarrow> State_Monad.return (Ok ())) (node_publish_post N req)"
    if c: "pq_Capability req = Some c" "isValidCapability c" for c
  proof (cases "cap_type c")
    case Block
    then show ?thesis unfolding Block access_type.case
      by (intro does_mono [OF publish_block_does [OF assms]])
        (use c Block in \<open>auto simp: block_post_def node_publish_post_def\<close>)
  next
    case (MountOf m)
    then show ?thesis unfolding MountOf access_type.case
      by (intro does_mono [OF publish_filesystem_does]) (use c MountOf in \<open>auto simp: node_publish_post_def\<close>)
  next
    case NoAccessType
    with c show ?thesis by (auto intro!: does_return simp: node_publish_post_def)
  qed
  show ?thesis
  proof (cases "pq_Capability req")
    case None
    with none show ?thesis by (simp add: NodePublishVolume_def)
  next
    case (Some c)
    have "does (node_guarded (pq_VolumeId req) b m) (node_publish_post N req)"
      if "does m (node_publish_post N req)" for b m
      by (rule node_guarded_does [OF that busy])
    with Some body none show ?thesis
      by (simp only: NodePublishVolume_def Let_def option.case isValidVolumeCapabilities.simps)
        (simp del: case_prod_conv split: if_split)
  qed
qed

text \<open>C15: A publish mounts at most once, at the request's target, and only right after a look that found
nothing mounted there: the mount point check answered so, or failed because the target does not exist, or
failed otherwise, the path turned out to be a corrupted mount and cleaning it up succeeded or said that nothing
was mounted. A block volume is mounted from a device found under one of its names, a file system
from the staging path with the bind option first, read-only when asked for, and no option twice. It
cleans the target up at most once and only right after it saw the corrupted mount, and answers success only
when the check found the target mounted, and then mounts nothing, or the mount succeeded (or the capability names no access type, when it does nothing).\<close>

theorem node_publish_safe:
  assumes "node_wait_ok N"
  shows "wp (NodePublishVolume N req) (\<lambda>r t. \<exists>evs. trace s evs t \<and> node_publish_post N req r evs) s"
  by (rule doesD [OF NodePublishVolume_does [OF assms]])

theorem node_publish_safe_witness:
  "wp (NodePublishVolume sample_node sample_publish) (\<lambda>r t.
     \<exists>evs. trace node_start evs t \<and> node_publish_post sample_node sample_publish r evs) node_start"
  by (rule node_publish_safe [OF sample_node_ok])

section \<open>Unstaging, unpublishing, resizing\<close>

text \<open>The mount is gone: the clean-up succeeded, or its error says that nothing was mounted.\<close>

definition unmounted :: "node_env \<Rightarrow> string \<Rightarrow> nhist \<Rightarrow> bool" where
  "unmounted N target evs \<longleftrightarrow> (\<exists>x. NCleanup target x \<in> set evs \<and>
     (case x of None \<Rightarrow> True | Some err \<Rightarrow> Contains (ne_text N err) ''not mounted''))"

definition unmount_done :: "node_env \<Rightarrow> string \<Rightarrow> unit reply \<Rightarrow> nhist \<Rightarrow> bool" where
  "unmount_done N target r evs \<longleftrightarrow> r \<noteq> Crashed \<and> r \<noteq> NilNil \<and>
     (changes evs = [] \<or> (\<exists>x. changes evs = [NCleanup target x])) \<and>
     (r = Ok () \<longrightarrow> unmounted N target evs \<or>
        changes evs = [] \<and> (\<exists>d. NDeviceName target (Inr (d, 0)) \<in> set evs))"

lemma Unstage_answers:
  "does (Unstage N t) (\<lambda>r evs. \<exists>x. evs = [NCleanup t x] \<and> (r = None \<longrightarrow> unmounted N t evs))"
  unfolding Unstage_def
  by (rule does_call, rule does_return) (fastforce simp: unmounted_def split: option.splits if_splits)

lemma unmount_fail: "changes evs = [] \<Longrightarrow> unmount_done N t (Fail e) evs"
  by (simp add: unmount_done_def)

lemma unmount_done_zero: "unmount_done N t (Ok ()) [NDeviceName t (Inr (d, 0))]"
  by (simp add: unmount_done_def)

lemma unmount_does:
  "does (do { u \<leftarrow> Unstage N t;
     State_Monad.return (case u of Some err \<Rightarrow> Fail (ErrCanNotUnmountTarget t err) | None \<Rightarrow> Ok ()) })
   (unmount_done N t)"
  by (rule does_bind [OF Unstage_answers])
    (auto intro!: does_return simp: unmount_done_def split: option.splits)

lemma unstage_body_does: "does (unstage_body N t) (unmount_done N t)"
  unfolding unstage_body_def GetDeviceNameFromMount_def
proof (rule does_call, goal_cases)
  case (1 x)
  have "does (do { u \<leftarrow> Unstage N t;
     State_Monad.return (case u of Some err \<Rightarrow> Fail (ErrCanNotUnmountTarget t err) | None \<Rightarrow> Ok ()) })
     (\<lambda>r evs. unmount_done N t r (evs @ [NDeviceName t y]))" for y
    by (rule does_mono [OF unmount_does]) (auto simp: unmount_done_def unmounted_def)
  then show ?case
    by (intro does_branch) (auto intro: does_return simp: unmount_fail unmount_done_zero)
qed


text \<open>What an expansion did: the device \<open>findmnt\<close> printed was resized at the path.\<close>

definition source_of :: "string \<Rightarrow> string \<Rightarrow> nhist \<Rightarrow> bool" where
  "source_of volumePath d evs \<longleftrightarrow> d \<noteq> '''' \<and>
     (\<exists>out. NCommand ''findmnt''
        [''-o'', ''source'', ''--first-only'', ''--noheadings'', ''--target'', volumePath] out None
        \<in> set evs \<and> d = TrimSpace out)"

definition resized_at :: "string \<Rightarrow> int64 reply \<Rightarrow> nhist \<Rightarrow> bool" where
  "resized_at volumePath r evs \<longleftrightarrow> (\<exists>d x. changes evs = [NResize d volumePath x] \<and> source_of volumePath d evs \<and>
     ((\<exists>e. r = Fail e) \<or> (\<exists>n. r = Ok n \<and> x = None \<and> printed_size d n evs)))"

text \<open>
  A block volume: the capability says so, or, without a capability, the first call of the handler found a
  block device at the path. A file system likewise.
\<close>

definition first_stat :: "string \<Rightarrow> (32 word \<Rightarrow> bool) \<Rightarrow> nhist \<Rightarrow> bool" where
  "first_stat p P evs \<longleftrightarrow> (\<exists>later mode. evs = later @ [NStat p (Inr mode)] \<and> P mode)"

definition on_block :: "capability option \<Rightarrow> string \<Rightarrow> nhist \<Rightarrow> bool" where
  "on_block c p evs \<longleftrightarrow> (case c of Some b \<Rightarrow> isBlock b
     | None \<Rightarrow> first_stat p (\<lambda>mode. (mode AND S_IFMT) = S_IFBLK) evs)"

definition on_filesystem :: "capability option \<Rightarrow> string \<Rightarrow> nhist \<Rightarrow> bool" where
  "on_filesystem c p evs \<longleftrightarrow> (case c of Some b \<Rightarrow> isValidCapability b \<and> \<not> isBlock b
     | None \<Rightarrow> first_stat p (\<lambda>mode. (mode AND S_IFMT) \<noteq> S_IFBLK) evs)"

definition expand_done :: "capability option \<Rightarrow> string \<Rightarrow> int64 reply \<Rightarrow> nhist \<Rightarrow> bool" where
  "expand_done c volumePath r evs \<longleftrightarrow>
     changes evs = [] \<and> (\<exists>e. r = Fail e) \<or>
     on_block c volumePath evs \<and> changes evs = [] \<and>
       (if c = None then \<exists>n. r = Ok n \<and> printed_size volumePath n evs else evs = [] \<and> r = Ok 0) \<or>
     on_filesystem c volumePath evs \<and> resized_at volumePath r evs"

definition filesystem_done :: "string \<Rightarrow> int64 reply \<Rightarrow> nhist \<Rightarrow> bool" where
  "filesystem_done volumePath r evs \<longleftrightarrow>
     changes evs = [] \<and> (\<exists>e. r = Fail e) \<or> resized_at volumePath r evs"

lemma expand_fail: "changes evs = [] \<Longrightarrow> expand_done c p (Fail e) evs"
  by (simp add: expand_done_def)

lemma filesystem_fail: "changes evs = [] \<Longrightarrow> filesystem_done p (Fail e) evs"
  by (simp add: filesystem_done_def)

lemma filesystem_done_later:
  "filesystem_done p r evs' \<Longrightarrow> changes evs = [] \<Longrightarrow> on_filesystem c p (evs' @ evs) \<Longrightarrow>
    expand_done c p r (evs' @ evs)"
proof -
  have "source_of p d evs' \<Longrightarrow> source_of p d (evs' @ evs)"
    and "printed_size d n evs' \<Longrightarrow> printed_size d n (evs' @ evs)" for d n
    unfolding source_of_def printed_size_def by auto
  then have "resized_at p r evs' \<Longrightarrow> changes evs = [] \<Longrightarrow> resized_at p r (evs' @ evs)"
    unfolding resized_at_def changes_simps by fastforce
  then show "filesystem_done p r evs' \<Longrightarrow> changes evs = [] \<Longrightarrow> on_filesystem c p (evs' @ evs) \<Longrightarrow>
      expand_done c p r (evs' @ evs)"
    unfolding filesystem_done_def expand_done_def by auto
qed

lemma expand_filesystem_does: "does (expand_filesystem N v p) (filesystem_done p)"
  unfolding expand_filesystem_def GetMountFs_def exec_command_def
proof (rule does_call, goal_cases)
  case (1 out)
  let ?find = "NCommand ''findmnt''
    [''-o'', ''source'', ''--first-only'', ''--noheadings'', ''--target'', p] (fst out) (snd out)"
  let ?d = "TrimSpace (fst out)"
  show ?case
  proof (cases "snd out = None \<and> ?d \<noteq> ''''")
    case False
    then show ?thesis by (cases "snd out") (auto intro!: does_return filesystem_fail simp: Let_def)
  next
    case True
    then have src: "source_of p ?d (evs @ [?find])" for evs
      by (auto simp: source_of_def)
    have size: "does (do { z \<leftarrow> getBlockSizeBytes N ?d;
        State_Monad.return (case z of
            Inl err \<Rightarrow> Fail (StatusInternal (''failed to get block capacity on path '' @ p @ '': '' @ ne_text N err))
          | Inr bcap \<Rightarrow> Ok bcap) })
      (\<lambda>r evs. filesystem_done p r (evs @ [NResize ?d p None, ?find]))"
    proof (rule does_bind [OF getBlockSizeBytes_does], rule does_return, goal_cases)
      case (1 z evs)
      have "source_of p ?d (evs @ [NResize ?d p None, ?find])" using src [of "evs @ [NResize ?d p None]"] by simp
      moreover have "printed_size ?d n (evs @ [NResize ?d p None, ?find])" if "printed_size ?d n evs" for n
        using that unfolding printed_size_def by auto
      ultimately show ?case using 1 by (auto simp: filesystem_done_def resized_at_def split: sum.splits)
    qed
    have "does (case r of
         Some err \<Rightarrow> State_Monad.return (Fail (e0 err))
       | None \<Rightarrow> do { z \<leftarrow> getBlockSizeBytes N ?d;
           State_Monad.return (case z of
               Inl err \<Rightarrow> Fail (StatusInternal (''failed to get block capacity on path '' @ p @ '': '' @ ne_text N err))
             | Inr bcap \<Rightarrow> Ok bcap) })
      (\<lambda>r' evs. filesystem_done p r' ((evs @ [NResize ?d p r]) @ [?find]))" for r e0
    proof (cases r)
      case None
      with size show ?thesis by simp
    next
      case (Some err)
      have "source_of p ?d [NResize ?d p (Some err), ?find]" using src [of "[NResize ?d p (Some err)]"] by simp
      with Some show ?thesis by (auto intro!: does_return simp: filesystem_done_def resized_at_def)
    qed
    with True show ?thesis
      unfolding NewResizeFs_def Resize_def by (auto intro!: does_call simp: Let_def)
  qed
qed

text \<open>C19: A node expansion of a block volume changes nothing: with a capability that says block it makes no call
at all and answers 0, and without a capability, when the first call found a block device at the path, it
answers the size blockdev printed for the path. An expansion of a file system makes at most one resize, of the
device findmnt names as the source of the path, at that path, and answers success only after that resize
succeeded, with the size blockdev printed for that device. Everything else is an error before any change. It
never panics.\<close>

theorem node_expand_safe:
  "wp (NodeExpandVolume N v p c) (\<lambda>r t. r \<noteq> Crashed \<and> r \<noteq> NilNil \<and>
    (\<exists>evs. trace s evs t \<and> expand_done c p r evs)) s"
proof -
  have none: "does (State_Monad.return (Fail e)) (expand_done c p)" for e
    by (rule does_return) (rule expand_fail, simp)
  have zero: "does (State_Monad.return (Ok 0)) (expand_done c p)" if "c = Some b" "isBlock b" for b
    by (rule does_return) (use that in \<open>auto simp: expand_done_def on_block_def\<close>)
  have direct: "does (expand_filesystem N v p) (expand_done c p)"
    if "c = Some b" "\<not> \<not> isValidVolumeCapabilities [b]" "\<not> isBlock b" for b
    by (rule does_mono [OF expand_filesystem_does])
      (use filesystem_done_later [where evs = "[]" and c = c] that in
        \<open>auto simp: on_filesystem_def split: if_splits\<close>)
  have size: "does (do { z \<leftarrow> getBlockSizeBytes N p;
        State_Monad.return (case z of Inl err \<Rightarrow> Fail (g err) | Inr bcap \<Rightarrow> Ok bcap) })
      (\<lambda>r evs. expand_done c p r (evs @ [NStat p (Inr mode)]))"
    if "c = None" "(mode AND S_IFMT) = S_IFBLK" for g mode
  proof (rule does_bind [OF getBlockSizeBytes_does], rule does_return, goal_cases)
    case (1 z evs)
    have "printed_size p n (evs @ [NStat p (Inr mode)])" if "printed_size p n evs" for n
      using that unfolding printed_size_def by auto
    moreover have "on_block c p (evs @ [NStat p (Inr mode)])"
      using that by (auto simp: on_block_def first_stat_def)
    ultimately show ?case using 1 that by (auto simp: expand_done_def split: sum.splits)
  qed
  have fs: "does (expand_filesystem N v p) (\<lambda>r evs. expand_done c p r (evs @ [NStat p (Inr mode)]))"
    if "c = None" "(mode AND S_IFMT) \<noteq> S_IFBLK" for mode
    by (rule does_mono [OF expand_filesystem_does], rule filesystem_done_later)
      (use that in \<open>auto simp: on_filesystem_def first_stat_def\<close>)
  have asked: "does (do { b \<leftarrow> IsBlockDevice N p;
       (case b of Inl err \<Rightarrow> State_Monad.return (Fail (g0 err))
        | Inr ibv \<Rightarrow>
            if ibv then do { z \<leftarrow> getBlockSizeBytes N p;
               State_Monad.return (case z of Inl err \<Rightarrow> Fail (g err) | Inr bcap \<Rightarrow> Ok bcap) }
            else expand_filesystem N v p) }) (expand_done c p)" if "c = None" for g0 g
  proof (rule does_bind [OF IsBlockDevice_first], goal_cases)
    case (1 r evs)
    then show ?case
      by (cases r) (auto intro!: does_return expand_fail size fs that split: if_split)
  qed
  have "does (NodeExpandVolume N v p c) (expand_done c p)"
    unfolding NodeExpandVolume_def
    by (intro does_if does_option none zero asked direct)
  from doesD [OF this] show ?thesis
    by (rule wp_mono) (auto simp: expand_done_def resized_at_def split: if_splits)
qed

end
