(* ===== verification/NodeMounts.thy ===== *)
theory NodeMounts
  imports NodeSpec
begin

text \<open>
  Runs of node RPCs against the mount table of \<open>NodeMachine\<close>. A run of RPCs stacks mounts at a publish
  target only where the machine's answer to a look missed a mount that was there; staging has no such guard,
  because it compares the name of a link with the name in the table.
\<close>

section \<open>Targets that stay unstacked\<close>

definition mounts_at :: "string \<Rightarrow> nev \<Rightarrow> bool" where
  "mounts_at t e \<longleftrightarrow> (\<exists>d f os. e = NMount d t f os None) \<or>
     (\<exists>d f os fos. e = NFormatAndMount d t f os fos None)"

lemma depth_le: "\<not> mounts_at t e \<Longrightarrow> depth t (e # h) \<le> depth t h"
  by (induction t "e # h" rule: depth.induct) (auto simp: mounts_at_def)

text \<open>
  A look that missed a mount: at a target where something is mounted, the mount point check answered that
  nothing is mounted or that the target does not exist, or a failing clean-up claimed that nothing was mounted.
  (\<^verbatim>\<open>IsLikelyNotMountPoint\<close> is documented not to detect every bind mount.)
\<close>

fun denies_mount :: "node_env \<Rightarrow> string \<Rightarrow> nev \<Rightarrow> bool" where
  "denies_mount N t (NIsLikelyNotMountPoint t' (Inr b)) = (t' = t \<and> b)"
| "denies_mount N t (NIsLikelyNotMountPoint t' (Inl err)) = (t' = t \<and> ne_IsNotExist N err)"
| "denies_mount N t (NCleanup t' (Some err)) = (t' = t \<and> Contains (ne_text N err) ''not mounted'')"
| "denies_mount N t _ = False"

fun missed :: "node_env \<Rightarrow> string \<Rightarrow> nhist \<Rightarrow> bool" where
  "missed N t [] = False"
| "missed N t (e # h) = (denies_mount N t e \<and> 0 < depth t h \<or> missed N t h)"

lemma missed_append: "missed N t h \<Longrightarrow> missed N t (evs @ h)"
  by (induction evs) auto

definition shallow :: "node_env \<Rightarrow> string \<Rightarrow> nat \<Rightarrow> nstate \<Rightarrow> bool" where
  "shallow N t n s \<longleftrightarrow> depth t (nd_hist s) \<le> n \<or> missed N t (nd_hist s)"

text \<open>\<open>unstacked N t\<close>: no step takes the target \<open>t\<close> from at most one mount to more, unless a look missed one.\<close>

definition unstacked :: "node_env \<Rightarrow> string \<Rightarrow> nstate \<Rightarrow> nstate \<Rightarrow> bool" where
  "unstacked N t s s' \<longleftrightarrow> (shallow N t 1 s \<longrightarrow> shallow N t 1 s')"

interpretation us: state_frame "unstacked N t" for N t
  by unfold_locales (auto simp: unstacked_def)

lemmas [frames] = us.keeps_return us.keeps_bind

lemma keeps_os_call [frames]:
  "(\<And>x. \<not> mounts_at t (ev x)) \<Longrightarrow> keeps (unstacked N t) (os_call ask ev)"
  by (rule keepsI) (auto simp: os_call_def Let_def unstacked_def shallow_def intro: order_trans [OF depth_le])

lemma keeps_node_guarded [frames]:
  assumes "keeps (unstacked N t) body"
  shows "keeps (unstacked N t) (node_guarded key busy body)"
proof (rule keepsI)
  fix s
  show "wp (node_guarded key busy body) (\<lambda>_. unstacked N t s) s"
  proof (cases "key \<in> dom (nd_inflight s)")
    case True
    then show ?thesis by (simp add: node_guarded_busy wp_def us.R_refl)
  next
    case False
    have "wp body (\<lambda>_. unstacked N t (s\<lparr>nd_inflight := (nd_inflight s)(key \<mapsto> True)\<rparr>))
        (s\<lparr>nd_inflight := (nd_inflight s)(key \<mapsto> True)\<rparr>)"
      by (rule keepsD [OF assms])
    with False show ?thesis
      by (auto simp: node_guarded_def wp_def with_inflight_free unstacked_def shallow_def split: prod.splits)
  qed
qed

lemma depth_changes: "depth t (evs @ h) \<le> depth t h" if "changes evs = []"
  using that
proof (induction evs)
  case Nil
  then show ?case by simp
next
  case (Cons e evs)
  then have "\<not> mounts_at t e" and "changes evs = []" by (auto simp: mounts_at_def split: if_splits)
  with Cons.IH depth_le [of t e "evs @ h"] show ?case by simp
qed

lemma keeps_getDevicePath [frames]:
  assumes "node_wait_ok N"
  shows "keeps (unstacked N t) (getDevicePath N v)"
proof (rule keepsI, rule wp_mono [OF doesD [OF getDevicePath_does [OF assms]]])
  fix s r s'
  assume "\<exists>evs. trace s evs s' \<and> changes evs = [] \<and> (case r of Panic \<Rightarrow> length v < 20
    | Return (Inl _) \<Rightarrow> True | Return (Inr d) \<Rightarrow> device_seen v d evs)"
  then show "unstacked N t s s'"
    using depth_changes [of _ t "nd_hist s"] missed_append [of N t "nd_hist s"]
    by (fastforce simp: trace_def unstacked_def shallow_def)
qed

section \<open>The look at the target\<close>

lemma isMounted_depth:
  "wp (isMounted N tg) (\<lambda>r s'. \<forall>t. unstacked N t s s' \<and>
    (r = Inr False \<longrightarrow> shallow N tg 1 s \<longrightarrow> shallow N tg 0 s')) s"
  by (auto simp: isMounted_def IsLikelyNotMountPoint_def PathExists_def Unpublish_def Unstage_def
      os_call_def Let_def unstacked_def shallow_def split: sum.splits option.splits)

lemma keeps_isMounted [frames]: "keeps (unstacked N t) (isMounted N tg)"
  by (rule keepsI, rule wp_mono [OF isMounted_depth]) auto

section \<open>Handlers keep publish targets unstacked\<close>

lemma keeps_mount_after_look:
  assumes step: "\<And>m. keeps (unstacked N t) (after m)"
  shows "keeps (unstacked N t) (do {
     b \<leftarrow> isMounted N tg;
     (case b of
        Inl err \<Rightarrow> State_Monad.return (bad err)
      | Inr mounted \<Rightarrow>
          if mounted then State_Monad.return yes
          else if refuse then State_Monad.return no
          else do { m \<leftarrow> MountFs N d tg f os; after m }) })"
proof (rule keepsI)
  fix s
  have mount: "wp (do { m \<leftarrow> MountFs N d tg f os; after m }) (\<lambda>_ u. unstacked N t s u) s1"
    if u: "unstacked N t s s1" and zero: "shallow N tg 1 s \<longrightarrow> shallow N tg 0 s1" for s1
  proof -
    have "wp (MountFs N d tg f os) (\<lambda>_ u. unstacked N t s u) s1"
    proof (cases "tg = t")
      case True
      with zero u show ?thesis
        by (cases "mu_Mount N (nd_hist s1) d tg f os")
          (auto simp: MountFs_def os_call_def Let_def unstacked_def shallow_def)
    next
      case False
      with u show ?thesis
        by (cases "mu_Mount N (nd_hist s1) d tg f os")
          (auto simp: MountFs_def os_call_def Let_def unstacked_def shallow_def)
    qed
    then show ?thesis unfolding wp_bind
      by (rule wp_mono) (rule wp_mono [OF keepsD [OF step]], rule us.R_trans)
  qed
  show "wp (do {
     b \<leftarrow> isMounted N tg;
     (case b of
        Inl err \<Rightarrow> State_Monad.return (bad err)
      | Inr mounted \<Rightarrow>
          if mounted then State_Monad.return yes
          else if refuse then State_Monad.return no
          else do { m \<leftarrow> MountFs N d tg f os; after m }) }) (\<lambda>_. unstacked N t s) s"
    unfolding wp_bind
  proof (rule wp_mono [OF isMounted_depth], goal_cases)
    case (1 r s1)
    then have u: "unstacked N t s s1" and zero: "r = Inr False \<Longrightarrow>
        shallow N tg 1 s \<longrightarrow> shallow N tg 0 s1" by blast+
    show ?case
    proof (cases "r = Inr False \<and> \<not> refuse")
      case True
      with mount [OF u zero] show ?thesis by simp
    next
      case False
      with u show ?thesis by (auto split: sum.split)
    qed
  qed
qed

lemma keeps_block_mount [frames]: "keeps (unstacked N t) (block_mount N d tg os)"
proof -
  let ?after = "\<lambda>m. case m of
       None \<Rightarrow> State_Monad.return (Ok ())
     | Some err \<Rightarrow> do {
         r \<leftarrow> RemoveFile N tg;
         State_Monad.return
           (case r of
              Some removeErr \<Rightarrow> Fail (ErrCanNotRemoveMountTarget tg removeErr)
            | None \<Rightarrow> Fail (ErrCanNotMountAtTarget d tg err)) }"
  have "keeps (unstacked N t) (?after m)" for m
    unfolding RemoveFile_def by (intro frames) (simp add: mounts_at_def)
  then have "keeps (unstacked N t) (do {
     b \<leftarrow> isMounted N tg;
     (case b of
        Inl err \<Rightarrow> State_Monad.return (Fail (ErrCheckDiskIsMounted tg err))
      | Inr mounted \<Rightarrow>
          if mounted then State_Monad.return (Ok ())
          else if False then State_Monad.return (Ok ())
          else do { m \<leftarrow> MountFs N d tg '''' os; ?after m }) })"
    by (rule keeps_mount_after_look)
  then show ?thesis unfolding block_mount_def if_False .
qed

lemma keeps_filesystem_mount [frames]:
  "keeps (unstacked N t) (filesystem_mount N d tg fs os)"
  unfolding filesystem_mount_def
  by (rule keeps_mount_after_look) (intro frames)+

lemmas node_step_defs = PathExists_def MakeDir_def MakeFile_def RemoveFile_def GetDeviceNameFromMount_def
  FormatAndMount_def NeedResize_def NewResizeFs_def Resize_def Unstage_def Unpublish_def GetMountFs_def
  exec_command_def IsBlockDevice_def getBlockSizeBytes_def preparePublishTarget_def

lemma keeps_access_type [frames]:
  "keeps R b \<Longrightarrow> (\<And>m. keeps R (f m)) \<Longrightarrow> keeps R n \<Longrightarrow>
    keeps R (case a of Block \<Rightarrow> b | MountOf m \<Rightarrow> f m | NoAccessType \<Rightarrow> n)"
  by (cases a) simp_all

lemma keeps_stage:
  assumes "node_wait_ok N" and "sq_StagingTargetPath req \<noteq> t"
  shows "keeps (unstacked N t) (NodeStageVolume N req)"
  unfolding NodeStageVolume_def stage_body_def stage_mount_def stage_resize_def node_step_defs
  by (intro frames assms(1)) (use assms(2) in \<open>simp_all add: mounts_at_def\<close>)

lemma keeps_publish:
  assumes "node_wait_ok N"
  shows "keeps (unstacked N t) (NodePublishVolume N req)"
  unfolding NodePublishVolume_def nodePublishVolumeForBlock_def nodePublishVolumeForFileSystem_def
    block_target_def node_step_defs
  by (intro frames assms) (simp_all add: mounts_at_def)

lemma keeps_unmount:
  "keeps (unstacked N t) (NodeUnstageVolume N v p) \<and> keeps (unstacked N t) (NodeUnpublishVolume N v p)"
  unfolding NodeUnstageVolume_def unstage_body_def NodeUnpublishVolume_def node_step_defs
  by (intro conjI frames) (simp_all add: mounts_at_def)

lemma keeps_sizes:
  "keeps (unstacked N t) (NodeGetVolumeStats N v p) \<and> keeps (unstacked N t) (NodeExpandVolume N v p c)"
  unfolding NodeGetVolumeStats_def NodeExpandVolume_def expand_filesystem_def node_step_defs
  by (intro conjI frames) (simp_all add: mounts_at_def)

lemmas keeps_rest = keeps_unmount [THEN conjunct1] keeps_unmount [THEN conjunct2]
  keeps_sizes [THEN conjunct1] keeps_sizes [THEN conjunct2]

section \<open>Runs\<close>

datatype node_rpc =
    NrStage stage_request
  | NrUnstage string string
  | NrPublish publish_request
  | NrUnpublish string string
  | NrGetVolumeStats string string
  | NrExpand string string "capability option"

text \<open>One RPC, its answer dropped; the calls of a run follow each other.\<close>

fun node_rpc_run :: "node_env \<Rightarrow> node_rpc \<Rightarrow> (nstate, unit) state" where
  "node_rpc_run N (NrStage req) = do { _ \<leftarrow> NodeStageVolume N req; State_Monad.return () }"
| "node_rpc_run N (NrUnstage v t) = do { _ \<leftarrow> NodeUnstageVolume N v t; State_Monad.return () }"
| "node_rpc_run N (NrPublish req) = do { _ \<leftarrow> NodePublishVolume N req; State_Monad.return () }"
| "node_rpc_run N (NrUnpublish v t) = do { _ \<leftarrow> NodeUnpublishVolume N v t; State_Monad.return () }"
| "node_rpc_run N (NrGetVolumeStats v p) = do { _ \<leftarrow> NodeGetVolumeStats N v p; State_Monad.return () }"
| "node_rpc_run N (NrExpand v p c) = do { _ \<leftarrow> NodeExpandVolume N v p c; State_Monad.return () }"

fun node_run :: "node_env \<Rightarrow> node_rpc list \<Rightarrow> (nstate, unit) state" where
  "node_run N [] = State_Monad.return ()"
| "node_run N (q # qs) = do { _ \<leftarrow> node_rpc_run N q; node_run N qs }"

fun stages_to :: "string \<Rightarrow> node_rpc \<Rightarrow> bool" where
  "stages_to t (NrStage req) = (sq_StagingTargetPath req = t)"
| "stages_to t _ = False"

lemma keeps_rpc:
  assumes "node_wait_ok N" "\<not> stages_to t q"
  shows "keeps (unstacked N t) (node_rpc_run N q)"
  using assms by (cases q) (auto intro!: frames keeps_stage keeps_publish keeps_rest)

lemma keeps_run:
  assumes "node_wait_ok N" "\<not> list_ex (stages_to t) qs"
  shows "keeps (unstacked N t) (node_run N qs)"
  using assms(2)
proof (induction qs)
  case Nil
  then show ?case by (simp add: frames)
next
  case (Cons q qs)
  then show ?case using assms by (auto intro!: us.keeps_bind keeps_rpc)
qed

text \<open>C16: However the orchestrator orders its node calls, and however the machine answers them, more than one
mount is stacked at a target path that no stage call uses only if a look missed a mount: at some moment of the
run something was mounted at the target, and the mount point check answered that nothing is or that the target
does not exist, or a failing clean-up said that nothing was mounted. A publish that is repeated never mounts
again over a mount the machine shows it.\<close>

theorem publish_stacks_only_unseen:
  assumes "node_wait_ok N" and "\<not> list_ex (stages_to target) qs"
  shows "wp (node_run N qs) (\<lambda>_ s. 1 < depth target (nd_hist s) \<longrightarrow>
    (\<exists>later look before. nd_hist s = later @ look # before \<and> 0 < depth target before \<and>
       denies_mount N target look)) node_start"
proof -
  have seen: "\<exists>later look before. h = later @ look # before \<and> 0 < depth target before \<and>
      denies_mount N target look" if "missed N target h" for h
    using that
  proof (induction h)
    case (Cons e h)
    show ?case
    proof (cases "denies_mount N target e \<and> 0 < depth target h")
      case True
      then have "e # h = [] @ e # h \<and> 0 < depth target h \<and> denies_mount N target e" by simp
      then show ?thesis by blast
    next
      case False
      with Cons.prems have "missed N target h" by simp
      from Cons.IH [OF this] obtain later look before where "h = later @ look # before"
        "0 < depth target before" "denies_mount N target look" by (elim exE conjE)
      then have "e # h = (e # later) @ look # before \<and> 0 < depth target before \<and> denies_mount N target look"
        by simp
      then show ?thesis by blast
    qed
  qed simp
  show ?thesis
    by (rule wp_mono [OF keepsD [OF keeps_run [OF assms]]])
      (simp add: unstacked_def shallow_def node_start_def, metis seen not_less)
qed

theorem publish_stacks_only_unseen_witness:
  "depth ''/pod'' (nd_hist (snd (run_state (node_run sample_node
     [NrStage sample_stage, NrPublish sample_publish, NrPublish sample_publish]) node_start))) = 1 \<and>
   wp (node_run sample_node [NrStage sample_stage, NrPublish sample_publish, NrPublish sample_publish])
     (\<lambda>_ s. 1 < depth ''/pod'' (nd_hist s) \<longrightarrow>
       (\<exists>later look before. nd_hist s = later @ look # before \<and> 0 < depth ''/pod'' before \<and>
          denies_mount sample_node ''/pod'' look)) node_start"
proof
  show "depth ''/pod'' (nd_hist (snd (run_state (node_run sample_node
     [NrStage sample_stage, NrPublish sample_publish, NrPublish sample_publish]) node_start))) = 1"
    by code_simp
  show "wp (node_run sample_node [NrStage sample_stage, NrPublish sample_publish, NrPublish sample_publish])
     (\<lambda>_ s. 1 < depth ''/pod'' (nd_hist s) \<longrightarrow>
       (\<exists>later look before. nd_hist s = later @ look # before \<and> 0 < depth ''/pod'' before \<and>
          denies_mount sample_node ''/pod'' look)) node_start"
    by (rule publish_stacks_only_unseen [OF sample_node_ok]) (simp add: sample_stage_def)
qed

section \<open>Staging again\<close>

text \<open>A stage call mounts nothing by a plain mount and cleans nothing up.\<close>

lemma quiet_of_changes: "quiet_calls (changes evs) \<Longrightarrow> quiet_calls evs"
  unfolding quiet_calls_def mounts_changes [of evs] cleanups_changes [of evs] .

lemma stage_mounted_quiet:
  assumes "stage_mounted v d t fmt r evs" and "\<And>x. quiet_calls [fmt x]"
  shows "quiet_calls evs"
proof -
  have res: "quiet_calls later" if "stage_resized v d t r later" for later
    by (rule quiet_of_changes) (use that in \<open>auto simp: stage_resized_def\<close>)
  have one: "quiet_calls evs" if "changes evs = [fmt x]" for x
    by (rule quiet_of_changes) (simp only: that assms(2))
  from assms(1) consider "changes evs = []" | x where "changes evs = [fmt x]"
    | later before where "evs = later @ [fmt None] @ before" "changes before = []" "stage_resized v d t r later"
    unfolding stage_mounted_def by auto
  then show ?thesis
  proof cases
    case 3
    then show ?thesis
      unfolding 3(1) using res no_changes_quiet assms(2) [of None] by (simp only: quiet_calls_simps(3))
  qed (use one no_changes_quiet in blast)+
qed

lemma mkdir_quiet:
  "changes evs = [NMkdirAll t x] \<Longrightarrow> quiet_calls evs"
  "changes evs = [NMkdirAll t x] \<Longrightarrow> filter is_format evs = []"
  by (rule quiet_of_changes, simp) (subst formats_changes, simp)

text \<open>How a stage call succeeds: the name in the table decides.\<close>

definition table_decides :: "string \<Rightarrow> string \<Rightarrow> (go_error option \<Rightarrow> nev) \<Rightarrow> nhist \<Rightarrow> bool" where
  "table_decides source target fmt evs \<longleftrightarrow> quiet_calls evs \<and>
     (\<exists>device n. NDeviceName target (Inr (device, n)) \<in> set evs \<and>
        filter is_format evs = (if device = source then [] else [fmt None]))"

lemma stage_mounted_decides:
  assumes m: "stage_mounted v d t fmt (Ok ()) evs" and fmt: "\<And>x. is_format (fmt x)" "\<And>x. quiet_calls [fmt x]"
  shows "table_decides d t fmt evs"
proof -
  note q = stage_mounted_quiet [OF m fmt(2)]
  from m consider n where "changes evs = []" "NDeviceName t (Inr (d, n)) \<in> set evs"
    | device n later before where "device \<noteq> d" "NDeviceName t (Inr (device, n)) \<in> set evs"
      "evs = later @ fmt None # before" "changes before = []" "stage_resized v d t (Ok ()) later"
    unfolding stage_mounted_def by auto
  then show ?thesis
  proof cases
    case 1
    with q show ?thesis unfolding table_decides_def by (auto simp: no_format)
  next
    case 2
    have "filter is_format evs = [fmt None]"
      by (simp add: 2(3) stage_resized_facts(1) [OF 2(5)] no_format [OF 2(4)] fmt)
    with q 2(1,2) show ?thesis unfolding table_decides_def by auto
  qed
qed

lemma table_decides_before:
  "table_decides d t fmt later \<Longrightarrow> quiet_calls before \<Longrightarrow> filter is_format before = [] \<Longrightarrow>
    table_decides d t fmt (later @ before)"
  unfolding table_decides_def by auto

lemma stage_ok_decides:
  assumes post: "stage_post N req (Ok ()) evs" and c: "sq_Capability req = Some c" "\<not> isBlock c"
  shows "\<exists>v source fs os fos. sq_PublishContext req DevicePathKey = Some v \<and> device_seen v source evs \<and>
    table_decides source (sq_StagingTargetPath req) (NFormatAndMount source (sq_StagingTargetPath req) fs os fos) evs"
proof -
  let ?t = "sq_StagingTargetPath req"
  from post c obtain fs os fos where "stage_ran (sq_VolumeId req) ?t (sq_PublishContext req DevicePathKey)
      (\<lambda>source. NFormatAndMount source ?t fs os fos) (Ok ()) evs"
    unfolding stage_post_def by auto
  then obtain v source later before where v: "sq_PublishContext req DevicePathKey = Some v"
    and evs: "evs = later @ before" "changes before = []" "device_seen v source before"
    and loc: "stage_located (sq_VolumeId req) source ?t (NFormatAndMount source ?t fs os fos) (Ok ()) later"
    unfolding stage_ran_def by (auto split: option.splits)
  let ?fmt = "NFormatAndMount source ?t fs os fos"
  have fmt: "\<And>x. is_format (?fmt x)" "\<And>x. quiet_calls [?fmt x]" by simp_all
  from loc obtain l b where l: "later = l @ b" "stage_mounted (sq_VolumeId req) source ?t ?fmt (Ok ()) l"
    and b: "changes b = [] \<or> (\<exists>x. changes b = [NMkdirAll ?t x])"
    unfolding stage_located_def by auto
  have "quiet_calls b" "filter is_format b = []"
    using b mkdir_quiet no_changes_quiet no_format by blast+
  then have "table_decides source ?t ?fmt later"
    unfolding l(1) by (intro table_decides_before stage_mounted_decides [OF l(2) fmt])
  then have "table_decides source ?t ?fmt evs"
    unfolding evs(1) by (intro table_decides_before no_changes_quiet no_format evs(2))
  moreover have "device_seen v source evs" unfolding evs(1) by (rule device_seen_later [OF evs(3)])
  ultimately show ?thesis using v by blast
qed

lemma depth_formats:
  assumes "quiet_calls evs"
  shows "filter is_format evs = [] \<Longrightarrow> depth t (evs @ h) = depth t h"
    and "filter is_format evs = [NFormatAndMount d t f os fos None] \<Longrightarrow> depth t (evs @ h) = Suc (depth t h)"
proof -
  have skip: "depth t (e # h') = depth t h'" if "\<not> is_format e" "\<not> is_mount e" "\<not> is_cleanup e" for e h'
    using that by (cases e) auto
  show none: "filter is_format evs = [] \<Longrightarrow> depth t (evs @ h) = depth t h"
    using assms by (induction evs) (auto simp: skip split: if_splits)
  have none': "depth t (es @ h) = depth t h" if "quiet_calls es" "filter is_format es = []" for es
    using that by (induction es) (auto simp: skip split: if_splits)
  show "filter is_format evs = [NFormatAndMount d t f os fos None] \<Longrightarrow> depth t (evs @ h) = Suc (depth t h)"
    using assms by (induction evs) (auto simp: skip none' split: if_splits)
qed

text \<open>C17: Staging is idempotent only where the mount table names the by-id link itself: a successful stage call
of a file system found its device as a link under /dev/disk/by-id/, and compares that path with the name the
mount table gives at the staging path. If the two are the same string it mounts nothing; under any other name
it formats and mounts the device once more, on top of whatever is mounted there already, so every repeated
call stacks one mount more on a machine whose table names devices as the kernel does.\<close>

theorem restage_stacks_mounts:
  assumes "node_wait_ok N" and "sq_Capability req = Some c" and "\<not> isBlock c"
  shows "wp (NodeStageVolume N req) (\<lambda>r t. r = Ok () \<longrightarrow>
    (\<exists>evs v link device n. trace s evs t \<and>
       sq_PublishContext req DevicePathKey = Some v \<and> device_seen v (by_id @ link) evs \<and>
       NDeviceName (sq_StagingTargetPath req) (Inr (device, n)) \<in> set evs \<and>
       (if device = by_id @ link
        then filter is_format evs = [] \<and>
          depth (sq_StagingTargetPath req) (nd_hist t) = depth (sq_StagingTargetPath req) (nd_hist s)
        else (\<exists>fs os fos. filter is_format evs =
            [NFormatAndMount (by_id @ link) (sq_StagingTargetPath req) fs os fos None]) \<and>
          depth (sq_StagingTargetPath req) (nd_hist t) = Suc (depth (sq_StagingTargetPath req) (nd_hist s))))) s"
proof (rule wp_mono [OF doesD [OF NodeStageVolume_does [OF assms(1)]]], intro impI, elim exE conjE, goal_cases)
  case (1 r t evs)
  let ?t = "sq_StagingTargetPath req"
  from stage_ok_decides [OF _ assms(2,3)] 1 obtain v source fs os fos where seen: "device_seen v source evs"
    and v: "sq_PublishContext req DevicePathKey = Some v"
    and table: "table_decides source ?t (NFormatAndMount source ?t fs os fos) evs" by blast
  from seen obtain link where link: "source = by_id @ link" by (auto simp: device_seen_def)
  from table obtain device n where q: "quiet_calls evs" "NDeviceName ?t (Inr (device, n)) \<in> set evs"
    and f: "filter is_format evs = (if device = source then [] else [NFormatAndMount source ?t fs os fos None])"
    unfolding table_decides_def by blast
  have hist: "nd_hist t = evs @ nd_hist s" using 1 by (simp add: trace_def)
  show ?case
  proof (cases "device = source")
    case True
    with f have "filter is_format evs = []" by simp
    moreover from this have "depth ?t (nd_hist t) = depth ?t (nd_hist s)"
      unfolding hist by (rule depth_formats(1) [OF q(1)])
    ultimately show ?thesis using 1(2) q(2) True link v seen by (intro exI conjI) auto
  next
    case False
    with f have "filter is_format evs = [NFormatAndMount source ?t fs os fos None]" by simp
    moreover from this have "depth ?t (nd_hist t) = Suc (depth ?t (nd_hist s))"
      unfolding hist by (rule depth_formats(2) [OF q(1)])
    ultimately show ?thesis using 1(2) q(2) False link v seen by (intro exI conjI) auto
  qed
qed

theorem restage_stacks_mounts_witness:
  "fst (run_state (NodeStageVolume sample_node sample_stage)
     (snd (run_state (node_run sample_node [NrStage sample_stage]) node_start))) = Ok () \<and>
   depth ''/stage'' (nd_hist (snd (run_state
     (node_run sample_node [NrStage sample_stage, NrStage sample_stage]) node_start))) = 2 \<and>
   wp (NodeStageVolume sample_node sample_stage) (\<lambda>r t. r = Ok () \<longrightarrow>
     (\<exists>evs device n. trace node_start evs t \<and> NDeviceName ''/stage'' (Inr (device, n)) \<in> set evs)) node_start"
proof (intro conjI)
  show "fst (run_state (NodeStageVolume sample_node sample_stage)
     (snd (run_state (node_run sample_node [NrStage sample_stage]) node_start))) = Ok ()" by code_simp
  show "depth ''/stage'' (nd_hist (snd (run_state
     (node_run sample_node [NrStage sample_stage, NrStage sample_stage]) node_start))) = 2" by code_simp
  have c: "sq_Capability sample_stage = Some sample_mount" "\<not> isBlock sample_mount"
    by (simp_all add: sample_stage_def sample_mount_def isBlock_def)
  show "wp (NodeStageVolume sample_node sample_stage) (\<lambda>r t. r = Ok () \<longrightarrow>
     (\<exists>evs device n. trace node_start evs t \<and> NDeviceName ''/stage'' (Inr (device, n)) \<in> set evs)) node_start"
    by (rule wp_mono [OF restage_stacks_mounts [OF sample_node_ok c]]) (auto simp: sample_stage_def)
qed

end
