(* ===== verification/NodeTaint.thy ===== *)
theory NodeTaint
  imports NodeMachine
begin

text \<open>
  The start of the node service: \<open>newNodeService\<close> of \<^verbatim>\<open>pkg/driver/node.go\<close> and the removal of the
  start-up taint it schedules, with the instance metadata of \<^verbatim>\<open>pkg/cloud/metadata.go\<close> and
  \<^verbatim>\<open>metadata_vserver.go\<close> it needs. The API server is an environment whose answers depend on the
  calls so far; a JSON patch is the list of its operations, and what the server does with one is
  given by the patch standard.
\<close>

section \<open>Metadata\<close>

record vserver_metadata =
  vm_UUID :: string
  vm_Name :: string
  vm_AvailabilityZone :: string
  vm_ProjectID :: string
  vm_PortalUUID :: string

definition ErrBadMetadata :: go_error where
  "ErrBadMetadata = GoErr ''invalid vServer metadata because of got empty uuid''"

definition ErrMetadataEmpty :: go_error where
  "ErrMetadataEmpty = GoErr ''metadata is empty''"

text \<open>
  The package variables \<open>vServerMetadataCache\<close> and \<open>metadataCache\<close> are passed through. \<open>decoded\<close> is
  what the JSON decoder makes of the body; it is not read when the cache is filled.
\<close>

definition parseMetadata ::
    "go_error + vserver_metadata \<Rightarrow> vserver_metadata option
      \<Rightarrow> (go_error + vserver_metadata) \<times> vserver_metadata option" where
  "parseMetadata decoded cache =
     (case cache of
        Some m \<Rightarrow> (Inr m, cache)
      | None \<Rightarrow>
          (case decoded of
             Inl err \<Rightarrow> (Inl err, None)
           | Inr metadata \<Rightarrow>
               if vm_PortalUUID metadata = '''' then (Inl ErrBadMetadata, None)
               else (Inr metadata, Some metadata)))"

definition VServerMetadataInstanceInfo ::
    "vserver_metadata option \<Rightarrow> metadata_info option \<Rightarrow> (go_error + metadata_info) \<times> metadata_info option" where
  "VServerMetadataInstanceInfo instanceInfo cache =
     (case cache of
        Some m \<Rightarrow> (Inr m, cache)
      | None \<Rightarrow>
          (case instanceInfo of
             None \<Rightarrow> (Inl ErrMetadataEmpty, None)
           | Some i \<Rightarrow>
               (let m = \<lparr>md_UUID = vm_PortalUUID i, md_Name = vm_Name i, md_ProjectID = vm_ProjectID i,
                   md_AvailabilityZone = vm_AvailabilityZone i\<rparr> in
                (Inr m, Some m))))"

text \<open>A client answers the metadata of the machine or an error; the client found is never nil.\<close>

definition NewMetadataService ::
    "go_error + vserver_metadata \<Rightarrow> metadata_info option \<Rightarrow> (go_error + metadata_info) \<times> metadata_info option" where
  "NewMetadataService client cache =
     (case client of
        Inl err \<Rightarrow> (Inl err, cache)
      | Inr svc \<Rightarrow> VServerMetadataInstanceInfo (Some svc) cache)"

text \<open>
  One HTTP request for the metadata: it fails, or it answers a status code, a status and a body, as the
  JSON decoder sees it. The requests made so far are counted, since the service may answer each one
  differently.
\<close>

datatype http_get = GetFailed string | Got int string "go_error + vserver_metadata"

definition getMetadataURL :: "string \<Rightarrow> string" where
  "getMetadataURL metadataVersion =
     ''http://169.254.169.254/openstack/'' @ metadataVersion @ ''/meta_data.json''"

definition DefaultVServerMetadataClient ::
    "http_get \<Rightarrow> vserver_metadata option \<Rightarrow> (go_error + vserver_metadata) \<times> vserver_metadata option" where
  "DefaultVServerMetadataClient resp cache =
     (let metadataURL = getMetadataURL ''latest'' in
      case resp of
        GetFailed err \<Rightarrow>
          (Inl (GoErr (''getFromMetadataService; error fetching metadata from URL '' @ metadataURL @
             ''; ERR: '' @ err)), cache)
      | Got code status body \<Rightarrow>
          if code \<noteq> 200
          then (Inl (GoErr (''getFromMetadataService; unexpected status code when reading metadata from '' @
             metadataURL @ '' with response status code '' @ status)), cache)
          else parseMetadata body cache)"

record metadata_caches =
  mc_gets :: nat
  mc_vserver :: "vserver_metadata option"
  mc_info :: "metadata_info option"

definition no_metadata :: metadata_caches where
  "no_metadata = \<lparr>mc_gets = 0, mc_vserver = None, mc_info = None\<rparr>"

text \<open>\<open>NewMetadataService(DefaultVServerMetadataClient)\<close>.\<close>

definition instance_metadata :: "(nat \<Rightarrow> http_get) \<Rightarrow> (metadata_caches, go_error + metadata_info) state" where
  "instance_metadata G = st (\<lambda>s.
     let (client, v) = DefaultVServerMetadataClient (G (mc_gets s)) (mc_vserver s);
         (r, i) = NewMetadataService client (mc_info s)
     in (r, \<lparr>mc_gets = Suc (mc_gets s), mc_vserver = v, mc_info = i\<rparr>))"

section \<open>newNodeService\<close>

record node_service =
  ns_metadata :: metadata_info
  ns_state :: nstate

text \<open>\<open>newNodeMounter\<close> always answers a mounter; the taint removal it schedules is below.\<close>

definition newNodeService :: "(nat \<Rightarrow> http_get) \<Rightarrow> (metadata_caches, node_service go) state" where
  "newNodeService G = do {
     r \<leftarrow> instance_metadata G;
     State_Monad.return (case r of
        Inl err \<Rightarrow> Panic
      | Inr metadata \<Rightarrow> Return \<lparr>ns_metadata = metadata, ns_state = node_start\<rparr>)
   }"

text \<open>
  Once the metadata was read, what a later request answers does not matter beyond its status: both
  caches keep the first answer.
\<close>

definition metadata_of :: "vserver_metadata \<Rightarrow> metadata_info" where
  "metadata_of i = \<lparr>md_UUID = vm_PortalUUID i, md_Name = vm_Name i, md_ProjectID = vm_ProjectID i,
     md_AvailabilityZone = vm_AvailabilityZone i\<rparr>"

definition metadata_read :: "vserver_metadata \<Rightarrow> metadata_caches \<Rightarrow> bool" where
  "metadata_read i s \<longleftrightarrow> mc_vserver s = Some i \<and> mc_info s = Some (metadata_of i)"

lemma instance_metadata_first:
  assumes "G 0 = Got 200 status (Inr i)" and "vm_PortalUUID i \<noteq> ''''"
  shows "wp (instance_metadata G) (\<lambda>r s. r = Inr (metadata_of i) \<and> metadata_read i s \<and> mc_gets s = 1) no_metadata"
  using assms by (simp add: instance_metadata_def no_metadata_def DefaultVServerMetadataClient_def
      parseMetadata_def NewMetadataService_def VServerMetadataInstanceInfo_def metadata_read_def
      metadata_of_def Let_def)

lemma instance_metadata_again:
  assumes "G (mc_gets s) = Got 200 status body" and "metadata_read i s"
  shows "wp (instance_metadata G) (\<lambda>r t. r = Inr (metadata_of i) \<and> metadata_read i t) s"
  using assms by (simp add: instance_metadata_def DefaultVServerMetadataClient_def parseMetadata_def
      NewMetadataService_def VServerMetadataInstanceInfo_def metadata_read_def Let_def)

section \<open>Taints\<close>

record taint =
  tn_Key :: string
  tn_Value :: string
  tn_Effect :: string

record csi_driver =
  cd_Name :: string
  cd_Allocatable :: "int option option"

datatype json_patch =
    TestTaints "taint list"
  | ReplaceTaints "taint list"

datatype kev =
    KGetNode string "go_error + taint list"
  | KGetCSINode string "go_error + csi_driver list"
  | KPatch string "json_patch list" "go_error option"

record kapi =
  ka_nodeName :: string
  ka_client :: "kev list \<Rightarrow> go_error option"
  ka_GetNode :: "kev list \<Rightarrow> string \<Rightarrow> go_error + taint list"
  ka_GetCSINode :: "kev list \<Rightarrow> string \<Rightarrow> go_error + csi_driver list"
  ka_Patch :: "kev list \<Rightarrow> string \<Rightarrow> json_patch list \<Rightarrow> go_error option"
  ka_wait :: "backoff \<Rightarrow> kev list poll_cond \<Rightarrow> kev list \<Rightarrow> go_error option \<times> kev list"

definition kapi_call :: "(kev list \<Rightarrow> 'r) \<Rightarrow> ('r \<Rightarrow> kev) \<Rightarrow> (kev list, 'r) state" where
  "kapi_call ask ev = st (\<lambda>h. (ask h, ev (ask h) # h))"

text \<open>The loop of \<open>checkAllocatable\<close>: the first driver of this name decides.\<close>

fun allocatable_of :: "string \<Rightarrow> csi_driver list \<Rightarrow> go_error option" where
  "allocatable_of nodeName [] = Some (GoErr (''isAllocatableSet: driver not found on node '' @ nodeName))"
| "allocatable_of nodeName (d # ds) =
     (if cd_Name d = DriverName then
        (case cd_Allocatable d of
           Some (Some _) \<Rightarrow> None
         | _ \<Rightarrow> Some (GoErr (''isAllocatableSet: allocatable value not set for driver on node '' @ nodeName)))
      else allocatable_of nodeName ds)"

definition checkAllocatable :: "kapi \<Rightarrow> string \<Rightarrow> (kev list, go_error option) state" where
  "checkAllocatable K nodeName = do {
     r \<leftarrow> kapi_call (\<lambda>h. ka_GetCSINode K h nodeName) (KGetCSINode nodeName);
     State_Monad.return
       (case r of
          Inl err \<Rightarrow> Some (GoWrap (''isAllocatableSet: failed to get CSINode for '' @ nodeName) err)
        | Inr drivers \<Rightarrow> allocatable_of nodeName drivers)
   }"

text \<open>\<open>json.Marshal\<close> of a list of taints does not fail.\<close>

definition taint_patch :: "taint list \<Rightarrow> taint list \<Rightarrow> json_patch list" where
  "taint_patch taints taintsToKeep = [TestTaints taints, ReplaceTaints taintsToKeep]"

definition removeNotReadyTaint :: "kapi \<Rightarrow> (kev list, go_error option) state" where
  "removeNotReadyTaint K =
     (let nodeName = ka_nodeName K in
      if nodeName = '''' then State_Monad.return None
      else do {
        client \<leftarrow> st (\<lambda>h. (ka_client K h, h));
        (case client of
           Some _ \<Rightarrow> State_Monad.return None
         | None \<Rightarrow> do {
             node \<leftarrow> kapi_call (\<lambda>h. ka_GetNode K h nodeName) (KGetNode nodeName);
             (case node of
                Inl err \<Rightarrow> State_Monad.return (Some err)
              | Inr taints \<Rightarrow> do {
                  err \<leftarrow> checkAllocatable K nodeName;
                  (case err of
                     Some e \<Rightarrow> State_Monad.return (Some e)
                   | None \<Rightarrow>
                       (let taintsToKeep = filter (\<lambda>t. tn_Key t \<noteq> AgentNotReadyNodeTaintKey) taints in
                        if length taintsToKeep = length taints then State_Monad.return None
                        else kapi_call
                          (\<lambda>h. ka_Patch K h nodeName (taint_patch taints taintsToKeep))
                          (KPatch nodeName (taint_patch taints taintsToKeep))))
                })
           })
      })"

definition taintRemovalBackoff :: backoff where
  "taintRemovalBackoff = \<lparr>bo_Duration = Second div 2, bo_Factor_x10 = 20, bo_Steps = 10\<rparr>"

definition taint_condition :: "kapi \<Rightarrow> kev list poll_cond" where
  "taint_condition K = (\<lambda>h.
     (case run_state (removeNotReadyTaint K) h of
        (Some err, h') \<Rightarrow> ((False, None), h')
      | (None, h') \<Rightarrow> ((True, None), h')))"

text \<open>Its error is only logged.\<close>

definition removeTaintInBackground :: "kapi \<Rightarrow> (kev list, unit) state" where
  "removeTaintInBackground K = st (\<lambda>h. ((), snd (ka_wait K taintRemovalBackoff (taint_condition K) h)))"

section \<open>What a patch does\<close>

text \<open>The server applies the operations in order, and none of them when a test fails.\<close>

fun apply_patch :: "json_patch list \<Rightarrow> taint list \<Rightarrow> taint list option" where
  "apply_patch [] current = Some current"
| "apply_patch (TestTaints ts # ops) current = (if current = ts then apply_patch ops current else None)"
| "apply_patch (ReplaceTaints ts # ops) current = apply_patch ops ts"

definition without_agent_taint :: "taint list \<Rightarrow> taint list" where
  "without_agent_taint ts = filter (\<lambda>t. tn_Key t \<noteq> AgentNotReadyNodeTaintKey) ts"

definition ready_seen :: "string \<Rightarrow> kev list \<Rightarrow> bool" where
  "ready_seen nodeName h \<longleftrightarrow> (\<exists>ds d n. KGetCSINode nodeName (Inr ds) \<in> set h \<and> d \<in> set ds \<and>
     cd_Name d = DriverName \<and> cd_Allocatable d = Some (Some n))"

lemma allocatable_of_None:
  "allocatable_of nodeName ds = None \<Longrightarrow> \<exists>d\<in>set ds. cd_Name d = DriverName \<and> (\<exists>n. cd_Allocatable d = Some (Some n))"
  by (induction ds) (auto split: if_splits option.splits)

text \<open>Every patch in the history is safe at the time it is sent.\<close>

definition patch_safe :: "string \<Rightarrow> json_patch list \<Rightarrow> bool" where
  "patch_safe nodeName p \<longleftrightarrow>
     (\<exists>ts. without_agent_taint ts \<noteq> ts \<and> (\<forall>current.
        apply_patch p current = (if current = ts then Some (without_agent_taint current) else None)))"

fun patches_ok :: "string \<Rightarrow> kev list \<Rightarrow> bool" where
  "patches_ok nodeName [] = True"
| "patches_ok nodeName (KPatch n p r # h) =
     (n = nodeName \<and> patch_safe nodeName p \<and> ready_seen nodeName h \<and> patches_ok nodeName h)"
| "patches_ok nodeName (_ # h) = patches_ok nodeName h"

lemma taint_patch_safe:
  "length (without_agent_taint ts) \<noteq> length ts \<Longrightarrow> patch_safe n (taint_patch ts (without_agent_taint ts))"
  by (auto simp: patch_safe_def taint_patch_def intro!: exI [of _ ts])

lemma removal_ok:
  assumes "patches_ok (ka_nodeName K) h"
  shows "wp (removeNotReadyTaint K) (\<lambda>_. patches_ok (ka_nodeName K)) h"
proof -
  let ?n = "ka_nodeName K"
  have ready: "ready_seen ?n (KGetCSINode ?n (Inr ds) # h')" if "allocatable_of ?n ds = None" for ds h'
    using allocatable_of_None [OF that] by (auto simp: ready_seen_def)
  show ?thesis
    using assms ready taint_patch_safe
    by (auto simp: removeNotReadyTaint_def checkAllocatable_def kapi_call_def Let_def
        without_agent_taint_def [symmetric] split: option.splits sum.splits)
qed

definition taint_wait_ok :: "kapi \<Rightarrow> bool" where
  "taint_wait_ok K \<longleftrightarrow> (\<forall>b cond h. poll cond (bo_Steps b) h (ka_wait K b cond h))"


definition sample_taints :: "taint list" where
  "sample_taints =
     [\<lparr>tn_Key = ''dedicated'', tn_Value = ''db'', tn_Effect = ''NoSchedule''\<rparr>,
      \<lparr>tn_Key = AgentNotReadyNodeTaintKey, tn_Value = '''', tn_Effect = ''NoExecute''\<rparr>]"

definition sample_kapi :: kapi where
  "sample_kapi = \<lparr>ka_nodeName = ''node-1'', ka_client = (\<lambda>_. None), ka_GetNode = (\<lambda>h n. Inr sample_taints),
     ka_GetCSINode = (\<lambda>h n. Inr [\<lparr>cd_Name = DriverName, cd_Allocatable = Some (Some 20)\<rparr>]),
     ka_Patch = (\<lambda>h n p. if length h < 4 then Some (GoErr ''conflict'') else None),
     ka_wait = (\<lambda>b. poll_all (bo_Steps b))\<rparr>"


end
