(* ===== verification/DriverStart.thy ===== *)
theory DriverStart
  imports NodeTaint CtlService
begin

text \<open>
  The start of the driver: the options of \<^verbatim>\<open>pkg/driver/driver.go\<close> with their validation, the mode and
  the configuration that \<^verbatim>\<open>cmd/vngcloud-blockstorage-csi-driver/main.go\<close> takes from the command line
  and the environment, the endpoint of \<^verbatim>\<open>pkg/util/util.go\<close> and the services a server registers. The
  flag library, \<^verbatim>\<open>url.Parse\<close>, the metadata service and the file system are arguments.
\<close>

section \<open>Modes and options\<close>

type_synonym mode = string

definition ControllerMode :: mode where "ControllerMode = ''controller''"
definition NodeMode :: mode where "NodeMode = ''node''"
definition AllMode :: mode where "AllMode = ''all''"

lemmas mode_defs = ControllerMode_def NodeMode_def AllMode_def

record DriverOptions =
  do_endpoint :: string
  do_mode :: mode
  do_otelTracing :: bool
  do_userAgentExtra :: string
  do_modifyVolumeRequestHandlerTimeout :: int
  do_clientID :: string
  do_clientSecret :: string
  do_identityURL :: string
  do_vServerURL :: string
  do_batching :: bool
  do_clusterID :: string
  do_cacheUri :: string
  do_alertChannel :: string
  do_alertChannelSize :: int
  do_tagKeyLength :: int
  do_tagValueLength :: int
  do_maxVolumesPerNode :: int
  do_maxConcurrentVolumeCreates :: int

type_synonym driver_option = "DriverOptions \<Rightarrow> DriverOptions"

definition WithMaxConcurrentVolumeCreates :: "int \<Rightarrow> driver_option" where
  "WithMaxConcurrentVolumeCreates pn o' =
     (if 0 < pn then o'\<lparr>do_maxConcurrentVolumeCreates := pn\<rparr> else o')"

definition WithEndpoint :: "string \<Rightarrow> driver_option" where
  "WithEndpoint endpoint o' = o'\<lparr>do_endpoint := endpoint\<rparr>"

definition WithMode :: "mode \<Rightarrow> driver_option" where
  "WithMode m o' = o'\<lparr>do_mode := m\<rparr>"

definition WithAlertChannel :: "string \<Rightarrow> driver_option" where
  "WithAlertChannel alertChannel o' = o'\<lparr>do_alertChannel := alertChannel\<rparr>"

definition WithAlertChannelSize :: "int \<Rightarrow> driver_option" where
  "WithAlertChannelSize alertChannelSize o' = o'\<lparr>do_alertChannelSize := alertChannelSize\<rparr>"

definition WithCacheUri :: "string \<Rightarrow> driver_option" where
  "WithCacheUri cacheUri o' = o'\<lparr>do_cacheUri := cacheUri\<rparr>"

definition WithOtelTracing :: "bool \<Rightarrow> driver_option" where
  "WithOtelTracing b o' = o'\<lparr>do_otelTracing := b\<rparr>"

definition WithModifyVolumeRequestHandlerTimeout :: "int \<Rightarrow> driver_option" where
  "WithModifyVolumeRequestHandlerTimeout timeout o' =
     (if timeout = 0 then o' else o'\<lparr>do_modifyVolumeRequestHandlerTimeout := timeout\<rparr>)"

definition WithClientID :: "string \<Rightarrow> driver_option" where
  "WithClientID clientID o' = o'\<lparr>do_clientID := clientID\<rparr>"

definition WithClientSecret :: "string \<Rightarrow> driver_option" where
  "WithClientSecret clientSecret o' = o'\<lparr>do_clientSecret := clientSecret\<rparr>"

definition WithIdentityURL :: "string \<Rightarrow> driver_option" where
  "WithIdentityURL identityURL o' = o'\<lparr>do_identityURL := identityURL\<rparr>"

definition WithVServerURL :: "string \<Rightarrow> driver_option" where
  "WithVServerURL vServerURL o' = o'\<lparr>do_vServerURL := vServerURL\<rparr>"

definition WithClusterID_driver :: "string \<Rightarrow> driver_option" where
  "WithClusterID_driver pclusterID o' = o'\<lparr>do_clusterID := pclusterID\<rparr>"

definition WithTagKeyLength :: "int \<Rightarrow> driver_option" where
  "WithTagKeyLength ptkl o' = o'\<lparr>do_tagKeyLength := ptkl\<rparr>"

definition WithTagValueLength :: "int \<Rightarrow> driver_option" where
  "WithTagValueLength ptvl o' = o'\<lparr>do_tagValueLength := ptvl\<rparr>"

definition WithMaxVolumesPerNode :: "int \<Rightarrow> driver_option" where
  "WithMaxVolumesPerNode pmvpn o' = o'\<lparr>do_maxVolumesPerNode := pmvpn\<rparr>"

definition WithUserAgentExtra :: "string \<Rightarrow> driver_option" where
  "WithUserAgentExtra userAgentExtra o' = o'\<lparr>do_userAgentExtra := userAgentExtra\<rparr>"

lemmas with_defs = WithMaxConcurrentVolumeCreates_def WithEndpoint_def WithMode_def WithOtelTracing_def
  WithModifyVolumeRequestHandlerTimeout_def WithClientID_def WithClientSecret_def WithIdentityURL_def
  WithVServerURL_def WithClusterID_driver_def WithTagKeyLength_def WithTagValueLength_def
  WithMaxVolumesPerNode_def WithUserAgentExtra_def WithAlertChannel_def WithAlertChannelSize_def
  WithCacheUri_def

definition GetTagKeyLength :: "DriverOptions \<Rightarrow> int" where
  "GetTagKeyLength s = do_tagKeyLength s"

definition GetTagValueLength :: "DriverOptions \<Rightarrow> int" where
  "GetTagValueLength s = do_tagValueLength s"

definition validateMode :: "mode \<Rightarrow> go_error option" where
  "validateMode m =
     (if m \<noteq> AllMode \<and> m \<noteq> ControllerMode \<and> m \<noteq> NodeMode
      then Some (GoErr (''Mode is not supported (actual: '' @ m @ '', supported: [all controller node])''))
      else None)"

definition ValidateDriverOptions :: "DriverOptions \<Rightarrow> go_error option" where
  "ValidateDriverOptions options =
     (case validateMode (do_mode options) of
        Some err \<Rightarrow> Some (GoWrap ''Invalid mode'' err)
      | None \<Rightarrow>
          if do_modifyVolumeRequestHandlerTimeout options = 0
          then Some (GoErr ''Invalid modifyVolumeRequestHandlerTimeout: Timeout cannot be zero'')
          else None)"

section \<open>NewDriver\<close>

definition default_options :: DriverOptions where
  "default_options = \<lparr>do_endpoint = DefaultCSIEndpoint, do_mode = AllMode, do_otelTracing = False,
     do_userAgentExtra = '''',
     do_modifyVolumeRequestHandlerTimeout = DefaultModifyVolumeRequestHandlerTimeout,
     do_clientID = '''', do_clientSecret = '''', do_identityURL = '''', do_vServerURL = '''', do_batching = False,
     do_clusterID = '''', do_cacheUri = '''', do_alertChannel = '''', do_alertChannelSize = 0,
     do_tagKeyLength = 0, do_tagValueLength = 0, do_maxVolumesPerNode = 0,
     do_maxConcurrentVolumeCreates = int DefaultMaxConcurrentVolumeCreates\<rparr>"

record Driver =
  drv_controllerService :: "ctl option"
  drv_nodeService :: "node_service option"
  drv_options :: DriverOptions

text \<open>
  What the constructors ask: the metadata service, and \<open>DefaultKubernetesAPIClient\<close>. \<open>NewCloudFunc\<close> makes
  no call and \<open>DefaultEventRecorder\<close> only builds library objects; both always answer a nil error. What
  the controller service keeps is \<open>newControllerService\<close> of \<open>CtlService\<close>.
\<close>

record start_env =
  se_Get :: "nat \<Rightarrow> http_get"
  se_kube :: "go_error option"

definition start_controller :: "start_env \<Rightarrow> DriverOptions \<Rightarrow> (metadata_caches, ctl go) state" where
  "start_controller S options = do {
     r \<leftarrow> instance_metadata (se_Get S);
     State_Monad.return (case r of
        Inl err \<Rightarrow> Panic
      | Inr metadata \<Rightarrow>
          (case se_kube S of
             Some err \<Rightarrow> Panic
           | None \<Rightarrow> Return (newControllerService (nat (do_maxConcurrentVolumeCreates options)))))
   }"

text \<open>A service that is not built is its zero value, \<open>None\<close>.\<close>

definition NewDriver ::
    "start_env \<Rightarrow> driver_option list \<Rightarrow> (metadata_caches, (go_error + Driver) go) state" where
  "NewDriver S options =
     (let driverOptions = fold (\<lambda>option. option) options default_options;
          m = do_mode driverOptions;
          driver = (\<lambda>c n. Return (Inr \<lparr>drv_controllerService = c, drv_nodeService = n,
                       drv_options = driverOptions\<rparr>)) in
      case ValidateDriverOptions driverOptions of
        Some err \<Rightarrow> State_Monad.return (Return (Inl (GoWrap ''Invalid driver options'' err)))
      | None \<Rightarrow>
          if m = ControllerMode then do {
            controller \<leftarrow> start_controller S driverOptions;
            State_Monad.return (case controller of Panic \<Rightarrow> Panic | Return c \<Rightarrow> driver (Some c) None)
          }
          else if m = NodeMode then do {
            node \<leftarrow> newNodeService (se_Get S);
            State_Monad.return (case node of Panic \<Rightarrow> Panic | Return n \<Rightarrow> driver None (Some n))
          }
          else if m = AllMode then do {
            controller \<leftarrow> start_controller S driverOptions;
            (case controller of
               Panic \<Rightarrow> State_Monad.return Panic
             | Return c \<Rightarrow> do {
                 node \<leftarrow> newNodeService (se_Get S);
                 State_Monad.return (case node of Panic \<Rightarrow> Panic | Return n \<Rightarrow> driver (Some c) (Some n))
               })
          }
          else State_Monad.return (Return (Inl (GoErr (''unknown mode: '' @ m)))))"

section \<open>Run\<close>

text \<open>
  \<open>filepath.Join\<close> of two elements, and \<open>ParseEndpoint\<close>: \<open>parse\<close> is \<^verbatim>\<open>url.Parse\<close> with the scheme, host and
  path it finds, \<open>remove\<close> what removing a file answers.
\<close>

definition Join :: "string \<Rightarrow> string \<Rightarrow> string" where
  "Join a b = (if a = '''' \<and> b = '''' then ''''
     else if a = '''' then Clean b else if b = '''' then Clean a else Clean (a @ ''/'' @ b))"

definition ParseEndpoint ::
    "(string \<Rightarrow> go_error + (string \<times> string \<times> string)) \<Rightarrow> (string \<Rightarrow> go_error option) \<Rightarrow> (go_error \<Rightarrow> bool)
      \<Rightarrow> string \<Rightarrow> go_error + (string \<times> string)" where
  "ParseEndpoint parse remove isNotExist endpoint =
     (case parse endpoint of
        Inl err \<Rightarrow> Inl (GoWrap ''could not parse endpoint'' err)
      | Inr (uscheme, host, path) \<Rightarrow>
          (let addr = Join host path; scheme = ToLower uscheme in
           if scheme = ''tcp'' then Inr (scheme, addr)
           else if scheme = ''unix'' then
             (let addr = Join ''/'' addr in
              case remove addr of
                Some err \<Rightarrow>
                  if \<not> isNotExist err
                  then Inl (GoWrap (''could not remove unix domain socket '' @ quoted addr) err)
                  else Inr (scheme, addr)
              | None \<Rightarrow> Inr (scheme, addr))
           else Inl (GoErr (''unsupported protocol: '' @ scheme))))"

datatype grpc_service = IdentityServer | ControllerServer | NodeServer | ModifyServer

definition registered_services :: "mode \<Rightarrow> go_error + grpc_service list" where
  "registered_services m =
     (if m = ControllerMode then Inr [IdentityServer, ControllerServer, ModifyServer]
      else if m = NodeMode then Inr [IdentityServer, NodeServer]
      else if m = AllMode then Inr [IdentityServer, ControllerServer, NodeServer, ModifyServer]
      else Inl (GoErr (''unknown mode: '' @ m)))"

text \<open>\<open>Run\<close> up to \<open>Serve\<close>: where the server listens and what it serves; \<open>listen\<close> is \<^verbatim>\<open>net.Listen\<close>.\<close>

definition Run_server ::
    "(string \<Rightarrow> go_error + (string \<times> string)) \<Rightarrow> (string \<Rightarrow> string \<Rightarrow> go_error option) \<Rightarrow> Driver
      \<Rightarrow> go_error + (string \<times> string \<times> grpc_service list)" where
  "Run_server parseEndpoint listen s =
     (case parseEndpoint (do_endpoint (drv_options s)) of
        Inl err \<Rightarrow> Inl err
      | Inr (scheme, addr) \<Rightarrow>
          (case listen scheme addr of
             Some err \<Rightarrow> Inl err
           | None \<Rightarrow>
               (case registered_services (do_mode (drv_options s)) of
                  Inl err \<Rightarrow> Inl err
                | Inr services \<Rightarrow> Inr (scheme, addr, services))))"

text \<open>\<^verbatim>\<open>identity.go\<close>; the version is stamped at build time.\<close>

datatype plugin_capability = CONTROLLER_SERVICE | VOLUME_ACCESSIBILITY_CONSTRAINTS

definition GetPluginInfo :: "string \<Rightarrow> (string \<times> string) reply" where
  "GetPluginInfo driverVersion = Ok (DriverName, driverVersion)"

definition GetPluginCapabilities :: "plugin_capability list reply" where
  "GetPluginCapabilities = Ok [CONTROLLER_SERVICE, VOLUME_ACCESSIBILITY_CONSTRAINTS]"

definition Probe :: "unit reply" where
  "Probe = Ok ()"

section \<open>main.go\<close>

definition preStopHookCmd :: string where
  "preStopHookCmd = ''pre-stop-hook''"

record Global =
  gl_IdentityURL :: string
  gl_VServerURL :: string
  gl_ClientID :: string
  gl_ClientSecret :: string

definition no_config :: Global where
  "no_config = \<lparr>gl_IdentityURL = '''', gl_VServerURL = '''', gl_ClientID = '''', gl_ClientSecret = ''''\<rparr>"

definition getConfigFromEnv :: "(string \<Rightarrow> string) \<Rightarrow> int \<Rightarrow> string \<Rightarrow> go_error + Global" where
  "getConfigFromEnv getenv maxVolumesPerNode pcmd =
     (if pcmd = preStopHookCmd then Inr no_config
      else if 0 < maxVolumesPerNode \<and> pcmd = NodeMode then Inr no_config
      else
        (let clientID = getenv ''VNGCLOUD_ACCESS_KEY_ID'';
             clientSecret = getenv ''VNGCLOUD_SECRET_ACCESS_KEY'';
             identityEndpoint = getenv ''VNGCLOUD_IDENTITY_ENDPOINT'';
             vserverEndpoint = getenv ''VNGCLOUD_VSERVER_ENDPOINT'' in
         if clientID = '''' \<or> clientSecret = '''' \<or> identityEndpoint = '''' \<or> vserverEndpoint = ''''
         then Inl (GoErr ''missing required environment variables'')
         else Inr \<lparr>gl_IdentityURL = identityEndpoint, gl_VServerURL = vserverEndpoint,
           gl_ClientID = clientID, gl_ClientSecret = clientSecret\<rparr>))"

text \<open>The flags; one that a mode does not register keeps its zero value.\<close>

record cli_flags =
  fl_Endpoint :: string
  fl_HttpEndpoint :: string
  fl_ClusterID :: string
  fl_EnableOtelTracing :: bool
  fl_TagKeyLength :: int
  fl_TagValueLength :: int
  fl_ModifyVolumeRequestHandlerTimeout :: int
  fl_UserAgentExtra :: string
  fl_MaxConcurrentVolumeCreates :: int
  fl_MaxVolumesPerNode :: int
  fl_version :: bool

definition registered_flags :: "string \<Rightarrow> cli_flags" where
  "registered_flags cmd =
     (let controller = cmd = ControllerMode \<or> cmd = AllMode in
      \<lparr>fl_Endpoint = DefaultCSIEndpoint, fl_HttpEndpoint = '''', fl_ClusterID = '''',
       fl_EnableOtelTracing = False, fl_TagKeyLength = 255, fl_TagValueLength = 255,
       fl_ModifyVolumeRequestHandlerTimeout =
         (if controller then DefaultModifyVolumeRequestHandlerTimeout else 0),
       fl_UserAgentExtra = '''',
       fl_MaxConcurrentVolumeCreates =
         (if controller then int DefaultMaxConcurrentVolumeCreates else 0),
       fl_MaxVolumesPerNode = 0, fl_version = False\<rparr>)"

text \<open>
  How \<open>GetOptions\<close> ends: with options, by leaving the process with a status, or by a panic. \<open>parse\<close> is
  the flag library on the flags the mode registers; \<open>args\<close> are the arguments after the program's name.
\<close>

datatype 'a process = Continue 'a | ExitStatus int | MainPanic

definition GetOptions ::
    "(string \<Rightarrow> string) \<Rightarrow> (string list \<Rightarrow> cli_flags \<Rightarrow> cli_flags option) \<Rightarrow> string list
      \<Rightarrow> (mode \<times> cli_flags \<times> Global) process" where
  "GetOptions getenv parse args =
     (let (cmd, rest) = (case args of
            a # as \<Rightarrow> if \<not> HasPrefix a ''-'' then (a, as) else (AllMode, args)
          | [] \<Rightarrow> (AllMode, [])) in
      if cmd \<noteq> ControllerMode \<and> cmd \<noteq> NodeMode \<and> cmd \<noteq> AllMode \<and> cmd \<noteq> preStopHookCmd
      then ExitStatus 0
      else (case parse rest (registered_flags cmd) of
         None \<Rightarrow> MainPanic
       | Some flags \<Rightarrow>
           if fl_version flags then ExitStatus 0
           else (case getConfigFromEnv getenv (fl_MaxVolumesPerNode flags) cmd of
              Inl err \<Rightarrow> ExitStatus 1
            | Inr config \<Rightarrow> Continue (cmd, flags, config))))"

text \<open>The options \<open>main\<close> hands to \<open>NewDriver\<close>.\<close>

definition main_options :: "mode \<Rightarrow> cli_flags \<Rightarrow> Global \<Rightarrow> driver_option list" where
  "main_options m flags config =
     [WithClientID (gl_ClientID config), WithClientSecret (gl_ClientSecret config),
      WithIdentityURL (gl_IdentityURL config), WithVServerURL (gl_VServerURL config),
      WithEndpoint (fl_Endpoint flags), WithMode m, WithOtelTracing (fl_EnableOtelTracing flags),
      WithModifyVolumeRequestHandlerTimeout (fl_ModifyVolumeRequestHandlerTimeout flags),
      WithMaxConcurrentVolumeCreates (fl_MaxConcurrentVolumeCreates flags),
      WithClusterID_driver (fl_ClusterID flags), WithTagKeyLength (fl_TagKeyLength flags),
      WithTagValueLength (fl_TagValueLength flags), WithMaxVolumesPerNode (fl_MaxVolumesPerNode flags)]"

section \<open>Properties\<close>

lemma GetOptions_mode:
  "GetOptions getenv parse args = Continue (m, flags, config) \<Longrightarrow>
    (m = ControllerMode \<or> m = NodeMode \<or> m = AllMode \<or> m = preStopHookCmd) \<and>
    getConfigFromEnv getenv (fl_MaxVolumesPerNode flags) m = Inr config"
  by (auto simp: GetOptions_def Let_def split: prod.splits if_splits option.splits sum.splits)

text \<open>What the start asks in each mode, and what it then builds.\<close>

definition start_answers :: "start_env \<Rightarrow> mode \<Rightarrow> vserver_metadata \<Rightarrow> bool" where
  "start_answers S m i \<longleftrightarrow> (\<exists>status. se_Get S 0 = Got 200 status (Inr i)) \<and> vm_PortalUUID i \<noteq> '''' \<and>
     (m \<noteq> NodeMode \<longrightarrow> se_kube S = None) \<and>
     (m = AllMode \<longrightarrow> (\<exists>status body. se_Get S 1 = Got 200 status body))"

lemma NewDriver_builds:
  assumes "start_answers S m i" and "m = ControllerMode \<or> m = NodeMode \<or> m = AllMode"
    and "ValidateDriverOptions (fold (\<lambda>option. option) options default_options) = None"
    and "do_mode (fold (\<lambda>option. option) options default_options) = m"
  shows "wp (NewDriver S options) (\<lambda>r s. r = Return (Inr
    \<lparr>drv_controllerService = (if m = NodeMode then None else Some (newControllerService
         (nat (do_maxConcurrentVolumeCreates (fold (\<lambda>option. option) options default_options))))),
     drv_nodeService = (if m = ControllerMode then None
       else Some \<lparr>ns_metadata = metadata_of i, ns_state = node_start\<rparr>),
     drv_options = fold (\<lambda>option. option) options default_options\<rparr>)) no_metadata"
proof -
  obtain status where first: "se_Get S 0 = Got 200 status (Inr i)" and id: "vm_PortalUUID i \<noteq> ''''"
    using assms(1) by (auto simp: start_answers_def)
  have again: "wp (instance_metadata (se_Get S)) (\<lambda>r t. r = Inr (metadata_of i)) s"
    if "m = AllMode" and s: "metadata_read i s" "mc_gets s = 1" for s
  proof -
    from that obtain st body where "se_Get S (mc_gets s) = Got 200 st body"
      using assms(1) by (auto simp: start_answers_def)
    from wp_mono [OF instance_metadata_again [of "se_Get S", OF this s(1)]] show ?thesis by simp
  qed
  show ?thesis
    using assms(1,2)
    by (auto simp: NewDriver_def Let_def assms(3,4) start_controller_def newNodeService_def start_answers_def
        mode_defs intro!: wp_mono [OF instance_metadata_first [of "se_Get S", OF first id]]
        wp_mono [OF again])
qed

lemma NewDriver_needs:
  assumes "wp (NewDriver S options) (\<lambda>r s. r = Return (Inr d)) no_metadata"
  shows "\<exists>m i. do_mode (fold (\<lambda>option. option) options default_options) = m \<and> start_answers S m i \<and>
    (m = ControllerMode \<or> m = NodeMode \<or> m = AllMode) \<and>
    ValidateDriverOptions (fold (\<lambda>option. option) options default_options) = None"
proof -
  let ?o = "fold (\<lambda>option. option) options default_options"
  have valid: "ValidateDriverOptions ?o = None"
    using assms by (auto simp: NewDriver_def Let_def split: option.splits)
  then have mode: "do_mode ?o = ControllerMode \<or> do_mode ?o = NodeMode \<or> do_mode ?o = AllMode"
    by (auto simp: ValidateDriverOptions_def validateMode_def split: option.splits if_splits)
  obtain s i where first: "se_Get S 0 = Got 200 s (Inr i)" and id: "vm_PortalUUID i \<noteq> ''''"
    using assms mode valid
    by (fastforce simp: NewDriver_def Let_def mode_defs start_controller_def newNodeService_def
        instance_metadata_def no_metadata_def DefaultVServerMetadataClient_def parseMetadata_def
        NewMetadataService_def split: if_splits sum.splits http_get.splits)
  have "se_kube S = None" if "do_mode ?o \<noteq> NodeMode"
    using assms mode valid that first id
    by (auto simp: NewDriver_def Let_def mode_defs start_controller_def instance_metadata_def
        no_metadata_def DefaultVServerMetadataClient_def parseMetadata_def NewMetadataService_def
        VServerMetadataInstanceInfo_def split: option.splits)
  moreover have "\<exists>st body. se_Get S 1 = Got 200 st body" if "do_mode ?o = AllMode"
    using assms valid that first id
    by (auto simp: NewDriver_def Let_def mode_defs start_controller_def newNodeService_def
        instance_metadata_def no_metadata_def DefaultVServerMetadataClient_def parseMetadata_def
        NewMetadataService_def VServerMetadataInstanceInfo_def
        split: option.splits sum.splits http_get.splits if_splits)
  ultimately have "start_answers S (do_mode ?o) i"
    using first id by (auto simp: start_answers_def)
  with mode valid show ?thesis by blast
qed

text \<open>
  The options that main passes always validate, and the gate has a slot; the credentials are there unless
  the node answers \<open>NodeGetInfo\<close> from a flag.
\<close>

definition started_options :: "mode \<Rightarrow> cli_flags \<Rightarrow> Global \<Rightarrow> DriverOptions" where
  "started_options m flags config = fold (\<lambda>option. option) (main_options m flags config) default_options"

lemma started_options_fields:
  "do_mode (started_options m flags config) = m"
  "do_endpoint (started_options m flags config) = fl_Endpoint flags"
  "do_maxVolumesPerNode (started_options m flags config) = fl_MaxVolumesPerNode flags"
  "do_clientID (started_options m flags config) = gl_ClientID config"
  "do_clientSecret (started_options m flags config) = gl_ClientSecret config"
  "do_identityURL (started_options m flags config) = gl_IdentityURL config"
  "do_vServerURL (started_options m flags config) = gl_VServerURL config"
  "0 < do_maxConcurrentVolumeCreates (started_options m flags config)"
  "do_modifyVolumeRequestHandlerTimeout (started_options m flags config) \<noteq> 0"
  by (simp_all add: started_options_def main_options_def with_defs default_options_def
      DefaultMaxConcurrentVolumeCreates_def DefaultModifyVolumeRequestHandlerTimeout_def Second_def)

lemma started_options_valid:
  assumes "GetOptions getenv parse args = Continue (m, flags, config)" and "m \<noteq> preStopHookCmd"
  shows "m = ControllerMode \<or> m = NodeMode \<or> m = AllMode"
    and "ValidateDriverOptions (started_options m flags config) = None"
  using GetOptions_mode [OF assms(1)] assms(2)
  by (auto simp: ValidateDriverOptions_def validateMode_def started_options_fields)

lemma started_options_credentials:
  assumes "GetOptions getenv parse args = Continue (m, flags, config)" and "m \<noteq> preStopHookCmd"
  shows "gl_ClientID config \<noteq> '''' \<and> gl_ClientSecret config \<noteq> '''' \<and> gl_IdentityURL config \<noteq> '''' \<and>
      gl_VServerURL config \<noteq> '''' \<or> m = NodeMode \<and> 0 < fl_MaxVolumesPerNode flags"
  using GetOptions_mode [OF assms(1)] assms(2)
  by (auto simp: getConfigFromEnv_def Let_def split: if_splits)

lemma NodeGetInfo_from_flag:
  "0 < maxVolumes \<Longrightarrow> NodeGetInfo md maxVolumes portal quota = NodeGetInfo md maxVolumes portal' quota'"
  by (simp add: NodeGetInfo_def Let_def)

text \<open>The driver that a start builds.\<close>

definition started_driver :: "mode \<Rightarrow> cli_flags \<Rightarrow> Global \<Rightarrow> vserver_metadata \<Rightarrow> Driver" where
  "started_driver m flags config i = (let options = started_options m flags config in
     \<lparr>drv_controllerService = (if m = NodeMode then None
        else Some (newControllerService (nat (do_maxConcurrentVolumeCreates options)))),
      drv_nodeService = (if m = ControllerMode then None
        else Some \<lparr>ns_metadata = metadata_of i, ns_state = node_start\<rparr>),
      drv_options = options\<rparr>)"

lemma wp_answer: "wp m (\<lambda>r s. r = x) s \<longleftrightarrow> fst (run_state m s) = x"
  by (simp add: wp_def split: prod.split)

lemma NewDriver_iff:
  assumes "GetOptions getenv parse args = Continue (m, flags, config)" and "m \<noteq> preStopHookCmd"
  shows "fst (run_state (NewDriver S (main_options m flags config)) no_metadata) = Return (Inr d) \<longleftrightarrow>
    (\<exists>i. start_answers S m i \<and> d = started_driver m flags config i)"
proof -
  note o = started_options_def [symmetric]
  note valid = started_options_valid [OF assms]
  have builds: "fst (run_state (NewDriver S (main_options m flags config)) no_metadata) =
      Return (Inr (started_driver m flags config i))" if "start_answers S m i" for i
    using NewDriver_builds [OF that valid(1), of "main_options m flags config"] valid(2)
    unfolding o wp_answer by (simp only: started_options_fields started_driver_def Let_def simp_thms)
  have needs: "\<exists>i. start_answers S m i"
    if "fst (run_state (NewDriver S (main_options m flags config)) no_metadata) = Return (Inr d)"
    using NewDriver_needs [of S "main_options m flags config" d] that
    by (auto simp: o wp_answer started_options_fields)
  show ?thesis
  proof
    assume d: "fst (run_state (NewDriver S (main_options m flags config)) no_metadata) = Return (Inr d)"
    from needs [OF this] obtain i where i: "start_answers S m i" ..
    with builds [OF i] d show "\<exists>i. start_answers S m i \<and> d = started_driver m flags config i"
      by (intro exI [of _ i]) simp
  qed (use builds in blast)
qed

end
