(* ===== verification/RpcMetrics.thy ===== *)
theory RpcMetrics
  imports DriverStart CtlInvariants ApiRoute
begin

text \<open>
  The RPC interceptor and the start-up series of \<^verbatim>\<open>pkg/driver/metrics.go\<close>. A call to an RPC is two
  steps around its handler, what it records when it enters and what it records when it leaves; any
  number of calls may be under way, and their steps interleave. The start-up series are a list of
  specifications that is run on the recorder.
\<close>

section \<open>The interceptor\<close>

definition rpcOperationLabel :: "string \<Rightarrow> string" where
  "rpcOperationLabel pfullMethod =
     (case LastIndexByte pfullMethod (CHR ''/'') of
        Some i \<Rightarrow> if i + 1 < length pfullMethod then drop (i + 1) pfullMethod else ValueUnknown
      | None \<Rightarrow> ValueUnknown)"

definition rpc_enter :: "string \<Rightarrow> mop list" where
  "rpc_enter op = [MAddGauge OperationsInFlight OperationsInFlightHelp 1 {(LabelOp, op)}]"

definition rpc_deferred :: "string \<Rightarrow> mop list" where
  "rpc_deferred op = [MAddGauge OperationsInFlight OperationsInFlightHelp (-1) {(LabelOp, op)}]"

definition rpc_observe :: "string \<Rightarrow> bool \<Rightarrow> int \<Rightarrow> mop list" where
  "rpc_observe op failed duration =
     [MObserveHistogram OperationDuration OperationDurationHelp (seconds duration)
        {(LabelOp, op), (LabelOutcome, if failed then OutcomeError else OutcomeOK)}
        OperationDurationBuckets]"

text \<open>
  Around a controller handler. A panic skips the observation and runs the deferred call; the error
  is nil for a response and for a nil response alike.
\<close>

definition metricsInterceptor :: "cenv \<Rightarrow> string \<Rightarrow> (ctl, 'r reply) state \<Rightarrow> (ctl, 'r reply) state" where
  "metricsInterceptor C fullMethod handler =
     (let op = rpcOperationLabel fullMethod in do {
        _ \<leftarrow> record_metrics (rpc_enter op);
        start \<leftarrow> clock_now C;
        resp \<leftarrow> handler;
        _ \<leftarrow> (case resp of
               Crashed \<Rightarrow> State_Monad.return ()
             | Fail err \<Rightarrow> do {
                 now \<leftarrow> clock_now C; record_metrics (rpc_observe op True (now - start)) }
             | _ \<Rightarrow> do {
                 now \<leftarrow> clock_now C; record_metrics (rpc_observe op False (now - start)) });
        _ \<leftarrow> record_metrics (rpc_deferred op);
        State_Monad.return resp
      })"

section \<open>Concurrent calls\<close>

text \<open>\<open>is_ops\<close>: the labels of the calls under way. \<open>other\<close> are recorder calls of the handlers.\<close>

record intercepted =
  is_ops :: "string list"
  is_mops :: "mop list"

inductive call_step :: "intercepted \<Rightarrow> intercepted \<Rightarrow> bool" where
  enter: "op = rpcOperationLabel fullMethod \<Longrightarrow>
    call_step s \<lparr>is_ops = op # is_ops s, is_mops = is_mops s @ rpc_enter op\<rparr>"
| leave: "op \<in> set (is_ops s) \<Longrightarrow>
    call_step s \<lparr>is_ops = remove1 op (is_ops s),
      is_mops = is_mops s @ rpc_observe op failed duration @ rpc_deferred op\<rparr>"
| panicked: "op \<in> set (is_ops s) \<Longrightarrow>
    call_step s \<lparr>is_ops = remove1 op (is_ops s), is_mops = is_mops s @ rpc_deferred op\<rparr>"
| handler: "mop_ok m \<Longrightarrow> mop_name m \<noteq> OperationsInFlight \<Longrightarrow>
    call_step s (s\<lparr>is_mops := is_mops s @ [m]\<rparr>)"

inductive_cases call_stepE: "call_step s t"

inductive call_reachable :: "intercepted \<Rightarrow> bool" where
  start: "call_reachable \<lparr>is_ops = [], is_mops = []\<rparr>"
| step: "call_reachable s \<Longrightarrow> call_step s t \<Longrightarrow> call_reachable t"

definition in_flight_value :: "string \<Rightarrow> mop list \<Rightarrow> rat" where
  "in_flight_value op ms =
     (case gauge OperationsInFlight {(LabelOp, op)} ms of None \<Rightarrow> 0 | Some x \<Rightarrow> x)"

definition call_inv :: "intercepted \<Rightarrow> bool" where
  "call_inv s \<longleftrightarrow> (\<forall>op. in_flight_value op (is_mops s) = of_nat (count_list (is_ops s) op)) \<and>
     list_all mop_ok (is_mops s)"

lemma in_flight_append_other:
  "mop_name m \<noteq> OperationsInFlight \<Longrightarrow> in_flight_value op (ms @ [m]) = in_flight_value op ms"
  by (simp add: in_flight_value_def gauge_def mop_series_other)

lemma in_flight_append_add:
  "in_flight_value op (ms @ [MAddGauge OperationsInFlight h d {(LabelOp, op')}]) =
    (if op' = op then in_flight_value op ms + d else in_flight_value op ms)"
  by (auto simp: in_flight_value_def gauge_def split: option.split)

lemma in_flight_steps:
  "in_flight_value op (ms @ rpc_enter op') = in_flight_value op ms + (if op' = op then 1 else 0)"
  "in_flight_value op (ms @ rpc_deferred op') = in_flight_value op ms - (if op' = op then 1 else 0)"
  "in_flight_value op (ms @ rpc_observe op' failed d @ rpc_deferred op') =
     in_flight_value op ms - (if op' = op then 1 else 0)"
proof -
  have observe: "in_flight_value op (ms @ rpc_observe op' failed d) = in_flight_value op ms"
    unfolding rpc_observe_def by (rule in_flight_append_other) (simp add: metric_name_defs)
  show "in_flight_value op (ms @ rpc_enter op') = in_flight_value op ms + (if op' = op then 1 else 0)"
    and deferred: "in_flight_value op (ms @ rpc_deferred op') =
      in_flight_value op ms - (if op' = op then 1 else 0)" for ms
    by (simp_all add: rpc_enter_def rpc_deferred_def in_flight_append_add)
  from deferred [of "ms @ rpc_observe op' failed d"] observe
  show "in_flight_value op (ms @ rpc_observe op' failed d @ rpc_deferred op') =
     in_flight_value op ms - (if op' = op then 1 else 0)" by simp
qed

lemma rpc_mops_ok [simp]:
  "list_all mop_ok (rpc_enter op)" "list_all mop_ok (rpc_deferred op)"
  "list_all mop_ok (rpc_observe op failed d)"
  by (simp_all add: rpc_enter_def rpc_deferred_def rpc_observe_def shape_defs)

lemma count_remove_op:
  "op \<in> set ops \<Longrightarrow> count_list (remove1 op ops) x = count_list ops x - (if x = op then 1 else 0)"
  by (induction ops) (auto simp: count_list_0_iff)

lemma count_pos: "op \<in> set ops \<Longrightarrow> 0 < count_list ops op"
  by (metis count_list_0_iff gr0I)

lemma call_step_inv: "call_step s t \<Longrightarrow> call_inv s \<Longrightarrow> call_inv t"
proof (induction rule: call_step.induct)
  case (enter op fullMethod s)
  then show ?case by (simp add: call_inv_def in_flight_steps)
next
  case (leave op s failed duration)
  then show ?case
    using count_pos [of op "is_ops s"]
    by (auto simp: call_inv_def in_flight_steps count_remove_op of_nat_diff Suc_leI)
next
  case (panicked op s)
  then show ?case
    using count_pos [of op "is_ops s"]
    by (auto simp: call_inv_def in_flight_steps count_remove_op of_nat_diff Suc_leI)
next
  case (handler m s)
  then show ?case by (simp add: call_inv_def in_flight_append_other)
qed

lemma call_reachable_inv: "call_reachable s \<Longrightarrow> call_inv s"
proof (induction rule: call_reachable.induct)
  case start
  then show ?case by (simp add: call_inv_def in_flight_value_def gauge_def)
next
  case (step s t)
  then show ?case by (blast intro: call_step_inv)
qed

text \<open>C24: However calls to the driver's RPCs interleave, and however they end, a panic included, the
operations-in-flight gauge of each operation is the number of its calls under way, and what the
calls record never panics the recorder.\<close>

theorem in_flight_gauge_counts:
  assumes "call_reachable s"
  shows "in_flight_value op (is_mops s) = of_nat (count_list (is_ops s) op) \<and>
    (\<exists>r. run_mops (is_mops s) (InitializeRecorder None) = Return r \<and> recorder_ok r)"
  using call_reachable_inv [OF assms] run_mops_ok [OF recorder_ok_init, of "is_mops s"]
  by (auto simp: call_inv_def list_all_iff)

theorem in_flight_gauge_counts_witness:
  "in_flight_value ''CreateVolume'' (rpc_enter ''CreateVolume'' @ rpc_enter ''CreateVolume'') = 2"
proof -
  have op: "''CreateVolume'' = rpcOperationLabel ''/csi.v1.Controller/CreateVolume''"
    by (simp add: rpcOperationLabel_def)
  note s1 = step [OF start enter [OF op]]
  from in_flight_gauge_counts [OF step [OF s1 enter [OF op]], of "''CreateVolume''"]
  show ?thesis by simp
qed

section \<open>The series of the start\<close>

datatype seriesKind = seriesCounter | seriesGauge | seriesHistogram

record seriesSpec =
  ss_Kind :: seriesKind
  ss_Name :: string
  ss_Help :: string
  ss_Labels :: labels
  ss_Buckets :: "rat list"

definition spec :: "seriesKind \<Rightarrow> string \<Rightarrow> string \<Rightarrow> labels \<Rightarrow> rat list \<Rightarrow> seriesSpec" where
  "spec k n h ls bs = \<lparr>ss_Kind = k, ss_Name = n, ss_Help = h, ss_Labels = ls, ss_Buckets = bs\<rparr>"

definition route_series :: "RouteMethod \<Rightarrow> seriesSpec list" where
  "route_series route =
     (let labels = {(LabelRoute, rm_Route route), (LabelMethod, rm_Method route)} in
      [spec seriesHistogram APIRequestDuration APIRequestDurationHelp labels APIRequestDurationBuckets,
       spec seriesCounter APIRequestThrottles APIRequestThrottlesHelp labels [],
       spec seriesCounter APIRequestsShed APIRequestsShedHelp labels []] @
      map (\<lambda>outcome. spec seriesCounter APIRequests APIRequestsHelp
             {(LabelRoute, rm_Route route), (LabelMethod, rm_Method route), (LabelOutcome, outcome)} [])
        [OutcomeOK, OutcomeError, OutcomeThrottled, OutcomeShed])"

definition reason_series :: "string \<Rightarrow> seriesSpec list" where
  "reason_series reason =
     [spec seriesCounter DetachBreakerTrips DetachBreakerTripsHelp {(LabelReason, reason)} [],
      spec seriesCounter DeleteBreakerTrips DeleteBreakerTripsHelp {(LabelReason, reason)} []] @
     map (\<lambda>op. spec seriesCounter IaaSErrors IaaSErrorsHelp {(LabelOp, op), (LabelReason, reason)} [])
       [OpCreate, OpAttach, OpDetach, OpDelete]"

definition startupSeries :: "mode \<Rightarrow> seriesSpec list" where
  "startupSeries pmode =
     concat (map route_series KnownAPIRoutes) @
     (if pmode = NodeMode then []
      else concat (map reason_series AllErrorReasons) @
        [spec seriesGauge CreateGateWaiting CreateGateWaitingHelp {} [],
         spec seriesHistogram CreateGateWaitSeconds CreateGateWaitSecondsHelp {} CreateGateWaitBuckets])"

fun series_mop :: "seriesSpec \<Rightarrow> mop" where
  "series_mop s = (case ss_Kind s of
     seriesCounter \<Rightarrow> MInitializeCounter (ss_Name s) (ss_Help s) (ss_Labels s)
   | seriesGauge \<Rightarrow> MInitializeGauge (ss_Name s) (ss_Help s) (ss_Labels s)
   | seriesHistogram \<Rightarrow> MInitializeHistogram (ss_Name s) (ss_Help s) (ss_Labels s) (ss_Buckets s))"

text \<open>Without a recorder the code returns at once; so does every recorder call.\<close>

definition InitializeStartupMetrics :: "mode \<Rightarrow> recorder option \<Rightarrow> recorder option go" where
  "InitializeStartupMetrics pmode rec =
     (case rec of None \<Rightarrow> Return None | Some m \<Rightarrow> run_mops (map series_mop (startupSeries pmode)) rec)"

lemma startup_ok: "\<forall>c\<in>set (map series_mop (startupSeries pmode)). mop_ok c"
proof -
  have "mop_ok (series_mop x)" if "x \<in> set (route_series route)" for x route
    using that by (auto simp: route_series_def spec_def shape_defs Let_def)
  moreover have "mop_ok (series_mop x)" if "x \<in> set (reason_series r)" for x r
    using that by (auto simp: reason_series_def spec_def shape_defs)
  moreover have "mop_ok (series_mop (spec seriesGauge CreateGateWaiting h {} []))"
    "mop_ok (series_mop (spec seriesHistogram CreateGateWaitSeconds h {} b))" for h b
    by (simp_all add: spec_def shape_defs)
  ultimately show ?thesis by (auto simp: startupSeries_def)
qed

text \<open>Starting a series leaves it at zero, and no other.\<close>

lemma zero_step:
  "mop_series n l (series_mop s) v =
    (if ss_Kind s \<noteq> seriesHistogram \<and> ss_Name s = n \<and> ss_Labels s = l
     then Some (case v of None \<Rightarrow> 0 | Some x \<Rightarrow> x) else v)"
  by (cases "ss_Kind s") (auto split: option.split)

lemma zero_fold:
  "v = None \<or> v = Some 0 \<Longrightarrow> fold (mop_series n l) (map series_mop ss) v =
    (if v = Some 0 \<or> (\<exists>s\<in>set ss. ss_Kind s \<noteq> seriesHistogram \<and> ss_Name s = n \<and> ss_Labels s = l)
     then Some 0 else None)"
proof (induction ss arbitrary: v)
  case Nil
  then show ?case by auto
next
  case (Cons s ss)
  let ?v = "mop_series n l (series_mop s) v"
  from Cons.prems have "?v = None \<or> ?v = Some 0" by (auto simp: zero_step simp del: series_mop.simps)
  from Cons.IH [OF this] Cons.prems show ?case
    by (auto simp: zero_step simp del: series_mop.simps)
qed

lemma startup_series:
  assumes "map_of metric_shapes n = Some (kind, names)" and "kind \<noteq> HistogramVec"
  shows "\<exists>m. InitializeStartupMetrics pmode (InitializeRecorder None) = Return (Some m) \<and>
    recorder_inv m \<and> series m n l =
      (if \<exists>s\<in>set (startupSeries pmode). ss_Kind s \<noteq> seriesHistogram \<and> ss_Name s = n \<and> ss_Labels s = l
       then Some 0 else None)"
proof -
  let ?m0 = "\<lparr>rec_metrics = Map.empty, rec_calls = []\<rparr>"
  have "recorder_inv ?m0" by (simp add: recorder_inv_def)
  moreover have "series ?m0 n l = None" by (simp add: series_def)
  ultimately show ?thesis
    using run_mops_series [OF _ startup_ok assms, of ?m0 pmode l] zero_fold [of None n l "startupSeries pmode"]
    by (simp add: InitializeStartupMetrics_def InitializeRecorder_def)
qed

lemma startup_names:
  assumes "s \<in> set (startupSeries pmode)" and "ss_Kind s \<noteq> seriesHistogram"
  shows "ss_Name s \<noteq> DetachPendingSeconds" "ss_Name s \<noteq> DeletePendingSeconds"
    "pmode = NodeMode \<Longrightarrow> ss_Name s \<in> {APIRequestThrottles, APIRequestsShed, APIRequests}"
proof -
  have routes: "ss_Name s \<in> {APIRequestThrottles, APIRequestsShed, APIRequests}"
    if "s \<in> set (route_series route)" for route
    using that assms(2) by (auto simp: route_series_def spec_def Let_def)
  have "ss_Name s \<noteq> DetachPendingSeconds \<and> ss_Name s \<noteq> DeletePendingSeconds"
    using assms routes by (fastforce simp: startupSeries_def reason_series_def spec_def metric_name_defs
        split: if_splits)
  then show "ss_Name s \<noteq> DetachPendingSeconds" "ss_Name s \<noteq> DeletePendingSeconds" by blast+
  show "ss_Name s \<in> {APIRequestThrottles, APIRequestsShed, APIRequests}" if "pmode = NodeMode"
    using assms(1) routes that by (auto simp: startupSeries_def)
qed

text \<open>C25: Starting the metrics of any mode on a fresh recorder does not panic and leaves every counter and gauge
it lists at zero and no other series: none for a volume that is pending, and in the node's mode
none but those of the API routes.\<close>

theorem startup_series_at_zero:
  assumes "map_of metric_shapes n = Some (kind, names)" and "kind \<noteq> HistogramVec"
  shows "\<exists>m. InitializeStartupMetrics pmode (InitializeRecorder None) = Return (Some m) \<and>
    recorder_inv m \<and>
    series m n l =
      (if \<exists>s\<in>set (startupSeries pmode). ss_Kind s \<noteq> seriesHistogram \<and> ss_Name s = n \<and> ss_Labels s = l
       then Some 0 else None) \<and>
    series m DetachPendingSeconds l = None \<and> series m DeletePendingSeconds l = None \<and>
    (pmode = NodeMode \<longrightarrow> n \<notin> {APIRequestThrottles, APIRequestsShed, APIRequests} \<longrightarrow> series m n l = None)"
proof -
  have shapes: "map_of metric_shapes DetachPendingSeconds = Some (GaugeVec, {LabelVolumeID, LabelNodeID})"
    "map_of metric_shapes DeletePendingSeconds = Some (GaugeVec, {LabelVolumeID})"
    by (simp_all add: metric_shapes_def metric_name_defs)
  obtain m where m: "InitializeStartupMetrics pmode (InitializeRecorder None) = Return (Some m)"
    "recorder_inv m"
    using startup_series [OF assms] by blast
  have val: "series m x l = (if \<exists>s\<in>set (startupSeries pmode). ss_Kind s \<noteq> seriesHistogram \<and>
      ss_Name s = x \<and> ss_Labels s = l then Some 0 else None)"
    if "map_of metric_shapes x = Some (k, ns)" "k \<noteq> HistogramVec" for x k ns
    using startup_series [OF that, of pmode l] m(1) by auto
  have none: "series m DetachPendingSeconds l = None" "series m DeletePendingSeconds l = None"
    unfolding val [OF shapes(1), simplified] val [OF shapes(2), simplified] using startup_names by auto
  have "series m n l = None"
    if "pmode = NodeMode" "n \<notin> {APIRequestThrottles, APIRequestsShed, APIRequests}"
    unfolding val [OF assms] using startup_names(3) [of _ pmode] that by auto
  then show ?thesis
    using m none val [OF assms] by (intro exI [of _ m]) simp
qed

theorem startup_series_at_zero_witness:
  "\<exists>m. InitializeStartupMetrics ControllerMode (InitializeRecorder None) = Return (Some m) \<and>
    series m CreateGateWaiting {} = Some 0"
proof -
  have "map_of metric_shapes CreateGateWaiting = Some (GaugeVec, {})"
    by (simp add: metric_shapes_def metric_name_defs)
  from startup_series_at_zero [OF this, of ControllerMode "{}"] show ?thesis
    by (auto simp: startupSeries_def spec_def mode_defs split: if_splits)
qed

end
