(* ===== verification/PreStop.thy ===== *)
theory PreStop
  imports NodeTaint
begin

text \<open>
  The pre-stop hook of \<^verbatim>\<open>cmd/hooks/prestop.go\<close> and the command of \<^verbatim>\<open>main.go\<close> that runs it. While
  the hook waits, the goroutine that called it and the informer's callbacks each list the volume
  attachments and may release it, at any time and in any order: the hook is a step relation. A List
  is atomic, and so is a release, which \<open>sync.Once\<close> guards.
\<close>

section \<open>Is the node being drained\<close>

definition drainTaints :: "string set" where
  "drainTaints = {''node.kubernetes.io/unschedulable'', ''ToBeDeletedByClusterAutoscaler'',
     ''karpenter.sh/disrupted'', ''karpenter.sh/disruption''}"

fun isNodeBeingDrained :: "taint list \<Rightarrow> bool" where
  "isNodeBeingDrained [] = False"
| "isNodeBeingDrained (t # ts) = (if tn_Key t \<in> drainTaints then True else isNodeBeingDrained ts)"

definition fetchNode :: "go_error + taint list \<Rightarrow> go_error + taint list" where
  "fetchNode answer =
     (case answer of
        Inl err \<Rightarrow> Inl (GoWrap ''fetchNode: failed to retrieve node information'' err)
      | Inr node \<Rightarrow> Inr node)"

text \<open>
  What \<open>PreStop\<close> does before it waits. \<open>answer\<close> is the API server's for this node; \<open>isNotFound\<close> is
  the API machinery's test, which looks through wrapped errors.
\<close>

datatype prestop_plan = ReturnError go_error | ReturnNil | WaitForAttachments

definition PreStop_plan :: "(go_error \<Rightarrow> bool) \<Rightarrow> string \<Rightarrow> go_error + taint list \<Rightarrow> prestop_plan" where
  "PreStop_plan isNotFound nodeName answer =
     (if nodeName = '''' then ReturnError (GoErr ''PreStop: CSI_NODE_NAME missing'')
      else (case fetchNode answer of
         Inl err \<Rightarrow> if isNotFound err then WaitForAttachments else ReturnError err
       | Inr node \<Rightarrow> if \<not> isNodeBeingDrained node then ReturnNil else WaitForAttachments))"

section \<open>The signal\<close>

text \<open>\<open>sg_closed\<close> counts the calls of \<open>close\<close> on the channel; a second one panics.\<close>

record completionSignal =
  sg_closed :: nat
  sg_once :: bool

definition newCompletionSignal :: completionSignal where
  "newCompletionSignal = \<lparr>sg_closed = 0, sg_once = False\<rparr>"

definition release :: "completionSignal \<Rightarrow> completionSignal" where
  "release s = (if sg_once s then s else s\<lparr>sg_closed := Suc (sg_closed s), sg_once := True\<rparr>)"

definition signalled :: "completionSignal \<Rightarrow> bool" where
  "signalled s \<longleftrightarrow> 0 < sg_closed s"

section \<open>Looking at the attachments\<close>

record attachment =
  va_Name :: string
  va_NodeName :: string

text \<open>Whether a look releases the hook: nothing does when the List fails.\<close>

fun attachment_left :: "string \<Rightarrow> attachment list \<Rightarrow> bool" where
  "attachment_left nodeName [] = False"
| "attachment_left nodeName (a # as) =
     (if va_NodeName a = nodeName then True else attachment_left nodeName as)"

definition checkVolumeAttachments :: "string \<Rightarrow> go_error + attachment list \<Rightarrow> bool" where
  "checkVolumeAttachments nodeName answer =
     (case answer of Inl _ \<Rightarrow> False | Inr items \<Rightarrow> \<not> attachment_left nodeName items)"

text \<open>An event's object is an attachment, or something else (a tombstone): \<open>None\<close>.\<close>

definition rescanOnAttachmentEvent :: "string \<Rightarrow> attachment option \<Rightarrow> bool" where
  "rescanOnAttachmentEvent nodeName obj =
     (case obj of None \<Rightarrow> True | Some va \<Rightarrow> va_NodeName va = nodeName)"

section \<open>The hook\<close>

datatype hook_pc = HookStarts | HookLists | HookBlocks | HookReturns "go_error option"

text \<open>
  \<open>hk_looks\<close>: the answers of the Lists, latest first. \<open>hk_releasing\<close>: how many goroutines found nothing
  left and are about to release.
\<close>

record hook =
  hk_pc :: hook_pc
  hk_signal :: completionSignal
  hk_looks :: "(go_error + attachment list) list"
  hk_releasing :: nat

definition hook_start :: hook where
  "hook_start = \<lparr>hk_pc = HookStarts, hk_signal = newCompletionSignal, hk_looks = [], hk_releasing = 0\<rparr>"

definition look :: "string \<Rightarrow> go_error + attachment list \<Rightarrow> hook \<Rightarrow> hook" where
  "look nodeName answer s = s\<lparr>hk_looks := answer # hk_looks s,
     hk_releasing := (if checkVolumeAttachments nodeName answer then Suc (hk_releasing s)
                      else hk_releasing s)\<rparr>"

inductive hook_step :: "(go_error \<Rightarrow> bool) \<Rightarrow> string \<Rightarrow> go_error + taint list \<Rightarrow> hook \<Rightarrow> hook \<Rightarrow> bool"
  for isNotFound nodeName node where
  refuse: "hk_pc s = HookStarts \<Longrightarrow> PreStop_plan isNotFound nodeName node = ReturnError err \<Longrightarrow>
    hook_step isNotFound nodeName node s (s\<lparr>hk_pc := HookReturns (Some err)\<rparr>)"
| skip: "hk_pc s = HookStarts \<Longrightarrow> PreStop_plan isNotFound nodeName node = ReturnNil \<Longrightarrow>
    hook_step isNotFound nodeName node s (s\<lparr>hk_pc := HookReturns None\<rparr>)"
| no_handler: "hk_pc s = HookStarts \<Longrightarrow> PreStop_plan isNotFound nodeName node = WaitForAttachments \<Longrightarrow>
    hook_step isNotFound nodeName node s (s\<lparr>hk_pc := HookReturns
      (Some (GoWrap ''failed to add event handler to VolumeAttachment informer'' err))\<rparr>)"
| informer: "hk_pc s = HookStarts \<Longrightarrow> PreStop_plan isNotFound nodeName node = WaitForAttachments \<Longrightarrow>
    hook_step isNotFound nodeName node s (s\<lparr>hk_pc := HookLists\<rparr>)"
| first_look: "hk_pc s = HookLists \<Longrightarrow>
    hook_step isNotFound nodeName node s ((look nodeName answer s)\<lparr>hk_pc := HookBlocks\<rparr>)"
| event_look: "hk_pc s = HookLists \<or> hk_pc s = HookBlocks \<Longrightarrow> rescanOnAttachmentEvent nodeName obj \<Longrightarrow>
    hook_step isNotFound nodeName node s (look nodeName answer s)"
| let_go: "hk_releasing s = Suc n \<Longrightarrow>
    hook_step isNotFound nodeName node s (s\<lparr>hk_releasing := n, hk_signal := release (hk_signal s)\<rparr>)"
| wake: "hk_pc s = HookBlocks \<Longrightarrow> signalled (hk_signal s) \<Longrightarrow>
    hook_step isNotFound nodeName node s (s\<lparr>hk_pc := HookReturns None\<rparr>)"

inductive_cases hook_stepE: "hook_step nf n node s t"

definition hook_reachable :: "(go_error \<Rightarrow> bool) \<Rightarrow> string \<Rightarrow> go_error + taint list \<Rightarrow> hook \<Rightarrow> bool" where
  "hook_reachable isNotFound nodeName node s \<longleftrightarrow>
     (hook_step isNotFound nodeName node)\<^sup>*\<^sup>* hook_start s"

text \<open>\<^verbatim>\<open>main.go\<close>: the status the command leaves with, for a client or the hook's result.\<close>

definition runPreStopHook :: "go_error + go_error option \<Rightarrow> int" where
  "runPreStopHook outcome =
     (case outcome of
        Inl clientErr \<Rightarrow> 0
      | Inr (Some hookErr) \<Rightarrow> 1
      | Inr None \<Rightarrow> 0)"

section \<open>What the hook promises\<close>

lemma attachment_left_iff: "attachment_left n as \<longleftrightarrow> (\<exists>a\<in>set as. va_NodeName a = n)"
  by (induction as) auto

lemma isNodeBeingDrained_iff: "isNodeBeingDrained ts \<longleftrightarrow> (\<exists>t\<in>set ts. tn_Key t \<in> drainTaints)"
  by (induction ts) auto

definition drained_seen :: "string \<Rightarrow> hook \<Rightarrow> bool" where
  "drained_seen nodeName s \<longleftrightarrow>
     (\<exists>items. Inr items \<in> set (hk_looks s) \<and> (\<forall>a\<in>set items. va_NodeName a \<noteq> nodeName))"

definition hook_inv :: "(go_error \<Rightarrow> bool) \<Rightarrow> string \<Rightarrow> go_error + taint list \<Rightarrow> hook \<Rightarrow> bool" where
  "hook_inv isNotFound nodeName node s \<longleftrightarrow>
     sg_closed (hk_signal s) = (if sg_once (hk_signal s) then 1 else 0) \<and>
     (0 < hk_releasing s \<or> sg_once (hk_signal s) \<longrightarrow> drained_seen nodeName s) \<and>
     (hk_pc s = HookReturns None \<longrightarrow>
        PreStop_plan isNotFound nodeName node = ReturnNil \<or> drained_seen nodeName s)"

lemma look_seen:
  "checkVolumeAttachments nodeName answer \<Longrightarrow> drained_seen nodeName (look nodeName answer s)"
  "drained_seen nodeName s \<Longrightarrow> drained_seen nodeName (look nodeName answer s)"
  by (auto simp: checkVolumeAttachments_def drained_seen_def look_def attachment_left_iff
      split: sum.splits)

lemma drained_seen_cong: "hk_looks t = hk_looks s \<Longrightarrow> drained_seen n t = drained_seen n s"
  by (simp add: drained_seen_def)

lemma look_inv:
  assumes "hook_inv nf n node s"
  shows "hook_inv nf n node (look n answer s)"
proof -
  have "hk_signal (look n answer s) = hk_signal s" "hk_pc (look n answer s) = hk_pc s"
    and "0 < hk_releasing (look n answer s) \<Longrightarrow> 0 < hk_releasing s \<or> checkVolumeAttachments n answer"
    by (simp_all add: look_def split: if_splits)
  with assms look_seen(1) [of n answer s] look_seen(2) [of n s answer] show ?thesis
    unfolding hook_inv_def by metis
qed

lemma hook_step_inv: "hook_step nf n node s t \<Longrightarrow> hook_inv nf n node s \<Longrightarrow> hook_inv nf n node t"
proof (induction rule: hook_step.induct)
  case (first_look s answer)
  have "drained_seen n (u\<lparr>hk_pc := HookBlocks\<rparr>) = drained_seen n u" for u
    by (rule drained_seen_cong) simp
  with look_inv [OF first_look(2), of answer] show ?case by (simp add: hook_inv_def)
next
  case (event_look s obj answer)
  then show ?case by (blast intro: look_inv)
qed (auto simp: hook_inv_def release_def signalled_def drained_seen_def split: if_splits)

lemma hook_start_inv: "hook_inv nf n node hook_start"
  by (simp add: hook_inv_def hook_start_def newCompletionSignal_def)

lemma hook_reachable_inv: "hook_reachable nf n node s \<Longrightarrow> hook_inv nf n node s"
  unfolding hook_reachable_def
  by (induction rule: rtranclp_induct) (auto intro: hook_start_inv hook_step_inv)

text \<open>C23: However the hook's own look, the informer's events and their releases interleave, the channel is
closed at most once, so the hook cannot panic; and a hook that returns without an error either found
a node that is not being drained, or some List showed no attachment of this node.\<close>

theorem prestop_hook_safe:
  assumes "hook_reachable isNotFound nodeName node s"
  shows "sg_closed (hk_signal s) \<le> 1 \<and>
    (hk_pc s = HookReturns None \<longrightarrow>
       (\<exists>taints. node = Inr taints \<and> (\<forall>t\<in>set taints. tn_Key t \<notin> drainTaints)) \<or>
       (\<exists>items. Inr items \<in> set (hk_looks s) \<and> (\<forall>a\<in>set items. va_NodeName a \<noteq> nodeName)))"
proof -
  have "\<exists>taints. node = Inr taints \<and> (\<forall>t\<in>set taints. tn_Key t \<notin> drainTaints)"
    if "PreStop_plan isNotFound nodeName node = ReturnNil"
    using that by (auto simp: PreStop_plan_def fetchNode_def isNodeBeingDrained_iff
        split: if_splits sum.splits)
  with hook_reachable_inv [OF assms] show ?thesis
    by (auto simp: hook_inv_def drained_seen_def)
qed

definition drained_node :: "go_error + taint list" where
  "drained_node = Inr [\<lparr>tn_Key = ''node.kubernetes.io/unschedulable'', tn_Value = '''', tn_Effect = ''NoSchedule''\<rparr>]"

lemma three_steps: "r a b \<Longrightarrow> r b c \<Longrightarrow> r c d \<Longrightarrow> r\<^sup>*\<^sup>* a d"
  by (rule rtranclp.rtrancl_into_rtrancl, rule rtranclp.rtrancl_into_rtrancl, rule r_into_rtranclp)

lemma four_steps: "r a b \<Longrightarrow> r b c \<Longrightarrow> r c d \<Longrightarrow> r d e \<Longrightarrow> r\<^sup>*\<^sup>* a e"
  by (rule rtranclp.rtrancl_into_rtrancl, rule three_steps)

theorem prestop_hook_safe_witness:
  "\<exists>s. hook_reachable (\<lambda>_. False) ''n1'' drained_node s \<and> hk_pc s = HookReturns None \<and>
     sg_closed (hk_signal s) \<le> 1"
proof -
  let ?step = "hook_step (\<lambda>_. False) ''n1'' drained_node"
  let ?s1 = "hook_start\<lparr>hk_pc := HookLists\<rparr>"
  let ?s2 = "(look ''n1'' (Inr []) ?s1)\<lparr>hk_pc := HookBlocks\<rparr>"
  let ?s3 = "?s2\<lparr>hk_releasing := 0, hk_signal := release (hk_signal ?s2)\<rparr>"
  let ?s4 = "?s3\<lparr>hk_pc := HookReturns None\<rparr>"
  have "?step hook_start ?s1"
    by (rule informer) (simp_all add: hook_start_def PreStop_plan_def fetchNode_def drained_node_def drainTaints_def)
  moreover have "?step ?s1 ?s2" by (rule first_look) simp
  moreover have "?step ?s2 ?s3"
    by (rule let_go) (simp add: look_def checkVolumeAttachments_def hook_start_def)
  moreover have "?step ?s3 ?s4"
    by (rule wake) (simp_all add: look_def release_def signalled_def hook_start_def newCompletionSignal_def)
  ultimately have "?step\<^sup>*\<^sup>* hook_start ?s4" by (rule four_steps)
  then have "hook_reachable (\<lambda>_. False) ''n1'' drained_node ?s4" by (simp add: hook_reachable_def)
  with prestop_hook_safe [OF this] show ?thesis by (intro exI [of _ ?s4]) simp
qed

text \<open>Once nothing is left, the next event that concerns the node, a tombstone included, lets a blocked hook go.\<close>

lemma prestop_hook_progress:
  assumes "hk_pc s = HookBlocks" and "rescanOnAttachmentEvent nodeName obj"
    and "\<forall>a\<in>set (items :: attachment list). va_NodeName a \<noteq> nodeName"
    and "hook_reachable nf nodeName node s"
  shows "\<exists>t. (hook_step nf nodeName node)\<^sup>*\<^sup>* s t \<and> hk_pc t = HookReturns None"
proof -
  let ?step = "hook_step nf nodeName node"
  let ?s1 = "look nodeName (Inr items) s"
  let ?s2 = "?s1\<lparr>hk_releasing := hk_releasing s, hk_signal := release (hk_signal ?s1)\<rparr>"
  let ?s3 = "?s2\<lparr>hk_pc := HookReturns None\<rparr>"
  have check: "checkVolumeAttachments nodeName (Inr items)"
    using assms(3) by (simp add: checkVolumeAttachments_def attachment_left_iff)
  have "?step s ?s1" using assms(1,2) by (intro event_look) auto
  moreover have "?step ?s1 ?s2" by (rule let_go) (simp add: look_def check)
  moreover have "?step ?s2 ?s3"
    using assms(1) hook_reachable_inv [OF assms(4)]
    by (intro wake) (auto simp: look_def release_def signalled_def hook_inv_def)
  ultimately have "?step\<^sup>*\<^sup>* s ?s3" by (rule three_steps)
  then show ?thesis by (intro exI [of _ ?s3]) simp
qed

end
