(* ===== verification/MainProcess.thy ===== *)
theory MainProcess
  imports RpcMetrics PreStop
begin

text \<open>
  The process: \<open>main\<close> of \<^verbatim>\<open>cmd/vngcloud-blockstorage-csi-driver/main.go\<close>, from the command line to the
  server or to an exit status, over the parts it composes: \<open>GetOptions\<close>, the pre-stop hook, the recorder
  with its start-up series, \<open>NewDriver\<close> and \<open>Run\<close>. What each of them asks of the outside is gathered in
  one record.
\<close>

section \<open>main\<close>

record main_env =
  me_getenv :: "string \<Rightarrow> string"
  me_parse :: "string list \<Rightarrow> cli_flags \<Rightarrow> cli_flags option"
  me_args :: "string list"
  me_hook :: "go_error + go_error option"
  me_tracing :: "go_error option"
  me_start :: start_env
  me_ParseEndpoint :: "string \<Rightarrow> go_error + (string \<times> string)"
  me_Listen :: "string \<Rightarrow> string \<Rightarrow> go_error option"

text \<open>A process that serves: its driver, where it listens, what it serves, and the recorder if there is one.\<close>

record serving =
  sv_driver :: Driver
  sv_address :: "string \<times> string"
  sv_services :: "grpc_service list"
  sv_recorder :: "recorder option"

definition main_metrics :: "mode \<Rightarrow> cli_flags \<Rightarrow> recorder option go" where
  "main_metrics m flags =
     (if fl_HttpEndpoint flags \<noteq> '''' then InitializeStartupMetrics m (InitializeRecorder None)
      else Return None)"

definition main :: "main_env \<Rightarrow> serving process" where
  "main M =
     (case GetOptions (me_getenv M) (me_parse M) (me_args M) of
        ExitStatus n \<Rightarrow> ExitStatus n
      | MainPanic \<Rightarrow> MainPanic
      | Continue (m, flags, config) \<Rightarrow>
          if m = preStopHookCmd then ExitStatus (runPreStopHook (me_hook M))
          else if fl_EnableOtelTracing flags \<and> me_tracing M \<noteq> None then ExitStatus 1
          else (case main_metrics m flags of
             Panic \<Rightarrow> MainPanic
           | Return rec \<Rightarrow>
               (case fst (run_state (NewDriver (me_start M) (main_options m flags config)) no_metadata) of
                  Panic \<Rightarrow> MainPanic
                | Return (Inl err) \<Rightarrow> ExitStatus 1
                | Return (Inr drv) \<Rightarrow>
                    (case Run_server (me_ParseEndpoint M) (me_Listen M) drv of
                       Inl err \<Rightarrow> ExitStatus 1
                     | Inr (scheme, addr, services) \<Rightarrow>
                         Continue \<lparr>sv_driver = drv, sv_address = (scheme, addr), sv_services = services,
                           sv_recorder = rec\<rparr>))))"

section \<open>When it serves\<close>

text \<open>The metrics never stop the start.\<close>

lemma main_metrics_returns:
  "\<exists>rec. main_metrics m flags = Return rec \<and> (rec = None \<longleftrightarrow> fl_HttpEndpoint flags = '''') \<and>
    (\<forall>r. rec = Some r \<longrightarrow> recorder_inv r)"
proof -
  have "map_of metric_shapes CreateGateWaiting = Some (GaugeVec, {})"
    by (simp add: metric_shapes_def metric_name_defs)
  from startup_series [OF this, of m "{}"] show ?thesis
    by (auto simp: main_metrics_def)
qed

definition can_serve :: "main_env \<Rightarrow> mode \<Rightarrow> cli_flags \<Rightarrow> vserver_metadata \<Rightarrow> bool" where
  "can_serve M m flags i \<longleftrightarrow> m \<noteq> preStopHookCmd \<and> \<not> (fl_EnableOtelTracing flags \<and> me_tracing M \<noteq> None) \<and>
     start_answers (me_start M) m i \<and>
     (\<exists>scheme addr. me_ParseEndpoint M (fl_Endpoint flags) = Inr (scheme, addr) \<and> me_Listen M scheme addr = None)"

lemma Run_server_iff:
  "Run_server ep listen d = Inr (scheme, addr, services) \<longleftrightarrow>
    ep (do_endpoint (drv_options d)) = Inr (scheme, addr) \<and> listen scheme addr = None \<and>
    registered_services (do_mode (drv_options d)) = Inr services"
  by (auto simp: Run_server_def split: sum.splits option.splits)

lemma main_continues:
  "main M = Continue s \<longleftrightarrow> (\<exists>m flags config i.
    GetOptions (me_getenv M) (me_parse M) (me_args M) = Continue (m, flags, config) \<and>
    can_serve M m flags i \<and> sv_driver s = started_driver m flags config i \<and>
    me_ParseEndpoint M (fl_Endpoint flags) = Inr (sv_address s) \<and>
    registered_services m = Inr (sv_services s) \<and> main_metrics m flags = Return (sv_recorder s))"
proof (cases "GetOptions (me_getenv M) (me_parse M) (me_args M)")
  case (Continue x)
  obtain m flags config where x: "x = (m, flags, config)" by (cases x)
  note opts = Continue [unfolded x]
  obtain rec where rec: "main_metrics m flags = Return rec" using main_metrics_returns by blast
  have d: "do_endpoint (drv_options (started_driver m flags config i)) = fl_Endpoint flags"
    "do_mode (drv_options (started_driver m flags config i)) = m" for i
    by (simp_all add: started_driver_def Let_def started_options_fields)
  show ?thesis
  proof (cases "m = preStopHookCmd")
    case True
    with opts show ?thesis by (simp add: main_def can_serve_def)
  next
    case False
    note new = NewDriver_iff [OF opts False, of "me_start M"]
    show ?thesis
    proof
      assume "main M = Continue s"
      then obtain drv scheme addr services
        where "fst (run_state (NewDriver (me_start M) (main_options m flags config)) no_metadata) = Return (Inr drv)"
        and run: "Run_server (me_ParseEndpoint M) (me_Listen M) drv = Inr (scheme, addr, services)"
        and tr: "\<not> (fl_EnableOtelTracing flags \<and> me_tracing M \<noteq> None)"
        and s: "s = \<lparr>sv_driver = drv, sv_address = (scheme, addr), sv_services = services, sv_recorder = rec\<rparr>"
        using opts False rec by (auto simp: main_def split: if_splits go.splits sum.splits)
      with new obtain i where i: "start_answers (me_start M) m i" "drv = started_driver m flags config i"
        by blast
      with run d have "me_ParseEndpoint M (fl_Endpoint flags) = Inr (scheme, addr)"
        "me_Listen M scheme addr = None" "registered_services m = Inr services"
        by (simp_all add: Run_server_iff)
      with opts False rec tr s i show "\<exists>m flags config i.
          GetOptions (me_getenv M) (me_parse M) (me_args M) = Continue (m, flags, config) \<and>
          can_serve M m flags i \<and> sv_driver s = started_driver m flags config i \<and>
          me_ParseEndpoint M (fl_Endpoint flags) = Inr (sv_address s) \<and>
          registered_services m = Inr (sv_services s) \<and> main_metrics m flags = Return (sv_recorder s)"
        by (intro exI [of _ m] exI [of _ flags] exI [of _ config] exI [of _ i]) (simp add: can_serve_def)
    next
      assume "\<exists>m flags config i.
          GetOptions (me_getenv M) (me_parse M) (me_args M) = Continue (m, flags, config) \<and>
          can_serve M m flags i \<and> sv_driver s = started_driver m flags config i \<and>
          me_ParseEndpoint M (fl_Endpoint flags) = Inr (sv_address s) \<and>
          registered_services m = Inr (sv_services s) \<and> main_metrics m flags = Return (sv_recorder s)"
      then obtain i where i: "can_serve M m flags i" "sv_driver s = started_driver m flags config i"
        "me_ParseEndpoint M (fl_Endpoint flags) = Inr (sv_address s)"
        "registered_services m = Inr (sv_services s)" "main_metrics m flags = Return (sv_recorder s)"
        using opts by auto
      have "fst (run_state (NewDriver (me_start M) (main_options m flags config)) no_metadata) =
          Return (Inr (sv_driver s))"
        using new i(1,2) by (auto simp: can_serve_def)
      moreover have "Run_server (me_ParseEndpoint M) (me_Listen M) (sv_driver s) =
          Inr (fst (sv_address s), snd (sv_address s), sv_services s)"
        using i d by (auto simp: Run_server_iff can_serve_def)
      ultimately show "main M = Continue s"
        using opts False i(1,5) by (auto simp: main_def can_serve_def)
    qed
  qed
qed (simp_all add: main_def)

section \<open>Properties\<close>

lemma serving_services:
  assumes "registered_services m = Inr services" and "m = ControllerMode \<or> m = NodeMode \<or> m = AllMode"
  shows "ControllerServer \<in> set services \<longleftrightarrow> m \<noteq> NodeMode" "ModifyServer \<in> set services \<longleftrightarrow> m \<noteq> NodeMode"
    "NodeServer \<in> set services \<longleftrightarrow> m \<noteq> ControllerMode"
  using assms by (auto simp: registered_services_def mode_defs)

lemma registered_services_modes:
  "m = ControllerMode \<or> m = NodeMode \<or> m = AllMode \<Longrightarrow> \<exists>services. registered_services m = Inr services"
  by (auto simp: registered_services_def)

lemma main_serves_iff:
  "(\<exists>s. main M = Continue s) \<longleftrightarrow> (\<exists>m flags config i.
    GetOptions (me_getenv M) (me_parse M) (me_args M) = Continue (m, flags, config) \<and> can_serve M m flags i)"
proof
  assume "\<exists>m flags config i.
    GetOptions (me_getenv M) (me_parse M) (me_args M) = Continue (m, flags, config) \<and> can_serve M m flags i"
  then obtain m flags config i
    where opts: "GetOptions (me_getenv M) (me_parse M) (me_args M) = Continue (m, flags, config)"
    and can: "can_serve M m flags i" by blast
  obtain rec where rec: "main_metrics m flags = Return rec" using main_metrics_returns by blast
  from can obtain scheme addr where at: "me_ParseEndpoint M (fl_Endpoint flags) = Inr (scheme, addr)"
    and "m \<noteq> preStopHookCmd" by (auto simp: can_serve_def)
  with started_options_valid(1) [OF opts] registered_services_modes
  obtain services where "registered_services m = Inr services" by blast
  then have "main M = Continue \<lparr>sv_driver = started_driver m flags config i, sv_address = (scheme, addr),
      sv_services = services, sv_recorder = rec\<rparr>"
    unfolding main_continues using opts can at rec by auto
  then show "\<exists>s. main M = Continue s" ..
qed (auto simp: main_continues)

text \<open>C26: main comes to serve exactly when the command names a mode, the options are complete, the metadata
service, the API server and the endpoint answer; and then the options validate, at least one slot of the
create gate is there and free, the server has exactly the services of its mode, each built; the node service
describes the machine of the first metadata read, whatever later reads say; and the driver either holds all
four credentials, or answers NodeGetInfo without ever using them.\<close>

theorem main_starts_valid_driver:
  "((\<exists>s. main M = Continue s) \<longleftrightarrow> (\<exists>m flags config i.
      GetOptions (me_getenv M) (me_parse M) (me_args M) = Continue (m, flags, config) \<and> can_serve M m flags i)) \<and>
   (\<forall>s. main M = Continue s \<longrightarrow> (let d = sv_driver s; options = drv_options d in
      ValidateDriverOptions options = None \<and> 0 < do_maxConcurrentVolumeCreates options \<and>
      registered_services (do_mode options) = Inr (sv_services s) \<and>
      (ControllerServer \<in> set (sv_services s) \<longleftrightarrow> drv_controllerService d \<noteq> None) \<and>
      (ModifyServer \<in> set (sv_services s) \<longleftrightarrow> drv_controllerService d \<noteq> None) \<and>
      (NodeServer \<in> set (sv_services s) \<longleftrightarrow> drv_nodeService d \<noteq> None) \<and>
      (\<forall>c. drv_controllerService d = Some c \<longrightarrow>
        ks_gate c = NewSemaphore (nat (do_maxConcurrentVolumeCreates options))) \<and>
      (\<forall>n. drv_nodeService d = Some n \<longrightarrow> (\<exists>status i. se_Get (me_start M) 0 = Got 200 status (Inr i) \<and>
        vm_PortalUUID i \<noteq> '''' \<and> ns_metadata n = metadata_of i)) \<and>
      (\<forall>r. sv_recorder s = Some r \<longrightarrow> recorder_inv r) \<and>
      (do_clientID options \<noteq> '''' \<and> do_clientSecret options \<noteq> '''' \<and>
       do_identityURL options \<noteq> '''' \<and> do_vServerURL options \<noteq> '''' \<or>
       drv_controllerService d = None \<and>
       (\<forall>md portal portal' quota quota'. NodeGetInfo md (do_maxVolumesPerNode options) portal quota =
          NodeGetInfo md (do_maxVolumesPerNode options) portal' quota'))))"
proof (intro conjI allI impI, goal_cases)
  case 1
  show ?case by (rule main_serves_iff)
next
  case (2 s)
  then obtain m flags config i
    where opts: "GetOptions (me_getenv M) (me_parse M) (me_args M) = Continue (m, flags, config)"
    and can: "can_serve M m flags i" and d: "sv_driver s = started_driver m flags config i"
    and reg: "registered_services m = Inr (sv_services s)" and rec: "main_metrics m flags = Return (sv_recorder s)"
    unfolding main_continues by blast
  have hook: "m \<noteq> preStopHookCmd" using can by (simp add: can_serve_def)
  note mode = started_options_valid(1) [OF opts hook]
  have first: "\<exists>status. se_Get (me_start M) 0 = Got 200 status (Inr i)" "vm_PortalUUID i \<noteq> ''''"
    using can by (auto simp: can_serve_def start_answers_def)
  have gate: "ks_gate (newControllerService k) = NewSemaphore k" for k
    by (simp add: newControllerService_def)
  have inv: "\<forall>r. sv_recorder s = Some r \<longrightarrow> recorder_inv r"
    using main_metrics_returns [of m flags] rec by auto
  let ?o = "started_options m flags config"
  have fields: "drv_options (sv_driver s) = ?o"
    "drv_controllerService (sv_driver s) = (if m = NodeMode then None
       else Some (newControllerService (nat (do_maxConcurrentVolumeCreates ?o))))"
    "drv_nodeService (sv_driver s) = (if m = ControllerMode then None
       else Some \<lparr>ns_metadata = metadata_of i, ns_state = node_start\<rparr>)"
    by (simp_all add: d started_driver_def Let_def)
  have cred: "do_clientID ?o \<noteq> '''' \<and> do_clientSecret ?o \<noteq> '''' \<and> do_identityURL ?o \<noteq> '''' \<and>
      do_vServerURL ?o \<noteq> '''' \<or> m = NodeMode \<and> 0 < do_maxVolumesPerNode ?o"
    using started_options_credentials [OF opts hook] by (simp add: started_options_fields)
  have info: "\<forall>md portal portal' quota quota'. NodeGetInfo md (do_maxVolumesPerNode ?o) portal quota =
      NodeGetInfo md (do_maxVolumesPerNode ?o) portal' quota'" if "0 < do_maxVolumesPerNode ?o"
    using NodeGetInfo_from_flag [OF that] by blast
  from cred have "do_clientID ?o \<noteq> '''' \<and> do_clientSecret ?o \<noteq> '''' \<and> do_identityURL ?o \<noteq> '''' \<and>
      do_vServerURL ?o \<noteq> '''' \<or> m = NodeMode \<and>
      (\<forall>md portal portal' quota quota'. NodeGetInfo md (do_maxVolumesPerNode ?o) portal quota =
        NodeGetInfo md (do_maxVolumesPerNode ?o) portal' quota')"
    using info by blast
  moreover have "m = NodeMode \<Longrightarrow> drv_controllerService (sv_driver s) = None"
    by (simp add: fields(2))
  ultimately have answers: "do_clientID ?o \<noteq> '''' \<and> do_clientSecret ?o \<noteq> '''' \<and> do_identityURL ?o \<noteq> '''' \<and>
      do_vServerURL ?o \<noteq> '''' \<or> drv_controllerService (sv_driver s) = None \<and>
      (\<forall>md portal portal' quota quota'. NodeGetInfo md (do_maxVolumesPerNode ?o) portal quota =
        NodeGetInfo md (do_maxVolumesPerNode ?o) portal' quota')"
    by blast
  have machine: "\<forall>n. drv_nodeService (sv_driver s) = Some n \<longrightarrow>
      (\<exists>status i. se_Get (me_start M) 0 = Got 200 status (Inr i) \<and> vm_PortalUUID i \<noteq> '''' \<and> ns_metadata n = metadata_of i)"
    using first by (auto simp: fields(3))
  show ?case
    unfolding Let_def fields(1)
    by (intro conjI machine answers inv)
      (use gate reg serving_services [OF reg mode] started_options_valid(2) [OF opts hook] in
        \<open>simp_all add: fields(2,3) started_options_fields\<close>)
qed

definition sample_flags :: cli_flags where
  "sample_flags = (registered_flags NodeMode)\<lparr>fl_MaxVolumesPerNode := 20, fl_HttpEndpoint := '':8080''\<rparr>"

definition sample_machine :: vserver_metadata where
  "sample_machine = \<lparr>vm_UUID = ''u'', vm_Name = ''n'', vm_AvailabilityZone = ''AZ'',
     vm_ProjectID = ''p'', vm_PortalUUID = ''ins-1''\<rparr>"

definition sample_main :: main_env where
  "sample_main = \<lparr>me_getenv = (\<lambda>_. ''''),
     me_parse = (\<lambda>args f. Some (f\<lparr>fl_MaxVolumesPerNode := 20, fl_HttpEndpoint := '':8080''\<rparr>)), me_args = [''node''],
     me_hook = Inr None, me_tracing = Some CtxErr,
     me_start = \<lparr>se_Get = (\<lambda>k. if k = 0 then Got 200 ''200 OK'' (Inr sample_machine) else GetFailed ''timeout''),
       se_kube = Some CtxErr\<rparr>,
     me_ParseEndpoint = (\<lambda>e. Inr (''unix'', ''/csi.sock'')), me_Listen = (\<lambda>s a. None)\<rparr>"

theorem main_starts_valid_driver_witness:
  "\<exists>s. main sample_main = Continue s \<and> NodeServer \<in> set (sv_services s) \<and> drv_nodeService (sv_driver s) \<noteq> None"
proof -
  have opts: "GetOptions (me_getenv sample_main) (me_parse sample_main) (me_args sample_main) =
      Continue (NodeMode, sample_flags, no_config)"
    by (simp add: sample_main_def GetOptions_def mode_defs preStopHookCmd_def HasPrefix_def getConfigFromEnv_def
        sample_flags_def registered_flags_def)
  have can: "can_serve sample_main NodeMode sample_flags sample_machine"
    by (simp add: can_serve_def start_answers_def sample_main_def sample_flags_def sample_machine_def
        registered_flags_def Let_def mode_defs preStopHookCmd_def)
  note main = main_starts_valid_driver [of sample_main]
  have "\<exists>s. main sample_main = Continue s"
    using conjunct1 [OF main] opts can by blast
  then obtain s where s: "main sample_main = Continue s" ..
  then obtain services where mode: "do_mode (drv_options (sv_driver s)) = NodeMode"
    using opts unfolding main_continues
    by (auto simp: started_driver_def Let_def started_options_fields)
  with s main have "registered_services NodeMode = Inr (sv_services s)"
    "NodeServer \<in> set (sv_services s) \<longleftrightarrow> drv_nodeService (sv_driver s) \<noteq> None"
    unfolding Let_def by auto
  with s show ?thesis
    using serving_services(3) [of NodeMode "sv_services s"] by (auto simp: mode_defs)
qed

end
