(* ===== verification/Spec2Isabelle.thy ===== *)
theory Spec2Isabelle
  imports
    GoSize InFlightTable CircuitBreaker CreateGate ErrClass MetricNames Metrics ApiRoute RateLimit
    MetaCache CloudCore CloudVolumes CloudModify CloudCatalog K8sClient CsiApi CtlInvariants CtlCreateSpec
    CtlSnapshots CtlExpand CtlRuns CtlRaces ModifyCoalescing NodeSpec NodeMounts NodeTaint DriverStart
    RpcMetrics PreStop MainProcess
begin

text \<open>
  Verification library of the VngCloud block-storage CSI driver.

  The program. The driver is one Go binary. In controller mode it serves the CSI controller RPCs
  (\<^verbatim>\<open>pkg/driver/controller.go\<close>) and turns them into calls of the vServer IaaS through a cloud client
  (\<^verbatim>\<open>pkg/cloud/cloud.go\<close>, \<^verbatim>\<open>cloud_private.go\<close>). In node mode it serves the CSI node RPCs
  (\<^verbatim>\<open>pkg/driver/node.go\<close>) and turns them into calls of the machine (\<^verbatim>\<open>mount.go\<close>, the
  \<^verbatim>\<open>mount-utils\<close> library). A third command is the pre-stop hook (\<^verbatim>\<open>cmd/hooks/prestop.go\<close>). Every
  RPC passes a metrics interceptor. Handlers for one volume, name or pair exclude each other through
  an in-flight table; creates also pass a counting gate; detach and delete are damped by a breaker
  per key; what fails is classified, counted on a recorder and told to Kubernetes as events.

  How the model reads. A component is explicit state (a record) and one definition per Go function.
  A handler is a program of the state monad, so each early return is a branch. What is outside the
  repository (the SDK and the IaaS behind it, the API server, the kernel, \<^verbatim>\<open>mount-utils\<close>, the flag
  library, the clock, the backoff helper of apimachinery, Prometheus vectors) is a record of
  functions handed to the definitions. Such a function takes the history of the calls made so far,
  so it may answer differently every time; a theorem about a handler therefore holds whatever the
  outside answers. A Go error is a value, a panic is \<open>Panic\<close> or \<open>Crashed\<close>, and a handler that returns
  two nils answers \<open>NilNil\<close>.

  Foundations.
  \<open>CsiPrelude\<close>: collections, durations, Go maps as association lists, the state monad with weakest
  preconditions (\<open>wp\<close>) and frames (\<open>keeps\<close>, the locale \<open>state_frame\<close>, the collection \<open>frames\<close>).
  \<open>GoStrings\<close>: the parts of \<^verbatim>\<open>strings\<close> and \<^verbatim>\<open>strconv\<close> that are used. \<open>GoSize\<close>:
  \<^verbatim>\<open>pkg/util/util.go\<close> on 64-bit words. \<open>SdkTypes\<close> and \<open>SdkApi\<close>: the error interface, the volume entity,
  the history of IaaS calls, the environment, and \<open>poll\<close>, what the code relies on of
  \<^verbatim>\<open>wait.ExponentialBackoff\<close>. \<open>CsiApi\<close>: requests, gRPC errors and validation. \<open>Samples\<close>: one concrete
  environment for the witnesses.

  Components with their own state.
  \<open>InFlightTable\<close> (\<^verbatim>\<open>internal/inflight.go\<close>) with the locale \<open>lock_table\<close> and any number of handlers as a
  step relation: two handlers never hold one key. \<open>CircuitBreaker\<close> (\<^verbatim>\<open>internal/breaker.go\<close>): when it
  trips, how many attempts pass in a window, that a tripped key recovers, that eviction changes no
  decision. \<open>CreateGate\<close> (\<^verbatim>\<open>internal/semaphore.go\<close>): the cap holds in every interleaving.
  \<open>MetaCache\<close> (\<^verbatim>\<open>metacache.go\<close>): one loader at a time, only fresh successes are served. \<open>RateLimit\<close>
  (\<^verbatim>\<open>ratelimit.go\<close>): the rate stays in its bounds, one decrease per cooldown, recovery. \<open>MetricNames\<close>,
  \<open>Metrics\<close> (\<^verbatim>\<open>pkg/metrics\<close>): a run of well-shaped recorder calls never panics, and the value of a
  series along a run. \<open>ErrClass\<close> (\<^verbatim>\<open>errclass.go\<close>): total, finite labels, and wrapping does not change
  the class. \<open>ApiRoute\<close> (\<^verbatim>\<open>apiroute.go\<close>): a route label has a bounded shape. \<open>K8sClient\<close>
  (\<^verbatim>\<open>pkg/k8s/k8s.go\<close>).

  The cloud client. \<open>CloudCore\<close>: project resolution, reads and the polling waits; a wait that
  succeeds ends with the evidence it waited for. \<open>CloudVolumes\<close>: create, delete, attach, detach.
  \<open>CloudModify\<close>: resize, migrate, modify, expand. \<open>CloudCatalog\<close>: snapshots, types, zones; the
  snapshot lookup visits a bounded number of pages and finds what a search of all pages finds. Their
  properties give the exact list of commands an operation issues (\<open>did\<close>, \<open>commands\<close>) together with its
  answer, on every path.

  The controller. \<open>CtlState\<close>: the service's state, its reports. \<open>CtlService\<close>: its construction.
  \<open>CtlDetach\<close>, \<open>CtlDelete\<close>, \<open>CtlCreate\<close> (over \<open>VolumeDto\<close>, \<^verbatim>\<open>volume_dto.go\<close>), \<open>CtlSnapshots\<close>, \<open>CtlExpand\<close>:
  the handlers. \<open>CtlFrame\<close>, \<open>CtlCreateSpec\<close>: what the parts of a handler leave alone, and the
  specification of create. \<open>CtlInvariants\<close>: the pending gauges and the breakers agree. \<open>CtlRuns\<close>:
  the handlers' safety theorems and runs of any RPCs in any order (a modification being one that no
  other is merged with), after which no key is held, no gate slot is taken and every gauge matches
  its breaker. \<open>CtlRaces\<close>: any number of attach, detach and
  delete calls at once, one step per operation of the table, the breaker or the recorder, through the
  locale \<open>paused_calls\<close> for both breakers: commands keep their pauses (counted from the clock each call reads when it starts), a series
  without an open breaker is about to be deleted, a handler of \<open>CtlDetach\<close> or \<open>CtlDelete\<close> run alone is
  one call of the relation, and the run
  in which the sweep of one call removes the series another has just set. \<open>ModifyCoalescing\<close>
  (\<^verbatim>\<open>controller_modify_volume.go\<close>): the manager, its callers and handler goroutines as a step relation
  that refines the merged calls it stands for; one theorem shows the run in which a refused caller
  that has gone blocks its volume.

  The node. \<open>NodeOs\<close>: the history of machine calls and \<^verbatim>\<open>mount.go\<close>; \<open>does m P\<close> says which calls \<open>m\<close>
  makes and what it answers, and its rules run a handler call by call. \<open>NodeService\<close>: the node RPCs.
  \<open>NodeMachine\<close>: the mount table as the history determines it, and a concrete machine. \<open>NodeSpec\<close>:
  what each RPC changes, on which evidence and in which order. \<open>NodeMounts\<close>: a run of RPCs stacks two
  mounts at a publish target only if a look at it missed a mount that was there, and when staging
  twice stacks two at the staging path. \<open>NodeTaint\<close>:
  \<open>newNodeService\<close>, the metadata caches and the removal of the start-up taint.

  The process. \<open>DriverStart\<close>: modes, options, configuration, the services built and registered
  (\<^verbatim>\<open>driver.go\<close>, \<^verbatim>\<open>main.go\<close>, \<^verbatim>\<open>identity.go\<close>). \<open>RpcMetrics\<close> (\<^verbatim>\<open>pkg/driver/metrics.go\<close>): the in-flight
  gauge counts the calls under way in every interleaving, and the start-up series are at zero.
  \<open>PreStop\<close>: the hook and its concurrent informer events as a step relation. \<open>MainProcess\<close>: \<open>main\<close>
  (\<^verbatim>\<open>main.go\<close>) from the command line to the server, and exactly when it comes to serve.

  Hypotheses. \<open>wait_ok\<close>, \<open>node_wait_ok\<close>, \<open>taint_wait_ok\<close>: the backoff helper polls its condition at most
  \<open>Steps\<close> times, stops at the first done or error, and otherwise gives up with an error.
  \<open>errors_loaded\<close>, \<open>catalog_loaded\<close>, \<open>snapshot_errors_loaded\<close>: the errors the SDK hands out carry a Go
  error, without which \<open>GetError\<close> is nil and a caller takes the failure for success. \<open>merge_ok\<close>: what
  \<open>WithParameters\<close> does with a map. Nothing is assumed of what \<^verbatim>\<open>mount-utils\<close>
  sees. Each hypothesis has a concrete environment in the witnesses. No definition uses fuel; the only bounded recursion is the
  one of the code (\<open>Steps\<close>, the page limit of the snapshot lookup), and every recursion is
  structural or has a measure.

  Numbers. Sizes are 64-bit words with Go's division. Times and durations are integers of
  nanoseconds. The limiter's floats are rationals with the rounding as a monotone argument. Strings
  are character lists; where Go folds or trims Unicode, the model does so for ASCII.

  Not modelled. Logging, tracing and version strings (\<^verbatim>\<open>trace.go\<close>, \<^verbatim>\<open>version.go\<close>), the HTTP servers and
  the Prometheus registry behind the recorder, the set-up of Kubernetes clients and of the
  event recorder: they only call libraries. The token bucket of \<^verbatim>\<open>x/time/rate\<close> and the SDK's HTTP client are
  parameters of \<open>RateLimit\<close>, the answers of the metadata service one of \<open>NodeTaint\<close>. The device
  identifier's forwarders are used by nothing. Handlers of the controller run
  one after another in \<open>CtlRuns\<close>. Their concurrency is the subject of \<open>InFlightTable\<close> for the keys, of
  \<open>CtlRaces\<close> for the breakers and gauges of attach, detach and delete, of \<open>CreateGate\<close> for the gate, of
  \<open>MetaCache\<close> for the caches and of \<open>ModifyCoalescing\<close> for modifications; creates, snapshots and
  expansions share no other state. In \<open>CtlRaces\<close> a call lasts at most four hours (\<open>call_limit\<close>), twice the
  longest pause: the sidecars give a call minutes.
\<close>

end
